(* ===== verification/Prelude.thy ===== *)
theory Prelude
  imports Main "HOL-Library.Word"
begin

text \<open>
  The vocabulary every other theory of the library shares: the types of the model
  (bytes, byte strings, the result type of fallible Go code), the slice primitives of
  Go that the sources use (\<open>append\<close> is list append; \<open>copy\<close> and slicing are below), and
  the lemma collections the component proofs are driven by.

  Go values are modelled as follows.
  \<^item> \<open>byte\<close> is an 8-bit word, a \<open>[]byte\<close> a list of them; a Go \<open>string\<close> is a sequence of
    bytes and is an Isabelle \<open>string\<close> (a list of 8-bit characters).
  \<^item> \<open>uint64\<close>, \<open>uint32\<close>, \<open>int64\<close>, \dots are words of that width, or integers with the
    wrap-around written out.
  \<^item> A Go function that can panic, stop the process (\<open>log.Fatal\<close>), return an \<open>error\<close> or block
    for ever (a send on a nil channel, a \<open>WaitGroup\<close> that never reaches zero) returns a value
    of \<open>'a res\<close>: \<open>Inl\<close> carries the failure, \<open>Inr\<close> the result.
\<close>

named_theorems res_simps "equations of the result type"
named_theorems codec_simps "lengths and round trips of the byte encodings"
named_theorems inv_intros "operations keep their component's invariant"

type_synonym byte = "8 word"
type_synonym bytes = "8 word list"
type_synonym u16 = "16 word"
type_synonym u32 = "32 word"
type_synonym u64 = "64 word"

datatype go_error = Panic string | Fatal string | Err string | Blocks string

type_synonym 'a res = "go_error + 'a"

definition rbind :: "'a res \<Rightarrow> ('a \<Rightarrow> 'b res) \<Rightarrow> 'b res" where
  "rbind m f = (case m of Inl e \<Rightarrow> Inl e | Inr x \<Rightarrow> f x)"

definition is_ok :: "'a res \<Rightarrow> bool" where
  "is_ok m = (case m of Inl _ \<Rightarrow> False | Inr _ \<Rightarrow> True)"

text \<open>
  A conversion \<open>byte(n)\<close> keeps the low eight bits. \<open>of_str\<close> is Go's \<open>[]byte(s)\<close> and
  \<open>to_str\<close> its \<open>string(b)\<close>.
\<close>

definition byte_of_char :: "char \<Rightarrow> byte" where
  "byte_of_char c = word_of_nat (of_char c)"

definition char_of_byte :: "byte \<Rightarrow> char" where
  "char_of_byte b = char_of (unat b)"

definition of_str :: "string \<Rightarrow> bytes" where
  "of_str s = map byte_of_char s"

definition to_str :: "bytes \<Rightarrow> string" where
  "to_str b = map char_of_byte b"

text \<open>
  \<open>copy(dst[pos:], src)\<close>: the bytes of \<open>src\<close> that fit overwrite \<open>dst\<close> from \<open>pos\<close> on; a
  \<open>pos\<close> beyond the length of \<open>dst\<close> is a slice-bounds panic.
\<close>

definition copy_at :: "'a list \<Rightarrow> nat \<Rightarrow> 'a list \<Rightarrow> 'a list res" where
  "copy_at dst pos src =
     (if length dst < pos then Inl (Panic ''slice bounds out of range'')
      else Inr (take pos dst @ take (length dst - pos) src @ drop (pos + length src) dst))"

text \<open>\<open>b[lo:hi]\<close> of a slice: panics unless \<open>lo \<le> hi \<le> len(b)\<close>.\<close>

definition slice :: "'a list \<Rightarrow> nat \<Rightarrow> nat \<Rightarrow> 'a list res" where
  "slice b lo hi =
     (if lo \<le> hi \<and> hi \<le> length b then Inr (take (hi - lo) (drop lo b))
      else Inl (Panic ''slice bounds out of range''))"

text \<open>\<open>b[i]\<close>: panics when the index is out of range.\<close>

definition index :: "'a list \<Rightarrow> nat \<Rightarrow> 'a res" where
  "index b i = (if i < length b then Inr (b ! i) else Inl (Panic ''index out of range''))"

text \<open>Go's integer division truncates toward zero and panics on a zero divisor.\<close>

definition go_div :: "int \<Rightarrow> int \<Rightarrow> int res" where
  "go_div a b = (if b = 0 then Inl (Panic ''integer divide by zero'') else Inr (sgn a * sgn b * (\<bar>a\<bar> div \<bar>b\<bar>)))"

subsection \<open>Generic lemmas\<close>

lemma go_div_pos: "0 \<le> a \<Longrightarrow> 0 < b \<Longrightarrow> go_div a b = Inr (a div b)"
  by (cases "a = 0") (simp_all add: go_div_def)

lemma rbind_Inl [simp, res_simps]: "rbind (Inl e) f = Inl e"
  by (simp add: rbind_def)

lemma rbind_Inr [simp, res_simps]: "rbind (Inr x) f = f x"
  by (simp add: rbind_def)

lemma rbind_eq_Inr [res_simps]: "rbind m f = Inr y \<longleftrightarrow> (\<exists>x. m = Inr x \<and> f x = Inr y)"
  by (cases m) auto

lemma is_ok_simps [simp]: "is_ok (Inr x)" "\<not> is_ok (Inl e)"
  by (simp_all add: is_ok_def)

lemma is_ok_iff: "is_ok m \<longleftrightarrow> (\<exists>x. m = Inr x)"
  by (cases m) auto

lemma byte_less [simp]: "unat (b :: byte) < 256"
  using unsigned_less [of b] by simp

lemma u64_less: "unat (n :: u64) < 2 ^ 64"
  using unsigned_less [of n] by simp

lemma u32_less: "unat (n :: u32) < 2 ^ 32"
  using unsigned_less [of n] by simp

lemma char_of_byte_of_char [simp]: "char_of_byte (byte_of_char c) = c"
proof -
  have "(of_char c :: nat) < 256"
    using of_char_of [of "of_char c :: nat"] by simp
  then show ?thesis
    by (simp add: char_of_byte_def byte_of_char_def unat_of_nat)
qed

lemma byte_of_char_of_byte [simp]: "byte_of_char (char_of_byte b) = b"
proof -
  have "unat b < 256" by simp
  then show ?thesis
    by (simp add: char_of_byte_def byte_of_char_def)
qed

lemma to_str_of_str [simp]: "to_str (of_str s) = s"
  by (simp add: to_str_def of_str_def comp_def)

lemma of_str_to_str [simp]: "of_str (to_str b) = b"
  by (simp add: to_str_def of_str_def comp_def)

lemma length_of_str [simp]: "length (of_str s) = length s"
  by (simp add: of_str_def)

lemma copy_at_fits:
  "pos + length src \<le> length dst \<Longrightarrow>
   copy_at dst pos src = Inr (take pos dst @ src @ drop (pos + length src) dst)"
  by (simp add: copy_at_def)

lemma copy_at_length: "copy_at dst pos src = Inr r \<Longrightarrow> length r = length dst"
  by (auto simp: copy_at_def split: if_splits)

lemma slice_ok: "lo \<le> hi \<Longrightarrow> hi \<le> length b \<Longrightarrow> slice b lo hi = Inr (take (hi - lo) (drop lo b))"
  by (simp add: slice_def)

lemma index_ok: "i < length b \<Longrightarrow> index b i = Inr (b ! i)"
  by (simp add: index_def)

end
