(* ===== verification/GoBytes.thy ===== *)
theory GoBytes
  imports Prelude
begin

text \<open>
  The parts of Go's \<open>encoding/binary\<close> and \<open>encoding/hex\<close> the sources use: fixed-width
  little- and big-endian integers, and hexadecimal text. \<open>hex_decode\<close> returns what
  \<open>hex.DecodeString\<close> returns: the bytes decoded before the first error and whether the
  whole string was well formed. The sources often log the error and go on with the
  prefix, so both components matter.
\<close>

fun le_bytes :: "nat \<Rightarrow> nat \<Rightarrow> bytes" where
  "le_bytes 0 n = []"
| "le_bytes (Suc k) n = word_of_nat n # le_bytes k (n div 256)"

definition be_bytes :: "nat \<Rightarrow> nat \<Rightarrow> bytes" where
  "be_bytes k n = rev (le_bytes k n)"

fun le_nat :: "bytes \<Rightarrow> nat" where
  "le_nat [] = 0"
| "le_nat (b # bs) = unat b + 256 * le_nat bs"

text \<open>\<open>new(big.Int).SetBytes(b)\<close>: the big-endian value of a byte string.\<close>

definition be_nat :: "bytes \<Rightarrow> nat" where
  "be_nat bs = le_nat (rev bs)"

text \<open>\<open>binary.LittleEndian.UintN(b)\<close>: reads the first bytes, panics on a short slice.\<close>

definition le_read :: "nat \<Rightarrow> bytes \<Rightarrow> nat res" where
  "le_read k b = (if length b < k then Inl (Panic ''index out of range'') else Inr (le_nat (take k b)))"

definition be_read :: "nat \<Rightarrow> bytes \<Rightarrow> nat res" where
  "be_read k b = (if length b < k then Inl (Panic ''index out of range'') else Inr (be_nat (take k b)))"

definition hex_char :: "nat \<Rightarrow> char" where
  "hex_char n = ''0123456789abcdef'' ! n"

definition unhex :: "char \<Rightarrow> nat option" where
  "unhex c =
     (let n = (of_char c :: nat) in
      if 48 \<le> n \<and> n \<le> 57 then Some (n - 48)
      else if 97 \<le> n \<and> n \<le> 102 then Some (n - 87)
      else if 65 \<le> n \<and> n \<le> 70 then Some (n - 55)
      else None)"

definition hex_byte :: "byte \<Rightarrow> string" where
  "hex_byte b = [hex_char (unat b div 16), hex_char (unat b mod 16)]"

definition hex_encode :: "bytes \<Rightarrow> string" where
  "hex_encode bs = concat (map hex_byte bs)"

fun hex_decode :: "string \<Rightarrow> bytes \<times> bool" where
  "hex_decode [] = ([], True)"
| "hex_decode [c] = ([], False)"
| "hex_decode (c # d # cs) =
     (case (unhex c, unhex d) of
        (Some a, Some b) \<Rightarrow>
          (case hex_decode cs of (bs, ok) \<Rightarrow> (word_of_nat (16 * a + b) # bs, ok))
      | _ \<Rightarrow> ([], False))"

subsection \<open>Integers\<close>

lemma length_le_bytes [simp, codec_simps]: "length (le_bytes k n) = k"
  by (induction k arbitrary: n) auto

lemma le_bytes_0 [simp]: "le_bytes k 0 = replicate k 0"
  by (induction k) simp_all

lemma le_nat_zeros [simp]: "le_nat (replicate n 0) = 0"
  by (induction n) simp_all

lemma le_bytes_numeral: "le_bytes (numeral k) n = word_of_nat n # le_bytes (pred_numeral k) (n div 256)"
  by (subst numeral_eq_Suc) (rule le_bytes.simps(2))

lemma length_be_bytes [simp, codec_simps]: "length (be_bytes k n) = k"
  by (simp add: be_bytes_def)

lemma le_nat_le_bytes [codec_simps]: "le_nat (le_bytes k n) = n mod 256 ^ k"
proof (induction k arbitrary: n)
  case 0
  then show ?case by simp
next
  case (Suc k)
  have "le_nat (le_bytes (Suc k) n) = n mod 256 + 256 * (n div 256 mod 256 ^ k)"
    by (simp add: Suc unat_of_nat)
  also have "\<dots> = n mod 256 ^ Suc k"
    by (simp add: mod_mult2_eq)
  finally show ?case .
qed

lemma be_nat_be_bytes [codec_simps]: "be_nat (be_bytes k n) = n mod 256 ^ k"
  by (simp add: be_nat_def be_bytes_def le_nat_le_bytes)

lemma le_nat_bound: "le_nat bs < 256 ^ length bs"
proof (induction bs)
  case (Cons b bs)
  have "unat b < 256" by (rule byte_less)
  moreover have "le_nat bs + 1 \<le> 256 ^ length bs" using Cons by simp
  ultimately have "unat b + 256 * le_nat bs < 256 * 256 ^ length bs" by linarith
  then show ?case by simp
qed simp

lemma be_nat_bound: "be_nat bs < 256 ^ length bs"
  using le_nat_bound [of "rev bs"] by (simp add: be_nat_def)

lemma le_bytes_le_nat [codec_simps]: "le_bytes (length bs) (le_nat bs) = bs"
proof (induction bs)
  case (Cons b bs)
  have b: "unat b < 256" by (rule byte_less)
  then have "(unat b + 256 * le_nat bs) div 256 = le_nat bs"
    by simp
  moreover have "(word_of_nat (unat b + 256 * le_nat bs) :: byte) = b"
  proof -
    have "(word_of_nat (unat b + 256 * le_nat bs) :: byte) = b + word_of_nat (2 ^ 8) * word_of_nat (le_nat bs)"
      by simp
    also have "(word_of_nat (2 ^ 8) :: byte) = 0"
      by simp
    finally show ?thesis by simp
  qed
  ultimately show ?case using Cons by simp
qed simp

lemma be_bytes_be_nat [codec_simps]: "be_bytes (length bs) (be_nat bs) = bs"
  using le_bytes_le_nat [of "rev bs"] by (simp add: be_bytes_def be_nat_def)

lemma le_nat_append: "le_nat (xs @ ys) = le_nat xs + 256 ^ length xs * le_nat ys"
  by (induction xs) (auto simp: algebra_simps)

lemma le_nat_inj: "length xs = length ys \<Longrightarrow> le_nat xs = le_nat ys \<Longrightarrow> xs = ys"
  by (metis le_bytes_le_nat)

lemma be_nat_inj: "length xs = length ys \<Longrightarrow> be_nat xs = be_nat ys \<Longrightarrow> xs = ys"
  by (metis be_bytes_be_nat)

lemma le_read_app [codec_simps]: "le_read k (le_bytes k n @ rest) = Inr (n mod 256 ^ k)"
  by (simp add: le_read_def le_nat_le_bytes)

lemma be_read_app [codec_simps]: "be_read k (be_bytes k n @ rest) = Inr (n mod 256 ^ k)"
  by (simp add: be_read_def be_nat_be_bytes)

subsection \<open>Hexadecimal text\<close>

lemma unhex_hex_char: "n < 16 \<Longrightarrow> unhex (hex_char n) = Some n"
proof -
  assume "n < 16"
  moreover have "\<forall>n \<in> set [0..<16]. unhex (hex_char n) = Some n"
    by code_simp
  ultimately show ?thesis by simp
qed

lemma unhex_bound: "unhex c = Some n \<Longrightarrow> n < 16"
  by (auto simp: unhex_def Let_def split: if_splits)

lemma length_hex_encode [simp, codec_simps]: "length (hex_encode bs) = 2 * length bs"
  by (induction bs) (auto simp: hex_encode_def hex_byte_def)

lemma hex_encode_Nil [simp]: "hex_encode [] = []"
  by (simp add: hex_encode_def)

lemma hex_encode_Cons: "hex_encode (b # bs) = hex_byte b @ hex_encode bs"
  by (simp add: hex_encode_def)

lemma hex_encode_append: "hex_encode (xs @ ys) = hex_encode xs @ hex_encode ys"
  by (simp add: hex_encode_def)

lemma hex_decode_encode [codec_simps]: "hex_decode (hex_encode bs) = (bs, True)"
proof (induction bs)
  case (Cons b bs)
  have b: "unat b < 256" by (rule byte_less)
  then have "unat b div 16 < 16" and "unat b mod 16 < 16" by linarith simp
  then have "hex_decode (hex_encode (b # bs)) = (word_of_nat (16 * (unat b div 16) + unat b mod 16) # bs, True)"
    by (simp add: hex_encode_Cons hex_byte_def unhex_hex_char Cons)
  also have "16 * (unat b div 16) + unat b mod 16 = unat b" by simp
  finally show ?case by simp
qed simp

lemma hex_encode_inj: "hex_encode xs = hex_encode ys \<Longrightarrow> xs = ys"
  by (metis hex_decode_encode prod.inject)

lemma hex_decode_length: "length (fst (hex_decode s)) \<le> length s div 2"
  by (induction s rule: hex_decode.induct) (auto split: option.splits prod.splits)

lemma hex_decode_ok_length: "hex_decode s = (bs, True) \<Longrightarrow> length s = 2 * length bs"
  by (induction s arbitrary: bs rule: hex_decode.induct) (auto split: option.splits prod.splits)

end
