(* ===== verification/GoText.thy ===== *)
theory GoText
  imports GoBytes
begin

text \<open>
  The parts of Go's \<open>strconv\<close> and \<open>strings\<close> the sources use. \<open>strconv\<close> parsers return
  the value Go returns together with whether the error is nil: the maximum on a range
  error, zero on a syntax error. Letter case is mapped for ASCII letters; the sources
  apply it to hexadecimal text, algorithm names and pay modes.
\<close>

fun fmt_uint :: "nat \<Rightarrow> nat \<Rightarrow> string" where
  "fmt_uint b n = (if n < b \<or> b < 2 then [hex_char n] else fmt_uint b (n div b) @ [hex_char (n mod b)])"

declare fmt_uint.simps [simp del]

definition fmt_int :: "int \<Rightarrow> string" where
  "fmt_int i = (if i < 0 then CHR ''-'' # fmt_uint 10 (nat (- i)) else fmt_uint 10 (nat i))"

fun parse_digits :: "nat \<Rightarrow> nat \<Rightarrow> nat \<Rightarrow> string \<Rightarrow> nat \<times> bool" where
  "parse_digits base mx acc [] = (acc, True)"
| "parse_digits base mx acc (c # cs) =
     (case unhex c of
        None \<Rightarrow> (0, False)
      | Some d \<Rightarrow>
          if base \<le> d then (0, False)
          else if mx < acc * base + d then (mx, False)
          else parse_digits base mx (acc * base + d) cs)"

definition parse_uint :: "nat \<Rightarrow> string \<Rightarrow> nat \<times> bool" where
  "parse_uint base s = (if s = [] then (0, False) else parse_digits base (2 ^ 64 - 1) 0 s)"

text \<open>
  \<open>strconv.ParseInt(s, base, 64)\<close>. Go keeps the range-error value of the unsigned
  parse (so that it is clamped below) and drops the value of a syntax error.
\<close>

definition parse_int :: "nat \<Rightarrow> string \<Rightarrow> int \<times> bool" where
  "parse_int base s =
     (case s of
        [] \<Rightarrow> (0, False)
      | c # cs \<Rightarrow>
          let neg = (c = CHR ''-'');
              ds = (if c = CHR ''-'' \<or> c = CHR ''+'' then cs else s)
          in case parse_uint base ds of
               (un, ok) \<Rightarrow>
                 if \<not> ok \<and> un = 0 then (0, False)
                 else if \<not> neg \<and> 2 ^ 63 \<le> un then (2 ^ 63 - 1, False)
                 else if neg \<and> 2 ^ 63 < un then (- (2 ^ 63), False)
                 else (if neg then - int un else int un, True))"

text \<open>\<open>strings.Split(s, sep)\<close> and \<open>strings.Join(xs, sep)\<close> for a one-byte separator.\<close>

fun split_on :: "char \<Rightarrow> string \<Rightarrow> string list" where
  "split_on c [] = [[]]"
| "split_on c (x # xs) =
     (if x = c then [] # split_on c xs
      else (case split_on c xs of [] \<Rightarrow> [[x]] | y # ys \<Rightarrow> (x # y) # ys))"

fun join :: "string \<Rightarrow> string list \<Rightarrow> string" where
  "join sep [] = []"
| "join sep [x] = x"
| "join sep (x # xs) = x @ sep @ join sep xs"

text \<open>\<open>strings.SplitN(s, sep, n)\<close> with \<open>n > 0\<close>: the last piece keeps the rest.\<close>

fun splitn_on :: "nat \<Rightarrow> char \<Rightarrow> string \<Rightarrow> string list" where
  "splitn_on 0 c s = []"
| "splitn_on (Suc 0) c s = [s]"
| "splitn_on (Suc (Suc n)) c s =
     (case split_on c s of
        [] \<Rightarrow> []
      | p # ps \<Rightarrow> if ps = [] then [p] else p # splitn_on (Suc n) c (join [c] ps))"

definition index_byte :: "string \<Rightarrow> char \<Rightarrow> nat option" where
  "index_byte s c = (let p = takeWhile (\<lambda>x. x \<noteq> c) s in if length p < length s then Some (length p) else None)"

definition has_prefix :: "'a list \<Rightarrow> 'a list \<Rightarrow> bool" where
  "has_prefix s p = (take (length p) s = p)"

definition trim_prefix :: "'a list \<Rightarrow> 'a list \<Rightarrow> 'a list" where
  "trim_prefix s p = (if has_prefix s p then drop (length p) s else s)"

definition lower_char :: "char \<Rightarrow> char" where
  "lower_char c = (let n = (of_char c :: nat) in if 65 \<le> n \<and> n \<le> 90 then char_of (n + 32) else c)"

definition to_lower :: "string \<Rightarrow> string" where
  "to_lower s = map lower_char s"

definition equal_fold :: "string \<Rightarrow> string \<Rightarrow> bool" where
  "equal_fold a b = (to_lower a = to_lower b)"

subsection \<open>Numbers\<close>

definition is_digit_of :: "nat \<Rightarrow> char \<Rightarrow> bool" where
  "is_digit_of b c = (\<exists>d<b. c = hex_char d)"

lemma fmt_uint_nonempty [simp]: "fmt_uint b n \<noteq> []"
  by (subst fmt_uint.simps) simp

lemma fmt_uint_digits: "2 \<le> b \<Longrightarrow> c \<in> set (fmt_uint b n) \<Longrightarrow> is_digit_of b c"
proof (induction b n rule: fmt_uint.induct)
  case (1 b n)
  show ?case
  proof (cases "n < b")
    case True
    with "1.prems" show ?thesis
      by (auto simp: fmt_uint.simps [of b n] is_digit_of_def)
  next
    case False
    with "1.prems" have "c \<in> set (fmt_uint b (n div b)) \<or> c = hex_char (n mod b)"
      by (auto simp: fmt_uint.simps [of b n])
    moreover have "n mod b < b" using "1.prems" by simp
    ultimately show ?thesis
      using "1.IH" "1.prems" False unfolding is_digit_of_def by (metis leD)
  qed
qed

lemma parse_digits_append:
  "parse_digits base mx acc xs = (v, True) \<Longrightarrow>
   parse_digits base mx acc (xs @ ys) = parse_digits base mx v ys"
  by (induction base mx acc xs rule: parse_digits.induct) (auto split: option.splits if_splits)

lemma parse_digits_fmt:
  "2 \<le> b \<Longrightarrow> b \<le> 16 \<Longrightarrow> n \<le> mx \<Longrightarrow> parse_digits b mx 0 (fmt_uint b n) = (n, True)"
proof (induction b n rule: fmt_uint.induct)
  case (1 b n)
  show ?case
  proof (cases "n < b")
    case True
    with "1.prems" show ?thesis
      by (simp add: fmt_uint.simps [of b n] unhex_hex_char)
  next
    case False
    have "n div b \<le> n" by simp
    with "1" False have "parse_digits b mx 0 (fmt_uint b (n div b)) = (n div b, True)"
      by (meson le_trans linorder_not_less)
    moreover have "\<not> b \<le> n mod b" using "1.prems" by (simp add: not_le)
    moreover from this have "n mod b < 16" using "1.prems" by linarith
    moreover have "n div b * b + n mod b = n" by simp
    ultimately show ?thesis
      using False "1.prems"
      by (simp add: fmt_uint.simps [of b n] parse_digits_append unhex_hex_char)
  qed
qed

lemma parse_uint_fmt [codec_simps]:
  "2 \<le> b \<Longrightarrow> b \<le> 16 \<Longrightarrow> n < 2 ^ 64 \<Longrightarrow> parse_uint b (fmt_uint b n) = (n, True)"
  by (simp add: parse_uint_def parse_digits_fmt)

lemma hex_char_not_special:
  "d < 16 \<Longrightarrow> hex_char d \<noteq> CHR ''-'' \<and> hex_char d \<noteq> CHR ''+'' \<and> hex_char d \<noteq> CHR '':'' \<and> hex_char d \<noteq> CHR ''.''"
proof -
  assume "d < 16"
  moreover have "\<forall>d \<in> set [0..<16]. hex_char d \<noteq> CHR ''-'' \<and> hex_char d \<noteq> CHR ''+'' \<and>
      hex_char d \<noteq> CHR '':'' \<and> hex_char d \<noteq> CHR ''.''"
    by code_simp
  ultimately show ?thesis by simp
qed

lemma fmt_uint_no_special:
  assumes "2 \<le> b" "b \<le> 16" "c \<in> set (fmt_uint b n)"
  shows "c \<noteq> CHR ''-'' \<and> c \<noteq> CHR ''+'' \<and> c \<noteq> CHR '':'' \<and> c \<noteq> CHR ''.''"
proof -
  from fmt_uint_digits [OF assms(1,3)] obtain d where "d < b" "c = hex_char d"
    by (auto simp: is_digit_of_def)
  with assms(2) show ?thesis using hex_char_not_special [of d] by simp
qed

lemma parse_int_fmt [codec_simps]:
  assumes "- (2 ^ 63) \<le> i" "i < 2 ^ 63"
  shows "parse_int 10 (fmt_int i) = (i, True)"
proof (cases "i < 0")
  case True
  have "parse_uint 10 (fmt_uint 10 (nat (- i))) = (nat (- i), True)"
    by (rule parse_uint_fmt) (use assms True in simp_all)
  with True assms show ?thesis
    by (simp add: parse_int_def fmt_int_def)
next
  case False
  have p: "parse_uint 10 (fmt_uint 10 (nat i)) = (nat i, True)"
    by (rule parse_uint_fmt) (use assms in simp_all)
  obtain c cs where s: "fmt_uint 10 (nat i) = c # cs"
    by (cases "fmt_uint 10 (nat i)") auto
  then have "c \<noteq> CHR ''-''" and "c \<noteq> CHR ''+''"
    using fmt_uint_no_special [of 10 c "nat i"] by auto
  with False assms p s show ?thesis
    by (simp add: parse_int_def fmt_int_def nat_less_iff not_le)
qed

subsection \<open>Splitting and joining\<close>

lemma split_on_nonempty [simp]: "split_on c s \<noteq> []"
  by (induction s) (auto split: list.splits)

lemma split_on_no_sep: "c \<notin> set s \<Longrightarrow> split_on c s = [s]"
  by (induction s) auto

lemma split_on_append: "c \<notin> set x \<Longrightarrow> split_on c (x @ c # s) = x # split_on c s"
  by (induction x) auto

lemma split_join [codec_simps]:
  "xs \<noteq> [] \<Longrightarrow> \<forall>x \<in> set xs. c \<notin> set x \<Longrightarrow> split_on c (join [c] xs) = xs"
  by (induction "[c]" xs rule: join.induct) (auto simp: split_on_no_sep split_on_append)

lemma join_split: "join [c] (split_on c s) = s"
proof (induction s)
  case (Cons a s)
  obtain p ps where "split_on c s = p # ps" by (cases "split_on c s") auto
  with Cons show ?case by (cases ps) auto
qed simp

lemma splitn_on_3:
  assumes "c \<notin> set a" "c \<notin> set b"
  shows "splitn_on 3 c (a @ c # b @ c # s) = [a, b, s]"
proof -
  obtain p ps where s: "split_on c s = p # ps" by (cases "split_on c s") auto
  then have "join [c] (p # ps) = s" using join_split [of c s] by simp
  moreover have "split_on c (b @ c # join [c] (p # ps)) = b # split_on c (join [c] (p # ps))"
    using assms by (simp add: split_on_append)
  ultimately show ?thesis using assms s
    by (simp add: numeral_3_eq_3 split_on_append)
qed

lemma has_prefix_append [simp]: "has_prefix (p @ s) p"
  by (simp add: has_prefix_def)

lemma trim_prefix_append [simp]: "trim_prefix (p @ s) p = s"
  by (simp add: trim_prefix_def)

lemma length_to_lower [simp]: "length (to_lower s) = length s"
  by (simp add: to_lower_def)

lemma lower_hex_char: "d < 16 \<Longrightarrow> lower_char (hex_char d) = hex_char d"
proof -
  assume "d < 16"
  moreover have "\<forall>d \<in> set [0..<16]. lower_char (hex_char d) = hex_char d"
    by code_simp
  ultimately show ?thesis by simp
qed

lemma to_lower_hex_encode [simp]: "to_lower (hex_encode bs) = hex_encode bs"
proof (induction bs)
  case (Cons b bs)
  have "unat b div 16 < 16" "unat b mod 16 < 16"
    using byte_less [of b] by linarith simp
  with Cons show ?case
    by (simp add: hex_encode_Cons hex_byte_def to_lower_def lower_hex_char)
qed (simp add: to_lower_def)

end
