(* ===== verification/GoFloat.thy ===== *)
theory GoFloat
  imports GoText Complex_Main "HOL-Library.Log_Nat"
begin

text \<open>
  Go's floating point, bit-accurate up to the sign of zero: a \<open>float64\<close> is a rational
  value, an infinity or NaN, every arithmetic operation rounds the exact result to
  nearest, ties to even, with 53 bits of precision, gradual underflow at \<open>2 powi (-1074)\<close>
  and overflow to infinity. \<open>math/big.Float\<close> is the same with the precision as a
  parameter. The sign of a zero is not represented; the sources never divide by a
  negative zero nor print one.

  The lemmas are the ones a client needs: rounding is monotone, is exact on the values
  that fit the precision (all integers up to \<open>2 ^ 53\<close> for \<open>float64\<close>), and is off by at
  most half a unit in the last place.
\<close>

definition rne :: "rat \<Rightarrow> int" where
  "rne x = (let f = \<lfloor>x\<rfloor>; r = x - of_int f in
            if r < 1 / 2 then f else if 1 / 2 < r then f + 1 else if even f then f else f + 1)"

definition ilog2 :: "rat \<Rightarrow> int" where
  "ilog2 x = (case quotient_of x of (a, b) \<Rightarrow>
     (let e = bitlen a - bitlen b in if 2 powi e \<le> x then e else e - 1))"

definition quantum :: "int \<Rightarrow> int \<Rightarrow> rat \<Rightarrow> int" where
  "quantum p emin x = max (ilog2 \<bar>x\<bar> - (p - 1)) emin"

definition rnd :: "int \<Rightarrow> int \<Rightarrow> rat \<Rightarrow> rat" where
  "rnd p emin x =
     (if x = 0 then 0
      else (let e = quantum p emin x in of_int (rne (x / 2 powi e)) * 2 powi e))"

abbreviation rnd64 :: "rat \<Rightarrow> rat" where
  "rnd64 \<equiv> rnd 53 (-1074)"

datatype f64 = Fin rat | PInf | NInf | NaN

definition f64_round :: "rat \<Rightarrow> f64" where
  "f64_round x = (let r = rnd64 x in
     if 2 ^ 1024 \<le> r then PInf else if r \<le> - (2 ^ 1024) then NInf else Fin r)"

definition f64_of_int :: "int \<Rightarrow> f64" where
  "f64_of_int n = f64_round (of_int n)"

fun f64_neg :: "f64 \<Rightarrow> f64" where
  "f64_neg (Fin x) = Fin (- x)"
| "f64_neg PInf = NInf"
| "f64_neg NInf = PInf"
| "f64_neg NaN = NaN"

fun f64_add :: "f64 \<Rightarrow> f64 \<Rightarrow> f64" where
  "f64_add (Fin x) (Fin y) = f64_round (x + y)"
| "f64_add NaN _ = NaN"
| "f64_add _ NaN = NaN"
| "f64_add PInf NInf = NaN"
| "f64_add NInf PInf = NaN"
| "f64_add PInf _ = PInf"
| "f64_add _ PInf = PInf"
| "f64_add NInf _ = NInf"
| "f64_add _ NInf = NInf"

definition f64_sub :: "f64 \<Rightarrow> f64 \<Rightarrow> f64" where
  "f64_sub x y = f64_add x (f64_neg y)"

text \<open>The sign of a value, for the products and quotients with an infinity.\<close>

fun f64_sgn :: "f64 \<Rightarrow> int" where
  "f64_sgn (Fin x) = (if x < 0 then -1 else if x = 0 then 0 else 1)"
| "f64_sgn PInf = 1"
| "f64_sgn NInf = -1"
| "f64_sgn NaN = 0"

definition f64_inf :: "int \<Rightarrow> f64" where
  "f64_inf s = (if s < 0 then NInf else if s = 0 then NaN else PInf)"

fun f64_mul :: "f64 \<Rightarrow> f64 \<Rightarrow> f64" where
  "f64_mul (Fin x) (Fin y) = f64_round (x * y)"
| "f64_mul NaN _ = NaN"
| "f64_mul _ NaN = NaN"
| "f64_mul x y = f64_inf (f64_sgn x * f64_sgn y)"

fun f64_div :: "f64 \<Rightarrow> f64 \<Rightarrow> f64" where
  "f64_div (Fin x) (Fin y) = (if y = 0 then f64_inf (f64_sgn (Fin x)) else f64_round (x / y))"
| "f64_div NaN _ = NaN"
| "f64_div _ NaN = NaN"
| "f64_div (Fin x) _ = Fin 0"
| "f64_div PInf (Fin y) = (if y < 0 then NInf else PInf)"
| "f64_div NInf (Fin y) = (if y < 0 then PInf else NInf)"
| "f64_div _ _ = NaN"

fun f64_less :: "f64 \<Rightarrow> f64 \<Rightarrow> bool" where
  "f64_less NaN _ = False"
| "f64_less _ NaN = False"
| "f64_less (Fin x) (Fin y) = (x < y)"
| "f64_less PInf _ = False"
| "f64_less _ NInf = False"
| "f64_less _ PInf = True"
| "f64_less NInf _ = True"

definition f64_eq :: "f64 \<Rightarrow> f64 \<Rightarrow> bool" where
  "f64_eq x y = (x \<noteq> NaN \<and> x = y)"

definition f64_le :: "f64 \<Rightarrow> f64 \<Rightarrow> bool" where
  "f64_le x y = (f64_less x y \<or> f64_eq x y)"

fun f64_floor :: "f64 \<Rightarrow> f64" where
  "f64_floor (Fin x) = Fin (of_int \<lfloor>x\<rfloor>)"
| "f64_floor x = x"

fun f64_ceil :: "f64 \<Rightarrow> f64" where
  "f64_ceil (Fin x) = Fin (of_int \<lceil>x\<rceil>)"
| "f64_ceil x = x"

definition trunc_rat :: "rat \<Rightarrow> int" where
  "trunc_rat x = (if 0 \<le> x then \<lfloor>x\<rfloor> else \<lceil>x\<rceil>)"

text \<open>
  \<open>uint64(f)\<close>: truncation. Go leaves the conversion of a value outside the type to the
  implementation; the model reduces it modulo the word size (and takes the bit pattern
  \<open>1 << 63\<close> for infinities and NaN), and no property relies on that case.
\<close>

fun f64_to_u64 :: "f64 \<Rightarrow> u64" where
  "f64_to_u64 (Fin x) = word_of_int (trunc_rat x)"
| "f64_to_u64 _ = word_of_int (2 ^ 63)"

definition f64_of_u64 :: "u64 \<Rightarrow> f64" where
  "f64_of_u64 n = f64_of_int (uint n)"

text \<open>
  \<open>math/big.Float\<close>. \<open>SetInt\<close> into a fresh value takes the precision
  \<open>max (BitLen n) 64\<close>, \<open>NewFloat\<close> takes 53, and \<open>Quo\<close> into a fresh value rounds to the
  larger of its operands' precisions. The exponent range is that of an \<open>int32\<close>.
\<close>

record bigfloat =
  bf_prec :: int
  bf_val :: f64

definition big_round :: "int \<Rightarrow> rat \<Rightarrow> rat" where
  "big_round p x = rnd p (-2147483648 - p) x"

definition bf_set_int :: "int \<Rightarrow> bigfloat" where
  "bf_set_int n = \<lparr>bf_prec = max (bitlen \<bar>n\<bar>) 64, bf_val = Fin (of_int n)\<rparr>"

text \<open>\<open>big.NewFloat(x)\<close> panics on NaN.\<close>

definition bf_new :: "f64 \<Rightarrow> bigfloat res" where
  "bf_new x = (if x = NaN then Inl (Panic ''NewFloat(NaN)'') else Inr \<lparr>bf_prec = 53, bf_val = x\<rparr>)"

definition bf_quo :: "bigfloat \<Rightarrow> bigfloat \<Rightarrow> bigfloat res" where
  "bf_quo x y =
     (let p = max (bf_prec x) (bf_prec y) in
      case (bf_val x, bf_val y) of
        (Fin a, Fin b) \<Rightarrow>
          if b = 0 then
            (if a = 0 then Inl (Panic ''ErrNaN'') else Inr \<lparr>bf_prec = p, bf_val = f64_inf (f64_sgn (Fin a))\<rparr>)
          else Inr \<lparr>bf_prec = p, bf_val = Fin (big_round p (a / b))\<rparr>
      | (Fin a, NaN) \<Rightarrow> Inl (Panic ''ErrNaN'')
      | (Fin a, _) \<Rightarrow> Inr \<lparr>bf_prec = p, bf_val = Fin 0\<rparr>
      | (PInf, Fin b) \<Rightarrow> Inr \<lparr>bf_prec = p, bf_val = if b < 0 then NInf else PInf\<rparr>
      | (NInf, Fin b) \<Rightarrow> Inr \<lparr>bf_prec = p, bf_val = if b < 0 then PInf else NInf\<rparr>
      | _ \<Rightarrow> Inl (Panic ''ErrNaN''))"

text \<open>\<open>x.Cmp(y)\<close> as an order on values, and \<open>x.Float64()\<close>.\<close>

definition bf_less :: "bigfloat \<Rightarrow> bigfloat \<Rightarrow> bool" where
  "bf_less x y = f64_less (bf_val x) (bf_val y)"

definition bf_float64 :: "bigfloat \<Rightarrow> f64" where
  "bf_float64 x = (case bf_val x of Fin r \<Rightarrow> f64_round r | v \<Rightarrow> v)"

text \<open>\<open>x.Int(nil)\<close>: truncation toward zero; nil (here \<open>None\<close>) for an infinity.\<close>

definition bf_int :: "bigfloat \<Rightarrow> int option" where
  "bf_int x = (case bf_val x of Fin r \<Rightarrow> Some (trunc_rat r) | _ \<Rightarrow> None)"

subsection \<open>Rounding to an integer\<close>

lemma rne_of_int [simp]: "rne (of_int n) = n"
  by (simp add: rne_def)

lemma rne_bounds: "of_int (rne x) \<le> x + 1 / 2" "x - 1 / 2 \<le> of_int (rne x)"
proof -
  have f: "of_int \<lfloor>x\<rfloor> \<le> x" "x < of_int \<lfloor>x\<rfloor> + 1"
    by (rule of_int_floor_le, rule floor_correct [THEN conjunct2, simplified])
  show "of_int (rne x) \<le> x + 1 / 2"
    unfolding rne_def Let_def using f by (simp split: if_split) linarith
  show "x - 1 / 2 \<le> of_int (rne x)"
    unfolding rne_def Let_def using f by (simp split: if_split)
qed

lemma rne_floor: "\<lfloor>x\<rfloor> \<le> rne x" "rne x \<le> \<lfloor>x\<rfloor> + 1"
  by (auto simp: rne_def Let_def)

lemma rne_mono: "x \<le> y \<Longrightarrow> rne x \<le> rne y"
proof -
  assume le: "x \<le> y"
  then have f: "\<lfloor>x\<rfloor> \<le> \<lfloor>y\<rfloor>" by (rule floor_mono)
  show ?thesis
  proof (cases "\<lfloor>x\<rfloor> = \<lfloor>y\<rfloor>")
    case True
    then have "x - of_int \<lfloor>x\<rfloor> \<le> y - of_int \<lfloor>y\<rfloor>" using le by simp
    then show ?thesis using True by (auto simp: rne_def Let_def)
  next
    case False
    with f have "\<lfloor>x\<rfloor> + 1 \<le> \<lfloor>y\<rfloor>" by linarith
    then show ?thesis using rne_floor [of x] rne_floor [of y] by linarith
  qed
qed

lemma rne_minus: "rne (- x) = - rne x"
proof (cases "x \<in> \<int>")
  case True
  then obtain n where "x = of_int n" by (auto elim: Ints_cases)
  then show ?thesis
    using rne_of_int [of n] rne_of_int [of "- n"] by simp
next
  case False
  have c: "\<lfloor>- x\<rfloor> = - \<lfloor>x\<rfloor> - 1"
    using False by (metis add_uminus_conv_diff ceiling_altdef ceiling_def floor_of_int Ints_of_int minus_add_distrib minus_minus)
  then show ?thesis
    by (auto simp: rne_def Let_def c)
qed

subsection \<open>The binary exponent\<close>

lemma ilog2_bounds:
  assumes "0 < x"
  shows "2 powi ilog2 x \<le> x \<and> x < 2 powi (ilog2 x + 1)"
proof -
  obtain a b where q: "quotient_of x = (a, b)" by (cases "quotient_of x")
  then have b: "0 < b" by (rule quotient_of_denom_pos)
  have x: "x = of_int a / of_int b" using q by (rule quotient_of_div)
  with assms b have a: "0 < a" by (simp add: zero_less_divide_iff)
  have bl: "2 powi (bitlen k - 1) \<le> (of_int k :: rat) \<and> (of_int k :: rat) < 2 powi (bitlen k)" if "0 < k" for k
  proof -
    have p: "0 < bitlen k" using that by (simp add: bitlen_eq_zero_iff order.strict_iff_order bitlen_nonneg)
    have "2 ^ nat (bitlen k - 1) \<le> k \<and> k < 2 ^ nat (bitlen k)"
      using bitlen_bounds [OF that] by simp
    then have "(of_int (2 ^ nat (bitlen k - 1)) :: rat) \<le> of_int k \<and> (of_int k :: rat) < of_int (2 ^ nat (bitlen k))"
      by (simp only: of_int_le_iff of_int_less_iff)
    with p show ?thesis by (simp add: power_int_def)
  qed
  define e where "e = bitlen a - bitlen b"
  have up: "x < 2 powi (e + 1)"
  proof -
    have "x < 2 powi bitlen a / 2 powi (bitlen b - 1)"
      unfolding x using bl [OF a] bl [OF b] b a by (intro frac_less) auto
    also have "\<dots> = 2 powi (bitlen a - (bitlen b - 1))" by (subst power_int_diff) auto
    also have "\<dots> = 2 powi (e + 1)" by (simp add: e_def algebra_simps)
    finally show ?thesis .
  qed
  have lo: "2 powi (e - 1) \<le> x"
  proof -
    have "(2 :: rat) powi (e - 1) = 2 powi ((bitlen a - 1) - bitlen b)" by (simp add: e_def algebra_simps)
    also have "\<dots> = 2 powi (bitlen a - 1) / 2 powi bitlen b" by (subst power_int_diff) auto
    also have "\<dots> \<le> x"
      unfolding x using bl [OF a] bl [OF b] b a by (intro frac_le) auto
    finally show ?thesis .
  qed
  have "ilog2 x = (if 2 powi e \<le> x then e else e - 1)"
    by (simp add: ilog2_def q e_def Let_def)
  then show ?thesis using up lo by (auto simp: not_le)
qed

lemma powi_less_D: "(2 :: rat) powi m < 2 powi n \<Longrightarrow> m < n"
  by (metis not_le power_int_increasing one_le_numeral)

lemma ilog2_unique:
  assumes "2 powi e \<le> x" "x < 2 powi (e + 1)"
  shows "ilog2 x = e"
proof -
  have "0 < x" using assms(1) by (meson less_le_trans zero_less_power_int zero_less_numeral)
  from ilog2_bounds [OF this] assms have "2 powi ilog2 x < (2 :: rat) powi (e + 1)" "(2 :: rat) powi e < 2 powi (ilog2 x + 1)"
    by (meson le_less_trans)+
  then have "ilog2 x < e + 1" "e < ilog2 x + 1" by (auto dest: powi_less_D)
  then show ?thesis by linarith
qed

lemma ilog2_mono: "0 < x \<Longrightarrow> x \<le> y \<Longrightarrow> ilog2 x \<le> ilog2 y"
proof -
  assume "0 < x" "x \<le> y"
  then have "(2 :: rat) powi ilog2 x < 2 powi (ilog2 y + 1)"
    using ilog2_bounds [of x] ilog2_bounds [of y] by linarith
  then show ?thesis using powi_less_D [of "ilog2 x" "ilog2 y + 1"] by simp
qed

subsection \<open>Rounding to a precision\<close>

lemma rnd_0 [simp]: "rnd p emin 0 = 0"
  by (simp add: rnd_def)

lemma rnd_nz: "x \<noteq> 0 \<Longrightarrow> rnd p emin x = of_int (rne (x / 2 powi quantum p emin x)) * 2 powi quantum p emin x"
  by (simp add: rnd_def Let_def)

lemma quantum_minus [simp]: "quantum p emin (- x) = quantum p emin x"
  by (simp add: quantum_def)

lemma rnd_minus: "rnd p emin (- x) = - rnd p emin x"
proof (cases "x = 0")
  case False
  then have "rnd p emin (- x) = of_int (rne (- (x / 2 powi quantum p emin x))) * 2 powi quantum p emin x"
    by (simp add: rnd_nz)
  then show ?thesis using False by (simp only: rne_minus) (simp add: rnd_nz)
qed simp

lemma rnd_error: "\<bar>rnd p emin x - x\<bar> \<le> 2 powi quantum p emin x / 2"
proof (cases "x = 0")
  case False
  define q :: rat where "q = 2 powi quantum p emin x"
  have q: "0 < q" by (simp add: q_def)
  define y where "y = x / q"
  have "rnd p emin x - x = (of_int (rne y) - y) * q"
    using False q by (simp add: rnd_nz y_def q_def [symmetric] algebra_simps)
  moreover have "\<bar>of_int (rne y) - y\<bar> \<le> 1 / 2"
    using rne_bounds [of y] by linarith
  ultimately have "\<bar>rnd p emin x - x\<bar> \<le> 1 / 2 * q"
    using q by (simp add: abs_mult mult_right_mono)
  then show ?thesis by (simp add: q_def)
qed simp

lemma rnd_exact:
  assumes "x = of_int m * 2 powi k" "\<bar>m\<bar> < 2 ^ nat p" "1 \<le> p" "emin \<le> k"
  shows "rnd p emin x = x"
proof (cases "x = 0")
  case False
  have "\<bar>x\<bar> = of_int \<bar>m\<bar> * 2 powi k" by (simp add: assms(1) abs_mult)
  also have "\<dots> < of_int (2 ^ nat p) * 2 powi k"
    using assms(2) by (intro mult_strict_right_mono) (simp_all only: of_int_less_iff, simp)
  also have "of_int (2 ^ nat p) = (2 :: rat) powi p" using assms(3) by (simp add: power_int_def)
  also have "\<dots> * 2 powi k = 2 powi (p + k)" by (simp add: power_int_add)
  finally have "2 powi ilog2 \<bar>x\<bar> < (2 :: rat) powi (p + k)"
    using ilog2_bounds [of "\<bar>x\<bar>"] False by simp
  then have "ilog2 \<bar>x\<bar> < p + k" by (rule powi_less_D)
  then have le: "quantum p emin x \<le> k" using assms(4) by (simp add: quantum_def)
  then have "x / 2 powi quantum p emin x = of_int m * 2 powi (k - quantum p emin x)"
    by (simp add: assms(1) power_int_diff)
  also have "\<dots> = of_int (m * 2 ^ nat (k - quantum p emin x))"
    using le by (simp add: power_int_def)
  finally have eq: "x / 2 powi quantum p emin x = of_int (m * 2 ^ nat (k - quantum p emin x))" .
  have "rnd p emin x = of_int (rne (x / 2 powi quantum p emin x)) * 2 powi quantum p emin x"
    using False by (rule rnd_nz)
  also have "of_int (rne (x / 2 powi quantum p emin x)) = x / 2 powi quantum p emin x"
    unfolding eq by (simp only: rne_of_int)
  finally show ?thesis by simp
qed simp

lemma rnd_of_int: "\<bar>n\<bar> < 2 ^ nat p \<Longrightarrow> 1 \<le> p \<Longrightarrow> emin \<le> 0 \<Longrightarrow> rnd p emin (of_int n) = of_int n"
  by (rule rnd_exact [of _ n 0]) auto

lemma rnd_nonneg: "0 \<le> x \<Longrightarrow> 0 \<le> rnd p emin x"
proof (cases "x = 0")
  case False
  assume "0 \<le> x"
  then have "rne 0 \<le> rne (x / 2 powi quantum p emin x)" by (intro rne_mono) simp
  then have "0 \<le> rne (x / 2 powi quantum p emin x)" using rne_of_int [of 0] by simp
  then show ?thesis using False by (simp add: rnd_nz)
qed simp

lemma rnd_mono_pos:
  assumes "0 < x" "x \<le> y" "1 \<le> p"
  shows "rnd p emin x \<le> rnd p emin y"
proof -
  have y: "0 < y" using assms by linarith
  define qx qy where "qx = quantum p emin x" and "qy = quantum p emin y"
  have q: "qx \<le> qy" using ilog2_mono [OF assms(1,2)] assms(1) y by (auto simp: qx_def qy_def quantum_def)
  have rx: "rnd p emin x = of_int (rne (x / 2 powi qx)) * 2 powi qx"
    and ry: "rnd p emin y = of_int (rne (y / 2 powi qy)) * 2 powi qy"
    using assms(1) y by (simp_all add: rnd_nz qx_def qy_def)
  show ?thesis
  proof (cases "qx = qy")
    case True
    then have "rne (x / 2 powi qx) \<le> rne (y / 2 powi qy)"
      using assms(2) by (intro rne_mono) (simp add: divide_right_mono)
    then show ?thesis using True by (simp add: rx ry)
  next
    case False
    define l where "l = ilog2 y"
    from False q have qy: "qy = l - (p - 1)" and lt: "ilog2 x < l"
      using assms(1) y by (auto simp: qx_def qy_def quantum_def l_def)
    have k: "0 \<le> l - qx" using q qy assms(3) by linarith
    have pw: "(2 :: rat) powi (l - e) = of_int (2 ^ nat (l - e))" if "0 \<le> l - e" for e
      using that by (simp add: power_int_def)
    have "2 powi l \<le> y" using ilog2_bounds [OF y] by (simp add: l_def)
    then have "2 powi (l - qy) \<le> y / 2 powi qy" by (simp add: power_int_diff divide_right_mono)
    then have "of_int (2 ^ nat (l - qy)) \<le> y / 2 powi qy" using pw [of qy] qy assms(3) by simp
    then have "2 ^ nat (l - qy) \<le> rne (y / 2 powi qy)" using rne_mono by (metis rne_of_int)
    then have "2 powi (l - qy) \<le> (of_int (rne (y / 2 powi qy)) :: rat)"
      using pw [of qy] qy assms(3) by (simp only: of_int_le_iff)
    then have "2 powi (l - qy) * 2 powi qy \<le> rnd p emin y" by (simp add: ry)
    then have 1: "2 powi l \<le> rnd p emin y" by (simp add: power_int_diff)
    have "x < 2 powi (ilog2 x + 1)" using ilog2_bounds [OF assms(1)] by simp
    also have "\<dots> \<le> 2 powi l" using lt by (intro power_int_increasing) auto
    finally have "x / 2 powi qx \<le> 2 powi (l - qx)" by (simp add: power_int_diff divide_right_mono)
    then have "rne (x / 2 powi qx) \<le> 2 ^ nat (l - qx)"
      using pw [OF k] rne_mono by (metis rne_of_int)
    then have "(of_int (rne (x / 2 powi qx)) :: rat) \<le> 2 powi (l - qx)"
      using pw [OF k] by (simp only: of_int_le_iff)
    then have "rnd p emin x \<le> 2 powi (l - qx) * 2 powi qx" by (simp add: rx)
    then have "rnd p emin x \<le> 2 powi l" by (simp add: power_int_diff)
    with 1 show ?thesis by linarith
  qed
qed

lemma rnd_mono: "x \<le> y \<Longrightarrow> 1 \<le> p \<Longrightarrow> rnd p emin x \<le> rnd p emin y"
proof -
  assume le: "x \<le> y" and p: "1 \<le> p"
  consider "0 < x" | "y < 0" | "x \<le> 0" "0 \<le> y" by linarith
  then show ?thesis
  proof cases
    case 1
    then show ?thesis using le p by (rule rnd_mono_pos)
  next
    case 2
    then have "rnd p emin (- y) \<le> rnd p emin (- x)" using le p by (intro rnd_mono_pos) auto
    then show ?thesis by (simp add: rnd_minus)
  next
    case 3
    then have "0 \<le> rnd p emin (- x)" "0 \<le> rnd p emin y" by (auto intro: rnd_nonneg)
    then show ?thesis by (simp add: rnd_minus)
  qed
qed

subsection \<open>The float64 operations\<close>

lemma rnd64_of_int: "\<bar>n\<bar> < 2 ^ 53 \<Longrightarrow> rnd64 (of_int n) = of_int n"
  by (rule rnd_of_int) auto

lemma f64_round_small: "\<bar>rnd64 x\<bar> < 2 ^ 1024 \<Longrightarrow> f64_round x = Fin (rnd64 x)"
  by (auto simp: f64_round_def Let_def)

lemma f64_round_exact: "rnd64 x = x \<Longrightarrow> \<bar>x\<bar> < 2 ^ 1024 \<Longrightarrow> f64_round x = Fin x"
  by (simp add: f64_round_small)

lemma f64_of_int_exact: "\<bar>n\<bar> < 2 ^ 53 \<Longrightarrow> f64_of_int n = Fin (of_int n)"
proof -
  assume n: "\<bar>n\<bar> < 2 ^ 53"
  then have "\<bar>n\<bar> < 2 ^ 1024" by (rule order_less_le_trans) (simp add: power_increasing)
  then have "(of_int \<bar>n\<bar> :: rat) < of_int (2 ^ 1024)" by (simp only: of_int_less_iff)
  then have "\<bar>of_int n :: rat\<bar> < 2 ^ 1024" by simp
  then show ?thesis
    unfolding f64_of_int_def by (rule f64_round_exact [OF rnd64_of_int [OF n]])
qed

lemma f64_less_Fin [simp]: "f64_less (Fin x) (Fin y) \<longleftrightarrow> x < y"
  by simp

lemma f64_le_Fin [simp]: "f64_le (Fin x) (Fin y) \<longleftrightarrow> x \<le> y"
  by (auto simp: f64_le_def f64_eq_def)

lemma f64_round_ge:
  assumes "rnd64 c = c" "\<bar>c\<bar> < 2 ^ 1024" "c \<le> x"
  shows "f64_le (Fin c) (f64_round x)"
proof -
  have "c \<le> rnd64 x" using rnd_mono [of c x 53 "-1074"] assms(1,3) by simp
  then show ?thesis using assms(2)
    by (auto simp: f64_round_def Let_def f64_le_def f64_eq_def)
qed

lemma f64_round_le:
  assumes "rnd64 c = c" "\<bar>c\<bar> < 2 ^ 1024" "x \<le> c"
  shows "f64_le (f64_round x) (Fin c)"
proof -
  have "rnd64 x \<le> c" using rnd_mono [of x c 53 "-1074"] assms(1,3) by simp
  then show ?thesis using assms(2)
    by (auto simp: f64_round_def Let_def f64_le_def f64_eq_def)
qed

lemma f64_round_not_NaN [simp]: "f64_round x \<noteq> NaN"
  by (simp add: f64_round_def Let_def)

lemma f64_to_u64_nat: "0 \<le> x \<Longrightarrow> x < 2 ^ 64 \<Longrightarrow> unat (f64_to_u64 (Fin x)) = nat \<lfloor>x\<rfloor>"
proof -
  assume "0 \<le> x" "x < 2 ^ 64"
  moreover from this have "\<lfloor>x\<rfloor> < 2 ^ 64" by (simp add: floor_less_iff)
  ultimately show ?thesis
    by (simp add: trunc_rat_def unat_eq_nat_uint uint_word_of_int_eq take_bit_int_eq_self)
qed

end
