(* ===== verification/GoStrconv.thy ===== *)
theory GoStrconv
  imports GoFloat
begin

text \<open>
  \<open>strconv.ParseFloat(s, 64)\<close> and \<open>strconv.FormatFloat(x, 'f', prec, 64)\<close>, the text form in
  which the pool stores difficulties and balances. A parse error of any kind is \<open>None\<close>: every
  caller drops the value on an error. The hexadecimal floating-point form, which
  \<open>ParseFloat\<close> accepts too, is read as an error here. With precision -1 Go prints the shortest
  decimal that reads back as the same number; the model looks for the smallest number of
  decimals (negative for trailing zeros of the integer part) whose nearest decimal does.
\<close>

definition is_dec :: "char \<Rightarrow> bool" where
  "is_dec c = (case unhex c of Some d \<Rightarrow> d < 10 | None \<Rightarrow> False)"

definition dec_digit :: "char \<Rightarrow> nat" where
  "dec_digit c = (case unhex c of Some d \<Rightarrow> d | None \<Rightarrow> 0)"

definition dec_val :: "string \<Rightarrow> nat" where
  "dec_val s = foldl (\<lambda>a c. a * 10 + dec_digit c) 0 s"

text \<open>The exponent part; Go stops accumulating its digits at 10000.\<close>

definition dec_exp :: "string \<Rightarrow> int option" where
  "dec_exp s =
     (case s of
        [] \<Rightarrow> Some 0
      | c # r \<Rightarrow>
          if c = CHR ''e'' \<or> c = CHR ''E'' then
            (let neg = (\<exists>t. r = CHR ''-'' # t);
                 ds = (case r of d # t \<Rightarrow> if d = CHR ''+'' \<or> d = CHR ''-'' then t else r | [] \<Rightarrow> r);
                 e = foldl (\<lambda>a c. if a < 10000 then a * 10 + dec_digit c else a) 0 ds
             in if ds = [] \<or> \<not> list_all is_dec ds then None else Some (if neg then - int e else int e))
          else None)"

text \<open>An unsigned decimal number as an exact rational.\<close>

definition parse_decimal :: "string \<Rightarrow> rat option" where
  "parse_decimal s =
     (let ip = takeWhile is_dec s; r = dropWhile is_dec s;
          fp = (case r of c # t \<Rightarrow> if c = CHR ''.'' then takeWhile is_dec t else [] | [] \<Rightarrow> []);
          er = (case r of c # t \<Rightarrow> if c = CHR ''.'' then dropWhile is_dec t else r | [] \<Rightarrow> [])
      in if ip = [] \<and> fp = [] then None
         else map_option (\<lambda>e. of_nat (dec_val (ip @ fp)) * 10 powi (e - int (length fp))) (dec_exp er))"

definition in_range :: "f64 \<Rightarrow> f64 option" where
  "in_range v = (case v of Fin x \<Rightarrow> Some (Fin x) | _ \<Rightarrow> None)"

definition parse_f64 :: "string \<Rightarrow> f64 option" where
  "parse_f64 s =
     (let neg = (\<exists>t. s = CHR ''-'' # t);
          r = (case s of c # t \<Rightarrow> if c = CHR ''+'' \<or> c = CHR ''-'' then t else s | [] \<Rightarrow> s)
      in if to_lower r = ''inf'' \<or> to_lower r = ''infinity'' then Some (if neg then NInf else PInf)
         else if to_lower s = ''nan'' then Some NaN
         else case parse_decimal r of
                None \<Rightarrow> None
              | Some v \<Rightarrow> in_range (f64_round (if neg then - v else v)))"

text \<open>The nearest multiple of \<open>10 powi (- k)\<close>, as the integer multiplier.\<close>

definition dec_scale :: "int \<Rightarrow> rat \<Rightarrow> int" where
  "dec_scale k a = rne (a * 10 powi k)"

definition reads_back :: "int \<Rightarrow> rat \<Rightarrow> bool" where
  "reads_back k a = (f64_round (of_int (dec_scale k a) * 10 powi (- k)) = Fin a)"

fun shortest_from :: "nat \<Rightarrow> int \<Rightarrow> rat \<Rightarrow> int" where
  "shortest_from 0 k a = k"
| "shortest_from (Suc n) k a = (if reads_back k a then k else shortest_from n (k + 1) a)"

definition shortest_decimals :: "rat \<Rightarrow> int" where
  "shortest_decimals a =
     (let k = - int (length (fmt_uint 10 (nat \<lfloor>a\<rfloor>))) in shortest_from (nat (1074 - k)) k a)"

definition pad_digits :: "nat \<Rightarrow> nat \<Rightarrow> string" where
  "pad_digits k n = (let s = fmt_uint 10 n in replicate (k - length s) CHR ''0'' @ s)"

text \<open>\<open>n\<close> times \<open>10 powi (- k)\<close> with \<open>k\<close> decimals.\<close>

definition fmt_decimal :: "nat \<Rightarrow> int \<Rightarrow> string" where
  "fmt_decimal n k =
     (if k \<le> 0 then fmt_uint 10 (n * 10 ^ nat (- k))
      else fmt_uint 10 (n div 10 ^ nat k) @ CHR ''.'' # pad_digits (nat k) (n mod 10 ^ nat k))"

definition fmt_with :: "(rat \<Rightarrow> int) \<Rightarrow> f64 \<Rightarrow> string" where
  "fmt_with prec x =
     (case x of
        Fin q \<Rightarrow> (if q < 0 then ''-'' else '''') @ (let a = \<bar>q\<bar>; k = prec a in fmt_decimal (nat (dec_scale k a)) k)
      | PInf \<Rightarrow> ''+Inf''
      | NInf \<Rightarrow> ''-Inf''
      | NaN \<Rightarrow> ''NaN'')"

definition fmt_f64 :: "f64 \<Rightarrow> string" where
  "fmt_f64 x = fmt_with shortest_decimals x"

definition fmt_f64_prec :: "nat \<Rightarrow> f64 \<Rightarrow> string" where
  "fmt_f64_prec p x = fmt_with (\<lambda>_. int p) x"

definition representable :: "f64 \<Rightarrow> bool" where
  "representable v = (\<exists>x. v = Fin x \<and> rnd64 x = x \<and> \<bar>x\<bar> < 2 ^ 1024)"

subsection \<open>Decimal digits\<close>

lemma dec_hex_char: "d < 10 \<Longrightarrow> is_dec (hex_char d) \<and> dec_digit (hex_char d) = d"
  by (simp add: is_dec_def dec_digit_def unhex_hex_char)

lemma not_is_dec: "\<not> is_dec CHR ''.''" "\<not> is_dec CHR ''-''" "\<not> is_dec CHR ''+''"
  by code_simp+

lemma dec_val_snoc: "dec_val (s @ [c]) = dec_val s * 10 + dec_digit c"
  by (simp add: dec_val_def)

lemma dec_val_append: "dec_val (s @ t) = dec_val s * 10 ^ length t + dec_val t"
  by (induction t rule: rev_induct) (simp_all add: dec_val_snoc flip: append_assoc, simp add: dec_val_def)

lemma fmt_uint_dec: "list_all is_dec (fmt_uint 10 n)"
  unfolding list_all_iff
proof
  fix c assume "c \<in> set (fmt_uint 10 n)"
  then obtain d where "d < 10" "c = hex_char d"
    using fmt_uint_digits [of 10 c n] by (auto simp: is_digit_of_def)
  then show "is_dec c" by (simp add: dec_hex_char)
qed

lemma dec_val_fmt [simp]: "dec_val (fmt_uint 10 n) = n"
proof (induction n rule: less_induct)
  case (less n)
  show ?case
  proof (cases "n < 10")
    case True
    then show ?thesis by (simp add: fmt_uint.simps [of 10 n] dec_val_def dec_hex_char)
  next
    case False
    then show ?thesis
      using less [of "n div 10"] by (simp add: fmt_uint.simps [of 10 n] dec_val_snoc dec_hex_char)
  qed
qed

lemma dec_val_zeros: "dec_val (replicate m CHR ''0'' @ s) = dec_val s"
proof (induction m)
  case (Suc m)
  have z: "dec_digit CHR ''0'' = 0" by code_simp
  have "dec_val (CHR ''0'' # t) = dec_val t" for t
    by (simp add: dec_val_def z)
  with Suc show ?case by simp
qed simp

lemma length_fmt_uint: "n < 10 ^ k \<Longrightarrow> 0 < k \<Longrightarrow> length (fmt_uint 10 n) \<le> k"
proof (induction k arbitrary: n)
  case (Suc k)
  show ?case
  proof (cases "n < 10")
    case False
    then have "0 < k" using Suc.prems by (cases k) auto
    moreover have "n div 10 < 10 ^ k" using Suc.prems by (simp add: less_mult_imp_div_less)
    ultimately show ?thesis using Suc.IH [of "n div 10"] False by (simp add: fmt_uint.simps [of 10 n])
  qed (simp add: fmt_uint.simps [of 10 n])
qed simp

lemma pad_digits:
  assumes "n < 10 ^ k" "0 < k"
  shows "length (pad_digits k n) = k" "dec_val (pad_digits k n) = n" "list_all is_dec (pad_digits k n)"
proof -
  have "is_dec CHR ''0''" by code_simp
  then show "length (pad_digits k n) = k" "dec_val (pad_digits k n) = n" "list_all is_dec (pad_digits k n)"
    using length_fmt_uint [OF assms] fmt_uint_dec [of n]
    by (simp_all add: pad_digits_def Let_def dec_val_zeros) (simp add: list_all_iff)
qed

lemma takeWhile_dec:
  "list_all P s \<Longrightarrow> takeWhile P s = s" "list_all P s \<Longrightarrow> dropWhile P s = []"
  "list_all P s \<Longrightarrow> \<not> P c \<Longrightarrow> takeWhile P (s @ c # t) = s"
  "list_all P s \<Longrightarrow> \<not> P c \<Longrightarrow> dropWhile P (s @ c # t) = c # t"
  by (induction s) auto

lemma parse_fmt_decimal: "parse_decimal (fmt_decimal n k) = Some (of_nat n * 10 powi (- k))"
proof (cases "k \<le> 0")
  case True
  then show ?thesis
    by (simp add: fmt_decimal_def parse_decimal_def takeWhile_dec fmt_uint_dec dec_exp_def Let_def power_int_def)
next
  case False
  define m where "m = nat k"
  have m: "0 < m" "k = int m" using False by (simp_all add: m_def)
  have "n mod 10 ^ m < 10 ^ m" by simp
  note p = pad_digits [OF this m(1)]
  then have "pad_digits m (n mod 10 ^ m) \<noteq> []" using m by auto
  moreover have "dec_val (fmt_uint 10 (n div 10 ^ m) @ pad_digits m (n mod 10 ^ m)) = n"
    by (simp add: dec_val_append p div_mult_mod_eq)
  ultimately show ?thesis
    using m p by (simp add: fmt_decimal_def parse_decimal_def takeWhile_dec fmt_uint_dec not_is_dec dec_exp_def Let_def)
qed

subsection \<open>Round trip\<close>

lemma f64_round_idem: "representable v \<Longrightarrow> v = Fin x \<Longrightarrow> f64_round x = Fin x"
  by (auto simp: representable_def intro: f64_round_exact)

lemma representable_neg: "representable (Fin x) \<Longrightarrow> representable (Fin \<bar>x\<bar>)"
  using rnd_minus [of 53 "-1074" x] by (auto simp: representable_def abs_if)

lemma representable_scale:
  assumes "representable (Fin x)" "1074 \<le> K"
  shows "\<exists>n :: int. x * 10 powi K = of_int n"
proof (cases "x = 0")
  case False
  define q where "q = quantum 53 (-1074) x"
  have "x = rnd64 x" using assms by (simp add: representable_def)
  also have "\<dots> = of_int (rne (x / 2 powi q)) * 2 powi q"
    using False by (simp add: rnd_nz q_def)
  finally have x: "x = of_int (rne (x / 2 powi q)) * 2 powi q" .
  have q: "0 \<le> q + K" "0 \<le> K" using assms(2) by (simp_all add: q_def quantum_def)
  have "(2 :: rat) powi q * 2 powi K = 2 powi (q + K)" by (simp add: power_int_add)
  also have "\<dots> = of_int (2 ^ nat (q + K))" using q by (simp add: power_int_def)
  finally have p: "(2 :: rat) powi q * 2 powi K = of_int (2 ^ nat (q + K))" .
  have ten: "(10 :: rat) powi K = 2 powi K * 5 powi K"
    using power_int_mult_distrib [of "2 :: rat" 5 K] by simp
  have five: "(5 :: rat) powi K = of_int (5 ^ nat K)" using q by (simp add: power_int_def)
  have "x * 10 powi K = of_int (rne (x / 2 powi q)) * (2 powi q * 2 powi K) * 5 powi K"
    unfolding ten by (subst x) (simp only: mult.assoc)
  also have "\<dots> = of_int (rne (x / 2 powi q) * 2 ^ nat (q + K) * 5 ^ nat K)"
    unfolding p five by (simp only: of_int_mult)
  finally show ?thesis by blast
qed (auto intro: exI [of _ 0])

lemma reads_back_exact:
  assumes "representable (Fin x)" "1074 \<le> K"
  shows "reads_back K x"
proof -
  obtain n :: int where n: "x * 10 powi K = of_int n" using representable_scale [OF assms] by blast
  then have "of_int (dec_scale K x) = x * 10 powi K" by (simp only: dec_scale_def rne_of_int)
  then have "of_int (dec_scale K x) * 10 powi (- K) = x" by (simp add: power_int_minus)
  then show ?thesis
    using f64_round_idem [OF assms(1)] by (simp only: reads_back_def)
qed

lemma shortest_from_reads_back:
  "representable (Fin x) \<Longrightarrow> 1074 \<le> k + int n \<Longrightarrow> reads_back (shortest_from n k x) x"
proof (induction n k x rule: shortest_from.induct)
  case (1 k a)
  then show ?case using reads_back_exact [of a k] by simp
next
  case (2 n k a)
  then show ?case by (cases "reads_back k a") simp_all
qed

lemma shortest_reads_back: "representable (Fin x) \<Longrightarrow> reads_back (shortest_decimals x) x"
  unfolding shortest_decimals_def Let_def by (rule shortest_from_reads_back) auto

lemma fmt_decimal_head:
  obtains d t where "fmt_decimal n k = hex_char d # t" "d < 10"
proof -
  have "\<exists>d t. fmt_uint 10 m = hex_char d # t \<and> d < 10" for m
  proof -
    obtain c t where c: "fmt_uint 10 m = c # t" by (cases "fmt_uint 10 m") auto
    then have "is_digit_of 10 c" using fmt_uint_digits [of 10 c m] by simp
    then show ?thesis using c by (auto simp: is_digit_of_def)
  qed
  then obtain d t where "fmt_uint 10 (if k \<le> 0 then n * 10 ^ nat (- k) else n div 10 ^ nat k) = hex_char d # t" "d < 10"
    by blast
  then show ?thesis using that by (cases "k \<le> 0") (simp_all add: fmt_decimal_def)
qed

lemma dec_head:
  assumes "d < 10"
  shows "hex_char d \<noteq> CHR ''+''" "hex_char d \<noteq> CHR ''-''" "lower_char (hex_char d) \<noteq> CHR ''i''" "lower_char (hex_char d) \<noteq> CHR ''n''"
proof -
  have "\<forall>d \<in> set [0..<10]. hex_char d \<noteq> CHR ''+'' \<and> hex_char d \<noteq> CHR ''-'' \<and>
      lower_char (hex_char d) \<noteq> CHR ''i'' \<and> lower_char (hex_char d) \<noteq> CHR ''n''"
    by code_simp
  with assms show "hex_char d \<noteq> CHR ''+''" "hex_char d \<noteq> CHR ''-''"
    "lower_char (hex_char d) \<noteq> CHR ''i''" "lower_char (hex_char d) \<noteq> CHR ''n''" by auto
qed

lemma parse_f64_decimal:
  assumes "f64_round (of_nat n * 10 powi (- k)) = Fin a"
  shows "parse_f64 (fmt_decimal n k) = Some (Fin a)"
    "f64_round (- (of_nat n * 10 powi (- k))) = Fin b \<Longrightarrow> parse_f64 (CHR ''-'' # fmt_decimal n k) = Some (Fin b)"
proof -
  obtain d t where f: "fmt_decimal n k = hex_char d # t" "d < 10" by (rule fmt_decimal_head)
  note h = dec_head [OF f(2)]
  show "parse_f64 (fmt_decimal n k) = Some (Fin a)"
    using parse_fmt_decimal [of n k] assms h f(1) by (simp add: parse_f64_def to_lower_def in_range_def)
  have "lower_char CHR ''-'' = CHR ''-''" by code_simp
  then show "f64_round (- (of_nat n * 10 powi (- k))) = Fin b \<Longrightarrow> parse_f64 (CHR ''-'' # fmt_decimal n k) = Some (Fin b)"
    using parse_fmt_decimal [of n k] h f(1) by (simp add: parse_f64_def to_lower_def in_range_def)
qed

lemma dec_scale_nonneg: "0 \<le> a \<Longrightarrow> 0 \<le> dec_scale k a"
proof -
  assume "0 \<le> a"
  then have "rne 0 \<le> rne (a * 10 powi k)" by (intro rne_mono) simp
  then show ?thesis using rne_of_int [of 0] by (simp add: dec_scale_def)
qed

lemma parse_fmt_f64 [codec_simps]:
  assumes "representable v"
  shows "parse_f64 (fmt_f64 v) = Some v"
proof -
  obtain x where v: "v = Fin x" using assms by (auto simp: representable_def)
  define a k where "a = \<bar>x\<bar>" and "k = shortest_decimals a"
  have a: "representable (Fin a)" "0 \<le> a" using representable_neg assms by (simp_all add: v a_def)
  have n: "(of_nat (nat (dec_scale k a)) :: rat) = of_int (dec_scale k a)"
    using dec_scale_nonneg [OF a(2), of k] by simp
  have "f64_round (of_int (dec_scale k a) * 10 powi (- k)) = Fin a"
    using shortest_reads_back [OF a(1)] by (simp add: reads_back_def k_def)
  then have r: "f64_round (of_nat (nat (dec_scale k a)) * 10 powi (- k)) = Fin a" by (simp only: n)
  then have m: "f64_round (- (of_nat (nat (dec_scale k a)) * 10 powi (- k))) = Fin (- a)"
    by (auto simp: f64_round_def Let_def rnd_minus split: if_splits)
  show ?thesis
    using parse_f64_decimal (1) [OF r] parse_f64_decimal (2) [OF r m]
    by (auto simp: v fmt_f64_def fmt_with_def Let_def a_def k_def abs_if split: if_splits)
qed

lemma fmt_f64_no_colon: "CHR '':'' \<notin> set (fmt_f64 v)"
proof -
  have "CHR '':'' \<notin> set (fmt_uint 10 m)" for m using fmt_uint_no_special [of 10 "CHR '':''" m] by auto
  then show ?thesis
    by (auto simp: fmt_f64_def fmt_with_def fmt_decimal_def pad_digits_def Let_def split: f64.splits)
qed

subsection \<open>Representable values\<close>

lemma powi_shift: "(2 :: rat) powi (l - 53) = 2 powi l / 2 ^ 53"
  by (subst power_int_diff) auto

lemma rnd64_form:
  obtains m :: int and q where "rnd64 x = of_int m * 2 powi q" "\<bar>m\<bar> < 2 ^ 53" "-1074 \<le> q"
proof (cases "x = 0")
  case False
  define q where "q = quantum 53 (-1074) x"
  define m where "m = rne (x / 2 powi q)"
  have r: "rnd64 x = of_int m * 2 powi q" using False by (simp add: rnd_nz m_def q_def)
  have q: "-1074 \<le> q" "ilog2 \<bar>x\<bar> + 1 \<le> q + 53" by (simp_all add: q_def quantum_def)
  have "\<bar>x\<bar> < 2 powi (ilog2 \<bar>x\<bar> + 1)" using ilog2_bounds [of "\<bar>x\<bar>"] False by simp
  also have "\<dots> \<le> 2 powi (q + 53)" using q(2) by (intro power_int_increasing) auto
  also have "\<dots> = 2 powi q * of_int (2 ^ 53)" by (simp add: power_int_add)
  finally have b: "\<bar>x / 2 powi q\<bar> < of_int (2 ^ 53)" by (simp add: abs_divide pos_divide_less_eq mult.commute)
  then have "x / 2 powi q \<le> of_int (2 ^ 53)" "of_int (- (2 ^ 53)) \<le> x / 2 powi q"
    unfolding of_int_minus by linarith+
  then have "rne (x / 2 powi q) \<le> rne (of_int (2 ^ 53))" "rne (of_int (- (2 ^ 53))) \<le> rne (x / 2 powi q)"
    by (blast intro: rne_mono)+
  then have m: "\<bar>m\<bar> \<le> 2 ^ 53" unfolding rne_of_int m_def by linarith
  show ?thesis
  proof (cases "\<bar>m\<bar> = 2 ^ 53")
    case True
    then have "m = sgn m * 2 ^ 53" by (metis sgn_mult_abs)
    then have "(of_int m :: rat) = of_int (sgn m) * 2 ^ 53" by (metis of_int_mult of_int_numeral of_int_power)
    then have "rnd64 x = of_int (sgn m) * 2 powi (q + 53)" by (simp add: r power_int_add)
    then show ?thesis using that [of "sgn m" "q + 53"] q(1) by (simp add: sgn_if)
  next
    case False
    then show ?thesis using that [OF r _ q(1)] m by linarith
  qed
qed (use that [of 0 0] in simp)

lemma rnd64_idem [simp]: "rnd64 (rnd64 x) = rnd64 x"
proof -
  obtain m :: int and q where "rnd64 x = of_int m * 2 powi q" "\<bar>m\<bar> < 2 ^ 53" "-1074 \<le> q" by (rule rnd64_form)
  then show ?thesis by (intro rnd_exact [of _ m q]) auto
qed

lemma f64_round_Fin: "f64_round x = Fin y \<Longrightarrow> y = rnd64 x \<and> \<bar>y\<bar> < 2 ^ 1024"
  by (auto simp: f64_round_def Let_def abs_less_iff split: if_splits)

lemma representable_round: "f64_round x = Fin y \<Longrightarrow> representable (Fin y)"
  by (auto simp: representable_def dest: f64_round_Fin)

lemma representable_small_int: "\<bar>n\<bar> < 2 ^ 53 \<Longrightarrow> representable (Fin (of_int n))"
  using f64_of_int_exact [of n] by (auto simp: f64_of_int_def intro: representable_round)

lemma representable_grid:
  assumes "representable (Fin x)"
  obtains k :: int where "x = of_int k * 2 powi (-1074)"
proof -
  obtain m :: int and q where f: "rnd64 x = of_int m * 2 powi q" "-1074 \<le> q" by (rule rnd64_form)
  have "(2 :: rat) powi q = 2 powi (q + 1074) * 2 powi (-1074)" 
    by (metis add_minus_cancel add.commute power_int_add zero_neq_numeral)
  also have "(2 :: rat) powi (q + 1074) = of_int (2 ^ nat (q + 1074))" using f(2) by (simp add: power_int_def)
  finally have "x = of_int (m * 2 ^ nat (q + 1074)) * 2 powi (-1074)"
    using f(1) assms by (simp only: representable_def of_int_mult mult.assoc) simp
  then show ?thesis by (rule that)
qed

lemma rnd64_err: "\<bar>rnd64 x - x\<bar> \<le> \<bar>x\<bar> / 2 ^ 53 + 2 powi (-1075)"
proof (cases "x = 0")
  case False
  define e where "e = quantum 53 (-1074) x"
  have "\<bar>rnd64 x - x\<bar> \<le> 2 powi e / 2" unfolding e_def by (rule rnd_error)
  also have "\<dots> = 2 powi (e - 1)" by (simp add: power_int_diff)
  also have "\<dots> \<le> \<bar>x\<bar> / 2 ^ 53 + 2 powi (-1075)"
  proof (cases "e = -1074")
    case False
    then have "e - 1 = ilog2 \<bar>x\<bar> - 53" by (simp add: e_def quantum_def max_def split: if_splits)
    then have "(2 :: rat) powi (e - 1) = 2 powi ilog2 \<bar>x\<bar> / 2 ^ 53" by (simp only: powi_shift)
    also have "\<dots> \<le> \<bar>x\<bar> / 2 ^ 53" using ilog2_bounds [of "\<bar>x\<bar>"] \<open>x \<noteq> 0\<close> by (simp add: divide_right_mono)
    finally show ?thesis using zero_le_power_int [of "2 :: rat" "-1075"] by linarith
  qed simp
  finally show ?thesis .
qed simp

lemma rnd64_grid_err:
  assumes "x = of_int k * 2 powi (-1074)"
  shows "\<bar>rnd64 x - x\<bar> \<le> \<bar>x\<bar> / 2 ^ 53"
proof (cases "x = 0")
  case False
  define e where "e = quantum 53 (-1074) x"
  show ?thesis
  proof (cases "e = -1074")
    case True
    then have "x / 2 powi e = of_int k" using assms by simp
    then have "rnd64 x = x"
      using False rnd_nz [of x 53 "-1074"] by (simp add: e_def [symmetric]) (metis nonzero_divide_eq_eq power_int_eq_0_iff zero_neq_numeral)
    then show ?thesis by simp
  next
    case False
    have "\<bar>rnd64 x - x\<bar> \<le> 2 powi e / 2" unfolding e_def by (rule rnd_error)
    also have "\<dots> = 2 powi (e - 1)" by (simp add: power_int_diff)
    also have "e - 1 = ilog2 \<bar>x\<bar> - 53" using False by (simp add: e_def quantum_def max_def split: if_splits)
    also have "(2 :: rat) powi (ilog2 \<bar>x\<bar> - 53) = 2 powi ilog2 \<bar>x\<bar> / 2 ^ 53" by (rule powi_shift)
    also have "\<dots> \<le> \<bar>x\<bar> / 2 ^ 53" using ilog2_bounds [of "\<bar>x\<bar>"] \<open>x \<noteq> 0\<close> by (simp add: divide_right_mono)
    finally show ?thesis .
  qed
qed simp

lemma rnd64_sum_err:
  assumes "representable (Fin a)" "representable (Fin b)"
  shows "\<bar>rnd64 (a + b) - (a + b)\<bar> \<le> \<bar>a + b\<bar> / 2 ^ 53"
proof -
  obtain k l :: int where "a = of_int k * 2 powi (-1074)" "b = of_int l * 2 powi (-1074)"
    using assms by (metis representable_grid)
  then have "a + b = of_int (k + l) * 2 powi (-1074)" by (simp only: of_int_add distrib_right)
  then show ?thesis by (rule rnd64_grid_err)
qed

end
