(* ===== verification/GoSha256.thy ===== *)
theory GoSha256
  imports GoBytes
begin

unbundle bit_operations_syntax

text \<open>
  \<open>crypto/sha256\<close> of the Go standard library: SHA-256 as FIPS 180-4 defines it, over
  32-bit words. The sources use it through \<open>utils.Sha256\<close> and \<open>utils.Sha256d\<close>; the other
  hash functions of the pool come from third-party packages and are parameters of the
  model.
\<close>

text \<open>The constants, eight 32-bit words to a 256-bit numeral, the first word on the left.\<close>

definition unpack_words :: "nat \<Rightarrow> u32 list" where
  "unpack_words v = map (\<lambda>i. word_of_nat (v div 2 ^ (32 * (7 - i)))) [0..<8]"

definition sha_k :: "u32 list" where
  "sha_k = concat (map unpack_words
    [0x428a2f9871374491b5c0fbcfe9b5dba53956c25b59f111f1923f82a4ab1c5ed5,
     0xd807aa9812835b01243185be550c7dc372be5d7480deb1fe9bdc06a7c19bf174,
     0xe49b69c1efbe47860fc19dc6240ca1cc2de92c6f4a7484aa5cb0a9dc76f988da,
     0x983e5152a831c66db00327c8bf597fc7c6e00bf3d5a7914706ca635114292967,
     0x27b70a852e1b21384d2c6dfc53380d13650a7354766a0abb81c2c92e92722c85,
     0xa2bfe8a1a81a664bc24b8b70c76c51a3d192e819d6990624f40e3585106aa070,
     0x19a4c1161e376c082748774c34b0bcb5391c0cb34ed8aa4a5b9cca4f682e6ff3,
     0x748f82ee78a5636f84c878148cc7020890befffaa4506cebbef9a3f7c67178f2])"

definition sha_init :: "u32 list" where
  "sha_init = unpack_words 0x6a09e667bb67ae853c6ef372a54ff53a510e527f9b05688c1f83d9ab5be0cd19"

definition rotr :: "nat \<Rightarrow> u32 \<Rightarrow> u32" where
  "rotr n x = (drop_bit n x OR push_bit (32 - n) x)"

definition sha_pad :: "bytes \<Rightarrow> bytes" where
  "sha_pad m = m @ [0x80] @ replicate ((119 - length m mod 64) mod 64) 0 @ be_bytes 8 (8 * length m)"

text \<open>One step of the message schedule: the next word from the last sixteen.\<close>

definition sha_sched_next :: "u32 list \<Rightarrow> u32" where
  "sha_sched_next w =
     (let n = length w;
          w15 = w ! (n - 15); w2 = w ! (n - 2);
          s0 = (rotr 7 w15 XOR rotr 18 w15 XOR drop_bit 3 w15);
          s1 = (rotr 17 w2 XOR rotr 19 w2 XOR drop_bit 10 w2)
      in w ! (n - 16) + s0 + w ! (n - 7) + s1)"

fun sha_extend :: "nat \<Rightarrow> u32 list \<Rightarrow> u32 list" where
  "sha_extend 0 w = w"
| "sha_extend (Suc n) w = sha_extend n (w @ [sha_sched_next w])"

definition sha_step :: "u32 \<Rightarrow> u32 \<Rightarrow> u32 \<Rightarrow> u32 \<Rightarrow> u32 \<Rightarrow> u32 \<Rightarrow> u32 \<Rightarrow> u32 \<Rightarrow> u32 \<Rightarrow> u32 \<Rightarrow> u32 list" where
  "sha_step k w a b c d e f g h =
     (let s1 = (rotr 6 e XOR rotr 11 e XOR rotr 25 e);
          ch = ((e AND f) XOR (NOT e AND g));
          t1 = h + s1 + ch + k + w;
          s0 = (rotr 2 a XOR rotr 13 a XOR rotr 22 a);
          mj = ((a AND b) XOR (a AND c) XOR (b AND c));
          t2 = s0 + mj
      in [t1 + t2, a, b, c, d + t1, e, f, g])"

definition sha_round :: "u32 list \<Rightarrow> u32 \<times> u32 \<Rightarrow> u32 list" where
  "sha_round st kw =
     sha_step (fst kw) (snd kw) (st ! 0) (st ! 1) (st ! 2) (st ! 3) (st ! 4) (st ! 5) (st ! 6) (st ! 7)"

fun words_be :: "bytes \<Rightarrow> u32 list" where
  "words_be (a # b # c # d # r) = word_of_nat (be_nat [a, b, c, d]) # words_be r"
| "words_be _ = []"

definition sha_block :: "u32 list \<Rightarrow> bytes \<Rightarrow> u32 list" where
  "sha_block st blk =
     map2 (+) st (foldl sha_round st (zip sha_k (sha_extend 48 (words_be blk))))"

function sha_blocks :: "u32 list \<Rightarrow> bytes \<Rightarrow> u32 list" where
  "sha_blocks st m = (if m = [] then st else sha_blocks (sha_block st (take 64 m)) (drop 64 m))"
  by pat_completeness auto
termination
  by (relation "measure (\<lambda>(st, m). length m)") (auto simp: length_greater_0_conv [symmetric] simp del: length_greater_0_conv)

declare sha_blocks.simps [simp del]

definition sha256 :: "bytes \<Rightarrow> bytes" where
  "sha256 m = concat (map (\<lambda>w. be_bytes 4 (unat w)) (sha_blocks sha_init (sha_pad m)))"

lemma length_sha_round [simp]: "length (sha_round st kw) = 8"
  by (simp add: sha_round_def sha_step_def Let_def)

lemma length_foldl_sha_round: "length st = 8 \<Longrightarrow> length (foldl sha_round st kws) = 8"
  by (induction kws arbitrary: st) auto

lemma length_sha_blocks: "length st = 8 \<Longrightarrow> length (sha_blocks st m) = 8"
proof (induction st m rule: sha_blocks.induct)
  case (1 st m)
  have "length (sha_block st (take 64 m)) = 8"
    using "1.prems" by (simp add: sha_block_def length_foldl_sha_round)
  with "1" show ?case by (subst sha_blocks.simps) simp
qed

lemma length_sha256 [simp, codec_simps]: "length (sha256 m) = 32"
proof -
  have "length (concat (map (\<lambda>w. be_bytes 4 (unat (w :: u32))) ws)) = 4 * length ws" for ws
    by (induction ws) auto
  moreover have "length sha_init = 8" by (simp add: sha_init_def unpack_words_def)
  ultimately show ?thesis by (simp add: sha256_def length_sha_blocks)
qed

lemma sha_pad_length: "length (sha_pad m) mod 64 = 0"
proof -
  define r where "r = length m mod 64"
  have "r < 64" by (simp add: r_def)
  then have "r + ((119 - r) mod 64 + 9) = 64 \<or> r + ((119 - r) mod 64 + 9) = 128"
    by (cases "r \<le> 55") (auto simp: mod_if)
  then have "(r + ((119 - r) mod 64 + 9)) mod 64 = 0" by (elim disjE) (simp_all only: mod_self, simp)
  then have "(length m + ((119 - r) mod 64 + 9)) mod 64 = 0"
    by (simp add: r_def mod_add_left_eq)
  then show ?thesis by (simp add: sha_pad_def r_def algebra_simps)
qed

end
