(* ===== verification/Utils.thy ===== *)
theory Utils
  imports GoFloat GoSha256
begin

text \<open>
  The helpers of \<open>utils/utils.go\<close>: fixed-width packing, the Bitcoin compact-size and
  script-number encodings, byte-order reversal, \<open>Range\<close>, the compact difficulty bits and
  the address-to-script conversions. Random bytes are arguments; the third-party base58
  and bech32 decoders are the parameters \<open>b58\<close>, \<open>bech32\<close> and \<open>convert_bits\<close>, each
  returning \<open>None\<close> where the package returns an error.
\<close>

definition RandPositiveInt64 :: "bytes \<Rightarrow> u64" where
  "RandPositiveInt64 randomNumBytes =
     (let i = word_of_nat (le_nat randomNumBytes) in if 0 <s i then i else - i)"

definition RandHexUint64 :: "bytes \<Rightarrow> string" where
  "RandHexUint64 randomNumBytes = hex_encode randomNumBytes"

definition PackUint64LE :: "u64 \<Rightarrow> bytes" where
  "PackUint64LE n = le_bytes 8 (unat n)"

definition PackInt64BE :: "u64 \<Rightarrow> bytes" where
  "PackInt64BE n = be_bytes 8 (unat n)"

definition PackUint64BE :: "u64 \<Rightarrow> bytes" where
  "PackUint64BE n = be_bytes 8 (unat n)"

definition PackUint32LE :: "u32 \<Rightarrow> bytes" where
  "PackUint32LE n = le_bytes 4 (unat n)"

definition PackUint32BE :: "u32 \<Rightarrow> bytes" where
  "PackUint32BE n = be_bytes 4 (unat n)"

definition PackInt32BE :: "u32 \<Rightarrow> bytes" where
  "PackInt32BE n = be_bytes 4 (unat n)"

definition PackUint16LE :: "u16 \<Rightarrow> bytes" where
  "PackUint16LE n = le_bytes 2 (unat n)"

definition PackUint16BE :: "u16 \<Rightarrow> bytes" where
  "PackUint16BE n = be_bytes 2 (unat n)"

definition VarIntBytes :: "u64 \<Rightarrow> bytes" where
  "VarIntBytes n =
     (if n < 0xFD then [ucast n]
      else if n \<le> 0xFFFF then 0xFD # le_bytes 2 (unat (ucast n :: u16))
      else if n \<le> 0xFFFFFFFF then 0xFE # le_bytes 4 (unat (ucast n :: u32))
      else 0xFF # le_bytes 8 (unat n))"

definition VarStringBytes :: "string \<Rightarrow> bytes" where
  "VarStringBytes str = VarIntBytes (word_of_nat (length (of_str str))) @ of_str str"

definition SerializeString :: "string \<Rightarrow> bytes" where
  "SerializeString s =
     (if length s < 253 then word_of_nat (length s) # of_str s
      else if length s < 0x10000 then 253 # PackUint16LE (word_of_nat (length s)) @ of_str s
      else if length s < 0x100000000 then 254 # PackUint32LE (word_of_nat (length s)) @ of_str s
      else 255 # PackUint64LE (word_of_nat (length s)) @ of_str s)"

text \<open>
  \<open>SerializeNumber\<close>: the loop writes the low bytes of \<open>n\<close> into a nine-byte buffer from
  position 1 on. Both writes panic when \<open>l\<close> reaches 9.
\<close>

function serialize_number_loop :: "bytes \<Rightarrow> nat \<Rightarrow> u64 \<Rightarrow> bytes res" where
  "serialize_number_loop buff l n =
     (if 0x7f < n then
        (if l < length buff
         then serialize_number_loop (buff[l := ucast n]) (Suc l) (drop_bit 8 n)
         else Inl (Panic ''index out of range''))
      else if l < length buff
      then Inr (take (l + 1) ((buff[0 := word_of_nat l])[l := ucast n]))
      else Inl (Panic ''index out of range''))"
  by pat_completeness auto
termination
  by (relation "measure (\<lambda>(buff, l, n). length buff - l)") auto

declare serialize_number_loop.simps [simp del]

definition SerializeNumber :: "u64 \<Rightarrow> bytes res" where
  "SerializeNumber n =
     (if 1 \<le> n \<and> n \<le> 16 then Inr [0x50 + ucast n]
      else serialize_number_loop (replicate 9 0) 1 n)"

text \<open>\<open>ReverseBytes\<close> swaps from both ends inward.\<close>

function reverse_loop :: "'a list \<Rightarrow> nat \<Rightarrow> nat \<Rightarrow> 'a list" where
  "reverse_loop b i j = (if i < j then reverse_loop (b[i := b ! j, j := b ! i]) (i + 1) (j - 1) else b)"
  by pat_completeness auto
termination
  by (relation "measure (\<lambda>(b, i, j). j - i)") auto

declare reverse_loop.simps [simp del]

definition ReverseBytes :: "bytes \<Rightarrow> bytes" where
  "ReverseBytes b = reverse_loop b 0 (length b - 1)"

definition Uint256BytesFromHash :: "string \<Rightarrow> bytes" where
  "Uint256BytesFromHash h =
     (let fromHex = fst (hex_decode h);
          container = take 32 fromHex @ drop (length fromHex) (replicate 32 0)
      in ReverseBytes container)"

text \<open>
  \<open>Range\<close> loops until the bound is passed; with \<open>step = 0\<close> and \<open>start > stop\<close> it never
  returns, which is \<open>None\<close>.
\<close>

partial_function (option) range_loop :: "int \<Rightarrow> int \<Rightarrow> int \<Rightarrow> int list \<Rightarrow> int list option" where
  "range_loop i stop step result =
     (if step > 0 then
        (if i < stop then range_loop (i + step) stop step (result @ [i]) else Some result)
      else
        (if i > stop then range_loop (i + step) stop step (result @ [i]) else Some result))"

definition Range :: "int \<Rightarrow> int \<Rightarrow> int \<Rightarrow> int list option" where
  "Range start stop step =
     (if (step > 0 \<and> start \<ge> stop) \<or> (step < 0 \<and> start \<le> stop) then Some []
      else range_loop start stop step [])"

definition Sha256 :: "bytes \<Rightarrow> bytes" where
  "Sha256 b = sha256 b"

definition Sha256d :: "bytes \<Rightarrow> bytes" where
  "Sha256d b = Sha256 (Sha256 b)"

fun index_of :: "nat \<Rightarrow> 'a list \<Rightarrow> 'a \<Rightarrow> int" where
  "index_of k [] element = -1"
| "index_of k (v # vs) element = (if element = v then int k else index_of (Suc k) vs element)"

definition BytesIndexOf :: "bytes list \<Rightarrow> bytes \<Rightarrow> int" where
  "BytesIndexOf data element = index_of 0 data element"

definition StringsIndexOf :: "string list \<Rightarrow> string \<Rightarrow> int" where
  "StringsIndexOf data element = index_of 0 data element"

text \<open>The exponent byte is decremented as a \<open>uint8\<close>, so it wraps below 3.\<close>

definition BigIntFromBitsBytes :: "bytes \<Rightarrow> nat res" where
  "BigIntFromBitsBytes bits =
     (case bits of
        [] \<Rightarrow> Inl (Panic ''index out of range'')
      | bytesNumber # rest \<Rightarrow> Inr (be_nat rest * 2 ^ (8 * unat (bytesNumber - 3))))"

definition BigIntFromBitsHex :: "string \<Rightarrow> nat res" where
  "BigIntFromBitsHex bits =
     (case hex_decode bits of
        (b, ok) \<Rightarrow> if ok then BigIntFromBitsBytes b else Inl (Panic ''hex''))"

text \<open>
  One iteration of \<open>ReverseByteOrder\<close>: the four bytes from \<open>4 i\<close> are read big-endian and
  written back little-endian. Slicing and the four-byte access panic on a short slice.
\<close>

definition swap_word_at :: "bytes \<Rightarrow> nat \<Rightarrow> bytes res" where
  "swap_word_at b i =
     (if length b < i * 4 then Inl (Panic ''slice bounds out of range'')
      else rbind (be_read 4 (drop (i * 4) b))
             (\<lambda>v. Inr (take (i * 4) b @ le_bytes 4 v @ drop (i * 4 + 4) b)))"

fun swap_words :: "bytes \<Rightarrow> nat list \<Rightarrow> bytes res" where
  "swap_words b [] = Inr b"
| "swap_words b (i # is) = rbind (swap_word_at b i) (\<lambda>b'. swap_words b' is)"

definition ReverseByteOrder :: "bytes \<Rightarrow> bytes res" where
  "ReverseByteOrder b = rbind (swap_words b [0..<8]) (\<lambda>b'. Inr (ReverseBytes b'))"

definition PublicKeyToScript :: "string \<Rightarrow> bytes res" where
  "PublicKeyToScript key =
     (if length key \<noteq> 66 then Inl (Panic ''Invalid public key'')
      else copy_at ((replicate 35 0)[0 := 0x21, 34 := 0xAC]) 1 (fst (hex_decode key)))"

definition P2PKHAddressToScript :: "(string \<Rightarrow> bytes option) \<Rightarrow> string \<Rightarrow> bytes res" where
  "P2PKHAddressToScript b58 addr =
     (case b58 addr of
        None \<Rightarrow> Inl (Fatal ''base58 decode failed'')
      | Some decoded \<Rightarrow>
          if length decoded \<noteq> 25 then Inl (Panic ''invalid address length'')
          else rbind (slice decoded 1 (length decoded - 4))
                 (\<lambda>publicKey. Inr ([0x76, 0xA9, 0x14] @ publicKey @ [0x88, 0xAC])))"

definition P2SHAddressToScript :: "(string \<Rightarrow> bytes option) \<Rightarrow> string \<Rightarrow> bytes res" where
  "P2SHAddressToScript b58 addr =
     (case b58 addr of
        None \<Rightarrow> Inl (Fatal ''base58 decode failed'')
      | Some decoded \<Rightarrow>
          if length decoded \<noteq> 25 then Inl (Panic ''invalid address length'')
          else rbind (slice decoded 1 (length decoded - 4))
                 (\<lambda>publicKey. Inr ([0xA9, 0x14] @ publicKey @ [0x87])))"

definition P2WSHAddressToScript ::
  "(string \<Rightarrow> bytes option) \<Rightarrow> (bytes \<Rightarrow> bytes option) \<Rightarrow> string \<Rightarrow> bytes res" where
  "P2WSHAddressToScript bech32 convert_bits addr =
     (case bech32 addr of
        None \<Rightarrow> Inl (Fatal ''bech32 decode failed'')
      | Some decoded \<Rightarrow>
          rbind (slice decoded 1 (length decoded))
            (\<lambda>d. case convert_bits d of
                   None \<Rightarrow> Inl (Panic '''')
                 | Some witnessProgram \<Rightarrow> Inr ([0x00, 0x14] @ witnessProgram)))"

definition ScriptPubKeyToScript :: "string \<Rightarrow> bytes res" where
  "ScriptPubKeyToScript addr =
     (case hex_decode addr of
        (decoded, ok) \<Rightarrow> if ok then Inr decoded else Inl (Fatal ''hex decode failed''))"

definition HexDecode :: "string \<Rightarrow> bytes res" where
  "HexDecode b = (case hex_decode b of (dst, ok) \<Rightarrow> if ok then Inr dst else Inl (Panic ''failed to decode hex''))"

definition HexEncode :: "bytes \<Rightarrow> string" where
  "HexEncode b = hex_encode b"

definition CoinsToSatoshis :: "f64 \<Rightarrow> int \<Rightarrow> int \<Rightarrow> u64" where
  "CoinsToSatoshis coins magnitude coinPrecision = f64_to_u64 (f64_mul coins (f64_of_int magnitude))"

definition MiningKeyToScript :: "string \<Rightarrow> bytes res" where
  "MiningKeyToScript addrMiningKey =
     (case hex_decode addrMiningKey of
        (b, ok) \<Rightarrow> if ok then Inr ([0x76, 0xA9, 0x14] @ b @ [0x88, 0xAC])
                  else Inl (Fatal ''Failed to decode addr mining key''))"

definition FixedLenStringBytes :: "string \<Rightarrow> nat \<Rightarrow> bytes" where
  "FixedLenStringBytes s l = take l (of_str s) @ drop (length s) (replicate l 0)"

definition CommandStringBytes :: "string \<Rightarrow> bytes" where
  "CommandStringBytes s = FixedLenStringBytes s 12"

subsection \<open>Reversal\<close>

lemma reverse_loop_nth:
  "j < length b \<Longrightarrow>
   length (reverse_loop b i j) = length b \<and>
   (\<forall>k < length b. reverse_loop b i j ! k = (if i \<le> k \<and> k \<le> j then b ! (i + j - k) else b ! k))"
proof (induction b i j rule: reverse_loop.induct)
  case (1 b i j)
  show ?case
  proof (cases "i < j")
    case True
    let ?b = "b[i := b ! j, j := b ! i]"
    from "1.IH" [OF True] "1.prems"
    have len: "length (reverse_loop ?b (i + 1) (j - 1)) = length b"
      and nth: "\<And>k. k < length b \<Longrightarrow> reverse_loop ?b (i + 1) (j - 1) ! k =
        (if i + 1 \<le> k \<and> k \<le> j - 1 then ?b ! (i + 1 + (j - 1) - k) else ?b ! k)"
      by auto
    have "reverse_loop ?b (i + 1) (j - 1) ! k = (if i \<le> k \<and> k \<le> j then b ! (i + j - k) else b ! k)"
      if "k < length b" for k
      unfolding nth [OF that] using True "1.prems" that by (auto simp: nth_list_update)
    with len True show ?thesis by (subst reverse_loop.simps, subst reverse_loop.simps) simp
  next
    case False
    then show ?thesis
      by (auto simp: reverse_loop.simps [of b i j] intro!: arg_cong [where f = "(!) b"])
  qed
qed

lemma ReverseBytes_rev [simp]: "ReverseBytes b = rev b"
proof (cases "b = []")
  case True
  then show ?thesis by (simp add: ReverseBytes_def reverse_loop.simps)
next
  case False
  then have "length b - 1 < length b" by simp
  from reverse_loop_nth [OF this, of 0] show ?thesis
    by (auto simp: ReverseBytes_def list_eq_iff_nth_eq rev_nth)
qed

lemma length_Uint256BytesFromHash [simp]: "length (Uint256BytesFromHash h) = 32"
  by (auto simp: Uint256BytesFromHash_def Let_def)

lemma Uint256BytesFromHash_hex:
  "length b = 32 \<Longrightarrow> Uint256BytesFromHash (hex_encode b) = rev b"
  by (simp add: Uint256BytesFromHash_def Let_def hex_decode_encode)

lemma swap_word_at_app:
  "length pre = i * 4 \<Longrightarrow> length w = 4 \<Longrightarrow> swap_word_at (pre @ w @ post) i = Inr (pre @ rev w @ post)"
proof -
  assume pre: "length pre = i * 4" and w: "length w = 4"
  have "le_bytes 4 (be_nat w) = rev w"
    using be_bytes_be_nat [of w] w by (simp add: be_bytes_def rev_swap)
  then show ?thesis using pre w by (simp add: swap_word_at_def be_read_def)
qed

lemma swap_words_concat:
  "length pre = i * 4 \<Longrightarrow> \<forall>w \<in> set ws. length w = 4 \<Longrightarrow>
   swap_words (pre @ concat ws @ post) [i..<i + length ws] = Inr (pre @ concat (map rev ws) @ post)"
proof (induction ws arbitrary: pre i)
  case (Cons w ws)
  have "[i..<i + length (w # ws)] = i # [Suc i..<Suc i + length ws]"
    by (simp add: upt_conv_Cons del: upt_Suc)
  moreover have "swap_word_at (pre @ w @ concat ws @ post) i = Inr (pre @ rev w @ concat ws @ post)"
    using Cons.prems by (intro swap_word_at_app) auto
  moreover have "swap_words ((pre @ rev w) @ concat ws @ post) [Suc i..<Suc i + length ws] =
      Inr ((pre @ rev w) @ concat (map rev ws) @ post)"
    by (rule Cons.IH) (use Cons.prems in auto)
  ultimately show ?case by simp
qed simp

lemma swap_words_short: "length b < 32 \<Longrightarrow> \<not> is_ok (swap_words b [0..<8])"
proof (rule ccontr)
  assume short: "length b < 32" and "\<not> \<not> is_ok (swap_words b [0..<8])"
  then obtain r where r: "swap_words b [0..<8] = Inr r" by (auto simp: is_ok_iff)
  have step: "length b' = length c \<and> i * 4 + 4 \<le> length c" if "swap_word_at c i = Inr b'" for c b' i
    using that by (auto simp: swap_word_at_def be_read_def res_simps split: if_splits)
  have "\<forall>i \<in> set is. i * 4 + 4 \<le> length c" if "swap_words c is = Inr r" for c "is"
    using that
  proof (induction "is" arbitrary: c)
    case (Cons i "is")
    then obtain b' where "swap_word_at c i = Inr b'" "swap_words b' is = Inr r"
      by (auto simp: res_simps)
    with Cons.IH step show ?case by fastforce
  qed simp
  from bspec [OF this [OF r], of 7] have "7 * 4 + 4 \<le> length b" by simp
  with short show False by simp
qed

lemma ReverseByteOrder_concat:
  assumes "length ws = 8" "\<forall>w \<in> set ws. length w = 4"
  shows "ReverseByteOrder (concat ws) = Inr (concat (rev ws))"
proof -
  have "swap_words (concat ws) [0..<8] = Inr (concat (map rev ws))"
    using swap_words_concat [of "[]" 0 ws "[]"] assms by simp
  moreover have "rev (concat (map rev ws)) = concat (rev ws)"
    by (induction ws) auto
  ultimately show ?thesis by (simp add: ReverseByteOrder_def)
qed

subsection \<open>Compact sizes\<close>

text \<open>The reader the Bitcoin protocol defines for a compact-size integer.\<close>

definition read_compact :: "bytes \<Rightarrow> (nat \<times> bytes) option" where
  "read_compact b =
     (case b of
        [] \<Rightarrow> None
      | t # r \<Rightarrow>
          (let k = (if t = 0xFD then 2 else if t = 0xFE then 4 else if t = 0xFF then 8 else 0)
           in if length r < k then None
              else Some (if k = 0 then unat t else le_nat (take k r), drop k r)))"

lemma ucast_nat: "(ucast (n :: 'a :: len word) :: 'b :: len word) = word_of_nat (unat n)"
  by simp

lemma unat_ucast_small:
  "unat (n :: u64) < 2 ^ LENGTH('b) \<Longrightarrow> unat (ucast n :: 'b :: len word) = unat n"
  by (simp add: unsigned_ucast_eq take_bit_nat_eq_self)

lemma read_compact_VarIntBytes: "read_compact (VarIntBytes n @ rest) = Some (unat n, rest)"
proof -
  consider "unat n < 0xFD" | "0xFD \<le> unat n" "unat n \<le> 0xFFFF" | "0xFFFF < unat n" "unat n \<le> 0xFFFFFFFF"
    | "0xFFFFFFFF < unat n" by linarith
  then show ?thesis
  proof cases
    case 1
    then have lt: "n < 0xFD" by (simp add: word_less_nat_alt)
    have u: "unat (ucast n :: byte) = unat n" using 1 by (intro unat_ucast_small) simp
    then have "(ucast n :: byte) \<noteq> 0xFD" "(ucast n :: byte) \<noteq> 0xFE" "(ucast n :: byte) \<noteq> 0xFF"
      using 1 by (auto simp: word_unat_eq_iff)
    with lt u show ?thesis by (simp add: VarIntBytes_def read_compact_def)
  next
    case 2
    then have c: "\<not> n < 0xFD" "n \<le> 0xFFFF" by (simp_all add: word_less_nat_alt word_le_nat_alt)
    have "unat (ucast n :: u16) = unat n" using 2 by (intro unat_ucast_small) simp
    with c 2 show ?thesis by (simp add: VarIntBytes_def read_compact_def Let_def le_nat_le_bytes)
  next
    case 3
    then have c: "\<not> n < 0xFD" "\<not> n \<le> 0xFFFF" "n \<le> 0xFFFFFFFF" by (simp_all add: word_less_nat_alt word_le_nat_alt)
    have "unat (ucast n :: u32) = unat n" using 3 by (intro unat_ucast_small) simp
    with c 3 show ?thesis by (simp add: VarIntBytes_def read_compact_def Let_def le_nat_le_bytes)
  next
    case 4
    then have c: "\<not> n < 0xFD" "\<not> n \<le> 0xFFFF" "\<not> n \<le> 0xFFFFFFFF" by (simp_all add: word_less_nat_alt word_le_nat_alt)
    have "unat n < 2 ^ 64" using unsigned_less [of n] by simp
    with c 4 show ?thesis by (simp add: VarIntBytes_def read_compact_def Let_def le_nat_le_bytes)
  qed
qed

lemma length_VarIntBytes:
  "length (VarIntBytes n) = (if n < 0xFD then 1 else if n \<le> 0xFFFF then 3 else if n \<le> 0xFFFFFFFF then 5 else 9)"
  by (simp add: VarIntBytes_def)

subsection \<open>Script numbers\<close>

fun num_bytes :: "nat \<Rightarrow> nat" where
  "num_bytes n = (if n \<le> 0x7f then 1 else Suc (num_bytes (n div 256)))"

declare num_bytes.simps [simp del]

lemma num_bytes_pos [simp]: "0 < num_bytes n"
  by (subst num_bytes.simps) simp

lemma num_bytes_bounds:
  "n < 128 * 256 ^ (num_bytes n - 1) \<and> (1 < num_bytes n \<longrightarrow> 128 * 256 ^ (num_bytes n - 2) \<le> n)"
proof (induction n rule: num_bytes.induct)
  case (1 n)
  show ?case
  proof (cases "n \<le> 0x7f")
    case True
    then show ?thesis by (simp add: num_bytes.simps [of n])
  next
    case False
    define k where "k = num_bytes (n div 256)"
    have k: "0 < k" by (simp add: k_def)
    have nk: "num_bytes n = Suc k" using False by (simp add: num_bytes.simps [of n] k_def)
    have IH: "n div 256 < 128 * 256 ^ (k - 1)" "1 < k \<longrightarrow> 128 * 256 ^ (k - 2) \<le> n div 256"
      using "1" [OF False] by (simp_all add: k_def)
    from k obtain k' where k': "k = Suc k'" by (cases k) auto
    have "n < 128 * 256 ^ k"
      using IH(1) by (simp add: k' div_less_iff_less_mult algebra_simps)
    moreover have "128 * 256 ^ (k - 1) \<le> n"
    proof (cases k')
      case 0
      then show ?thesis using False k' by simp
    next
      case (Suc k'')
      then show ?thesis using IH(2) k' by (simp add: less_eq_div_iff_mult_less_eq algebra_simps)
    qed
    ultimately show ?thesis by (simp add: nk)
  qed
qed

lemma num_bytes_le_8: "num_bytes n \<le> 8 \<longleftrightarrow> n < 2 ^ 63"
proof
  assume "num_bytes n \<le> 8"
  then have "(256 :: nat) ^ (num_bytes n - 1) \<le> 256 ^ 7" by (intro power_increasing) auto
  then have "128 * 256 ^ (num_bytes n - 1) \<le> (2 :: nat) ^ 63" by simp
  then show "n < 2 ^ 63" using num_bytes_bounds [of n] by linarith
next
  assume n: "n < 2 ^ 63"
  show "num_bytes n \<le> 8"
  proof (rule ccontr)
    assume "\<not> num_bytes n \<le> 8"
    then have "7 \<le> num_bytes n - 2" and "1 < num_bytes n" by linarith+
    then have "(256 :: nat) ^ 7 \<le> 256 ^ (num_bytes n - 2)" and "1 < num_bytes n"
      by (simp_all only: power_increasing)
    then show False using num_bytes_bounds [of n] n by simp
  qed
qed

lemma serialize_number_loop_eq:
  "1 \<le> l \<Longrightarrow> l \<le> length buff \<Longrightarrow> serialize_number_loop buff l n =
     (if l + num_bytes (unat n) \<le> length buff
      then Inr ((take l buff)[0 := word_of_nat (l + num_bytes (unat n) - 1)] @ le_bytes (num_bytes (unat n)) (unat n))
      else Inl (Panic ''index out of range''))"
proof (induction buff l n rule: serialize_number_loop.induct)
  case (1 buff l n)
  show ?case
  proof (cases "0x7f < n")
    case True
    then have "\<not> unat n \<le> 0x7f" by (simp add: word_less_nat_alt)
    then have nb: "num_bytes (unat n) = Suc (num_bytes (unat n div 256))" by (simp add: num_bytes.simps [of "unat n"])
    have d: "unat (drop_bit 8 n) = unat n div 256" by (simp add: drop_bit_eq_div unat_div)
    show ?thesis
    proof (cases "l < length buff")
      case lt: True
      then have "take (Suc l) (buff[l := ucast n]) = take l buff @ [word_of_nat (unat n)]"
        by (simp add: take_Suc_conv_app_nth)
      moreover have "0 < length (take l buff)" using "1.prems" lt by simp
      ultimately show ?thesis
        using True lt "1.prems" "1.IH" [OF True lt]
        by (subst serialize_number_loop.simps) (simp add: nb d list_update_append)
    next
      case False
      with True "1.prems" show ?thesis
        by (subst serialize_number_loop.simps) (simp add: nb)
    qed
  next
    case False
    then have "unat n \<le> 0x7f" by (simp add: word_less_nat_alt)
    then have nb: "num_bytes (unat n) = 1" by (simp add: num_bytes.simps [of "unat n"])
    show ?thesis
    proof (cases "l < length buff")
      case True
      then have "take (l + 1) ((buff[0 := word_of_nat l])[l := ucast n]) =
          (take l buff)[0 := word_of_nat l] @ [word_of_nat (unat n)]"
        using "1.prems" by (simp add: take_Suc_conv_app_nth take_update_swap list_update_append)
      with True False nb show ?thesis by (subst serialize_number_loop.simps) simp
    next
      case False': False
      with False nb "1.prems" show ?thesis by (subst serialize_number_loop.simps) simp
    qed
  qed
qed

lemma SerializeNumber_eq:
  "\<not> (1 \<le> n \<and> n \<le> 16) \<Longrightarrow> SerializeNumber n =
     (if unat n < 2 ^ 63
      then Inr (word_of_nat (num_bytes (unat n)) # le_bytes (num_bytes (unat n)) (unat n))
      else Inl (Panic ''index out of range''))"
  using num_bytes_le_8 [of "unat n"]
  by (auto simp: SerializeNumber_def serialize_number_loop_eq)

subsection \<open>Ranges\<close>

lemma ceil_div_step: "0 < (s :: int) \<Longrightarrow> 0 < d \<Longrightarrow> (d + s - 1) div s = (d - s + s - 1) div s + 1"
  using div_add_self1 [of s "d - 1"] by (simp add: algebra_simps)

lemma ceil_div_nonneg: "0 < (s :: int) \<Longrightarrow> 0 < d \<Longrightarrow> 0 \<le> (d - s + s - 1) div s"
  by (simp add: pos_imp_zdiv_nonneg_iff)

lemma ceil_div_neg: "0 < (s :: int) \<Longrightarrow> d \<le> 0 \<Longrightarrow> nat ((d + s - 1) div s) = 0"
proof -
  assume "0 < s" "d \<le> 0"
  then have "(d + s - 1) div s \<le> (s - 1) div s" by (intro zdiv_mono1) auto
  also have "\<dots> = 0" using \<open>0 < s\<close> by (simp add: div_pos_pos_trivial)
  finally show ?thesis by simp
qed

lemma map_upt_shift: "map f [0..<Suc n] = f 0 # map (\<lambda>k. f (Suc k)) [0..<n]"
  by (simp add: upt_conv_Cons del: upt_Suc flip: map_Suc_upt)

lemma range_loop_pos:
  "0 < step \<Longrightarrow> range_loop i stop step r =
     Some (r @ map (\<lambda>k. i + int k * step) [0..<nat ((stop - i + step - 1) div step)])"
proof (induction "nat (stop - i)" arbitrary: i r rule: less_induct)
  case less
  show ?case
  proof (cases "i < stop")
    case True
    define m where "m = (stop - (i + step) + step - 1) div step"
    have eq: "(stop - i + step - 1) div step = m + 1"
      unfolding m_def using less.prems True by (subst ceil_div_step) (auto simp: algebra_simps)
    have "0 \<le> m" unfolding m_def using ceil_div_nonneg [of step "stop - i"] less.prems True
      by (simp add: algebra_simps)
    then have nm: "nat (m + 1) = Suc (nat m)" by simp
    have "range_loop (i + step) stop step (r @ [i]) =
        Some ((r @ [i]) @ map (\<lambda>k. (i + step) + int k * step) [0..<nat m])"
      unfolding m_def by (rule less.hyps) (use True less.prems in auto)
    moreover have "map (\<lambda>k. i + int k * step) [0..<Suc (nat m)] = i # map (\<lambda>k. (i + step) + int k * step) [0..<nat m]"
      by (subst map_upt_shift) (simp add: algebra_simps)
    ultimately show ?thesis
      using less.prems True by (subst range_loop.simps) (simp add: eq nm del: upt_Suc)
  next
    case False
    then show ?thesis
      using less.prems ceil_div_neg [of step "stop - i"] by (subst range_loop.simps) simp
  qed
qed

lemma range_loop_neg:
  "step < 0 \<Longrightarrow> range_loop i stop step r =
     Some (r @ map (\<lambda>k. i + int k * step) [0..<nat ((i - stop - step - 1) div - step)])"
proof (induction "nat (i - stop)" arbitrary: i r rule: less_induct)
  case less
  show ?case
  proof (cases "i > stop")
    case True
    define m where "m = (i + step - stop - step - 1) div - step"
    have eq: "(i - stop - step - 1) div - step = m + 1"
      unfolding m_def using less.prems True ceil_div_step [of "- step" "i - stop"]
      by (simp add: algebra_simps)
    have "0 \<le> m" unfolding m_def using ceil_div_nonneg [of "- step" "i - stop"] less.prems True
      by (simp add: algebra_simps)
    then have nm: "nat (m + 1) = Suc (nat m)" by simp
    have "range_loop (i + step) stop step (r @ [i]) =
        Some ((r @ [i]) @ map (\<lambda>k. (i + step) + int k * step) [0..<nat m])"
      unfolding m_def by (rule less.hyps) (use True less.prems in auto)
    moreover have "map (\<lambda>k. i + int k * step) [0..<Suc (nat m)] = i # map (\<lambda>k. (i + step) + int k * step) [0..<nat m]"
      by (subst map_upt_shift) (simp add: algebra_simps)
    ultimately show ?thesis
      using less.prems True by (subst range_loop.simps) (simp add: eq nm del: upt_Suc)
  next
    case False
    then show ?thesis
      using less.prems ceil_div_neg [of "- step" "i - stop"] by (subst range_loop.simps) simp
  qed
qed

lemma range_loop_diverges: "range_loop i stop step r = Some res \<Longrightarrow> \<not> (step = 0 \<and> stop < i)"
proof (rule range_loop.raw_induct [where P = "\<lambda>i stop step r res. \<not> (step = 0 \<and> stop < i)"])
  fix f :: "int \<Rightarrow> int \<Rightarrow> int \<Rightarrow> int list \<Rightarrow> int list option" and i stop step :: int and r res
  assume IH: "\<And>i stop step r res. f i stop step r = Some res \<Longrightarrow> \<not> (step = 0 \<and> stop < i)"
    and eq: "(if step > 0 then (if i < stop then f (i + step) stop step (r @ [i]) else Some r)
              else (if i > stop then f (i + step) stop step (r @ [i]) else Some r)) = Some res"
  show "\<not> (step = 0 \<and> stop < i)"
  proof
    assume "step = 0 \<and> stop < i"
    with eq have "f (i + 0) stop 0 (r @ [i]) = Some res" by auto
    from IH [OF this] \<open>step = 0 \<and> stop < i\<close> show False by simp
  qed
qed

lemma Range_2:
  "2 \<le> n \<Longrightarrow> Range 2 (int n) 2 = Some (map (\<lambda>k. 2 + int k * 2) [0..<(n - 1) div 2])"
proof -
  assume n: "2 \<le> n"
  have "nat ((int n - 2 + 2 - 1) div 2) = (n - 1) div 2"
    using n by (simp add: nat_div_distrib)
  then show ?thesis using n by (auto simp: Range_def range_loop_pos)
qed

subsection \<open>Properties\<close>

text \<open>
  The compact-size encoding is self-delimiting: whatever bytes follow, the Bitcoin
  reader recovers exactly the number that \<open>VarIntBytes\<close> wrote and leaves the rest. This
  covers all four widths up to the full \<open>uint64\<close> range.
\<close>

theorem VarIntBytes_roundtrip: "read_compact (VarIntBytes n @ rest) = Some (unat n, rest)"
  by (rule read_compact_VarIntBytes)

text \<open>
  \<open>SerializeNumber\<close> on numbers outside the one-byte opcodes 1..16: below \<open>2 ^ 63\<close> it
  returns the byte count \<open>k\<close> followed by the \<open>k\<close> little-endian bytes of the number, where
  \<open>k\<close> is the least count that keeps the sign bit of the last byte clear (the minimal
  script number of BIP 34); from \<open>2 ^ 63\<close> on it runs off its nine-byte buffer and panics.
\<close>

theorem SerializeNumber_minimal:
  assumes "n = 0 \<or> 16 < n"
  shows "if unat n < 2 ^ 63
         then \<exists>k. SerializeNumber n = Inr (word_of_nat k # le_bytes k (unat n)) \<and> 1 \<le> k \<and> k \<le> 8 \<and>
                unat n < 128 * 256 ^ (k - 1) \<and> (1 < k \<longrightarrow> 128 * 256 ^ (k - 2) \<le> unat n)
         else SerializeNumber n = Inl (Panic ''index out of range'')"
proof -
  have "\<not> (1 \<le> n \<and> n \<le> 16)" using assms by auto
  note eq = SerializeNumber_eq [OF this]
  show ?thesis
    using num_bytes_bounds [of "unat n"] num_bytes_le_8 [of "unat n"] num_bytes_pos [of "unat n"]
    by (auto simp: eq Suc_le_eq)
qed

theorem SerializeNumber_minimal_witness:
  "(16 :: u64) < 500000 \<and>
   (\<exists>k. SerializeNumber 500000 = Inr (word_of_nat k # le_bytes k (unat (500000 :: u64))) \<and> 1 \<le> k \<and> k \<le> 8)"
  using SerializeNumber_minimal [of 500000] by auto

text \<open>
  \<open>Range\<close> is exactly the half-open arithmetic progression its comment promises, for
  either sign of the step; it fails to return precisely when the step is zero and the
  start lies above the stop.
\<close>

theorem Range_total:
  "Range start stop step =
     (if step = 0 then (if stop < start then None else Some [])
      else if 0 < step
      then Some (map (\<lambda>k. start + int k * step) [0..<nat ((stop - start + step - 1) div step)])
      else Some (map (\<lambda>k. start + int k * step) [0..<nat ((start - stop - step - 1) div - step)]))"
proof -
  consider "0 < step" | "step < 0" | "step = 0" "stop < start" | "step = 0" "start \<le> stop" by linarith
  then show ?thesis
  proof cases
    case 1
    then show ?thesis
      using ceil_div_neg [of step "stop - start"] by (auto simp: Range_def range_loop_pos)
  next
    case 2
    then show ?thesis
      using ceil_div_neg [of "- step" "start - stop"] by (auto simp: Range_def range_loop_neg)
  next
    case 3
    then have "range_loop start stop step [] = None"
      using range_loop_diverges by (metis not_None_eq)
    with 3 show ?thesis by (simp add: Range_def)
  next
    case 4
    then show ?thesis by (simp add: Range_def range_loop.simps)
  qed
qed

text \<open>
  \<open>ReverseByteOrder\<close> of a 32-byte hash reverses the order of its eight 4-byte words
  and keeps the bytes of each word (the layout Stratum wants for the previous block
  hash).
\<close>

theorem ReverseByteOrder_words:
  assumes "length ws = 8" "\<forall>w \<in> set ws. length w = 4"
  shows "ReverseByteOrder (concat ws) = Inr (concat (rev ws))"
  using assms by (rule ReverseByteOrder_concat)

theorem ReverseByteOrder_words_witness:
  "ReverseByteOrder (concat (map (\<lambda>i. replicate 4 (word_of_nat i)) [0..<8])) =
   Inr (concat (rev (map (\<lambda>i. replicate 4 (word_of_nat i)) [0..<8])))"
  by (rule ReverseByteOrder_words) auto

end
