(* ===== verification/Algorithm.thy ===== *)
theory Algorithm
  imports Utils
begin

text \<open>
  \<open>algorithm/algorithm.go\<close>: the registry of header hash functions. The proof-of-work
  functions of third-party packages are the fields of \<open>hash_libs\<close>; scrypt, X11 and Groestl
  are called through the wrappers the source defines, Keccak, Lyra2REv2 and Verthash appear
  as the function their wrapper returns when the package reports no error.
\<close>

type_synonym hash_func = "bytes \<Rightarrow> bytes"

record hash_libs =
  hl_scrypt_Key :: "bytes \<Rightarrow> bytes \<Rightarrow> nat \<Rightarrow> nat \<Rightarrow> nat \<Rightarrow> nat \<Rightarrow> bytes"
  hl_x11_Hash :: "bytes \<Rightarrow> bytes \<Rightarrow> bytes"
  hl_keccak256 :: "bytes \<Rightarrow> bytes"
  hl_groestl512 :: "bytes \<Rightarrow> bytes"
  hl_lyra2rev2 :: "bytes \<Rightarrow> bytes"
  hl_verthash :: "bytes \<Rightarrow> bytes"

definition MaxTargetTruncated :: int where
  "MaxTargetTruncated = 0xFFFF * 2 ^ 208"

definition MaxTarget :: int where
  "MaxTarget = 2 ^ 224 - 1"

definition ScryptHash :: "hash_libs \<Rightarrow> hash_func" where
  "ScryptHash hl data = hl_scrypt_Key hl data data 1024 1 1 32"

definition X11Hash :: "hash_libs \<Rightarrow> hash_func" where
  "X11Hash hl data = hl_x11_Hash hl data (replicate 32 0)"

definition Sha256Hash :: hash_func where
  "Sha256Hash b = Sha256 b"

definition DoubleSha256Hash :: hash_func where
  "DoubleSha256Hash b = Sha256d b"

definition KeccakHash :: "hash_libs \<Rightarrow> hash_func" where
  "KeccakHash hl b = hl_keccak256 hl b"

definition GroestlHash :: "hash_libs \<Rightarrow> hash_func" where
  "GroestlHash hl b = (let round1 = hl_groestl512 hl b; round2 = hl_groestl512 hl round1 in take 32 round2)"

record algo_registry =
  ar_hashes :: "(string \<times> hash_func) list"
  ar_multipliers :: "(string \<times> nat) list"

definition initial_registry :: "hash_libs \<Rightarrow> algo_registry" where
  "initial_registry hl = \<lparr>
     ar_hashes = [(''sha256'', Sha256Hash), (''sha256d'', DoubleSha256Hash), (''scrypt'', ScryptHash hl),
       (''x11'', X11Hash hl), (''keccak'', KeccakHash hl), (''groestl'', GroestlHash hl),
       (''lyra2rev2'', hl_lyra2rev2 hl), (''verthash'', hl_verthash hl)],
     ar_multipliers = [(''sha256'', 0), (''sha256d'', 0), (''scrypt'', 16), (''x11'', 30), (''keccak'', 8),
       (''groestl'', 8), (''lyra2rev2'', 8), (''verthash'', 8)]\<rparr>"

text \<open>Writing a Go map entry (an existing key is overwritten, a new one added), and \<open>delete\<close>.\<close>

fun map_put :: "'k \<Rightarrow> 'v \<Rightarrow> ('k \<times> 'v) list \<Rightarrow> ('k \<times> 'v) list" where
  "map_put k v [] = [(k, v)]"
| "map_put k v ((k', v') # r) = (if k' = k then (k, v) # r else (k', v') # map_put k v r)"

definition map_delete :: "'k \<Rightarrow> ('k \<times> 'v) list \<Rightarrow> ('k \<times> 'v) list" where
  "map_delete k m = filter (\<lambda>(k', _). k' \<noteq> k) m"

definition RegisterHash :: "string \<Rightarrow> nat \<Rightarrow> hash_func \<Rightarrow> algo_registry \<Rightarrow> algo_registry" where
  "RegisterHash name defaultMultiplier fn ar =
     (let key = to_lower name
      in ar\<lparr>ar_hashes := map_put key fn (ar_hashes ar),
           ar_multipliers := map_put key defaultMultiplier (ar_multipliers ar)\<rparr>)"

definition IsSupported :: "algo_registry \<Rightarrow> string \<Rightarrow> bool" where
  "IsSupported ar hashName = (map_of (ar_hashes ar) (to_lower hashName) \<noteq> None)"

definition SupportedAlgorithms :: "algo_registry \<Rightarrow> string list" where
  "SupportedAlgorithms ar = map fst (ar_hashes ar)"

definition DefaultMultiplier :: "algo_registry \<Rightarrow> string \<Rightarrow> nat" where
  "DefaultMultiplier ar hashName =
     (case map_of (ar_multipliers ar) (to_lower hashName) of Some m \<Rightarrow> m | None \<Rightarrow> 0)"

definition GetHashFunc :: "algo_registry \<Rightarrow> string \<Rightarrow> hash_func res" where
  "GetHashFunc ar hashName =
     (case map_of (ar_hashes ar) (to_lower hashName) of
        Some fn \<Rightarrow> Inr fn
      | None \<Rightarrow> Inl (Panic ''not officially supported yet''))"

lemma map_of_map_put [simp]: "map_of (map_put k v m) = (map_of m)(k \<mapsto> v)"
  by (induction k v m rule: map_put.induct) (auto simp: fun_eq_iff)

text \<open>
  Algorithm names are matched without regard to case. After registering a hash function
  under a name, the name in any letter case resolves to that function and its multiplier,
  every other name resolves as before, and \<open>GetHashFunc\<close> panics exactly on the names that
  \<open>IsSupported\<close> denies.
\<close>

theorem RegisterHash_lookup:
  "GetHashFunc (RegisterHash name m fn ar) n =
     (if to_lower n = to_lower name then Inr fn else GetHashFunc ar n) \<and>
   DefaultMultiplier (RegisterHash name m fn ar) n =
     (if to_lower n = to_lower name then m else DefaultMultiplier ar n) \<and>
   IsSupported ar n = is_ok (GetHashFunc ar n)"
  by (auto simp: GetHashFunc_def RegisterHash_def Let_def DefaultMultiplier_def IsSupported_def split: option.splits)

end
