(* ===== verification/Redis.thy ===== *)
theory Redis
  imports GoStrconv Algorithm
begin

text \<open>
  The Redis service as the pool uses it. A client is the record \<open>'r redis\<close>: how a command, a
  pipeline and a MULTI/EXEC transaction act on the server's state, each of which may fail. What
  the pool relies on is the locale \<open>redis_store\<close>: through a view of the state as a keyspace,
  a command that answers has its documented effect and reply (\<open>redis_sem\<close>), one that
  fails has it or has none, a pipeline applies its commands in order and may stop early, a
  transaction applies all of its commands or none. A client that stops answering for good is
  also what a crash of the pool looks like from the outside.

  How the server prints the result of HINCRBYFLOAT is the parameter \<open>hif\<close>. The
  in-memory server \<open>mem_redis\<close> shows that the laws can hold.
\<close>

datatype redis_cmd =
    Ping
  | Get string
  | SetKey string string
  | Incr string
  | Del string
  | Rename string string
  | SAdd string string
  | SMembers string
  | SMove string string string
  | HGet string string
  | HGetAll string
  | HSet string "(string \<times> string) list"
  | HIncrBy string string int
  | HIncrByFloat string string f64
  | ZAdd string f64 string
  | ZRange string int int
  | ZRemRangeByRank string int int
  | ZRemRangeByScore string string string
  | ZRevRangeByScore string string string
  | ZRangeByScoreWithScores string string string

datatype redis_reply =
    RErr
  | RNil
  | RStatus string
  | RInt int
  | RStr string
  | RList "string list"
  | RMap "(string \<times> string) list"
  | RScored "(string \<times> f64) list"

record 'r redis =
  rd_do :: "redis_cmd \<Rightarrow> 'r \<Rightarrow> redis_reply \<times> 'r"
  rd_pipeline :: "redis_cmd list \<Rightarrow> 'r \<Rightarrow> bool \<times> 'r"
  rd_tx :: "redis_cmd list \<Rightarrow> 'r \<Rightarrow> bool \<times> 'r"

text \<open>
  The values of the keyspace. Sorted sets are kept in the order Redis lists them, by score and
  then by member.
\<close>

datatype rvalue =
    Absent
  | Text string
  | Members "string list"
  | Fields "(string \<times> string) list"
  | Scored "(string \<times> f64) list"

type_synonym keyspace = "string \<Rightarrow> rvalue"

fun str_less :: "string \<Rightarrow> string \<Rightarrow> bool" where
  "str_less [] [] = False"
| "str_less [] (y # ys) = True"
| "str_less (x # xs) [] = False"
| "str_less (x # xs) (y # ys) =
     (if (of_char x :: nat) < of_char y then True else if x = y then str_less xs ys else False)"

fun zinsert :: "string \<Rightarrow> f64 \<Rightarrow> (string \<times> f64) list \<Rightarrow> (string \<times> f64) list" where
  "zinsert m s [] = [(m, s)]"
| "zinsert m s ((m', s') # r) =
     (if f64_less s' s \<or> (f64_eq s' s \<and> str_less m' m) then (m', s') # zinsert m s r
      else (m, s) # (m', s') # r)"

definition zadd :: "string \<Rightarrow> f64 \<Rightarrow> (string \<times> f64) list \<Rightarrow> (string \<times> f64) list" where
  "zadd m s z = zinsert m s (filter (\<lambda>(m', _). m' \<noteq> m) z)"

text \<open>The half-open range of list positions that a start and a stop index (negative ones count from the end) denote.\<close>

definition rank_range :: "nat \<Rightarrow> int \<Rightarrow> int \<Rightarrow> nat \<times> nat" where
  "rank_range n start stop =
     (let a = max 0 (if start < 0 then int n + start else start);
          b = min (int n - 1) (if stop < 0 then int n + stop else stop)
      in if b < a then (0, 0) else (nat a, nat (b + 1)))"

definition range_get :: "int \<Rightarrow> int \<Rightarrow> 'a list \<Rightarrow> 'a list" where
  "range_get start stop z = (case rank_range (length z) start stop of (a, b) \<Rightarrow> take (b - a) (drop a z))"

definition range_del :: "int \<Rightarrow> int \<Rightarrow> 'a list \<Rightarrow> 'a list" where
  "range_del start stop z = (case rank_range (length z) start stop of (a, b) \<Rightarrow> take a z @ drop b z)"

text \<open>Score bounds are text; a leading parenthesis excludes the bound itself.\<close>

definition above :: "string \<Rightarrow> f64 \<Rightarrow> bool" where
  "above mn s =
     (case mn of
        CHR ''('' # t \<Rightarrow> (case parse_f64 t of Some b \<Rightarrow> f64_less b s | None \<Rightarrow> False)
      | _ \<Rightarrow> (case parse_f64 mn of Some b \<Rightarrow> f64_le b s | None \<Rightarrow> False))"

definition below :: "string \<Rightarrow> f64 \<Rightarrow> bool" where
  "below mx s =
     (case mx of
        CHR ''('' # t \<Rightarrow> (case parse_f64 t of Some b \<Rightarrow> f64_less s b | None \<Rightarrow> False)
      | _ \<Rightarrow> (case parse_f64 mx of Some b \<Rightarrow> f64_le s b | None \<Rightarrow> False))"

definition fields_put :: "(string \<times> string) list \<Rightarrow> (string \<times> string) list \<Rightarrow> (string \<times> string) list" where
  "fields_put kvs h = foldl (\<lambda>h (k, v). map_put k v h) h kvs"

type_synonym float_incr = "string option \<Rightarrow> f64 \<Rightarrow> string option"

text \<open>The documented reply and effect of each command; a key of the wrong type is an error without effect.\<close>

fun redis_sem :: "float_incr \<Rightarrow> redis_cmd \<Rightarrow> keyspace \<Rightarrow> redis_reply \<times> keyspace" where
  "redis_sem hif Ping ks = (RStatus ''PONG'', ks)"
| "redis_sem hif (Get k) ks = (case ks k of Text v \<Rightarrow> (RStr v, ks) | Absent \<Rightarrow> (RNil, ks) | _ \<Rightarrow> (RErr, ks))"
| "redis_sem hif (SetKey k v) ks = (RStatus ''OK'', ks(k := Text v))"
| "redis_sem hif (Incr k) ks =
     (case ks k of
        Absent \<Rightarrow> (RInt 1, ks(k := Text (fmt_int 1)))
      | Text v \<Rightarrow> (case parse_int 10 v of (n, ok) \<Rightarrow>
                    if ok \<and> n < 2 ^ 63 - 1 then (RInt (n + 1), ks(k := Text (fmt_int (n + 1)))) else (RErr, ks))
      | _ \<Rightarrow> (RErr, ks))"
| "redis_sem hif (Del k) ks = (RInt (if ks k = Absent then 0 else 1), ks(k := Absent))"
| "redis_sem hif (Rename k k') ks = (if ks k = Absent then (RErr, ks) else (RStatus ''OK'', ks(k := Absent, k' := ks k)))"
| "redis_sem hif (SAdd k m) ks =
     (case ks k of
        Absent \<Rightarrow> (RInt 1, ks(k := Members [m]))
      | Members ms \<Rightarrow> if m \<in> set ms then (RInt 0, ks) else (RInt 1, ks(k := Members (ms @ [m])))
      | _ \<Rightarrow> (RErr, ks))"
| "redis_sem hif (SMembers k) ks = (case ks k of Absent \<Rightarrow> (RList [], ks) | Members ms \<Rightarrow> (RList ms, ks) | _ \<Rightarrow> (RErr, ks))"
| "redis_sem hif (SMove src dst m) ks =
     (case ks src of
        Absent \<Rightarrow> (RInt 0, ks)
      | Members ms \<Rightarrow>
          (case ks dst of
             Absent \<Rightarrow> if m \<in> set ms then (RInt 1, ks(src := Members (remove1 m ms), dst := Members [m])) else (RInt 0, ks)
           | Members ds \<Rightarrow>
               if m \<in> set ms
               then (RInt 1, ks(src := Members (remove1 m ms), dst := Members (if m \<in> set ds then ds else ds @ [m])))
               else (RInt 0, ks)
           | _ \<Rightarrow> (RErr, ks))
      | _ \<Rightarrow> (RErr, ks))"
| "redis_sem hif (HGet k f) ks =
     (case ks k of
        Absent \<Rightarrow> (RNil, ks)
      | Fields h \<Rightarrow> (case map_of h f of Some v \<Rightarrow> (RStr v, ks) | None \<Rightarrow> (RNil, ks))
      | _ \<Rightarrow> (RErr, ks))"
| "redis_sem hif (HGetAll k) ks = (case ks k of Absent \<Rightarrow> (RMap [], ks) | Fields h \<Rightarrow> (RMap h, ks) | _ \<Rightarrow> (RErr, ks))"
| "redis_sem hif (HSet k kvs) ks =
     (case ks k of
        Absent \<Rightarrow> (RInt 0, ks(k := Fields (fields_put kvs [])))
      | Fields h \<Rightarrow> (RInt 0, ks(k := Fields (fields_put kvs h)))
      | _ \<Rightarrow> (RErr, ks))"
| "redis_sem hif (HIncrBy k f d) ks =
     (case ks k of
        Absent \<Rightarrow> (RInt d, ks(k := Fields [(f, fmt_int d)]))
      | Fields h \<Rightarrow>
          (case map_of h f of
             None \<Rightarrow> (RInt d, ks(k := Fields (map_put f (fmt_int d) h)))
           | Some v \<Rightarrow> (case parse_int 10 v of (n, ok) \<Rightarrow>
               if ok \<and> - (2 ^ 63) \<le> n + d \<and> n + d < 2 ^ 63 then (RInt (n + d), ks(k := Fields (map_put f (fmt_int (n + d)) h)))
               else (RErr, ks)))
      | _ \<Rightarrow> (RErr, ks))"
| "redis_sem hif (HIncrByFloat k f d) ks =
     (case ks k of
        Absent \<Rightarrow> (case hif None d of Some v \<Rightarrow> (RStr v, ks(k := Fields [(f, v)])) | None \<Rightarrow> (RErr, ks))
      | Fields h \<Rightarrow>
          (case hif (map_of h f) d of Some v \<Rightarrow> (RStr v, ks(k := Fields (map_put f v h))) | None \<Rightarrow> (RErr, ks))
      | _ \<Rightarrow> (RErr, ks))"
| "redis_sem hif (ZAdd k s m) ks =
     (case ks k of
        Absent \<Rightarrow> (RInt 1, ks(k := Scored [(m, s)]))
      | Scored z \<Rightarrow> (RInt (if m \<in> fst ` set z then 0 else 1), ks(k := Scored (zadd m s z)))
      | _ \<Rightarrow> (RErr, ks))"
| "redis_sem hif (ZRange k a b) ks =
     (case ks k of Absent \<Rightarrow> (RList [], ks) | Scored z \<Rightarrow> (RList (map fst (range_get a b z)), ks) | _ \<Rightarrow> (RErr, ks))"
| "redis_sem hif (ZRemRangeByRank k a b) ks =
     (case ks k of
        Absent \<Rightarrow> (RInt 0, ks)
      | Scored z \<Rightarrow> (RInt (int (length (range_get a b z))), ks(k := Scored (range_del a b z)))
      | _ \<Rightarrow> (RErr, ks))"
| "redis_sem hif (ZRemRangeByScore k mn mx) ks =
     (case ks k of
        Absent \<Rightarrow> (RInt 0, ks)
      | Scored z \<Rightarrow> (RInt (int (length (filter (\<lambda>(_, s). above mn s \<and> below mx s) z))),
                     ks(k := Scored (filter (\<lambda>(_, s). \<not> (above mn s \<and> below mx s)) z)))
      | _ \<Rightarrow> (RErr, ks))"
| "redis_sem hif (ZRevRangeByScore k mx mn) ks =
     (case ks k of
        Absent \<Rightarrow> (RList [], ks)
      | Scored z \<Rightarrow> (RList (rev (map fst (filter (\<lambda>(_, s). above mn s \<and> below mx s) z))), ks)
      | _ \<Rightarrow> (RErr, ks))"
| "redis_sem hif (ZRangeByScoreWithScores k mn mx) ks =
     (case ks k of
        Absent \<Rightarrow> (RScored [], ks)
      | Scored z \<Rightarrow> (RScored (filter (\<lambda>(_, s). above mn s \<and> below mx s) z), ks)
      | _ \<Rightarrow> (RErr, ks))"

definition redis_eff :: "float_incr \<Rightarrow> redis_cmd \<Rightarrow> keyspace \<Rightarrow> keyspace" where
  "redis_eff hif c ks = snd (redis_sem hif c ks)"

definition redis_run :: "float_incr \<Rightarrow> redis_cmd list \<Rightarrow> keyspace \<Rightarrow> keyspace" where
  "redis_run hif cs ks = foldl (\<lambda>ks c. redis_eff hif c ks) ks cs"

locale redis_store =
  fixes rd :: "'r redis" and view :: "'r \<Rightarrow> keyspace" and hif :: float_incr
  assumes do_reply: "rd_do rd c r = (rep, r') \<Longrightarrow> rep \<noteq> RErr \<Longrightarrow> redis_sem hif c (view r) = (rep, view r')"
    and do_error: "rd_do rd c r = (RErr, r') \<Longrightarrow> view r' = view r \<or> view r' = redis_eff hif c (view r)"
    and pipeline_prefix: "rd_pipeline rd cs r = (ok, r') \<Longrightarrow> \<exists>n. view r' = redis_run hif (take n cs) (view r)"
    and pipeline_ok: "rd_pipeline rd cs r = (True, r') \<Longrightarrow> view r' = redis_run hif cs (view r)"
    and tx_ok: "rd_tx rd cs r = (True, r') \<Longrightarrow> view r' = redis_run hif cs (view r)"
    and tx_atomic: "rd_tx rd cs r = (False, r') \<Longrightarrow> view r' = view r \<or> view r' = redis_run hif cs (view r)"
begin

lemma do_view: "rd_do rd c r = (rep, r') \<Longrightarrow> view r' = view r \<or> view r' = redis_eff hif c (view r)"
  by (cases "rep = RErr") (auto dest: do_error do_reply simp: redis_eff_def)

lemma tx_view: "rd_tx rd cs r = (ok, r') \<Longrightarrow> view r' = view r \<or> view r' = redis_run hif cs (view r)"
  by (cases ok) (auto dest: tx_ok tx_atomic)

end

lemma redis_run_simps [simp]:
  "redis_run hif [] ks = ks" "redis_run hif (c # cs) ks = redis_run hif cs (redis_eff hif c ks)"
  by (simp_all add: redis_run_def)

lemma redis_run_append [simp]: "redis_run hif (xs @ ys) ks = redis_run hif ys (redis_run hif xs ks)"
  by (simp add: redis_run_def)

lemma redis_run_keeps:
  "(\<And>c ks. c \<in> set cs \<Longrightarrow> P ks \<Longrightarrow> P (redis_eff hif c ks)) \<Longrightarrow> P ks \<Longrightarrow> P (redis_run hif cs ks)"
  by (induction cs arbitrary: ks) auto

text \<open>An in-memory server that never fails.\<close>

definition mem_hif :: float_incr where
  "mem_hif old d =
     (case old of
        None \<Rightarrow> Some (fmt_f64 d)
      | Some v \<Rightarrow> map_option (\<lambda>x. fmt_f64 (f64_add x d)) (parse_f64 v))"

definition mem_redis :: "keyspace redis" where
  "mem_redis = \<lparr>rd_do = redis_sem mem_hif,
     rd_pipeline = (\<lambda>cs ks. (True, redis_run mem_hif cs ks)),
     rd_tx = (\<lambda>cs ks. (True, redis_run mem_hif cs ks))\<rparr>"

interpretation mem: redis_store mem_redis "\<lambda>ks. ks" mem_hif
proof (unfold_locales, goal_cases)
  case (2 c r r')
  then show ?case by (auto simp: mem_redis_def redis_eff_def)
next
  case (3 cs r ok r')
  then show ?case by (intro exI [of _ "length cs"]) (simp add: mem_redis_def)
qed (simp_all add: mem_redis_def)

text \<open>The keys a command can change.\<close>

fun touches :: "redis_cmd \<Rightarrow> string set" where
  "touches (SetKey k v) = {k}"
| "touches (Incr k) = {k}"
| "touches (Del k) = {k}"
| "touches (Rename k k') = {k, k'}"
| "touches (SAdd k m) = {k}"
| "touches (SMove k k' m) = {k, k'}"
| "touches (HSet k kvs) = {k}"
| "touches (HIncrBy k f d) = {k}"
| "touches (HIncrByFloat k f d) = {k}"
| "touches (ZAdd k s m) = {k}"
| "touches (ZRemRangeByRank k a b) = {k}"
| "touches (ZRemRangeByScore k a b) = {k}"
| "touches _ = {}"

lemma redis_eff_other [simp]: "k \<notin> touches c \<Longrightarrow> redis_eff hif c ks k = ks k"
  by (cases c) (auto simp: redis_eff_def Let_def split: rvalue.splits option.splits prod.splits if_splits)

lemma redis_run_other: "(\<And>c. c \<in> set cs \<Longrightarrow> k \<notin> touches c) \<Longrightarrow> redis_run hif cs ks k = ks k"
  by (induction cs arbitrary: ks) auto

end
