(* ===== verification/GoJson.thy ===== *)
theory GoJson
  imports GoFloat GoText
begin

text \<open>
  Go's \<open>interface{}\<close> values as \<open>encoding/json\<close> produces and consumes them, and the two
  JSON-RPC message structures of \<open>daemons/jsonrpc.go\<close>. A \<open>json.RawMessage\<close> is modelled by
  the value it encodes; an absent one (length zero) is \<open>None\<close>. Decoding a number into an
  \<open>interface{}\<close> always yields a \<open>float64\<close> (\<open>INum\<close>); \<open>IInt\<close> and \<open>IUint64\<close> are Go integers
  that the pool itself puts into a value.
\<close>

datatype iface =
    INil
  | IBool bool
  | INum f64
  | IInt int
  | IUint64 u64
  | IStr string
  | IList "iface list"
  | IMap "(string \<times> iface) list"

record rpc_error =
  re_Code :: int
  re_Message :: string

record rpc_request =
  rq_Id :: iface
  rq_Method :: string
  rq_Params :: "iface option"

record rpc_response =
  rs_Id :: iface
  rs_Result :: "iface option"
  rs_Error :: "rpc_error option"

text \<open>
  \<open>ParamsArray\<close> is nil for object params, malformed input, an absent value and a JSON null
  (a nil slice has length zero and is the empty list here).
\<close>

definition ParamsArray :: "rpc_request \<Rightarrow> iface list" where
  "ParamsArray j = (case rq_Params j of Some (IList arr) \<Rightarrow> arr | _ \<Rightarrow> [])"

definition MarshalParams :: "iface list \<Rightarrow> iface" where
  "MarshalParams values = IList values"

definition RawJsonToString :: "iface \<Rightarrow> string" where
  "RawJsonToString raw = (case raw of IStr str \<Rightarrow> str | _ \<Rightarrow> '''')"

definition rawParamsToIface :: "iface option \<Rightarrow> iface list" where
  "rawParamsToIface raw =
     (case raw of
        None \<Rightarrow> []
      | Some (IList arr) \<Rightarrow> arr
      | Some (IMap obj) \<Rightarrow> [IMap obj]
      | Some _ \<Rightarrow> [])"

end
