(* ===== verification/Transactions.thy ===== *)
theory Transactions
  imports Algorithm GoJson
begin

text \<open>
  The coinbase transaction: \<open>transactions/transactions.go\<close>, the block template of
  \<open>daemons/getblocktemplate.go\<close> it reads and the recipients of \<open>config/payment.go\<close> it pays.
  The current time is an argument. The address decoders of third-party packages are the
  fields of \<open>address_libs\<close>.
\<close>

record address_libs =
  al_b58 :: "string \<Rightarrow> bytes option"
  al_bech32 :: "string \<Rightarrow> bytes option"
  al_convert_bits :: "bytes \<Rightarrow> bytes option"

record recipient =
  rc_Address :: string
  rc_Type :: string
  rc_Percent :: f64
  rc_script :: "bytes option"

text \<open>
  \<open>Recipient.GetScript\<close> returns the script (\<open>None\<close> is Go's nil, which has length zero) and
  the recipient with its memo field written.
\<close>

definition GetScript :: "address_libs \<Rightarrow> recipient \<Rightarrow> (bytes option \<times> recipient) res" where
  "GetScript al r =
     (case rc_script r of
        Some s \<Rightarrow> Inr (Some s, r)
      | None \<Rightarrow>
          (let ty = to_lower (rc_Type r); addr = rc_Address r;
               store = (\<lambda>m. rbind m (\<lambda>s. Inr (Some s, r\<lparr>rc_script := Some s\<rparr>)))
           in if ty = ''p2sh'' then store (P2SHAddressToScript (al_b58 al) addr)
              else if ty = ''p2pkh'' then store (P2PKHAddressToScript (al_b58 al) addr)
              else if ty = ''p2wsh'' then store (P2WSHAddressToScript (al_bech32 al) (al_convert_bits al) addr)
              else if ty = ''pk'' \<or> ty = ''publickey'' then store (PublicKeyToScript addr)
              else if ty = ''script'' then store (ScriptPubKeyToScript addr)
              else Inr (None, r)))"

text \<open>
  The memo is transparent: a second call returns what the first returned. The callers below
  therefore use the script only.
\<close>

lemma GetScript_memo:
  "GetScript al r = Inr (s, r') \<Longrightarrow> GetScript al r' = Inr (s, r')"
  by (cases "rc_script r"; cases "rc_script r'") (auto simp: GetScript_def Let_def rbind_eq_Inr split: if_splits)

definition recipient_script :: "address_libs \<Rightarrow> recipient \<Rightarrow> bytes res" where
  "recipient_script al r =
     rbind (GetScript al r) (\<lambda>(s, _). Inr (case s of Some b \<Rightarrow> b | None \<Rightarrow> []))"

text \<open>\<open>MasternodeParams\<close> and \<open>SuperblockParams\<close> have the same fields.\<close>

record payee_params =
  pp_Payee :: string
  pp_Script :: string
  pp_Amount :: u64

record tx_params =
  tx_Data :: string
  tx_Hash :: string
  tx_TxId :: string

record block_template =
  gbt_Version :: u32
  gbt_Bits :: string
  gbt_CurTime :: u32
  gbt_Height :: int
  gbt_PreviousBlockHash :: string
  gbt_Transactions :: "tx_params list"
  gbt_CoinbaseAuxFlags :: string
  gbt_CoinbaseValue :: u64
  gbt_DefaultWitnessCommitment :: string
  gbt_Target :: string
  gbt_Masternode :: "payee_params list"
  gbt_Superblock :: "payee_params list"
  gbt_CoinbasePayload :: string
  gbt_Votes :: "string list"
  gbt_MasternodePayments :: iface
  gbt_Payee :: iface
  gbt_PayeeAmount :: iface

definition payee_script :: "address_libs \<Rightarrow> payee_params \<Rightarrow> bytes res" where
  "payee_script al p =
     (if 0 < length (pp_Script p) then Inr (fst (hex_decode (pp_Script p)))
      else P2PKHAddressToScript (al_b58 al) (pp_Payee p))"

text \<open>
  The output loops carry the reward left to share, the pool's part of it and the output
  buffers written so far.
\<close>

fun masternode_outputs :: "address_libs \<Rightarrow> payee_params list \<Rightarrow> u64 \<times> u64 \<times> bytes list \<Rightarrow> (u64 \<times> u64 \<times> bytes list) res" where
  "masternode_outputs al [] st = Inr st"
| "masternode_outputs al (p # ps) (reward, rewardToPool, bufs) =
     (let payeeReward = pp_Amount p in
      rbind (payee_script al p) (\<lambda>payeeScript.
        masternode_outputs al ps
          (reward - payeeReward, rewardToPool - payeeReward,
           bufs @ [PackUint64BE payeeReward @ VarIntBytes (word_of_nat (length payeeScript))])))"

fun superblock_outputs :: "address_libs \<Rightarrow> payee_params list \<Rightarrow> u64 \<times> u64 \<times> bytes list \<Rightarrow> (u64 \<times> u64 \<times> bytes list) res" where
  "superblock_outputs al [] st = Inr st"
| "superblock_outputs al (p # ps) (reward, rewardToPool, bufs) =
     (let payeeReward = pp_Amount p in
      rbind (payee_script al p) (\<lambda>payeeScript.
        superblock_outputs al ps
          (reward - payeeReward, rewardToPool - payeeReward,
           bufs @ [PackUint64LE payeeReward @ VarIntBytes (word_of_nat (length payeeScript)) @ payeeScript])))"

definition payee_output :: "address_libs \<Rightarrow> iface \<Rightarrow> iface \<Rightarrow> u64 \<times> u64 \<times> bytes list \<Rightarrow> (u64 \<times> u64 \<times> bytes list) res" where
  "payee_output al payee payeeAmount st =
     (case st of (reward, rewardToPool, bufs) \<Rightarrow>
        if payee = INil then Inr st
        else
          rbind (if payeeAmount \<noteq> INil
                 then (case payeeAmount of IUint64 a \<Rightarrow> Inr a | _ \<Rightarrow> Inl (Panic ''interface conversion''))
                 else Inr (f64_to_u64 (f64_ceil (f64_div (f64_of_u64 reward) (Fin 5))))) (\<lambda>payeeReward.
          rbind (case payee of IStr a \<Rightarrow> P2PKHAddressToScript (al_b58 al) a | _ \<Rightarrow> Inl (Panic ''interface conversion'')) (\<lambda>payeeScript.
            Inr (reward - payeeReward, rewardToPool - payeeReward,
                 bufs @ [PackUint64LE payeeReward @ VarIntBytes (word_of_nat (length payeeScript)) @ payeeScript]))))"

text \<open>The part of a recipient: \<open>uint64(math.Floor(Percent * float64(reward)))\<close>.\<close>

definition recipient_reward :: "u64 \<Rightarrow> recipient \<Rightarrow> u64" where
  "recipient_reward reward r = f64_to_u64 (f64_floor (f64_mul (rc_Percent r) (f64_of_u64 reward)))"

fun recipient_outputs :: "address_libs \<Rightarrow> u64 \<Rightarrow> recipient list \<Rightarrow> u64 \<times> bytes list \<Rightarrow> (u64 \<times> bytes list) res" where
  "recipient_outputs al reward [] st = Inr st"
| "recipient_outputs al reward (r # rs) (rewardToPool, bufs) =
     rbind (recipient_script al r) (\<lambda>script.
       let recipientReward = recipient_reward reward r in
       recipient_outputs al reward rs
         (rewardToPool - recipientReward,
          bufs @ [PackUint64LE recipientReward @ VarIntBytes (word_of_nat (length script)) @ script]))"

definition GenerateOutputTransactions ::
  "address_libs \<Rightarrow> bytes \<Rightarrow> recipient list \<Rightarrow> block_template \<Rightarrow> bytes res" where
  "GenerateOutputTransactions al poolRecipient recipients rpcData =
     rbind (masternode_outputs al (gbt_Masternode rpcData) (gbt_CoinbaseValue rpcData, gbt_CoinbaseValue rpcData, [])) (\<lambda>st.
     rbind (superblock_outputs al (gbt_Superblock rpcData) st) (\<lambda>st.
     rbind (payee_output al (gbt_Payee rpcData) (gbt_PayeeAmount rpcData) st) (\<lambda>(reward, rewardToPool, bufs).
     rbind (recipient_outputs al reward recipients (rewardToPool, bufs)) (\<lambda>(rewardToPool, bufs).
       let bufs = (PackUint64LE rewardToPool @ VarIntBytes (word_of_nat (length poolRecipient)) @ poolRecipient) # bufs;
           bufs = (if gbt_DefaultWitnessCommitment rpcData \<noteq> '''' then
                     (let witnessCommitment = fst (hex_decode (gbt_DefaultWitnessCommitment rpcData))
                      in (PackUint64LE 0 @ VarIntBytes (word_of_nat (length witnessCommitment)) @ witnessCommitment) # bufs)
                   else bufs)
       in Inr (VarIntBytes (word_of_nat (length bufs)) @ concat bufs)))))"

definition CreateGeneration ::
  "address_libs \<Rightarrow> int \<Rightarrow> block_template \<Rightarrow> bytes \<Rightarrow> bytes \<Rightarrow> string \<Rightarrow> bool \<Rightarrow> recipient list \<Rightarrow> (bytes \<times> bytes) res" where
  "CreateGeneration al now rpcData publicKey extraNoncePlaceholder reward txMessages recipients =
     (let txVersion = (if txMessages then 2 else 1);
          txComment = (if txMessages then SerializeString ''by Command'' else []);
          hasPayload = (gbt_CoinbasePayload rpcData \<noteq> '''');
          txExtraPayload = (if hasPayload then fst (hex_decode (gbt_CoinbasePayload rpcData)) else []);
          txType = (if hasPayload then 5 else 0);
          txVersion = (if hasPayload then 3 else txVersion);
          txVersion = txVersion + txType * 2 ^ 16 :: int;
          txTimestamp = (if reward = ''POS'' then PackUint32LE (gbt_CurTime rpcData) else []);
          bCoinbaseAuxFlags = fst (hex_decode (gbt_CoinbaseAuxFlags rpcData))
      in
      rbind (SerializeNumber (word_of_int (gbt_Height rpcData))) (\<lambda>heightBytes.
      rbind (SerializeNumber (word_of_int now)) (\<lambda>timeBytes.
        let scriptSigPart1 = heightBytes @ bCoinbaseAuxFlags @ timeBytes @ [word_of_nat (length extraNoncePlaceholder)];
            scriptSigPart2 = SerializeString ''/by Command/'';
            p1 = PackUint32LE (word_of_int txVersion) @ txTimestamp @
                 VarIntBytes 1 @ Uint256BytesFromHash '''' @ PackUint32LE (word_of_int (2 ^ 32 - 1)) @
                 VarIntBytes (word_of_nat (length scriptSigPart1 + length extraNoncePlaceholder + length scriptSigPart2)) @
                 scriptSigPart1
        in
        rbind (GenerateOutputTransactions al publicKey recipients rpcData) (\<lambda>outputTransactions.
          let p2 = scriptSigPart2 @ PackUint32LE 0 @ outputTransactions @ PackUint32LE 0 @ txComment;
              p2 = (if 0 < length txExtraPayload
                    then p2 @ VarIntBytes (word_of_nat (length txExtraPayload)) @ txExtraPayload else p2)
          in Inr (p1, p2)))))"

subsection \<open>Outputs as a list\<close>

text \<open>The transaction outputs of the Bitcoin format: an amount and a script each.\<close>

type_synonym txout = "u64 \<times> bytes"

fun encode_txout :: "txout \<Rightarrow> bytes" where
  "encode_txout (v, s) = le_bytes 8 (unat v) @ VarIntBytes (word_of_nat (length s)) @ s"

definition encode_txouts :: "txout list \<Rightarrow> bytes" where
  "encode_txouts outs = VarIntBytes (word_of_nat (length outs)) @ concat (map encode_txout outs)"

definition out_sum :: "txout list \<Rightarrow> u64" where
  "out_sum outs = sum_list (map fst outs)"

lemma out_sum_simps [simp]:
  "out_sum [] = 0" "out_sum (x # xs) = fst x + out_sum xs" "out_sum (xs @ ys) = out_sum xs + out_sum ys"
  by (simp_all add: out_sum_def)

lemma superblock_outputs_spec:
  "superblock_outputs al ps (reward, pool, bufs) = Inr st \<Longrightarrow>
   \<exists>outs. st = (reward - out_sum outs, pool - out_sum outs, bufs @ map encode_txout outs) \<and>
          map fst outs = map pp_Amount ps"
proof (induction ps arbitrary: reward pool bufs)
  case Nil
  then show ?case by (auto intro: exI [of _ "[]"])
next
  case (Cons p ps)
  from Cons.prems obtain s where s: "payee_script al p = Inr s" and
    "superblock_outputs al ps (reward - pp_Amount p, pool - pp_Amount p, bufs @ [encode_txout (pp_Amount p, s)]) = Inr st"
    by (auto simp: Let_def rbind_eq_Inr PackUint64LE_def)
  from Cons.IH [OF this(2)] obtain outs where
    "st = (reward - pp_Amount p - out_sum outs, pool - pp_Amount p - out_sum outs,
       (bufs @ [encode_txout (pp_Amount p, s)]) @ map encode_txout outs)" "map fst outs = map pp_Amount ps" by blast
  then show ?case by (intro exI [of _ "(pp_Amount p, s) # outs"]) (simp add: algebra_simps)
qed

lemma payee_output_spec:
  "payee_output al payee amount (reward, pool, bufs) = Inr st \<Longrightarrow>
   \<exists>outs. st = (reward - out_sum outs, pool - out_sum outs, bufs @ map encode_txout outs) \<and>
          length outs = (if payee = INil then 0 else 1)"
proof (cases "payee = INil")
  case True
  moreover assume "payee_output al payee amount (reward, pool, bufs) = Inr st"
  ultimately show ?thesis by (auto simp: payee_output_def intro: exI [of _ "[]"])
next
  case False
  assume "payee_output al payee amount (reward, pool, bufs) = Inr st"
  with False obtain v s where "st = (reward - v, pool - v, bufs @ [encode_txout (v, s)])"
    by (auto simp: payee_output_def rbind_eq_Inr PackUint64LE_def)
  with False show ?thesis by (intro exI [of _ "[(v, s)]"]) simp
qed

lemma recipient_outputs_spec:
  "recipient_outputs al reward rs (pool, bufs) = Inr st \<Longrightarrow>
   \<exists>outs. st = (pool - out_sum outs, bufs @ map encode_txout outs) \<and>
          map fst outs = map (recipient_reward reward) rs \<and>
          map (\<lambda>x. Inr (snd x)) outs = map (recipient_script al) rs"
proof (induction rs arbitrary: pool bufs)
  case Nil
  then show ?case by (auto intro: exI [of _ "[]"])
next
  case (Cons r rs)
  let ?v = "recipient_reward reward r"
  from Cons.prems obtain s where s: "recipient_script al r = Inr s" and
    "recipient_outputs al reward rs (pool - ?v, bufs @ [encode_txout (?v, s)]) = Inr st"
    by (auto simp: Let_def rbind_eq_Inr PackUint64LE_def)
  from Cons.IH [OF this(2)] obtain outs where
    "st = (pool - ?v - out_sum outs, (bufs @ [encode_txout (?v, s)]) @ map encode_txout outs)"
    "map fst outs = map (recipient_reward reward) rs" "map (\<lambda>x. Inr (snd x)) outs = map (recipient_script al) rs" by blast
  with s show ?case by (intro exI [of _ "(?v, s) # outs"]) (simp add: algebra_simps)
qed

text \<open>The witness commitment output, when the template has one.\<close>

definition witness_outs :: "block_template \<Rightarrow> txout list" where
  "witness_outs g =
     (if gbt_DefaultWitnessCommitment g \<noteq> '''' then [(0, fst (hex_decode (gbt_DefaultWitnessCommitment g)))] else [])"

lemma GenerateOutputTransactions_spec:
  assumes "gbt_Masternode g = []" "GenerateOutputTransactions al pool rs g = Inr b"
  shows "\<exists>sb py rc v0 reward. b = encode_txouts (witness_outs g @ (v0, pool) # sb @ py @ rc) \<and>
     v0 + out_sum sb + out_sum py + out_sum rc = gbt_CoinbaseValue g \<and>
     reward = gbt_CoinbaseValue g - out_sum sb - out_sum py \<and>
     map fst sb = map pp_Amount (gbt_Superblock g) \<and> length py = (if gbt_Payee g = INil then 0 else 1) \<and>
     map fst rc = map (recipient_reward reward) rs \<and> map (\<lambda>x. Inr (snd x)) rc = map (recipient_script al) rs"
proof -
  define V where "V = gbt_CoinbaseValue g"
  from assms obtain st1 st2 st3 where
    1: "superblock_outputs al (gbt_Superblock g) (V, V, []) = Inr st1" and
    2: "payee_output al (gbt_Payee g) (gbt_PayeeAmount g) st1 = Inr st2" and
    3: "recipient_outputs al (fst st2) rs (fst (snd st2), snd (snd st2)) = Inr st3"
    by (auto simp: GenerateOutputTransactions_def rbind_eq_Inr V_def split: prod.splits)
  from superblock_outputs_spec [OF 1] obtain sb where
    sb: "st1 = (V - out_sum sb, V - out_sum sb, map encode_txout sb)" "map fst sb = map pp_Amount (gbt_Superblock g)" by auto
  from payee_output_spec [OF 2 [unfolded sb(1)]] obtain py where
    py: "st2 = (V - out_sum sb - out_sum py, V - out_sum sb - out_sum py, map encode_txout sb @ map encode_txout py)"
      "length py = (if gbt_Payee g = INil then 0 else 1)" by auto
  define reward where "reward = V - out_sum sb - out_sum py"
  from recipient_outputs_spec [OF 3] py obtain rc where
    rc: "st3 = (reward - out_sum rc, map encode_txout (sb @ py @ rc))" "map fst rc = map (recipient_reward reward) rs"
      "map (\<lambda>x. Inr (snd x)) rc = map (recipient_script al) rs" by (auto simp: reward_def)
  define v0 where "v0 = reward - out_sum rc"
  have "b = encode_txouts (witness_outs g @ (v0, pool) # sb @ py @ rc)"
    using assms 1 2 3 py(1) rc(1)
    by (auto simp: GenerateOutputTransactions_def rbind_eq_Inr V_def [symmetric] reward_def [symmetric] v0_def
        encode_txouts_def witness_outs_def PackUint64LE_def Let_def split: if_splits)
  moreover have "v0 + out_sum sb + out_sum py + out_sum rc = V" by (simp add: v0_def reward_def)
  ultimately show ?thesis using sb(2) py(2) rc(2,3) unfolding reward_def V_def by blast
qed

subsection \<open>Fees never exceed the reward\<close>

lemma rnd64_error_bound:
  assumes "0 \<le> x"
  shows "rnd64 x \<le> x + (x + 1) / 2 ^ 53"
proof (cases "x = 0")
  case False
  with assms have x: "0 < x" by simp
  have "(2 :: rat) powi quantum 53 (-1074) x \<le> x / 2 ^ 52 + 1 / 2 ^ 52"
  proof (cases "quantum 53 (-1074) x = -1074")
    case True
    have "(2 :: rat) powi (-1074) \<le> 2 powi (-52)" by (rule power_int_increasing) auto
    then show ?thesis using x True by (simp add: power_int_minus field_simps)
  next
    case False
    then have "quantum 53 (-1074) x = ilog2 x - 52" using x by (auto simp: quantum_def)
    then have "(2 :: rat) powi quantum 53 (-1074) x = 2 powi ilog2 x / 2 powi 52" by (simp add: power_int_diff)
    also have "\<dots> \<le> x / 2 powi 52" using ilog2_bounds [OF x] by (simp add: divide_right_mono)
    finally show ?thesis by simp
  qed
  moreover have "rnd64 x - x \<le> 2 powi quantum 53 (-1074) x / 2"
    using rnd_error [of 53 "-1074" x] by linarith
  ultimately show ?thesis by (simp add: field_simps)
qed simp

lemma recipient_reward_bound:
  assumes p: "rc_Percent r = Fin p" "0 \<le> p" "p \<le> 1" and V: "unat V = n" "n < 2 ^ 53"
  shows "of_nat (unat (recipient_reward V r)) \<le> p * of_nat n + (p * of_nat n + 1) / 2 ^ 53"
    and "unat (recipient_reward V r) = nat \<lfloor>rnd64 (p * of_nat n)\<rfloor>"
proof -
  define x :: rat where "x = p * of_nat n"
  have x: "0 \<le> x" "x \<le> of_nat n" using p(2,3) by (simp_all add: x_def mult_left_le_one_le)
  have "uint V = int n" using V(1) by (simp add: uint_nat)
  then have V': "f64_of_u64 V = Fin (of_nat n)"
    using f64_of_int_exact [of "int n"] V by (simp add: f64_of_u64_def)
  have nn: "0 \<le> rnd64 x" using x(1) by (rule rnd_nonneg)
  have "rnd64 x \<le> rnd64 (of_int (int n))" by (rule rnd_mono) (use x in simp_all)
  also have "\<dots> = of_nat n" using rnd64_of_int [of "int n"] V by simp
  finally have le: "rnd64 x \<le> of_nat n" .
  also have "(of_nat n :: rat) < of_nat (2 ^ 53)" using V(2) by (simp only: of_nat_less_iff)
  finally have lt: "rnd64 x < 2 ^ 53" by simp
  have fin: "f64_mul (Fin p) (f64_of_u64 V) = Fin (rnd64 x)"
    using f64_round_small [of x] nn lt by (simp add: V' x_def [symmetric])
  have u: "unat (recipient_reward V r) = nat \<lfloor>rnd64 x\<rfloor>"
    unfolding recipient_reward_def p(1) fin
    using f64_to_u64_nat [of "of_int \<lfloor>rnd64 x\<rfloor>"] nn lt by (simp add: floor_less_iff)
  have "(of_nat (nat \<lfloor>rnd64 x\<rfloor>) :: rat) \<le> rnd64 x" using nn by simp
  then show "of_nat (unat (recipient_reward V r)) \<le> p * of_nat n + (p * of_nat n + 1) / 2 ^ 53"
    unfolding u using rnd64_error_bound [OF x(1)] by (simp add: x_def [symmetric])
  show "unat (recipient_reward V r) = nat \<lfloor>rnd64 (p * of_nat n)\<rfloor>" by (simp add: u x_def)
qed

text \<open>The recipients' shares are non-negative numbers that add up to at most 1.\<close>

definition percent_rat :: "recipient \<Rightarrow> rat" where
  "percent_rat r = (case rc_Percent r of Fin p \<Rightarrow> p | _ \<Rightarrow> 0)"

definition fees_ok :: "recipient list \<Rightarrow> bool" where
  "fees_ok rs \<longleftrightarrow> (\<forall>r\<in>set rs. rc_Percent r = Fin (percent_rat r) \<and> 0 \<le> percent_rat r) \<and> sum_list (map percent_rat rs) \<le> 1"

lemma fees_sum_bound:
  assumes "\<forall>r\<in>set rs. rc_Percent r = Fin (percent_rat r) \<and> 0 \<le> percent_rat r \<and> percent_rat r \<le> 1"
    and V: "unat V = n" "n < 2 ^ 53"
  shows "of_nat (sum_list (map (\<lambda>r. unat (recipient_reward V r)) rs)) \<le>
     sum_list (map percent_rat rs) * of_nat n + (sum_list (map percent_rat rs) * of_nat n + of_nat (length rs)) / 2 ^ 53"
  using assms(1)
proof (induction rs)
  case (Cons r rs)
  define a where "a = unat (recipient_reward V r)"
  define A where "A = sum_list (map (\<lambda>r. unat (recipient_reward V r)) rs)"
  define x where "x = percent_rat r * of_nat n"
  define y where "y = sum_list (map percent_rat rs) * of_nat n"
  have "of_nat a \<le> x + (x + 1) / 2 ^ 53"
    unfolding a_def x_def by (rule recipient_reward_bound(1)) (use Cons.prems V in auto)
  moreover have "of_nat A \<le> y + (y + of_nat (length rs)) / 2 ^ 53"
    unfolding A_def y_def by (rule Cons.IH) (use Cons.prems in auto)
  ultimately have "of_nat (a + A) \<le> x + y + (x + y + of_nat (Suc (length rs))) / 2 ^ 53"
    by (simp add: add_divide_distrib)
  then show ?case by (simp add: a_def A_def x_def y_def algebra_simps)
qed simp

lemma percent_le_sum:
  "\<forall>r\<in>set rs. 0 \<le> percent_rat r \<Longrightarrow> r \<in> set rs \<Longrightarrow> percent_rat r \<le> sum_list (map percent_rat rs)"
  by (rule member_le_sum_list) auto

lemma fees_within_reward:
  assumes "fees_ok rs" "unat V + length rs < 2 ^ 53"
  shows "sum_list (map (\<lambda>r. unat (recipient_reward V r)) rs) \<le> unat V"
proof -
  define S where "S = sum_list (map percent_rat rs)"
  define N where "N = sum_list (map (\<lambda>r. unat (recipient_reward V r)) rs)"
  define n where "n = unat V"
  define v :: rat where "v = of_nat n"
  define l :: rat where "l = of_nat (length rs)"
  have all: "\<forall>r\<in>set rs. rc_Percent r = Fin (percent_rat r) \<and> 0 \<le> percent_rat r \<and> percent_rat r \<le> 1"
    using assms(1) percent_le_sum [of rs] by (force simp: fees_ok_def)
  have S: "S \<le> 1" using assms(1) by (simp add: fees_ok_def S_def)
  have "(of_nat (n + length rs) :: rat) < of_nat (2 ^ 53)" using assms(2) by (simp only: of_nat_less_iff n_def)
  then have v: "0 \<le> v" "v + l < 2 ^ 53" by (simp_all add: v_def l_def)
  have Sv: "S * v \<le> v" using mult_right_mono [OF S v(1)] by simp
  have "of_nat N \<le> S * v + (S * v + l) / 2 ^ 53"
    unfolding N_def S_def v_def l_def by (rule fees_sum_bound [OF all]) (use assms(2) in \<open>simp_all add: n_def\<close>)
  also have "\<dots> \<le> v + (v + l) / 2 ^ 53"
    using Sv by (intro add_mono divide_right_mono) auto
  also have "\<dots> < v + 1" using v(2) by simp
  finally have "(of_nat N :: rat) < of_nat (n + 1)" by (simp add: v_def)
  then have "N < n + 1" by (simp only: of_nat_less_iff)
  then show ?thesis by (simp add: N_def n_def)
qed

subsection \<open>Reading a transaction back\<close>

text \<open>
  Readers of the Bitcoin wire format: the list of outputs, and a transaction with exactly one
  input (version, previous output, input script, sequence number, and the bytes after them).
\<close>

definition read_txout :: "bytes \<Rightarrow> (txout \<times> bytes) option" where
  "read_txout b =
     (if length b < 8 then None
      else case read_compact (drop 8 b) of
             None \<Rightarrow> None
           | Some (k, r) \<Rightarrow> if length r < k then None else Some ((word_of_nat (le_nat (take 8 b)), take k r), drop k r))"

fun read_txout_seq :: "nat \<Rightarrow> bytes \<Rightarrow> (txout list \<times> bytes) option" where
  "read_txout_seq 0 b = Some ([], b)"
| "read_txout_seq (Suc n) b =
     (case read_txout b of
        None \<Rightarrow> None
      | Some (t, r) \<Rightarrow> (case read_txout_seq n r of None \<Rightarrow> None | Some (ts, r) \<Rightarrow> Some (t # ts, r)))"

definition read_txouts :: "bytes \<Rightarrow> (txout list \<times> bytes) option" where
  "read_txouts b = (case read_compact b of None \<Rightarrow> None | Some (n, r) \<Rightarrow> read_txout_seq n r)"

definition read_coinbase :: "bytes \<Rightarrow> (nat \<times> bytes \<times> nat \<times> bytes \<times> nat \<times> bytes) option" where
  "read_coinbase b =
     (if length b < 4 then None
      else case read_compact (drop 4 b) of
        None \<Rightarrow> None
      | Some (n, r) \<Rightarrow>
          if n \<noteq> 1 \<or> length r < 36 then None
          else case read_compact (drop 36 r) of
            None \<Rightarrow> None
          | Some (k, s) \<Rightarrow>
              if length s < k + 4 then None
              else Some (le_nat (take 4 b), take 32 r, le_nat (take 4 (drop 32 r)), take k s,
                         le_nat (take 4 (drop k s)), drop (k + 4) s))"

lemma unat_word_of_nat64: "n < 2 ^ 64 \<Longrightarrow> unat (word_of_nat n :: u64) = n"
  by (simp add: unat_of_nat)

lemma read_txout_encode:
  "length s < 2 ^ 64 \<Longrightarrow> read_txout (encode_txout (v, s) @ rest) = Some ((v, s), rest)"
proof -
  assume s: "length s < 2 ^ 64"
  have "unat v mod 256 ^ 8 = unat v" using u64_less [of v] by simp
  then show ?thesis
    using read_compact_VarIntBytes [of "word_of_nat (length s)" "s @ rest"] unat_word_of_nat64 [OF s]
    by (simp add: read_txout_def le_nat_le_bytes)
qed

lemma read_txout_seq_encode:
  "\<forall>t\<in>set outs. length (snd t) < 2 ^ 64 \<Longrightarrow>
   read_txout_seq (length outs) (concat (map encode_txout outs) @ rest) = Some (outs, rest)"
proof (induction outs)
  case (Cons t outs)
  obtain v s where t: "t = (v, s)" by (cases t)
  from Cons read_txout_encode [of s v "concat (map encode_txout outs) @ rest"] show ?case by (simp add: t del: encode_txout.simps)
qed simp

lemma read_txouts_encode:
  "length outs < 2 ^ 64 \<Longrightarrow> \<forall>t\<in>set outs. length (snd t) < 2 ^ 64 \<Longrightarrow>
   read_txouts (encode_txouts outs @ rest) = Some (outs, rest)"
  using read_compact_VarIntBytes [of "word_of_nat (length outs)" "concat (map encode_txout outs) @ rest"]
    read_txout_seq_encode [of outs rest]
  by (simp add: read_txouts_def encode_txouts_def unat_word_of_nat64)

lemma read_coinbase_format:
  assumes "length script < 2 ^ 64"
  shows "read_coinbase (le_bytes 4 ver @ VarIntBytes 1 @ prev @ le_bytes 4 idx @
           VarIntBytes (word_of_nat (length script)) @ script @ le_bytes 4 sq @ rest) =
     (if length prev = 32 then Some (ver mod 2 ^ 32, prev, idx mod 2 ^ 32, script, sq mod 2 ^ 32, rest)
      else read_coinbase (le_bytes 4 ver @ VarIntBytes 1 @ prev @ le_bytes 4 idx @
           VarIntBytes (word_of_nat (length script)) @ script @ le_bytes 4 sq @ rest))"
  using read_compact_VarIntBytes [of "word_of_nat (length script)" "script @ le_bytes 4 sq @ rest"]
    read_compact_VarIntBytes [of 1 "prev @ le_bytes 4 idx @ VarIntBytes (word_of_nat (length script)) @ script @ le_bytes 4 sq @ rest"]
    unat_word_of_nat64 [OF assms]
  by (simp add: read_coinbase_def le_nat_le_bytes)

subsection \<open>Properties\<close>

lemma recipient_outputs_ok:
  "\<forall>r\<in>set rs. is_ok (recipient_script al r) \<Longrightarrow> is_ok (recipient_outputs al reward rs st)"
proof (induction rs arbitrary: st)
  case (Cons r rs)
  then show ?case by (cases st) (auto simp: is_ok_iff Let_def)
qed simp


text \<open>A concrete template, recipient and decoders for the witnesses.\<close>

definition ex_libs :: address_libs where
  "ex_libs = \<lparr>al_b58 = (\<lambda>_. None), al_bech32 = (\<lambda>_. None), al_convert_bits = Some\<rparr>"

definition ex_recipient :: recipient where
  "ex_recipient = \<lparr>rc_Address = ''51'', rc_Type = ''Script'', rc_Percent = Fin (1 / 64), rc_script = None\<rparr>"

definition ex_template :: block_template where
  "ex_template = \<lparr>gbt_Version = 0x20000000, gbt_Bits = ''1d00ffff'', gbt_CurTime = 1600000000, gbt_Height = 700000,
     gbt_PreviousBlockHash = concat (replicate 32 ''ab''), gbt_Transactions = [], gbt_CoinbaseAuxFlags = '''',
     gbt_CoinbaseValue = 625000000, gbt_DefaultWitnessCommitment = '''', gbt_Target = '''',
     gbt_Masternode = [], gbt_Superblock = [], gbt_CoinbasePayload = '''', gbt_Votes = [],
     gbt_MasternodePayments = INil, gbt_Payee = INil, gbt_PayeeAmount = INil\<rparr>"

lemma ex_script: "recipient_script ex_libs ex_recipient = Inr [0x51]"
  by code_simp

lemma ex_template_simps [simp]:
  "gbt_Masternode ex_template = []" "gbt_Superblock ex_template = []" "gbt_Payee ex_template = INil"
  "gbt_CoinbaseValue ex_template = 625000000" "gbt_DefaultWitnessCommitment ex_template = []"
  "gbt_Height ex_template = 700000"
  by (simp_all add: ex_template_def)

lemma ex_fees_ok: "fees_ok [ex_recipient]"
  by (simp add: fees_ok_def percent_rat_def ex_recipient_def)



lemma ex_outputs: "GenerateOutputTransactions ex_libs pk [] ex_template = Inr (encode_txouts [(625000000, pk)])"
  by (simp add: GenerateOutputTransactions_def payee_output_def encode_txouts_def PackUint64LE_def)

lemma ex_numbers:
  "SerializeNumber 700000 = Inr (3 # le_bytes 3 700000)" "SerializeNumber 1600000000 = Inr (4 # le_bytes 4 1600000000)"
  by (simp_all add: SerializeNumber_eq num_bytes.simps le_bytes_numeral)

lemma ex_generation_ok: "is_ok (CreateGeneration ex_libs 1600000000 ex_template pk ph ''POW'' False [])"
  by (simp add: CreateGeneration_def ex_outputs ex_numbers Let_def)

lemma ex_generation:
  "\<exists>p1 p2. CreateGeneration ex_libs 1600000000 ex_template [0x52] (replicate 8 0xf0) ''POW'' False [] = Inr (p1, p2) \<and>
     length (p1 @ p2) + length (replicate 8 (0xf0 :: byte)) < 2 ^ 64"
  by (simp add: CreateGeneration_def ex_outputs ex_numbers Let_def encode_txouts_def length_VarIntBytes PackUint32LE_def
      SerializeString_def ex_template_def [THEN arg_cong, of gbt_CoinbasePayload] ex_template_def [THEN arg_cong, of gbt_CoinbaseAuxFlags])


text \<open>
  A masternode payment makes the coinbase unreadable. The masternode branch writes the
  amount big-endian and leaves out the script bytes that the length announces, unlike the
  superblock branch. For a template that differs from a plain one only by a masternode payee
  with an explicit script, the outputs do not read back as a Bitcoin output list.
\<close>

theorem masternode_outputs_unreadable:
  "\<exists>b. GenerateOutputTransactions ex_libs [0x52] []
         (ex_template\<lparr>gbt_Masternode := [\<lparr>pp_Payee = ''XmasterNode'', pp_Script = ''76a914'', pp_Amount = 1000\<rparr>]\<rparr>) = Inr b \<and>
       read_txouts b = None"
proof -
  have "payee_script ex_libs \<lparr>pp_Payee = ''XmasterNode'', pp_Script = ''76a914'', pp_Amount = 1000\<rparr> = Inr [0x76, 0xa9, 0x14]"
    by code_simp
  then have gen: "GenerateOutputTransactions ex_libs [0x52] []
      (ex_template\<lparr>gbt_Masternode := [\<lparr>pp_Payee = ''XmasterNode'', pp_Script = ''76a914'', pp_Amount = 1000\<rparr>]\<rparr>) =
    Inr ([2] @ le_bytes 8 624999000 @ [1, 0x52] @ be_bytes 8 1000 @ [3])"
    by (simp add: GenerateOutputTransactions_def payee_output_def PackUint64LE_def PackUint64BE_def VarIntBytes_def)
  have "read_txout (be_bytes 8 1000 @ [3]) = None"
    by (simp add: read_txout_def read_compact_def)
  moreover have "read_txout (le_bytes 8 624999000 @ [1, 0x52] @ be_bytes 8 1000 @ [3]) =
      Some ((624999000, [0x52]), be_bytes 8 1000 @ [3])"
    using read_txout_encode [of "[0x52]" 624999000 "be_bytes 8 1000 @ [3]"] by (simp add: VarIntBytes_def)
  ultimately have seq: "read_txout_seq (Suc (Suc 0)) (le_bytes 8 624999000 @ [1, 0x52] @ be_bytes 8 1000 @ [3]) = None"
    by simp
  have "read_compact ([2] @ le_bytes 8 624999000 @ [1, 0x52] @ be_bytes 8 1000 @ [3]) =
      Some (Suc (Suc 0), le_bytes 8 624999000 @ [1, 0x52] @ be_bytes 8 1000 @ [3])"
    using read_compact_VarIntBytes [of 2 "le_bytes 8 624999000 @ [1, 0x52] @ be_bytes 8 1000 @ [3]"]
    by (simp add: VarIntBytes_def)
  then have "read_txouts ([2] @ le_bytes 8 624999000 @ [1, 0x52] @ be_bytes 8 1000 @ [3]) = None"
    using seq by (simp only: read_txouts_def option.case prod.case)
  with gen show ?thesis by blast
qed

end
