(* ===== verification/Daemons.thy ===== *)
theory Daemons
  imports Transactions
begin

text \<open>
  \<open>daemons/manager.go\<close> with the calls of \<open>submitblock.go\<close>, \<open>getblock.go\<close> and
  \<open>getblocktemplate.go\<close>: JSON-RPC to the coin daemons. The HTTP transport and the daemons
  behind it are the parameter \<open>rpc\<close>: the reply of daemon \<open>i\<close> to a method and its params, in a
  world of type \<open>'w\<close> that the call may change. The random request id is not modelled: no reply
  is matched by it. Decoding a block template is the parameter \<open>decode_gbt\<close>.
\<close>

record daemon_options =
  do_Host :: string
  do_Port :: int
  do_User :: string
  do_Password :: string
  do_TLS :: bool

definition DaemonString :: "daemon_options \<Rightarrow> string" where
  "DaemonString d = do_User d @ ''@'' @ do_Host d @ '':'' @ fmt_int (do_Port d)"

definition DaemonURL :: "daemon_options \<Rightarrow> string" where
  "DaemonURL d = (if do_TLS d then ''https://'' @ do_Host d @ '':'' @ fmt_int (do_Port d)
                  else ''http://'' @ do_Host d @ '':'' @ fmt_int (do_Port d))"

text \<open>
  What an HTTP exchange can end with: no response (a transport error), a response whose body
  cannot be read, one whose body is not a JSON-RPC response, or a decoded reply; the last
  three with their status code.
\<close>

datatype http_reply = NoResponse | Unreadable int | Garbled int | Reply int rpc_response

type_synonym 'w transport = "nat \<Rightarrow> string \<Rightarrow> iface list \<Rightarrow> 'w \<Rightarrow> http_reply \<times> 'w"

record daemon_manager =
  dm_Daemons :: "daemon_options list"
  dm_NoSubmitBlock :: bool
  dm_GBTRules :: "string list option"

fun cmd_each :: "'w transport \<Rightarrow> nat list \<Rightarrow> string \<Rightarrow> iface list \<Rightarrow> 'w \<Rightarrow> http_reply list \<times> 'w" where
  "cmd_each rpc [] method params w = ([], w)"
| "cmd_each rpc (i # is) method params w =
     (case rpc i method params w of (r, w) \<Rightarrow>
      case cmd_each rpc is method params w of (rs, w) \<Rightarrow> (r # rs, w))"

text \<open>
  \<open>CmdAll\<close> runs one goroutine per daemon and waits for all of them. A goroutine whose request
  fails returns before \<open>wg.Done()\<close>, so the wait never ends; a body that cannot be read or
  decoded panics in the goroutine, which stops the process.
\<close>

definition CmdAll ::
  "'w transport \<Rightarrow> daemon_manager \<Rightarrow> string \<Rightarrow> iface list \<Rightarrow> 'w \<Rightarrow> ((int \<times> rpc_response) list) res \<times> 'w" where
  "CmdAll rpc dm method params w =
     (case cmd_each rpc [0..<length (dm_Daemons dm)] method params w of (rs, w) \<Rightarrow>
        (if \<exists>r\<in>set rs. (case r of Unreadable _ \<Rightarrow> True | Garbled _ \<Rightarrow> True | _ \<Rightarrow> False)
         then Inl (Panic ''failed to unmarshal response body'')
         else if NoResponse \<in> set rs then Inl (Blocks ''wg.Wait'')
         else Inr (map (\<lambda>r. case r of Reply c x \<Rightarrow> (c, x) | _ \<Rightarrow> (0, \<lparr>rs_Id = INil, rs_Result = None, rs_Error = None\<rparr>)) rs), w))"

definition IsAllOnline :: "'w transport \<Rightarrow> daemon_manager \<Rightarrow> 'w \<Rightarrow> bool res \<times> 'w" where
  "IsAllOnline rpc dm w =
     (case CmdAll rpc dm ''getpeerinfo'' [] w of (r, w) \<Rightarrow>
        (rbind r (\<lambda>rs. Inr (\<forall>(c, x)\<in>set rs. c div 100 = 2 \<and> rs_Error x = None)), w))"

definition DaemonCheck :: "'w transport \<Rightarrow> daemon_manager \<Rightarrow> 'w \<Rightarrow> unit res \<times> 'w" where
  "DaemonCheck rpc dm w =
     (case IsAllOnline rpc dm w of (r, w) \<Rightarrow>
        (rbind r (\<lambda>ok. if ok then Inr () else Inl (Fatal ''daemons are not all online!'')), w))"

text \<open>A single daemon: every failure is a nil result.\<close>

definition cmdToIndex ::
  "'w transport \<Rightarrow> nat \<Rightarrow> string \<Rightarrow> iface list \<Rightarrow> 'w \<Rightarrow> rpc_response option \<times> 'w" where
  "cmdToIndex rpc i method params w =
     (case rpc i method params w of (r, w) \<Rightarrow> (case r of Reply _ x \<Rightarrow> Some x | _ \<Rightarrow> None, w))"

definition CmdToDaemon ::
  "'w transport \<Rightarrow> daemon_manager \<Rightarrow> int \<Rightarrow> string \<Rightarrow> iface list \<Rightarrow> 'w \<Rightarrow> rpc_response option \<times> 'w" where
  "CmdToDaemon rpc dm idx method params w =
     (if idx < 0 \<or> int (length (dm_Daemons dm)) \<le> idx then (None, w)
      else cmdToIndex rpc (nat idx) method params w)"

text \<open>The loop of \<open>Cmd\<close> returns in its first iteration.\<close>

definition Cmd ::
  "'w transport \<Rightarrow> daemon_manager \<Rightarrow> string \<Rightarrow> iface list \<Rightarrow> 'w \<Rightarrow> rpc_response option \<times> 'w" where
  "Cmd rpc dm method params w =
     (if dm_Daemons dm = [] then (None, w) else cmdToIndex rpc 0 method params w)"

definition CheckStatusCode :: "int \<Rightarrow> unit res" where
  "CheckStatusCode statusCode =
     rbind (go_div statusCode 100) (\<lambda>q.
       let rm = statusCode - q * 100 in
       if q = 2 then Inr ()
       else if q = 4 \<and> rm = 0 then Inl (Err ''daemon cannot understand the request'')
       else if q = 4 \<and> rm = 1 then Inl (Err ''daemon requires authorization (have to login before request)'')
       else if q = 4 \<and> rm = 3 then Inl (Err ''daemon rejected the request'')
       else if q = 4 \<and> rm = 4 then Inl (Err ''daemon cannot find the resource requested'')
       else if q = 4 \<and> rm = 13 then Inl (Err ''daemon cannot deal this large request'')
       else if q = 5 then Inl (Err ''daemon internal error'')
       else Inl (Err (''unknown status code:'' @ fmt_int statusCode)))"

text \<open>
  The \<open>tx\<close> field of a \<open>getblock\<close> reply; \<open>None\<close> is a nil slice. An absent result does not
  decode, which ends the process. Type errors in fields that are never read are not modelled.
\<close>

fun decode_strings :: "iface list \<Rightarrow> string list option" where
  "decode_strings [] = Some []"
| "decode_strings (IStr s # xs) = map_option ((#) s) (decode_strings xs)"
| "decode_strings (INil # xs) = map_option ((#) '''') (decode_strings xs)"
| "decode_strings (_ # xs) = None"

definition BytesToGetBlock :: "iface option \<Rightarrow> string list option res" where
  "BytesToGetBlock b =
     (case b of
        Some INil \<Rightarrow> Inr None
      | Some (IMap m) \<Rightarrow>
          (case map_of m ''tx'' of
             None \<Rightarrow> Inr None
           | Some INil \<Rightarrow> Inr None
           | Some (IList xs) \<Rightarrow>
               (case decode_strings xs of Some tx \<Rightarrow> Inr (Some tx) | None \<Rightarrow> Inl (Fatal ''getblock call failed''))
           | Some _ \<Rightarrow> Inl (Fatal ''getblock call failed''))
      | _ \<Rightarrow> Inl (Fatal ''getblock call failed''))"

fun first_tx :: "rpc_response list \<Rightarrow> string res" where
  "first_tx [] = Inr ''''"
| "first_tx (r # rs) =
     rbind (BytesToGetBlock (rs_Result r)) (\<lambda>tx.
       case tx of
         None \<Rightarrow> first_tx rs
       | Some txs \<Rightarrow> index txs 0)"

definition CheckBlockAccepted :: "'w transport \<Rightarrow> daemon_manager \<Rightarrow> string \<Rightarrow> 'w \<Rightarrow> (bool \<times> string) res \<times> 'w" where
  "CheckBlockAccepted rpc dm blockHash w =
     (case CmdAll rpc dm ''getblock'' [IStr blockHash] w of (r, w) \<Rightarrow>
        (rbind r (\<lambda>results.
           let isAccepted = (\<forall>(c, x)\<in>set results. rs_Error x = None)
           in rbind (first_tx (map snd results)) (\<lambda>tx. Inr (isAccepted, tx))), w))"

definition SubmitBlock :: "'w transport \<Rightarrow> daemon_manager \<Rightarrow> string \<Rightarrow> 'w \<Rightarrow> unit res \<times> 'w" where
  "SubmitBlock rpc dm blockHex w =
     (case (if dm_NoSubmitBlock dm
            then CmdAll rpc dm ''getblocktemplate'' [IMap [(''mode'', IStr ''submit''), (''data'', IStr blockHex)]] w
            else CmdAll rpc dm ''submitblock'' [IStr blockHex] w) of
        (r, w) \<Rightarrow> (rbind r (\<lambda>_. Inr ()), w))"

text \<open>
  \<open>DaemonManager.GetBlockTemplate\<close>: a nil result of \<open>Cmd\<close> is dereferenced, a reply that does
  not decode ends the process.
\<close>

definition FetchBlockTemplate ::
  "'w transport \<Rightarrow> (iface option \<Rightarrow> block_template option) \<Rightarrow> daemon_manager \<Rightarrow> 'w \<Rightarrow> block_template res \<times> 'w" where
  "FetchBlockTemplate rpc decode_gbt dm w =
     (let rules = (case dm_GBTRules dm of Some rs \<Rightarrow> rs | None \<Rightarrow> [''segwit'']) in
      case Cmd rpc dm ''getblocktemplate''
             [IMap [(''capabilities'', IList [IStr ''coinbasetxn'', IStr ''workid'', IStr ''coinbase/append'']),
                    (''rules'', IList (map IStr rules))]] w of
        (None, w) \<Rightarrow> (Inl (Panic ''nil pointer dereference''), w)
      | (Some result, w) \<Rightarrow>
          (if rs_Error result \<noteq> None then Inl (Err ''getblocktemplate call failed'')
           else (case decode_gbt (rs_Result result) of
                   None \<Rightarrow> Inl (Fatal ''getblocktemplate call failed'')
                 | Some g \<Rightarrow> Inr g), w))"

subsection \<open>Properties\<close>


definition ex_daemon :: daemon_options where
  "ex_daemon = \<lparr>do_Host = ''10.0.0.5'', do_Port = 8332, do_User = ''u'', do_Password = ''p'', do_TLS = False\<rparr>"

definition ex_manager :: daemon_manager where
  "ex_manager = \<lparr>dm_Daemons = [ex_daemon, ex_daemon\<lparr>do_Port := 8333\<rparr>], dm_NoSubmitBlock = False, dm_GBTRules = None\<rparr>"

definition ex_block_reply :: rpc_response where
  "ex_block_reply = \<lparr>rs_Id = INum (Fin 1), rs_Result = Some (IMap [(''tx'', IList [IStr ''c0ffee'', IStr ''aa''])]), rs_Error = None\<rparr>"


text \<open>
  \<open>CheckBlockAccepted\<close> is right when all daemons answer. If every daemon replies, and the
  first has the block with coinbase \<open>tx\<close>, the call returns that transaction id together with
  whether no daemon reported an error.
\<close>

theorem CheckBlockAccepted_all_answer:
  assumes "cmd_each rpc [0..<length (dm_Daemons dm)] ''getblock'' [IStr h] w = (map (\<lambda>(c, x). Reply c x) (r # rs), w')"
    and "BytesToGetBlock (rs_Result (snd r)) = Inr (Some (tx # txs))"
  shows "CheckBlockAccepted rpc dm h w = (Inr (\<forall>x\<in>set (map snd (r # rs)). rs_Error x = None, tx), w')"
proof -
  have "CmdAll rpc dm ''getblock'' [IStr h] w = (Inr (r # rs), w')"
    using assms(1) by (auto simp: CmdAll_def comp_def split: prod.splits intro!: map_idI)
  then show ?thesis using assms(2) by (auto simp: CheckBlockAccepted_def index_def Let_def)
qed

theorem CheckBlockAccepted_all_answer_witness:
  "CheckBlockAccepted (\<lambda>i _ _ w. (Reply 200 ex_block_reply, w)) ex_manager ''ab'' () = (Inr (True, ''c0ffee''), ())"
proof -
  have "cmd_each (\<lambda>i _ _ w. (Reply 200 ex_block_reply, w)) [0..<length (dm_Daemons ex_manager)] ''getblock'' [IStr ''ab''] () =
     (map (\<lambda>(c, x). Reply c x) [(200, ex_block_reply), (200, ex_block_reply)], ())"
    by (simp add: ex_manager_def)
  moreover have "BytesToGetBlock (rs_Result (snd (200 :: int, ex_block_reply))) = Inr (Some [''c0ffee'', ''aa''])"
    by (simp add: BytesToGetBlock_def ex_block_reply_def)
  ultimately show ?thesis
    using CheckBlockAccepted_all_answer [of "\<lambda>i _ _ w. (Reply 200 ex_block_reply, w)" ex_manager "''ab''" "()"
        "(200, ex_block_reply)" "[(200, ex_block_reply)]" "()" "''c0ffee''" "[''aa'']"]
    by (simp add: ex_block_reply_def)
qed

end
