(* ===== verification/Merkle.thy ===== *)
theory Merkle
  imports Utils
begin

text \<open>
  \<open>merkletree/mtree.go\<close>: the Merkle branch ("steps") the pool sends to miners, and the
  root a miner or the pool folds from the coinbase hash and that branch. A nil slice is
  the empty byte string, which is what \<open>bytes.Join\<close> makes of it. The full-tree
  computation of \<open>engine/equihash/equihash.go\<close> is modelled beside it, and is the
  reference the branch is proved against.
\<close>

definition pad_odd :: "'a list \<Rightarrow> 'a list" where
  "pad_odd L = (if odd (length L) then L @ [last L] else L)"

text \<open>One iteration of the loop of \<open>CalculateSteps\<close>: the next \<open>L\<close>.\<close>

definition next_steps_level :: "(bytes \<Rightarrow> bytes) \<Rightarrow> bytes list \<Rightarrow> bytes list" where
  "next_steps_level hasher L =
     (let Lp = pad_odd L;
          r = (case Range 2 (int (length L)) 2 of None \<Rightarrow> [] | Some r \<Rightarrow> r)
      in [] # map (\<lambda>i. hasher (Lp ! nat i @ Lp ! (nat i + 1))) r)"

lemma length_next_steps_level:
  "2 \<le> length L \<Longrightarrow> length (next_steps_level hasher L) = 1 + (length L - 1) div 2"
  by (simp add: next_steps_level_def Let_def Range_2)

function steps_loop :: "(bytes \<Rightarrow> bytes) \<Rightarrow> bytes list \<Rightarrow> bytes list \<Rightarrow> bytes list" where
  "steps_loop hasher L steps =
     (if 1 < length L then steps_loop hasher (next_steps_level hasher L) (steps @ [L ! 1]) else steps)"
  by pat_completeness auto
termination
  by (relation "measure (\<lambda>(hasher, L, steps). length L)") (auto simp: length_next_steps_level)

declare steps_loop.simps [simp del]

definition CalculateSteps :: "(bytes \<Rightarrow> bytes) \<Rightarrow> bytes list \<Rightarrow> bytes list" where
  "CalculateSteps hasher data = steps_loop hasher data []"

record merkle_tree =
  Steps :: "bytes list"
  hasher :: "bytes \<Rightarrow> bytes"

text \<open>A nil hasher defaults to double SHA-256.\<close>

definition NewMerkleTree :: "bytes list \<Rightarrow> (bytes \<Rightarrow> bytes) option \<Rightarrow> merkle_tree" where
  "NewMerkleTree data h =
     (let h' = (case h of None \<Rightarrow> Sha256d | Some f \<Rightarrow> f)
      in \<lparr>Steps = CalculateSteps h' data, hasher = h'\<rparr>)"

definition WithFirst :: "merkle_tree \<Rightarrow> bytes \<Rightarrow> bytes" where
  "WithFirst mt f = foldl (\<lambda>f s. hasher mt (f @ s)) f (Steps mt)"

definition GetMerkleHashes :: "bytes list \<Rightarrow> string list" where
  "GetMerkleHashes steps = map hex_encode steps"

text \<open>
  The full tree of the equihash engine: pad an odd level with its last hash, pair up,
  repeat until one hash is left.
\<close>

definition level_up :: "(bytes \<Rightarrow> bytes) \<Rightarrow> bytes list \<Rightarrow> bytes list" where
  "level_up h level =
     (let lp = pad_odd level in map (\<lambda>i. h (lp ! (2 * i) @ lp ! (2 * i + 1))) [0..<length lp div 2])"

lemma length_pad_odd: "length (pad_odd L) = 2 * ((length L + 1) div 2)"
  by (auto simp: pad_odd_def elim!: oddE evenE)

lemma length_level_up: "length (level_up h L) = (length L + 1) div 2"
  by (simp add: level_up_def Let_def length_pad_odd)

function merkle_loop :: "(bytes \<Rightarrow> bytes) \<Rightarrow> bytes list \<Rightarrow> bytes list" where
  "merkle_loop h level = (if 1 < length level then merkle_loop h (level_up h level) else level)"
  by pat_completeness auto
termination
  by (relation "measure (\<lambda>(h, level). length level)") (auto simp: length_level_up)

declare merkle_loop.simps [simp del]

definition merkleRoot :: "bytes list \<Rightarrow> bytes res" where
  "merkleRoot rawTxs = index (merkle_loop Sha256d (map Sha256d rawTxs)) 0"

subsection \<open>Levels\<close>

lemma pad_odd_Cons2: "pad_odd (a # b # r) = a # b # pad_odd r"
  by (auto simp: pad_odd_def)

lemma level_up_Cons2: "level_up h (a # b # r) = h (a @ b) # level_up h r"
proof -
  have n: "length (pad_odd (a # b # r)) div 2 = Suc (length (pad_odd r) div 2)"
    by (simp add: pad_odd_Cons2)
  show ?thesis
    unfolding level_up_def Let_def n map_upt_shift by (simp add: pad_odd_Cons2)
qed

lemma level_up_Nil [simp]: "level_up h [] = []"
  by (simp add: level_up_def pad_odd_def)

lemma next_steps_level_Cons2: "next_steps_level h (z # a # r) = [] # level_up h r"
proof -
  have n: "(length (z # a # r) - 1) div 2 = length (pad_odd r) div 2"
    by (simp add: length_pad_odd)
  have "next_steps_level h (z # a # r) =
      [] # map (\<lambda>k. h (pad_odd r ! (2 * k) @ pad_odd r ! (2 * k + 1))) [0..<length (pad_odd r) div 2]"
    unfolding next_steps_level_def Let_def n [symmetric]
    by (simp add: Range_2 [of "Suc (Suc (length r))", simplified] pad_odd_Cons2 nat_add_distrib nat_mult_distrib mult.commute)
  then show ?thesis by (simp add: level_up_def Let_def)
qed

lemma steps_loop_acc: "steps_loop h L s = s @ steps_loop h L []"
proof (induction "length L" arbitrary: L s rule: less_induct)
  case less
  show ?case
  proof (cases "1 < length L")
    case True
    then have "length (next_steps_level h L) < length L" by (simp add: length_next_steps_level)
    from less [OF this, of "s @ [L ! 1]"] less [OF this, of "[L ! 1]"] show ?thesis
      using True by (simp add: steps_loop.simps [of h L])
  next
    case False
    then show ?thesis by (simp add: steps_loop.simps)
  qed
qed

lemma CalculateSteps_single: "CalculateSteps h [z] = []"
  by (simp add: CalculateSteps_def steps_loop.simps)

lemma CalculateSteps_Cons2: "CalculateSteps h (z # a # r) = a # CalculateSteps h ([] # level_up h r)"
proof -
  have "steps_loop h (z # a # r) [] = steps_loop h ([] # level_up h r) [a]"
    by (subst steps_loop.simps) (simp add: next_steps_level_Cons2)
  also have "\<dots> = [a] @ steps_loop h ([] # level_up h r) []" by (rule steps_loop_acc)
  finally show ?thesis by (simp add: CalculateSteps_def)
qed

lemmas steps_simps = CalculateSteps_single CalculateSteps_Cons2

subsection \<open>The branch gives the root of the full tree\<close>

lemma fold_steps_merkle_loop:
  "merkle_loop h (f # txs) = [foldl (\<lambda>f s. h (f @ s)) f (CalculateSteps h ([] # txs))]"
proof (induction "length txs" arbitrary: f txs rule: less_induct)
  case less
  show ?case
  proof (cases txs)
    case Nil
    then show ?thesis by (simp add: merkle_loop.simps CalculateSteps_single)
  next
    case (Cons a r)
    then have "length (level_up h r) < length txs" by (simp add: length_level_up)
    from less [OF this, of "h (f @ a)"] Cons show ?thesis
      by (simp add: merkle_loop.simps [of h "f # a # r"] level_up_Cons2 CalculateSteps_Cons2)
  qed
qed

lemma WithFirst_merkle_loop:
  "merkle_loop h (f # txs) = [WithFirst (NewMerkleTree ([] # txs) (Some h)) f]"
  by (simp add: WithFirst_def NewMerkleTree_def Let_def fold_steps_merkle_loop)

lemma length_steps_bounds:
  "length txs + 1 \<le> 2 ^ length (CalculateSteps h ([] # txs)) \<and>
   (txs \<noteq> [] \<longrightarrow> 2 ^ (length (CalculateSteps h ([] # txs)) - 1) < length txs + 1)"
proof (induction "length txs" arbitrary: txs rule: less_induct)
  case less
  show ?case
  proof (cases txs)
    case Nil
    then show ?thesis by (simp add: CalculateSteps_single)
  next
    case (Cons a r)
    define k where "k = length (CalculateSteps h ([] # level_up h r))"
    have len: "length (level_up h r) = (length r + 1) div 2" by (rule length_level_up)
    then have lt: "length (level_up h r) < length txs" using Cons by simp
    from less [OF lt] have up: "(length r + 1) div 2 + 1 \<le> 2 ^ k"
      and lo: "level_up h r \<noteq> [] \<longrightarrow> 2 ^ (k - 1) < (length r + 1) div 2 + 1"
      by (simp_all add: k_def len)
    have n: "length (CalculateSteps h ([] # txs)) = Suc k" by (simp add: Cons CalculateSteps_Cons2 k_def)
    have "length txs + 1 \<le> 2 ^ Suc k" using up Cons by simp
    moreover have "2 ^ k < length txs + 1"
    proof (cases "r = []")
      case True
      then show ?thesis using Cons by (simp add: k_def CalculateSteps_single)
    next
      case False
      then have ne: "level_up h r \<noteq> []" using len by (cases r) auto
      then have "0 < k" by (cases "level_up h r") (auto simp: k_def CalculateSteps_Cons2)
      then have "(2 :: nat) ^ k = 2 * 2 ^ (k - 1)" by (cases k) auto
      then show ?thesis using lo ne Cons by simp
    qed
    ultimately show ?thesis by (simp add: n)
  qed
qed

subsection \<open>Digests of 32 bytes\<close>

text \<open>
  What the job code relies on from a node hasher: every digest has 32 bytes, so branch
  elements and the root have 32 bytes too.
\<close>

locale digest32 =
  fixes h :: "bytes \<Rightarrow> bytes"
  assumes length_digest: "length (h b) = 32"
begin

lemma level_up_lengths: "x \<in> set (level_up h L) \<Longrightarrow> length x = 32"
  by (auto simp: level_up_def Let_def length_digest)

lemma steps_lengths:
  "\<forall>t \<in> set txs. length t = 32 \<Longrightarrow> s \<in> set (CalculateSteps h (z # txs)) \<Longrightarrow> length s = 32"
proof (induction "length txs" arbitrary: z txs rule: less_induct)
  case less
  show ?case
  proof (cases txs)
    case Nil
    with less.prems show ?thesis by (simp add: CalculateSteps_single)
  next
    case (Cons a r)
    then have "length (level_up h r) < length txs" by (simp add: length_level_up)
    then show ?thesis using less.hyps [of "level_up h r" "[]"] less.prems Cons
      by (auto simp: CalculateSteps_Cons2 level_up_lengths)
  qed
qed

lemma root_length: "length f = 32 \<Longrightarrow> length (foldl (\<lambda>f s. h (f @ s)) f steps) = 32"
  by (induction steps arbitrary: f) (auto simp: length_digest)

end

interpretation sha256d_digest: digest32 Sha256d
  by unfold_locales (simp add: Sha256d_def Sha256_def)

interpretation sha256_digest: digest32 Sha256
  by unfold_locales (simp add: Sha256_def)

subsection \<open>Properties\<close>

text \<open>
  C15. The Merkle branch is right for every transaction list and every node hasher: the
  branch is computed before the coinbase is known (from a placeholder and the other
  transaction hashes), and folding any coinbase hash through it gives the root of the
  full tree over the coinbase hash and those transactions, with the Bitcoin rule that an
  odd level repeats its last hash.
\<close>

theorem branch_gives_root:
  "merkle_loop h (coinbaseHash # txHashes) =
   [WithFirst (NewMerkleTree ([] # txHashes) (Some h)) coinbaseHash]"
  by (rule WithFirst_merkle_loop)

text \<open>
  The branch is as short as it can be: with \<open>n\<close> transactions besides the coinbase it
  has exactly \<open>\<lceil>log 2 (n + 1)\<rceil>\<close> elements.
\<close>

theorem branch_length:
  "length txHashes + 1 \<le> 2 ^ length (CalculateSteps h ([] # txHashes)) \<and>
   (txHashes = [] \<or> 2 ^ (length (CalculateSteps h ([] # txHashes)) - 1) < length txHashes + 1)"
  using length_steps_bounds [of txHashes h] by blast

text \<open>
  With the default double SHA-256 (a nil hasher) the pool's root agrees with the
  equihash engine's \<open>merkleRoot\<close> over the raw transactions, and it has 32 bytes, as the
  header layout needs.
\<close>

theorem default_root_is_merkleRoot:
  "merkleRoot (coinbase # rawTxs) =
     Inr (WithFirst (NewMerkleTree ([] # map Sha256d rawTxs) None) (Sha256d coinbase)) \<and>
   length (WithFirst (NewMerkleTree ([] # map Sha256d rawTxs) None) (Sha256d coinbase)) = 32"
proof -
  have "NewMerkleTree L None = NewMerkleTree L (Some Sha256d)" for L
    by (simp add: NewMerkleTree_def)
  moreover have "length (WithFirst (NewMerkleTree L (Some Sha256d)) (Sha256d coinbase)) = 32" for L
    using sha256d_digest.root_length [OF sha256d_digest.length_digest]
    by (simp add: WithFirst_def NewMerkleTree_def Let_def)
  ultimately show ?thesis
    by (simp add: merkleRoot_def index_def WithFirst_merkle_loop)
qed

end
