(* ===== verification/Jobs.thy ===== *)
theory Jobs
  imports Daemons Merkle
begin

text \<open>
  \<open>jobs/job.go\<close>, \<open>jobs/jobManager.go\<close>, \<open>jobs/extraNonce1Generator.go\<close>, \<open>types/share.go\<close> and
  \<open>types/errors.go\<close>: mining jobs built from block templates, their serialisation, and the
  validation of a submitted share. The current time (in seconds) and random bytes are
  arguments; the hash registry is \<open>ar\<close>.
\<close>

subsection \<open>Shares and their error codes\<close>

record share =
  sh_JobId :: string
  sh_RemoteAddr :: string
  sh_Miner :: string
  sh_Rig :: string
  sh_ErrorCode :: int
  sh_BlockHeight :: int
  sh_BlockReward :: u64
  sh_Diff :: f64
  sh_BlockHash :: string
  sh_BlockHex :: string
  sh_TxHash :: string

definition empty_share :: share where
  "empty_share = \<lparr>sh_JobId = '''', sh_RemoteAddr = '''', sh_Miner = '''', sh_Rig = '''', sh_ErrorCode = 0,
     sh_BlockHeight = 0, sh_BlockReward = 0, sh_Diff = Fin 0, sh_BlockHash = '''', sh_BlockHex = '''', sh_TxHash = ''''\<rparr>"

definition ErrJobNotFound :: int where "ErrJobNotFound = 20"
definition ErrIncorrectExtraNonce2Size :: int where "ErrIncorrectExtraNonce2Size = 21"
definition ErrIncorrectNTimeSize :: int where "ErrIncorrectNTimeSize = 22"
definition ErrNTimeOutOfRange :: int where "ErrNTimeOutOfRange = 23"
definition ErrIncorrectNonceSize :: int where "ErrIncorrectNonceSize = 24"
definition ErrDuplicateShare :: int where "ErrDuplicateShare = 25"
definition ErrLowDiffShare :: int where "ErrLowDiffShare = 26"

lemmas error_code_defs = ErrJobNotFound_def ErrIncorrectExtraNonce2Size_def ErrIncorrectNTimeSize_def
  ErrNTimeOutOfRange_def ErrIncorrectNonceSize_def ErrDuplicateShare_def ErrLowDiffShare_def

definition codeToErrMap :: "(int \<times> string) list" where
  "codeToErrMap = [(10, ''you are banned by pool''), (20, ''job not found''), (21, ''incorrect size of extranonce2''),
     (22, ''incorrect size of ntime''), (23, ''ntime out of range''), (24, ''incorrect size of nonce''),
     (25, ''duplicate share''), (26, ''low difficulty share'')]"

definition ErrorString :: "int \<Rightarrow> string" where
  "ErrorString err = (case map_of codeToErrMap err of Some s \<Rightarrow> s | None \<Rightarrow> '''')"

subsection \<open>Jobs\<close>

record job =
  j_GetBlockTemplate :: block_template
  j_Submits :: "string list"
  j_GenerationTransaction :: "bytes \<times> bytes"
  j_JobId :: string
  j_PrevHashReversed :: string
  j_MerkleBranch :: "string list"
  j_Target :: int
  j_Difficulty :: bigfloat
  j_TransactionData :: bytes
  j_Reward :: string
  j_MerkleTree :: merkle_tree

text \<open>\<open>new(big.Int).SetString(s, 16)\<close>: an optional sign and at least one digit, all hexadecimal.\<close>

fun hex_digits :: "nat \<Rightarrow> string \<Rightarrow> nat option" where
  "hex_digits acc [] = Some acc"
| "hex_digits acc (c # cs) = (case unhex c of None \<Rightarrow> None | Some d \<Rightarrow> hex_digits (16 * acc + d) cs)"

definition big_set_hex :: "string \<Rightarrow> int option" where
  "big_set_hex s =
     (case s of
        [] \<Rightarrow> None
      | c # cs \<Rightarrow>
          if c = CHR ''-'' then (if cs = [] then None else map_option (\<lambda>n. - int n) (hex_digits 0 cs))
          else if c = CHR ''+'' then (if cs = [] then None else map_option int (hex_digits 0 cs))
          else map_option int (hex_digits 0 s))"

definition template_target :: "block_template \<Rightarrow> int res" where
  "template_target rpcData =
     (if gbt_Target rpcData \<noteq> '''' then
        (case big_set_hex (gbt_Target rpcData) of Some t \<Rightarrow> Inr t | None \<Rightarrow> Inl (Panic ''nil pointer dereference''))
      else rbind (BigIntFromBitsHex (gbt_Bits rpcData)) (\<lambda>n. Inr (int n)))"

fun tx_hashes :: "tx_params list \<Rightarrow> bytes list res" where
  "tx_hashes [] = Inr []"
| "tx_hashes (t # ts) =
     (if tx_TxId t \<noteq> '''' then rbind (tx_hashes ts) (\<lambda>r. Inr (Uint256BytesFromHash (tx_TxId t) # r))
      else if tx_Hash t \<noteq> '''' then rbind (tx_hashes ts) (\<lambda>r. Inr (Uint256BytesFromHash (tx_Hash t) # r))
      else Inl (Panic ''no hash or txid in transactions params''))"

text \<open>The leading nil stands for the coinbase, whose hash is not known yet.\<close>

definition GetTransactionBytes :: "tx_params list \<Rightarrow> bytes list res" where
  "GetTransactionBytes txs = rbind (tx_hashes txs) (\<lambda>hs. Inr ([] # hs))"

fun decode_txs :: "tx_params list \<Rightarrow> bytes res" where
  "decode_txs [] = Inr []"
| "decode_txs (t # ts) =
     (case hex_decode (tx_Data t) of
        (d, ok) \<Rightarrow> if ok then rbind (decode_txs ts) (\<lambda>r. Inr (d @ r)) else Inl (Panic ''failed to decode tx''))"

definition NewJob ::
  "address_libs \<Rightarrow> int \<Rightarrow> string \<Rightarrow> block_template \<Rightarrow> bytes \<Rightarrow> bytes \<Rightarrow> string \<Rightarrow> bool \<Rightarrow> recipient list \<Rightarrow> hash_func \<Rightarrow> job res" where
  "NewJob al now jobId rpcData poolAddressScript extraNoncePlaceholder reward txMessages recipients coinbaseHasher =
     rbind (template_target rpcData) (\<lambda>bigTarget.
     rbind (bf_quo (bf_set_int MaxTargetTruncated) (bf_set_int bigTarget)) (\<lambda>bigDiff.
     rbind (ReverseByteOrder (fst (hex_decode (gbt_PreviousBlockHash rpcData)))) (\<lambda>prevHash.
     rbind (GetTransactionBytes (gbt_Transactions rpcData)) (\<lambda>txsBytes.
       let merkleTree = NewMerkleTree txsBytes (Some coinbaseHasher);
           merkleBranch = GetMerkleHashes (Steps merkleTree) in
     rbind (CreateGeneration al now rpcData poolAddressScript extraNoncePlaceholder reward txMessages recipients) (\<lambda>generationTransaction.
     rbind (decode_txs (gbt_Transactions rpcData)) (\<lambda>txData.
       Inr \<lparr>j_GetBlockTemplate = rpcData, j_Submits = [], j_GenerationTransaction = generationTransaction,
            j_JobId = jobId, j_PrevHashReversed = hex_encode prevHash, j_MerkleBranch = merkleBranch,
            j_Target = bigTarget, j_Difficulty = bigDiff, j_TransactionData = txData, j_Reward = '''',
            j_MerkleTree = merkleTree\<rparr>))))))"

definition SerializeCoinbase :: "job \<Rightarrow> bytes \<Rightarrow> bytes \<Rightarrow> bytes" where
  "SerializeCoinbase j extraNonce1 extraNonce2 =
     fst (j_GenerationTransaction j) @ extraNonce1 @ extraNonce2 @ snd (j_GenerationTransaction j)"

text \<open>\<open>GetVoteData\<close> decodes the votes and then joins only their count.\<close>

definition GetVoteData :: "job \<Rightarrow> bytes" where
  "GetVoteData j =
     (if gbt_MasternodePayments (j_GetBlockTemplate j) = INil then []
      else VarIntBytes (word_of_nat (length (gbt_Votes (j_GetBlockTemplate j)))))"

definition SerializeBlock :: "job \<Rightarrow> bytes \<Rightarrow> bytes \<Rightarrow> bytes" where
  "SerializeBlock j header coinbase =
     (let suffix = (if j_Reward j = ''POS'' then [0] else [])
      in header @ VarIntBytes (word_of_nat (length (gbt_Transactions (j_GetBlockTemplate j)) + 1)) @ coinbase @
         j_TransactionData j @ GetVoteData j @ suffix)"

definition put_u32_be :: "bytes \<Rightarrow> nat \<Rightarrow> u32 \<Rightarrow> bytes res" where
  "put_u32_be b pos v =
     (if length b < pos + 4 then Inl (Panic ''index out of range'')
      else Inr (take pos b @ be_bytes 4 (unat v) @ drop (pos + 4) b))"

definition SerializeHeader :: "job \<Rightarrow> bytes \<Rightarrow> bytes \<Rightarrow> bytes \<Rightarrow> bytes res" where
  "SerializeHeader j merkleRt nTime nonce =
     (let bits = fst (hex_decode (gbt_Bits (j_GetBlockTemplate j)));
          prevHash = fst (hex_decode (gbt_PreviousBlockHash (j_GetBlockTemplate j)));
          p1 = length nonce; p2 = p1 + length bits; p3 = p2 + length nTime; p4 = p3 + length merkleRt;
          p5 = p4 + length prevHash in
      rbind (copy_at (replicate 80 0) 0 nonce) (\<lambda>h.
      rbind (copy_at h p1 bits) (\<lambda>h.
      rbind (copy_at h p2 nTime) (\<lambda>h.
      rbind (copy_at h p3 merkleRt) (\<lambda>h.
      rbind (copy_at h p4 prevHash) (\<lambda>h.
      rbind (put_u32_be h p5 (gbt_Version (j_GetBlockTemplate j))) (\<lambda>h.
        Inr (ReverseBytes h))))))))"

definition RegisterSubmit :: "job \<Rightarrow> string \<Rightarrow> string \<Rightarrow> string \<Rightarrow> string \<Rightarrow> bool \<times> job" where
  "RegisterSubmit j extraNonce1 extraNonce2 nTime nonce =
     (let submission = extraNonce1 @ extraNonce2 @ nTime @ nonce
      in if StringsIndexOf (j_Submits j) submission = -1
         then (True, j\<lparr>j_Submits := j_Submits j @ [submission]\<rparr>)
         else (False, j))"

definition GetJobParams :: "int \<Rightarrow> job \<Rightarrow> bool \<Rightarrow> iface list" where
  "GetJobParams now j forceUpdate =
     [IStr (j_JobId j), IStr (j_PrevHashReversed j),
      IStr (hex_encode (fst (j_GenerationTransaction j))), IStr (hex_encode (snd (j_GenerationTransaction j))),
      IList (map IStr (j_MerkleBranch j)),
      IStr (hex_encode (PackInt32BE (gbt_Version (j_GetBlockTemplate j)))),
      IStr (gbt_Bits (j_GetBlockTemplate j)),
      IStr (hex_encode (PackUint32BE (word_of_int now))),
      IBool forceUpdate]"

subsection \<open>The job manager\<close>

record algorithm_options =
  ao_Name :: string
  ao_Multiplier :: int
  ao_SHA256dBlockHasher :: bool
  ao_BlockHasher :: string
  ao_CoinbaseHasher :: string

record job_options =
  jo_PoolAddress :: recipient
  jo_RewardRecipients :: "recipient list"
  jo_Reward :: string
  jo_TxMessages :: bool
  jo_Algorithm :: algorithm_options

text \<open>
  \<open>CurrentJob\<close> and the entries of \<open>ValidJobs\<close> are pointers to shared jobs. Every assignment of
  \<open>CurrentJob\<close> also stores the same pointer under its job id and no entry is ever removed, so
  the current job is represented by its key in \<open>ValidJobs\<close> (\<open>None\<close> is nil).
\<close>

record job_manager =
  jm_PoolAddress :: recipient
  jm_Options :: job_options
  jm_ExtraNoncePlaceholder :: bytes
  jm_ExtraNonce2Size :: int
  jm_CurrentJob :: "string option"
  jm_ValidJobs :: "string \<rightharpoonup> job"
  jm_CoinbaseHasher :: hash_func

definition current_job :: "job_manager \<Rightarrow> job option" where
  "current_job jm = (case jm_CurrentJob jm of None \<Rightarrow> None | Some i \<Rightarrow> jm_ValidJobs jm i)"

text \<open>\<open>ExtraNonce1Generator\<close>: four random bytes.\<close>

definition ExtraNonce1Size :: nat where
  "ExtraNonce1Size = 4"

definition GetExtraNonce1 :: "bytes \<Rightarrow> bytes" where
  "GetExtraNonce1 rand = take ExtraNonce1Size (rand @ replicate ExtraNonce1Size 0)"

definition NewJobManager :: "algo_registry \<Rightarrow> job_options \<Rightarrow> job_manager res" where
  "NewJobManager ar options =
     (let placeholder = fst (hex_decode ''f000000ff111111f''); name = ao_CoinbaseHasher (jo_Algorithm options) in
      rbind (if name \<noteq> '''' then GetHashFunc ar name else Inr Sha256d) (\<lambda>coinbaseHasher.
        Inr \<lparr>jm_PoolAddress = jo_PoolAddress options, jm_Options = options, jm_ExtraNoncePlaceholder = placeholder,
             jm_ExtraNonce2Size = int (length placeholder) - int ExtraNonce1Size, jm_CurrentJob = None,
             jm_ValidJobs = Map.empty, jm_CoinbaseHasher = coinbaseHasher\<rparr>))"

text \<open>\<open>jm.CurrentJob = job; jm.ValidJobs[job.JobId] = job\<close>.\<close>

definition set_job :: "job \<Rightarrow> job_manager \<Rightarrow> job_manager" where
  "set_job job jm = jm\<lparr>jm_CurrentJob := Some (j_JobId job), jm_ValidJobs := (jm_ValidJobs jm)(j_JobId job \<mapsto> job)\<rparr>"

definition install_job ::
  "address_libs \<Rightarrow> int \<Rightarrow> string \<Rightarrow> block_template \<Rightarrow> job_manager \<Rightarrow> job_manager res" where
  "install_job al now jobId rpcData jm =
     rbind (recipient_script al (jm_PoolAddress jm)) (\<lambda>script.
     rbind (NewJob al now jobId rpcData script (jm_ExtraNoncePlaceholder jm) (jo_Reward (jm_Options jm))
              (jo_TxMessages (jm_Options jm)) (jo_RewardRecipients (jm_Options jm)) (jm_CoinbaseHasher jm)) (\<lambda>tmpBlockTemplate.
       Inr (set_job tmpBlockTemplate jm)))"

definition UpdateCurrentJob :: "address_libs \<Rightarrow> int \<Rightarrow> block_template \<Rightarrow> job_manager \<Rightarrow> job_manager res" where
  "UpdateCurrentJob al now rpcData jm =
     (case current_job jm of
        None \<Rightarrow> Inl (Panic ''nil pointer dereference'')
      | Some cur \<Rightarrow> install_job al now (j_JobId cur) rpcData jm)"

definition CreateNewJob :: "address_libs \<Rightarrow> int \<Rightarrow> bytes \<Rightarrow> block_template \<Rightarrow> job_manager \<Rightarrow> job_manager res" where
  "CreateNewJob al now rand rpcData jm = install_job al now (RandHexUint64 rand) rpcData jm"

definition ProcessTemplate :: "address_libs \<Rightarrow> int \<Rightarrow> bytes \<Rightarrow> block_template \<Rightarrow> job_manager \<Rightarrow> job_manager res" where
  "ProcessTemplate al now rand rpcData jm =
     (case current_job jm of
        Some cur \<Rightarrow>
          if gbt_Height rpcData < gbt_Height (j_GetBlockTemplate cur) then Inr jm
          else if gbt_Height rpcData = gbt_Height (j_GetBlockTemplate cur) then UpdateCurrentJob al now rpcData jm
          else CreateNewJob al now rand rpcData jm
      | None \<Rightarrow> CreateNewJob al now rand rpcData jm)"

text \<open>\<open>1 << m\<close> at \<open>int64\<close>: a negative count panics, the bit leaves the word from 64 on.\<close>

definition shl1_int64 :: "int \<Rightarrow> int res" where
  "shl1_int64 m =
     (if m < 0 then Inl (Panic ''negative shift amount'')
      else Inr (if m < 63 then 2 ^ nat m else if m = 63 then - (2 ^ 63) else 0))"

text \<open>
  The difficulty of a header hash, as \<open>ProcessSubmit\<close> computes it.
\<close>

definition share_difficulty :: "algorithm_options \<Rightarrow> int \<Rightarrow> bigfloat res" where
  "share_difficulty ao headerHashBigInt =
     rbind (shl1_int64 (ao_Multiplier ao)) (\<lambda>k.
       bf_quo (bf_set_int (MaxTargetTruncated * k)) (bf_set_int headerHashBigInt))"

definition block_id :: "algo_registry \<Rightarrow> algorithm_options \<Rightarrow> bytes \<Rightarrow> string res" where
  "block_id ar ao headerBytes =
     (if ao_BlockHasher ao \<noteq> '''' then
        rbind (GetHashFunc ar (ao_BlockHasher ao)) (\<lambda>f. Inr (hex_encode (ReverseBytes (f headerBytes))))
      else if ao_SHA256dBlockHasher ao then Inr (hex_encode (ReverseBytes (Sha256d headerBytes)))
      else rbind (GetHashFunc ar (ao_Name ao)) (\<lambda>f. Inr (hex_encode (ReverseBytes (f headerBytes)))))"

definition split_names :: "string \<Rightarrow> string \<times> string" where
  "split_names workerName =
     (let names = split_on (CHR ''.'') workerName
      in if length names < 2 then (names ! 0, ''unknown'') else (names ! 0, names ! 1))"

definition reject_share :: "string \<Rightarrow> string \<Rightarrow> string \<times> string \<Rightarrow> int \<Rightarrow> share" where
  "reject_share jobId ipAddr names err =
     empty_share\<lparr>sh_JobId := jobId, sh_RemoteAddr := ipAddr, sh_Miner := fst names, sh_Rig := snd names, sh_ErrorCode := err\<rparr>"

text \<open>
  The part of \<open>ProcessSubmit\<close> after the checks on the fields: hash the header and classify
  the share. \<open>diff\<close> and \<open>prevDiff\<close> are nil pointers when \<open>None\<close>.
\<close>

definition judge_share ::
  "algo_registry \<Rightarrow> job_manager \<Rightarrow> job \<Rightarrow> string \<Rightarrow> bigfloat option \<Rightarrow> bigfloat option \<Rightarrow> bytes \<Rightarrow> bytes \<Rightarrow>
   bytes \<Rightarrow> bytes \<Rightarrow> string \<Rightarrow> string \<Rightarrow> share res" where
  "judge_share ar jm job jobId prevDiff diff extraNonce1 extraNonce2 nTimeBytes nonce ipAddr workerName =
     (let names = split_names workerName;
          base = empty_share\<lparr>sh_JobId := jobId, sh_RemoteAddr := ipAddr, sh_Miner := fst names, sh_Rig := snd names\<rparr>;
          coinbaseBytes = SerializeCoinbase job extraNonce1 extraNonce2;
          coinbaseHash = jm_CoinbaseHasher jm coinbaseBytes;
          merkleRt = ReverseBytes (WithFirst (j_MerkleTree job) coinbaseHash);
          ao = jo_Algorithm (jm_Options jm) in
      rbind (SerializeHeader job merkleRt nTimeBytes nonce) (\<lambda>headerBytes.
      rbind (GetHashFunc ar (ao_Name ao)) (\<lambda>hash.
        let headerHashBigInt = int (be_nat (ReverseBytes (hash headerBytes))) in
      rbind (share_difficulty ao headerHashBigInt) (\<lambda>bigShareDiff.
        case diff of
          None \<Rightarrow> Inl (Panic ''nil pointer dereference'')
        | Some diff \<Rightarrow>
            (let assignedDiff = bf_float64 diff in
             if headerHashBigInt < j_Target job then
               rbind (block_id ar ao headerBytes) (\<lambda>blockHash.
                 Inr (base\<lparr>sh_BlockHeight := gbt_Height (j_GetBlockTemplate job),
                          sh_BlockReward := gbt_CoinbaseValue (j_GetBlockTemplate job),
                          sh_Diff := assignedDiff, sh_BlockHash := blockHash,
                          sh_BlockHex := hex_encode (SerializeBlock job headerBytes coinbaseBytes)\<rparr>))
             else
               rbind (bf_quo bigShareDiff diff) (\<lambda>ratio.
               rbind (bf_new (f64_round (99 / 100))) (\<lambda>lim.
                 if bf_less ratio lim then
                   (case prevDiff of
                      Some pd \<Rightarrow>
                        if \<not> bf_less bigShareDiff pd then
                          Inr (base\<lparr>sh_BlockHeight := gbt_Height (j_GetBlockTemplate job),
                                   sh_BlockReward := gbt_CoinbaseValue (j_GetBlockTemplate job), sh_Diff := bf_float64 pd\<rparr>)
                        else Inr (empty_share\<lparr>sh_JobId := jobId, sh_RemoteAddr := ipAddr, sh_Miner := workerName, sh_ErrorCode := ErrLowDiffShare\<rparr>)
                    | None \<Rightarrow> Inr (empty_share\<lparr>sh_JobId := jobId, sh_RemoteAddr := ipAddr, sh_Miner := workerName, sh_ErrorCode := ErrLowDiffShare\<rparr>))
                 else Inr (base\<lparr>sh_Diff := assignedDiff\<rparr>))))))))"

definition ProcessSubmit ::
  "algo_registry \<Rightarrow> int \<Rightarrow> string \<Rightarrow> bigfloat option \<Rightarrow> bigfloat option \<Rightarrow> bytes \<Rightarrow> string \<Rightarrow> string \<Rightarrow> string \<Rightarrow>
   string \<Rightarrow> string \<Rightarrow> job_manager \<Rightarrow> (share \<times> job_manager) res" where
  "ProcessSubmit ar now jobId prevDiff diff extraNonce1 hexExtraNonce2 hexNTime hexNonce ipAddr workerName jm =
     (let reject = (\<lambda>err. Inr (reject_share jobId ipAddr (split_names workerName) err, jm)) in
      case jm_ValidJobs jm jobId of
        None \<Rightarrow> reject ErrJobNotFound
      | Some job \<Rightarrow>
          if j_JobId job \<noteq> jobId then reject ErrJobNotFound
          else
            (let extraNonce2 = fst (hex_decode hexExtraNonce2) in
             if int (length extraNonce2) \<noteq> jm_ExtraNonce2Size jm then reject ErrIncorrectExtraNonce2Size
             else if length hexNTime \<noteq> 8 then reject ErrIncorrectNTimeSize
             else
               (let nTimeInt = fst (parse_int 16 hexNTime) in
                if (word_of_int nTimeInt :: u32) < gbt_CurTime (j_GetBlockTemplate job) \<or> now + 7 < nTimeInt
                then reject ErrNTimeOutOfRange
                else if length hexNonce \<noteq> 8 then reject ErrIncorrectNonceSize
                else
                  (case RegisterSubmit job (hex_encode extraNonce1) hexExtraNonce2 hexNTime hexNonce of
                     (False, _) \<Rightarrow> reject ErrDuplicateShare
                   | (True, job) \<Rightarrow>
                       (let jm = jm\<lparr>jm_ValidJobs := (jm_ValidJobs jm)(jobId \<mapsto> job)\<rparr> in
                        rbind (judge_share ar jm job jobId prevDiff diff extraNonce1 extraNonce2
                                 (fst (hex_decode hexNTime)) (fst (hex_decode hexNonce)) ipAddr workerName) (\<lambda>share.
                          Inr (share, jm)))))))"

text \<open>
  \<open>ProcessShare\<close>: a block candidate is submitted and checked and the template refreshed; then
  the share goes to the storage queue. The result is the share as enqueued, whether its block
  was accepted, and the new manager state.
\<close>

definition ProcessShare ::
  "'w transport \<Rightarrow> (iface option \<Rightarrow> block_template option) \<Rightarrow> daemon_manager \<Rightarrow> address_libs \<Rightarrow> int \<Rightarrow> bytes \<Rightarrow>
   share \<Rightarrow> job_manager \<Rightarrow> 'w \<Rightarrow> (share \<times> bool \<times> job_manager) res \<times> 'w" where
  "ProcessShare rpc decode_gbt dm al now rand share jm w =
     (if sh_BlockHex share = '''' then (Inr (share, False, jm), w)
      else
        (case SubmitBlock rpc dm (sh_BlockHex share) w of
           (Inl e, w) \<Rightarrow> (Inl e, w)
         | (Inr _, w) \<Rightarrow>
             (case CheckBlockAccepted rpc dm (sh_BlockHash share) w of
                (Inl e, w) \<Rightarrow> (Inl e, w)
              | (Inr (isAccepted, tx), w) \<Rightarrow>
                  (let share = share\<lparr>sh_TxHash := tx\<rparr> in
                   case FetchBlockTemplate rpc decode_gbt dm w of
                     (Inl (Err m), w) \<Rightarrow> (Inl (Panic ''failed fetching GBT''), w)
                   | (Inl e, w) \<Rightarrow> (Inl e, w)
                   | (Inr gbt, w) \<Rightarrow>
                       (rbind (ProcessTemplate al now rand gbt jm) (\<lambda>jm. Inr (share, isAccepted, jm)), w)))))"

subsection \<open>The block header\<close>

lemma copy_at_end:
  "length src + m = n \<Longrightarrow> p = length xs \<Longrightarrow>
   copy_at (xs @ replicate n 0) p src = Inr ((xs @ src) @ replicate m (0 :: byte))"
  by (auto simp: copy_at_def)

lemma SerializeHeader_layout:
  fixes j nTime nonce mroot
  defines "bits \<equiv> fst (hex_decode (gbt_Bits (j_GetBlockTemplate j)))"
    and "prev \<equiv> fst (hex_decode (gbt_PreviousBlockHash (j_GetBlockTemplate j)))"
  assumes len: "length bits = 4" "length prev = 32" "length nTime = 4" "length nonce = 4" "length mroot = 32"
  shows "SerializeHeader j mroot nTime nonce =
     Inr (le_bytes 4 (unat (gbt_Version (j_GetBlockTemplate j))) @ rev prev @ rev mroot @ rev nTime @ rev bits @ rev nonce)"
proof -
  have 0: "copy_at ([] @ replicate 80 0) 0 nonce = Inr (([] @ nonce) @ replicate 76 0)"
    by (rule copy_at_end) (simp_all add: len)
  have 1: "copy_at (([] @ nonce) @ replicate 76 0) 4 bits = Inr ((([] @ nonce) @ bits) @ replicate 72 0)"
    by (rule copy_at_end) (simp_all add: len)
  have 2: "copy_at ((([] @ nonce) @ bits) @ replicate 72 0) 8 nTime = Inr (((([] @ nonce) @ bits) @ nTime) @ replicate 68 0)"
    by (rule copy_at_end) (simp_all add: len)
  have 3: "copy_at (((([] @ nonce) @ bits) @ nTime) @ replicate 68 0) 12 mroot =
      Inr ((((([] @ nonce) @ bits) @ nTime) @ mroot) @ replicate 36 0)"
    by (rule copy_at_end) (simp_all add: len)
  have 4: "copy_at ((((([] @ nonce) @ bits) @ nTime) @ mroot) @ replicate 36 0) 44 prev =
      Inr (((((([] @ nonce) @ bits) @ nTime) @ mroot) @ prev) @ replicate 4 0)"
    by (rule copy_at_end) (simp_all add: len)
  have 5: "put_u32_be (((((([] @ nonce) @ bits) @ nTime) @ mroot) @ prev) @ replicate 4 0) 76 v =
      Inr (nonce @ bits @ nTime @ mroot @ prev @ be_bytes 4 (unat v))" for v
    using len by (simp add: put_u32_be_def)
  show ?thesis
    unfolding SerializeHeader_def Let_def bits_def [symmetric] prev_def [symmetric]
    by (simp only: len 0 [simplified append_Nil [of "replicate 80 0"]] 1 2 3 4 5 rbind_Inr numeral_plus_numeral add_num_simps ReverseBytes_rev)
      (simp add: be_bytes_def)
qed

lemma put_u32_be_length: "put_u32_be h p v = Inr h' \<Longrightarrow> length h' = length h"
  by (auto simp: put_u32_be_def split: if_splits)

lemma SerializeHeader_length: "SerializeHeader j mroot nTime nonce = Inr h \<Longrightarrow> length h = 80"
  by (auto simp: SerializeHeader_def Let_def rbind_eq_Inr dest!: copy_at_length put_u32_be_length)

lemma NewJob_fields:
  assumes "NewJob al now jobId g script ph reward msgs rs h = Inr j"
  shows "j_GetBlockTemplate j = g" "j_Submits j = []" "j_JobId j = jobId" "j_Reward j = ''''"
    "template_target g = Inr (j_Target j)"
    "\<exists>hs. tx_hashes (gbt_Transactions g) = Inr hs \<and> j_MerkleTree j = NewMerkleTree ([] # hs) (Some h)"
    "CreateGeneration al now g script ph reward msgs rs = Inr (j_GenerationTransaction j)"
    "decode_txs (gbt_Transactions g) = Inr (j_TransactionData j)"
  using assms by (auto simp: NewJob_def GetTransactionBytes_def rbind_eq_Inr Let_def)

lemma tx_hashes_length: "tx_hashes ts = Inr hs \<Longrightarrow> length hs = length ts \<and> (\<forall>t\<in>set hs. length t = 32)"
  by (induction ts arbitrary: hs) (auto simp: rbind_eq_Inr split: if_splits)

subsection \<open>Duplicate detection\<close>

lemma index_of_ge: "index_of k xs x = -1 \<longleftrightarrow> x \<notin> set xs"
  by (induction k xs x rule: index_of.induct) auto

lemma RegisterSubmit_spec:
  "RegisterSubmit j a b c d =
     (if a @ b @ c @ d \<in> set (j_Submits j) then (False, j) else (True, j\<lparr>j_Submits := j_Submits j @ [a @ b @ c @ d]\<rparr>))"
  by (simp add: RegisterSubmit_def StringsIndexOf_def index_of_ge Let_def)

text \<open>The submission has been recorded for the job with that id.\<close>

definition registered :: "string \<Rightarrow> string \<Rightarrow> job_manager \<Rightarrow> bool" where
  "registered jobId s jm = (\<exists>job. jm_ValidJobs jm jobId = Some job \<and> s \<in> set (j_Submits job))"

lemma judge_share_code:
  "judge_share ar jm job jobId pd d en1 en2 nt nn ip wk = Inr sh \<Longrightarrow> sh_ErrorCode sh = 0 \<or> sh_ErrorCode sh = ErrLowDiffShare"
  by (auto simp: judge_share_def Let_def rbind_eq_Inr empty_share_def split: option.splits if_splits)

text \<open>The submissions that reach the registration, and what happens to the others.\<close>

lemma ProcessSubmit_cases:
  assumes "ProcessSubmit ar now jobId pd d en1 e2 nt nn ip wk jm = Inr (sh, jm')"
  obtains
    (rejected) err where "sh = reject_share jobId ip (split_names wk) err" "jm' = jm"
      "err \<in> {ErrJobNotFound, ErrIncorrectExtraNonce2Size, ErrIncorrectNTimeSize, ErrNTimeOutOfRange, ErrIncorrectNonceSize, ErrDuplicateShare}"
  | (judged) job job' where "jm_ValidJobs jm jobId = Some job" "j_JobId job = jobId"
      "int (length (fst (hex_decode e2))) = jm_ExtraNonce2Size jm" "length nt = 8" "length nn = 8"
      "gbt_CurTime (j_GetBlockTemplate job) \<le> word_of_int (fst (parse_int 16 nt))" "fst (parse_int 16 nt) \<le> now + 7"
      "hex_encode en1 @ e2 @ nt @ nn \<notin> set (j_Submits job)"
      "job' = job\<lparr>j_Submits := j_Submits job @ [hex_encode en1 @ e2 @ nt @ nn]\<rparr>"
      "jm' = jm\<lparr>jm_ValidJobs := (jm_ValidJobs jm)(jobId \<mapsto> job')\<rparr>"
      "judge_share ar jm' job' jobId pd d en1 (fst (hex_decode e2)) (fst (hex_decode nt)) (fst (hex_decode nn)) ip wk = Inr sh"
proof (cases "jm_ValidJobs jm jobId")
  case None
  then show thesis using assms rejected [of ErrJobNotFound] by (simp add: ProcessSubmit_def)
next
  case (Some job)
  consider "j_JobId job \<noteq> jobId" | "int (length (fst (hex_decode e2))) \<noteq> jm_ExtraNonce2Size jm" | "length nt \<noteq> 8"
    | "\<not> gbt_CurTime (j_GetBlockTemplate job) \<le> word_of_int (fst (parse_int 16 nt)) \<or> \<not> fst (parse_int 16 nt) \<le> now + 7"
    | "length nn \<noteq> 8" | "hex_encode en1 @ e2 @ nt @ nn \<in> set (j_Submits job)"
    | "j_JobId job = jobId" "int (length (fst (hex_decode e2))) = jm_ExtraNonce2Size jm" "length nt = 8" "length nn = 8"
      "gbt_CurTime (j_GetBlockTemplate job) \<le> word_of_int (fst (parse_int 16 nt))" "fst (parse_int 16 nt) \<le> now + 7"
      "hex_encode en1 @ e2 @ nt @ nn \<notin> set (j_Submits job)" by blast
  then show thesis
  proof cases
    case 7
    then show thesis
      using assms Some judged [OF Some 7(1,2,3,4,5,6,7) refl]
      by (auto simp: ProcessSubmit_def Let_def RegisterSubmit_spec rbind_eq_Inr simp flip: linorder_not_le)
  qed (use assms Some rejected in \<open>auto simp: ProcessSubmit_def Let_def RegisterSubmit_spec not_le split: if_splits\<close>)
qed

text \<open>A submission as it arrives, and a sequence of them processed in order.\<close>

record submit_req =
  sq_now :: int
  sq_jobId :: string
  sq_prevDiff :: "bigfloat option"
  sq_diff :: "bigfloat option"
  sq_extraNonce1 :: bytes
  sq_extraNonce2 :: string
  sq_nTime :: string
  sq_nonce :: string
  sq_ip :: string
  sq_worker :: string

definition process_req :: "algo_registry \<Rightarrow> submit_req \<Rightarrow> job_manager \<Rightarrow> (share \<times> job_manager) res" where
  "process_req ar q jm =
     ProcessSubmit ar (sq_now q) (sq_jobId q) (sq_prevDiff q) (sq_diff q) (sq_extraNonce1 q) (sq_extraNonce2 q)
       (sq_nTime q) (sq_nonce q) (sq_ip q) (sq_worker q) jm"

fun submits_run :: "algo_registry \<Rightarrow> submit_req list \<Rightarrow> job_manager \<Rightarrow> (share list \<times> job_manager) res" where
  "submits_run ar [] jm = Inr ([], jm)"
| "submits_run ar (q # qs) jm =
     rbind (process_req ar q jm) (\<lambda>(sh, jm). rbind (submits_run ar qs jm) (\<lambda>(shs, jm). Inr (sh # shs, jm)))"

definition submission :: "submit_req \<Rightarrow> string" where
  "submission q = hex_encode (sq_extraNonce1 q) @ sq_extraNonce2 q @ sq_nTime q @ sq_nonce q"

lemma process_req_registers:
  "process_req ar q jm = Inr (sh, jm') \<Longrightarrow> sh_ErrorCode sh = 0 \<Longrightarrow>
   registered (sq_jobId q) (submission q) jm' \<and> \<not> registered (sq_jobId q) (submission q) jm"
  unfolding process_req_def
  by (erule ProcessSubmit_cases) (auto simp: registered_def submission_def reject_share_def error_code_defs)

lemma process_req_keeps:
  "process_req ar q jm = Inr (sh, jm') \<Longrightarrow> registered i s jm \<Longrightarrow> registered i s jm'"
  unfolding process_req_def by (erule ProcessSubmit_cases) (auto simp: registered_def)

lemma submits_run_registered:
  "submits_run ar qs jm = Inr (shs, jm') \<Longrightarrow> k < length qs \<Longrightarrow> registered (sq_jobId (qs ! k)) (submission (qs ! k)) jm \<Longrightarrow>
   sh_ErrorCode (shs ! k) \<noteq> 0"
proof (induction qs arbitrary: jm shs k)
  case (Cons q qs)
  from Cons.prems(1) obtain sh jm1 shs' where
    1: "process_req ar q jm = Inr (sh, jm1)" "submits_run ar qs jm1 = Inr (shs', jm')" "shs = sh # shs'"
    by (auto simp: rbind_eq_Inr)
  show ?case
  proof (cases k)
    case 0
    with 1 Cons.prems(3) process_req_registers [OF 1(1)] show ?thesis by auto
  next
    case (Suc k')
    with 1 Cons.prems process_req_keeps [OF 1(1)] Cons.IH [OF 1(2), of k'] show ?thesis by simp
  qed
qed simp

lemma submits_run_once:
  "submits_run ar qs jm = Inr (shs, jm') \<Longrightarrow> i < k \<Longrightarrow> k < length qs \<Longrightarrow>
   sq_jobId (qs ! i) = sq_jobId (qs ! k) \<Longrightarrow> submission (qs ! i) = submission (qs ! k) \<Longrightarrow>
   sh_ErrorCode (shs ! i) = 0 \<Longrightarrow> sh_ErrorCode (shs ! k) \<noteq> 0"
proof (induction qs arbitrary: jm shs i k)
  case (Cons q qs)
  from Cons.prems(1) obtain sh jm1 shs' where
    1: "process_req ar q jm = Inr (sh, jm1)" "submits_run ar qs jm1 = Inr (shs', jm')" "shs = sh # shs'"
    by (auto simp: rbind_eq_Inr)
  from Cons.prems(2,3) obtain k' where k: "k = Suc k'" "k' < length qs" by (cases k) auto
  show ?case
  proof (cases i)
    case 0
    with 1 Cons.prems k process_req_registers [OF 1(1)] submits_run_registered [OF 1(2) k(2)] show ?thesis by simp
  next
    case (Suc i')
    with 1 k Cons.prems Cons.IH [OF 1(2), of i' k'] show ?thesis by simp
  qed
qed simp

subsection \<open>Reachable manager states\<close>

text \<open>
  The steps of a running manager: a new template, or a submission. \<open>al\<close> and \<open>ar\<close> are fixed;
  times, random bytes, templates and submissions are arbitrary.
\<close>

inductive jm_step :: "address_libs \<Rightarrow> algo_registry \<Rightarrow> job_manager \<Rightarrow> job_manager \<Rightarrow> bool" for al ar where
  template: "ProcessTemplate al now rand g jm = Inr jm' \<Longrightarrow> jm_step al ar jm jm'"
| submit: "process_req ar q jm = Inr (sh, jm') \<Longrightarrow> jm_step al ar jm jm'"

inductive jm_reach :: "address_libs \<Rightarrow> algo_registry \<Rightarrow> job_manager \<Rightarrow> bool" for al ar where
  init: "NewJobManager ar options = Inr jm \<Longrightarrow> jm_reach al ar jm"
| step: "jm_reach al ar jm \<Longrightarrow> jm_step al ar jm jm' \<Longrightarrow> jm_reach al ar jm'"

inductive_cases jm_stepE: "jm_step al ar jm jm'"

definition jm_inv :: "job_manager \<Rightarrow> bool" where
  "jm_inv jm \<longleftrightarrow>
     (\<forall>i j. jm_ValidJobs jm i = Some j \<longrightarrow> j_JobId j = i \<and> distinct (j_Submits j)) \<and>
     (\<forall>i. jm_CurrentJob jm = Some i \<longrightarrow> i \<in> dom (jm_ValidJobs jm)) \<and>
     length (jm_ExtraNoncePlaceholder jm) = 8 \<and> jm_ExtraNonce2Size jm = 4"

lemma set_job_simps [simp]:
  "jm_CurrentJob (set_job j jm) = Some (j_JobId j)" "jm_ValidJobs (set_job j jm) = (jm_ValidJobs jm)(j_JobId j \<mapsto> j)"
  "jm_ExtraNoncePlaceholder (set_job j jm) = jm_ExtraNoncePlaceholder jm" "jm_ExtraNonce2Size (set_job j jm) = jm_ExtraNonce2Size jm"
  "current_job (set_job j jm) = Some j"
  by (simp_all add: set_job_def current_job_def)

lemma install_job_spec:
  assumes "install_job al now i g jm = Inr jm'"
  shows "\<exists>j. jm' = set_job j jm \<and> j_JobId j = i \<and> j_Submits j = [] \<and> j_GetBlockTemplate j = g"
proof -
  from assms obtain j script where j: "jm' = set_job j jm" and new:
    "NewJob al now i g script (jm_ExtraNoncePlaceholder jm) (jo_Reward (jm_Options jm))
       (jo_TxMessages (jm_Options jm)) (jo_RewardRecipients (jm_Options jm)) (jm_CoinbaseHasher jm) = Inr j"
    by (auto simp: install_job_def rbind_eq_Inr)
  from j NewJob_fields(1-3) [OF new] show ?thesis by auto
qed

lemma ProcessTemplate_spec:
  assumes "ProcessTemplate al now rand g jm = Inr jm'"
  shows "(jm' = jm \<and> (\<exists>cur. current_job jm = Some cur \<and> gbt_Height g < gbt_Height (j_GetBlockTemplate cur))) \<or>
     (\<exists>j. jm' = set_job j jm \<and> j_Submits j = [] \<and> j_GetBlockTemplate j = g \<and>
       (\<forall>cur. current_job jm = Some cur \<longrightarrow> gbt_Height (j_GetBlockTemplate cur) \<le> gbt_Height g))"
  using assms install_job_spec
  by (auto simp: ProcessTemplate_def UpdateCurrentJob_def CreateNewJob_def split: option.splits if_splits)
    (meson order_refl less_imp_le not_less_iff_gr_or_eq)+

lemma jm_inv_step: "jm_step al ar jm jm' \<Longrightarrow> jm_inv jm \<Longrightarrow> jm_inv jm'"
proof (induction rule: jm_step.induct)
  case (template now rand g jm jm')
  from ProcessTemplate_spec [OF template(1)] template(2) show ?case by (auto simp: jm_inv_def split: if_splits)
next
  case (submit q jm sh jm')
  then show ?case unfolding process_req_def
    by (elim ProcessSubmit_cases) (auto simp: jm_inv_def)
qed

lemma jm_inv_reach: "jm_reach al ar jm \<Longrightarrow> jm_inv jm"
proof (induction rule: jm_reach.induct)
  case (init options jm)
  have "length (fst (hex_decode ''f000000ff111111f'')) = 8" by code_simp
  with init show ?case by (auto simp: NewJobManager_def Let_def rbind_eq_Inr jm_inv_def ExtraNonce1Size_def split: if_splits)
qed (rule jm_inv_step)

lemma height_step:
  assumes "jm_step al ar jm jm'" "jm_inv jm" "current_job jm = Some cur"
  shows "\<exists>cur'. current_job jm' = Some cur' \<and> gbt_Height (j_GetBlockTemplate cur) \<le> gbt_Height (j_GetBlockTemplate cur')"
  using assms
proof (induction rule: jm_step.induct)
  case (template now rand g jm jm')
  from ProcessTemplate_spec [OF template(1)] template(3) show ?case by auto
next
  case (submit q jm sh jm')
  then show ?case unfolding process_req_def
    by (elim ProcessSubmit_cases) (auto simp: current_job_def split: option.splits)
qed

subsection \<open>Properties\<close>

text \<open>
  C6. The header a share is judged by is the header of the block it would make. For a job
  built by \<open>NewJob\<close> from a template with a 4-byte \<open>bits\<close> and a 32-byte previous hash, with a
  coinbase hasher that returns 32-byte digests, the header \<open>SerializeHeader\<close> builds for a
  coinbase transaction, a 4-byte time and a 4-byte nonce is the 80-byte Bitcoin header:
  version little-endian, previous hash reversed, Merkle root, time, bits and nonce reversed.
  Its Merkle root is the root of the full transaction tree over the coinbase hash and the
  transaction hashes of the template.
\<close>

theorem header_commits_to_block:
  fixes g
  defines "bits \<equiv> fst (hex_decode (gbt_Bits g))" and "prev \<equiv> fst (hex_decode (gbt_PreviousBlockHash g))"
  assumes job: "NewJob al now jobId g script ph reward msgs rs h = Inr j"
    and h: "digest32 h"
    and len: "length bits = 4" "length prev = 32" "length nTime = 4" "length nonce = 4"
  shows "\<exists>hs mroot. tx_hashes (gbt_Transactions g) = Inr hs \<and>
     merkle_loop h (h coinbase # hs) = [mroot] \<and>
     SerializeHeader j (ReverseBytes (WithFirst (j_MerkleTree j) (h coinbase))) nTime nonce =
       Inr (le_bytes 4 (unat (gbt_Version g)) @ rev prev @ mroot @ rev nTime @ rev bits @ rev nonce)"
proof -
  from NewJob_fields(6) [OF job] obtain hs where
    hs: "tx_hashes (gbt_Transactions g) = Inr hs" "j_MerkleTree j = NewMerkleTree ([] # hs) (Some h)" by blast
  define mroot where "mroot = WithFirst (j_MerkleTree j) (h coinbase)"
  have loop: "merkle_loop h (h coinbase # hs) = [mroot]"
    unfolding mroot_def hs(2) by (rule WithFirst_merkle_loop)
  have "length mroot = 32"
    unfolding mroot_def WithFirst_def hs(2) NewMerkleTree_def
    using digest32.root_length [OF h] digest32.length_digest [OF h] by simp
  with SerializeHeader_layout [of j nTime nonce "rev mroot"] len
  have "SerializeHeader j (rev mroot) nTime nonce =
      Inr (le_bytes 4 (unat (gbt_Version g)) @ rev prev @ mroot @ rev nTime @ rev bits @ rev nonce)"
    by (simp add: bits_def prev_def NewJob_fields(1) [OF job])
  with hs loop show ?thesis by (auto simp: mroot_def)
qed


text \<open>
  C12. The same submission is credited at most once per job. In any sequence of submissions
  processed on a manager state, the credited ones (error code 0) are pairwise different in
  their job id or in the text of their extranonces, time and nonce.
\<close>

theorem no_double_credit:
  assumes "submits_run ar qs jm = Inr (shs, jm')"
  shows "distinct (map (\<lambda>(q, sh). (sq_jobId q, submission q)) (filter (\<lambda>(q, sh). sh_ErrorCode sh = 0) (zip qs shs)))"
  using assms
proof (induction qs arbitrary: jm shs)
  case (Cons q qs)
  from Cons.prems obtain sh jm1 shs' where
    1: "process_req ar q jm = Inr (sh, jm1)" "submits_run ar qs jm1 = Inr (shs', jm')" "shs = sh # shs'"
    by (auto simp: rbind_eq_Inr)
  have "sh_ErrorCode s \<noteq> 0" if "(q', s) \<in> set (zip qs shs')" "sq_jobId q' = sq_jobId q" "submission q' = submission q"
    "sh_ErrorCode sh = 0" for q' s
  proof -
    from that(1) obtain k where "k < length qs" "k < length shs'" "q' = qs ! k" "s = shs' ! k" by (auto simp: in_set_zip)
    with that process_req_registers [OF 1(1)] submits_run_registered [OF 1(2), of k] show ?thesis by auto
  qed
  with Cons.IH [OF 1(2)] 1(3) show ?case by (auto 0 3)
qed simp

text \<open>A small manager state, with a stand-in hash function, for the witnesses.\<close>

definition toy_hash :: hash_func where
  "toy_hash b = 1 # replicate 31 0"

definition ex_registry :: algo_registry where
  "ex_registry = \<lparr>ar_hashes = [(''toy'', toy_hash)], ar_multipliers = []\<rparr>"

definition ex_options :: job_options where
  "ex_options = \<lparr>jo_PoolAddress = ex_recipient, jo_RewardRecipients = [], jo_Reward = ''POW'', jo_TxMessages = False,
     jo_Algorithm = \<lparr>ao_Name = ''toy'', ao_Multiplier = 0, ao_SHA256dBlockHasher = False, ao_BlockHasher = '''', ao_CoinbaseHasher = ''''\<rparr>\<rparr>"

definition ex_job :: job where
  "ex_job = \<lparr>j_GetBlockTemplate = ex_template, j_Submits = [], j_GenerationTransaction = ([], []), j_JobId = ''77'',
     j_PrevHashReversed = '''', j_MerkleBranch = [], j_Target = 2, j_Difficulty = bf_set_int 1, j_TransactionData = [],
     j_Reward = '''', j_MerkleTree = \<lparr>Steps = [], hasher = toy_hash\<rparr>\<rparr>"

definition ex_jm :: job_manager where
  "ex_jm = \<lparr>jm_PoolAddress = ex_recipient, jm_Options = ex_options, jm_ExtraNoncePlaceholder = replicate 8 0,
     jm_ExtraNonce2Size = 4, jm_CurrentJob = Some ''77'', jm_ValidJobs = [''77'' \<mapsto> ex_job], jm_CoinbaseHasher = toy_hash\<rparr>"

definition ex_req :: submit_req where
  "ex_req = \<lparr>sq_now = 1600000000, sq_jobId = ''77'', sq_prevDiff = None, sq_diff = Some (bf_set_int 1),
     sq_extraNonce1 = [1, 2, 3, 4], sq_extraNonce2 = ''05060708'', sq_nTime = ''5f5e1000'', sq_nonce = ''0000abcd'',
     sq_ip = ''10.0.0.1'', sq_worker = ''alice.rig1''\<rparr>"

lemma ex_decodes:
  "fst (hex_decode ''05060708'') = [5, 6, 7, 8]" "fst (hex_decode ''5f5e1000'') = [0x5f, 0x5e, 0x10, 0]"
  "fst (hex_decode ''0000abcd'') = [0, 0, 0xab, 0xcd]" "fst (hex_decode ''0000ABCD'') = [0, 0, 0xab, 0xcd]"
  "fst (hex_decode ''1d00ffff'') = [0x1d, 0, 0xff, 0xff]" "fst (hex_decode (concat (replicate 32 ''ab''))) = replicate 32 0xab"
  by code_simp+

lemma ex_ntime: "fst (parse_int 16 ''5f5e1000'') = 1600000000"
  by (simp add: parse_int_def parse_uint_def unhex_def)

lemma ex_judge:
  assumes job: "j_GetBlockTemplate job = ex_template" "Steps (j_MerkleTree job) = []" "1 < j_Target job"
    and jm: "jm_CoinbaseHasher jm = toy_hash" "jm_Options jm = ex_options" and len: "length nt = 4" "length nn = 4"
  shows "\<exists>sh. judge_share ex_registry jm job i None (Some (bf_set_int 1)) en1 en2 nt nn ip wk = Inr sh \<and> sh_ErrorCode sh = 0"
proof -
  have flds: "gbt_Bits ex_template = ''1d00ffff''" "gbt_PreviousBlockHash ex_template = concat (replicate 32 ''ab'')"
    by (simp_all add: ex_template_def)
  have "\<exists>hdr. SerializeHeader job (rev (toy_hash c)) nt nn = Inr hdr" for c
    using SerializeHeader_layout [of job nt nn "rev (toy_hash c)"] len
    by (auto simp: job flds ex_decodes toy_hash_def simp del: hex_decode.simps)
  then obtain hdr where hdr: "SerializeHeader job (rev (toy_hash (SerializeCoinbase job en1 en2))) nt nn = Inr hdr" by blast
  have wf: "WithFirst (j_MerkleTree job) x = x" for x by (simp add: WithFirst_def job)
  have hash: "GetHashFunc ex_registry ''toy'' = Inr toy_hash" by (simp add: GetHashFunc_def ex_registry_def to_lower_def lower_char_def)
  have val: "be_nat (rev (toy_hash x)) = 1" for x by (simp add: toy_hash_def be_nat_def)
  have opt: "ao_Name (jo_Algorithm ex_options) = ''toy''" "ao_BlockHasher (jo_Algorithm ex_options) = []"
    "\<not> ao_SHA256dBlockHasher (jo_Algorithm ex_options)" "ao_Multiplier (jo_Algorithm ex_options) = 0"
    by (simp_all add: ex_options_def)
  show ?thesis
    using hdr job(3) by (simp add: judge_share_def Let_def jm opt wf hash val share_difficulty_def shl1_int64_def bf_quo_def
        bf_set_int_def block_id_def empty_share_def)
qed

lemma ex_accepted:
  "\<exists>sh jm'. process_req ex_registry ex_req ex_jm = Inr (sh, jm') \<and> sh_ErrorCode sh = 0"
proof -
  define s where "s = hex_encode [1, 2, 3, 4] @ ''05060708'' @ ''5f5e1000'' @ ''0000abcd''"
  define j where "j = ex_job\<lparr>j_Submits := [s]\<rparr>"
  define v where "v = [''77'' \<mapsto> ex_job](''77'' \<mapsto> j)"
  have "j_GetBlockTemplate j = ex_template" "Steps (j_MerkleTree j) = []" "1 < j_Target j"
    "jm_CoinbaseHasher (ex_jm\<lparr>jm_ValidJobs := v\<rparr>) = toy_hash" "jm_Options (ex_jm\<lparr>jm_ValidJobs := v\<rparr>) = ex_options"
    by (simp_all add: j_def ex_job_def ex_jm_def)
  from ex_judge [OF this, of "[0x5f, 0x5e, 0x10, 0]" "[0, 0, 0xab, 0xcd]" "''77''" "[1, 2, 3, 4]" "[5, 6, 7, 8]" "''10.0.0.1''" "''alice.rig1''"]
  obtain sh where sh: "judge_share ex_registry (ex_jm\<lparr>jm_ValidJobs := v\<rparr>) j ''77'' None (Some (bf_set_int 1)) [1, 2, 3, 4] [5, 6, 7, 8]
      [0x5f, 0x5e, 0x10, 0] [0, 0, 0xab, 0xcd] ''10.0.0.1'' ''alice.rig1'' = Inr sh" "sh_ErrorCode sh = 0"
    by auto
  have job: "jm_ValidJobs ex_jm = [''77'' \<mapsto> ex_job]" "jm_ExtraNonce2Size ex_jm = 4" "j_JobId ex_job = ''77''"
    "gbt_CurTime (j_GetBlockTemplate ex_job) = 1600000000" "j_Submits ex_job = []"
    by (simp_all add: ex_jm_def ex_job_def ex_template_def)
  have "process_req ex_registry ex_req ex_jm = Inr (sh, ex_jm\<lparr>jm_ValidJobs := v\<rparr>)"
    using sh(1) by (simp add: process_req_def ex_req_def ProcessSubmit_def Let_def job ex_decodes ex_ntime RegisterSubmit_spec s_def j_def v_def del: hex_decode.simps)
  with sh(2) show ?thesis by blast
qed

theorem no_double_credit_witness:
  "\<exists>shs jm'. submits_run ex_registry [ex_req, ex_req] ex_jm = Inr (shs, jm') \<and>
     distinct (map (\<lambda>(q, sh). (sq_jobId q, submission q)) (filter (\<lambda>(q, sh). sh_ErrorCode sh = 0) (zip [ex_req, ex_req] shs)))"
proof -
  from ex_accepted obtain sh jm1 where 1: "process_req ex_registry ex_req ex_jm = Inr (sh, jm1)" "sh_ErrorCode sh = 0" by blast
  from process_req_registers [OF 1] have "registered (sq_jobId ex_req) (submission ex_req) jm1" by simp
  then obtain job where job: "jm_ValidJobs jm1 ''77'' = Some job" "submission ex_req \<in> set (j_Submits job)"
    by (auto simp: registered_def ex_req_def)
  have "\<exists>sh2. process_req ex_registry ex_req jm1 = Inr (sh2, jm1)"
    using job by (auto simp: process_req_def ex_req_def ProcessSubmit_def Let_def RegisterSubmit_spec submission_def simp del: hex_decode.simps)
  then obtain sh2 where 2: "process_req ex_registry ex_req jm1 = Inr (sh2, jm1)" by blast
  have run: "submits_run ex_registry [ex_req, ex_req] ex_jm = Inr ([sh, sh2], jm1)" using 1 2 by simp
  from no_double_credit [OF run] run show ?thesis by blast
qed


lemma ex_target: "template_target ex_template = Inr (0xffff * 2 ^ 208)"
proof -
  have "hex_decode ''1d00ffff'' = ([0x1d, 0, 0xff, 0xff], True)" by code_simp
  then show ?thesis
    by (simp add: template_target_def ex_template_def BigIntFromBitsHex_def BigIntFromBitsBytes_def be_nat_def)
qed

lemma ex_NewJob_ok: "is_ok (NewJob ex_libs 1600000000 i ex_template pk ph ''POW'' False [] h)"
proof -
  obtain gt where gen: "CreateGeneration ex_libs 1600000000 ex_template pk ph ''POW'' False [] = Inr gt"
    using ex_generation_ok [of pk ph] by (auto simp: is_ok_iff)
  have "concat (replicate 8 (replicate 4 (0xab :: byte))) = replicate 32 0xab"
    by (simp add: eval_nat_numeral(2,3))
  then have rev: "is_ok (ReverseByteOrder (replicate 32 0xab))"
    using ReverseByteOrder_concat [of "replicate 8 (replicate 4 0xab)"] by simp
  have flds: "gbt_Transactions ex_template = []" "gbt_PreviousBlockHash ex_template = concat (replicate 32 ''ab'')"
    by (simp_all add: ex_template_def)
  from rev gen show ?thesis
    by (auto simp: NewJob_def ex_target flds ex_decodes GetTransactionBytes_def bf_quo_def bf_set_int_def
        is_ok_iff Let_def simp del: hex_decode.simps replicate.simps)
qed

theorem header_commits_to_block_witness:
  "\<exists>j hs mroot. NewJob ex_libs 1600000000 ''77'' ex_template [0x52] (replicate 8 0xf0) ''POW'' False [] Sha256d = Inr j \<and>
     tx_hashes (gbt_Transactions ex_template) = Inr hs \<and> merkle_loop Sha256d (Sha256d [1] # hs) = [mroot] \<and>
     SerializeHeader j (ReverseBytes (WithFirst (j_MerkleTree j) (Sha256d [1]))) [1, 2, 3, 4] [5, 6, 7, 8] =
       Inr (le_bytes 4 0x20000000 @ replicate 32 0xab @ mroot @ [4, 3, 2, 1] @ [0xff, 0xff, 0, 0x1d] @ [8, 7, 6, 5])"
proof -
  from ex_NewJob_ok [of "''77''" "[0x52]" "replicate 8 0xf0" Sha256d] obtain j where
    j: "NewJob ex_libs 1600000000 ''77'' ex_template [0x52] (replicate 8 0xf0) ''POW'' False [] Sha256d = Inr j" by (auto simp: is_ok_iff)
  have flds: "gbt_Bits ex_template = ''1d00ffff''" "gbt_PreviousBlockHash ex_template = concat (replicate 32 ''ab'')"
    "gbt_Version ex_template = 0x20000000" by (simp_all add: ex_template_def)
  from header_commits_to_block [OF j sha256d_digest.digest32_axioms, of "[1, 2, 3, 4]" "[5, 6, 7, 8]" "[1]"] j
  show ?thesis by (auto simp: flds ex_decodes simp del: hex_decode.simps)
qed



lemma Submits_irrelevant [simp]:
  "SerializeCoinbase (job\<lparr>j_Submits := s\<rparr>) = SerializeCoinbase job"
  "SerializeHeader (job\<lparr>j_Submits := s\<rparr>) = SerializeHeader job"
  "SerializeBlock (job\<lparr>j_Submits := s\<rparr>) = SerializeBlock job"
  by (simp_all add: fun_eq_iff SerializeCoinbase_def SerializeHeader_def SerializeBlock_def GetVoteData_def)

lemma judge_share_Submits [simp]: "judge_share ar jm (job\<lparr>j_Submits := s\<rparr>) = judge_share ar jm job"
  by (intro ext) (simp add: judge_share_def cong: option.case_cong if_cong)

lemma judge_share_cong:
  "jm_CoinbaseHasher jm1 = jm_CoinbaseHasher jm2 \<Longrightarrow> jm_Options jm1 = jm_Options jm2 \<Longrightarrow> judge_share ar jm1 = judge_share ar jm2"
  by (intro ext) (simp add: judge_share_def)

lemma ProcessSubmit_judged:
  assumes "jm_ValidJobs jm jobId = Some job" "j_JobId job = jobId" "int (length (fst (hex_decode e2))) = jm_ExtraNonce2Size jm"
    "length nt = 8" "length nn = 8" "gbt_CurTime (j_GetBlockTemplate job) \<le> word_of_int (fst (parse_int 16 nt))"
    "fst (parse_int 16 nt) \<le> now + 7" "hex_encode en1 @ e2 @ nt @ nn \<notin> set (j_Submits job)"
    "jm' = jm\<lparr>jm_ValidJobs := (jm_ValidJobs jm)(jobId \<mapsto> job\<lparr>j_Submits := j_Submits job @ [hex_encode en1 @ e2 @ nt @ nn]\<rparr>)\<rparr>"
    "judge_share ar jm job jobId pd d en1 (fst (hex_decode e2)) (fst (hex_decode nt)) (fst (hex_decode nn)) ip wk = Inr sh"
  shows "ProcessSubmit ar now jobId pd d en1 e2 nt nn ip wk jm = Inr (sh, jm')"
proof -
  have "judge_share ar jm' job = judge_share ar jm job"
    using judge_share_cong [of jm' jm ar] by (simp add: assms(9))
  then show ?thesis using assms by (simp add: ProcessSubmit_def Let_def RegisterSubmit_spec)
qed

text \<open>
  Writing the nonce in another letter case earns the same share again. Duplicates are
  detected on the submitted text, while the work is determined by the bytes it decodes to.
  If a submission has been credited, and a second nonce text of 8 characters decodes to the
  same bytes without having been submitted, then submitting the second text is credited with
  the very same share.
\<close>

theorem nonce_respelling_credited_twice:
  assumes first: "ProcessSubmit ar now jobId pd d en1 e2 nt nn ip wk jm = Inr (sh, jm')" "sh_ErrorCode sh = 0"
    and respelt: "fst (hex_decode nn') = fst (hex_decode nn)" "length nn' = 8"
      "\<not> registered jobId (hex_encode en1 @ e2 @ nt @ nn') jm'"
  shows "\<exists>jm''. ProcessSubmit ar now jobId pd d en1 e2 nt nn' ip wk jm' = Inr (sh, jm'')"
  using first(1)
proof (cases rule: ProcessSubmit_cases)
  case (rejected err)
  with first(2) show ?thesis by (auto simp: reject_share_def error_code_defs)
next
  case (judged job job')
  define s where "s = hex_encode en1 @ e2 @ nt @ nn'"
  have new: "s \<notin> set (j_Submits job')" using respelt(3) judged(10) by (auto simp: registered_def s_def)
  have job': "jm_ValidJobs jm' jobId = Some job'" by (simp add: judged(10))
  have "judge_share ar jm' job' jobId pd d en1 (fst (hex_decode e2)) (fst (hex_decode nt)) (fst (hex_decode nn')) ip wk = Inr sh"
    using judged(11) respelt(1) by simp
  from ProcessSubmit_judged [OF job' _ _ judged(4) respelt(2) _ judged(7) new [unfolded s_def] refl this] judged
  have "\<exists>jm''. ProcessSubmit ar now jobId pd d en1 e2 nt nn' ip wk jm' = Inr (sh, jm'')" by auto
  then show ?thesis by blast
qed

theorem nonce_respelling_credited_twice_witness:
  "\<exists>sh jm' jm''. process_req ex_registry ex_req ex_jm = Inr (sh, jm') \<and> sh_ErrorCode sh = 0 \<and>
     process_req ex_registry (ex_req\<lparr>sq_nonce := ''0000ABCD''\<rparr>) jm' = Inr (sh, jm'')"
proof -
  from ex_accepted obtain sh jm1 where 1: "process_req ex_registry ex_req ex_jm = Inr (sh, jm1)" "sh_ErrorCode sh = 0" by blast
  have req: "sq_nonce ex_req = ''0000abcd''" "sq_jobId ex_req = ''77''" by (simp_all add: ex_req_def)
  have new: "\<not> registered ''77'' (hex_encode (sq_extraNonce1 ex_req) @ sq_extraNonce2 ex_req @ sq_nTime ex_req @ ''0000ABCD'') jm1"
    using 1(1) unfolding process_req_def
    by (elim ProcessSubmit_cases) (auto simp: registered_def ex_jm_def ex_job_def req)
  from nonce_respelling_credited_twice [OF 1(1) [unfolded process_req_def] 1(2), of "''0000ABCD''"] new 1
  show ?thesis by (simp add: req ex_decodes process_req_def del: hex_decode.simps)
qed

text \<open>
  Refreshing a template forgets what was submitted. \<open>UpdateCurrentJob\<close> replaces the job
  by a new one with the same id and an empty list of submissions. When the template is
  fetched again within the same second, the new job is the same job, and a submission that
  was already credited is credited again with the same share.
\<close>

theorem refresh_credits_again:
  assumes made: "install_job al now i g jm0 = Inr jm1"
    and first: "ProcessSubmit ar t i pd d en1 e2 nt nn ip wk jm1 = Inr (sh, jm2)" "sh_ErrorCode sh = 0"
  shows "\<exists>jm3 jm4. UpdateCurrentJob al now g jm2 = Inr jm3 \<and>
           ProcessSubmit ar t i pd d en1 e2 nt nn ip wk jm3 = Inr (sh, jm4)"
proof -
  from made obtain script j where script: "recipient_script al (jm_PoolAddress jm0) = Inr script" and
    new: "NewJob al now i g script (jm_ExtraNoncePlaceholder jm0) (jo_Reward (jm_Options jm0))
       (jo_TxMessages (jm_Options jm0)) (jo_RewardRecipients (jm_Options jm0)) (jm_CoinbaseHasher jm0) = Inr j" and
    jm1: "jm1 = set_job j jm0"
    by (auto simp: install_job_def rbind_eq_Inr)
  have id: "j_JobId j = i" by (rule NewJob_fields(3) [OF new])
  show ?thesis using first(1)
  proof (cases rule: ProcessSubmit_cases)
    case (rejected err)
    with first(2) show ?thesis by (auto simp: reject_share_def error_code_defs)
  next
    case (judged job job')
    have job: "job = j" using judged(1) id by (simp add: jm1)
    have flds: "jm_PoolAddress jm2 = jm_PoolAddress jm0" "jm_Options jm2 = jm_Options jm0" "jm_CoinbaseHasher jm2 = jm_CoinbaseHasher jm0"
      "jm_ExtraNoncePlaceholder jm2 = jm_ExtraNoncePlaceholder jm0" "jm_ExtraNonce2Size jm2 = jm_ExtraNonce2Size jm1"
      by (simp_all add: judged(10) jm1 set_job_def)
    have cur: "current_job jm2 = Some job'" by (simp add: judged(10) jm1 current_job_def set_job_def id)
    have id': "j_JobId job' = i" using judged(2,9) by simp
    define jm3 where "jm3 = set_job j jm2"
    have upd: "UpdateCurrentJob al now g jm2 = Inr jm3"
      by (simp add: UpdateCurrentJob_def cur id' install_job_def flds script new jm3_def)
    have j3: "jm_ValidJobs jm3 i = Some j" by (simp add: jm3_def id)
    have "judge_share ar jm3 j = judge_share ar jm2 j"
      using judge_share_cong [of jm3 jm2 ar] by (simp add: jm3_def set_job_def)
    then have "judge_share ar jm3 j i pd d en1 (fst (hex_decode e2)) (fst (hex_decode nt)) (fst (hex_decode nn)) ip wk = Inr sh"
      using judged(11) by (simp add: judged(9) job)
    moreover have "jm_ExtraNonce2Size jm3 = jm_ExtraNonce2Size jm1" by (simp add: jm3_def flds)
    ultimately have "\<exists>jm4. ProcessSubmit ar t i pd d en1 e2 nt nn ip wk jm3 = Inr (sh, jm4)"
      using ProcessSubmit_judged [OF j3 id _ judged(4,5) judged(6) [unfolded job] judged(7) judged(8) [unfolded job] refl] judged(3) by auto
    with upd show ?thesis by blast
  qed
qed

lemma ex_install:
  "\<exists>j. install_job ex_libs 1600000000 ''77'' ex_template ex_jm = Inr (set_job j ex_jm) \<and> j_GetBlockTemplate j = ex_template \<and>
     j_JobId j = ''77'' \<and> j_Submits j = [] \<and> Steps (j_MerkleTree j) = [] \<and> 1 < j_Target j"
proof -
  have jm: "jm_PoolAddress ex_jm = ex_recipient" "jm_Options ex_jm = ex_options" "jo_Reward ex_options = ''POW''"
    "jo_RewardRecipients ex_options = []" "\<not> jo_TxMessages ex_options"
    by (simp_all add: ex_jm_def ex_options_def)
  have "is_ok (NewJob ex_libs 1600000000 ''77'' ex_template [0x51] (jm_ExtraNoncePlaceholder ex_jm) ''POW'' False [] (jm_CoinbaseHasher ex_jm))"
    by (rule ex_NewJob_ok)
  then obtain j where j: "NewJob ex_libs 1600000000 ''77'' ex_template [0x51] (jm_ExtraNoncePlaceholder ex_jm) ''POW'' False [] (jm_CoinbaseHasher ex_jm) = Inr j"
    by (auto simp: is_ok_iff)
  note f = NewJob_fields [OF j]
  have "tx_hashes (gbt_Transactions ex_template) = Inr []" by (simp add: ex_template_def)
  with f(6) have "Steps (j_MerkleTree j) = []" by (auto simp: NewMerkleTree_def CalculateSteps_single Let_def)
  moreover have "1 < j_Target j" using f(5) ex_target by simp
  ultimately show ?thesis using f(1-3) j by (auto simp: install_job_def ex_script jm)
qed

theorem refresh_credits_again_witness:
  "\<exists>jm1 sh jm2 jm3 jm4. install_job ex_libs 1600000000 ''77'' ex_template ex_jm = Inr jm1 \<and>
     process_req ex_registry ex_req jm1 = Inr (sh, jm2) \<and> sh_ErrorCode sh = 0 \<and>
     UpdateCurrentJob ex_libs 1600000000 ex_template jm2 = Inr jm3 \<and> process_req ex_registry ex_req jm3 = Inr (sh, jm4)"
proof -
  from ex_install obtain j where inst: "install_job ex_libs 1600000000 ''77'' ex_template ex_jm = Inr (set_job j ex_jm)" and
    j: "j_GetBlockTemplate j = ex_template" "j_JobId j = ''77''" "j_Submits j = []" "Steps (j_MerkleTree j) = []" "1 < j_Target j"
    by blast
  define jm1 where "jm1 = set_job j ex_jm"
  have jm1: "jm_CoinbaseHasher jm1 = toy_hash" "jm_Options jm1 = ex_options" "jm_ValidJobs jm1 ''77'' = Some j" "jm_ExtraNonce2Size jm1 = 4"
    using j(2) by (simp_all add: jm1_def set_job_def ex_jm_def)
  from ex_judge [OF j(1,4,5) jm1(1,2), of "[0x5f, 0x5e, 0x10, 0]" "[0, 0, 0xab, 0xcd]" "''77''" "[1, 2, 3, 4]" "[5, 6, 7, 8]" "''10.0.0.1''" "''alice.rig1''"]
  obtain sh where sh: "judge_share ex_registry jm1 j ''77'' None (Some (bf_set_int 1)) [1, 2, 3, 4] [5, 6, 7, 8]
      [0x5f, 0x5e, 0x10, 0] [0, 0, 0xab, 0xcd] ''10.0.0.1'' ''alice.rig1'' = Inr sh" "sh_ErrorCode sh = 0" by auto
  have "\<exists>jm2. process_req ex_registry ex_req jm1 = Inr (sh, jm2)"
    unfolding process_req_def
    by (intro exI, rule ProcessSubmit_judged [where job = j])
      (use jm1 j sh in \<open>simp_all add: ex_req_def ex_decodes ex_ntime ex_template_def del: hex_decode.simps\<close>)
  then obtain jm2 where sub: "process_req ex_registry ex_req jm1 = Inr (sh, jm2)" by blast
  have id: "sq_jobId ex_req = ''77''" by (simp add: ex_req_def)
  from refresh_credits_again [OF inst [folded jm1_def] sub [unfolded process_req_def id] sh(2)] inst sub sh(2)
  show ?thesis unfolding jm1_def [symmetric] by (auto simp: process_req_def id)
qed

end
