(* ===== verification/Storage.thy ===== *)
theory Storage
  imports Redis Jobs
begin

text \<open>
  \<open>storage/block.go\<close> and \<open>storage/redis.go\<close>: the records the pool keeps in Redis. Shares are
  queued and written one by one (\<open>PutShare\<close>, \<open>shareWriter\<close>, \<open>putShareNow\<close>); a block seals
  the current round and enters the pending set; a payout run reads pending blocks, balances,
  rounds and the PPLNS log, and ends in one transaction (\<open>ApplyPayments\<close>), guarded by a
  durable intent.

  A Go map is an association list, its order the order in which the program happens to
  range over it. The JSON text of a payment update is the parameter \<open>update_codec\<close>; times are
  arguments.
\<close>

record pending_block =
  pb_Hash :: string
  pb_TxHash :: string
  pb_Height :: u64
  pb_Finder :: string
  pb_Mark :: int

definition PendingBlockString :: "pending_block \<Rightarrow> string" where
  "PendingBlockString pb =
     join '':'' [pb_Hash pb, pb_TxHash pb, fmt_uint 10 (unat (pb_Height pb)), pb_Finder pb, fmt_int (pb_Mark pb)]"

definition NewPendingBlockFromString :: "string \<Rightarrow> pending_block res" where
  "NewPendingBlockFromString str =
     (let split = split_on CHR '':'' str in
      if length split < 3 then Inl (Err (''pending block string '' @ str @ '' lacks element(s)''))
      else case parse_uint 10 (split ! 2) of (height, ok) \<Rightarrow>
        if \<not> ok then Inl (Err ''strconv.ParseUint'')
        else Inr \<lparr>pb_Hash = split ! 0, pb_TxHash = split ! 1, pb_Height = word_of_nat height,
                  pb_Finder = (if 3 < length split then split ! 3 else ''''),
                  pb_Mark = (if 4 < length split then fst (parse_int 10 (split ! 4)) else 0)\<rparr>)"

definition Immature :: string where "Immature = ''immature''"
definition Send :: string where "Send = ''send''"
definition Orphan :: string where "Orphan = ''orphan''"
definition Generate :: string where "Generate = ''generate''"
definition Receive :: string where "Receive = ''receive''"
definition Move :: string where "Move = ''move''"
definition Kicked :: string where "Kicked = ''kicked''"

record payment_update =
  pu_Balances :: "(string \<times> f64) list"
  pu_Paid :: "(string \<times> f64) list"
  pu_Confirmed :: "string list"
  pu_Orphaned :: "string list"
  pu_DeleteRounds :: "u64 list"
  pu_PPSCursor :: int

record update_codec =
  uc_Marshal :: "payment_update \<Rightarrow> string option"
  uc_Unmarshal :: "string \<Rightarrow> payment_update option"

record db =
  db_coin :: string
  db_ppsMode :: bool
  db_pplnsLogCap :: int

text \<open>The connection test of \<open>NewStorage\<close>; the writer goroutine is the step \<open>shareWriter\<close> below.\<close>

definition NewStorage :: "'r redis \<Rightarrow> string \<Rightarrow> 'r \<Rightarrow> db res \<times> 'r" where
  "NewStorage rd coinName r =
     (case rd_do rd Ping r of (rep, r) \<Rightarrow>
        (case rep of
           RStatus x \<Rightarrow>
             if to_lower x = ''pong'' then Inr \<lparr>db_coin = coinName, db_ppsMode = False, db_pplnsLogCap = 200000\<rparr>
             else Inl (Panic ''failed to connect to the redis server'')
         | _ \<Rightarrow> Inl (Panic ''failed to connect to the redis server''), r))"

definition SetPPSMode :: "bool \<Rightarrow> db \<Rightarrow> db" where
  "SetPPSMode pps s = s\<lparr>db_ppsMode := pps\<rparr>"

text \<open>Keys.\<close>

definition key_pending :: "db \<Rightarrow> string" where "key_pending s = db_coin s @ '':blocks:pending''"
definition key_confirmed :: "db \<Rightarrow> string" where "key_confirmed s = db_coin s @ '':blocks:confirmed''"
definition key_orphaned :: "db \<Rightarrow> string" where "key_orphaned s = db_coin s @ '':blocks:orphaned''"
definition key_intent :: "db \<Rightarrow> string" where "key_intent s = db_coin s @ '':payouts:intent''"
definition key_pplns :: "db \<Rightarrow> string" where "key_pplns s = db_coin s @ '':shares:pplnslog''"
definition key_seq :: "db \<Rightarrow> string" where "key_seq s = db_coin s @ '':shares:seq''"
definition key_current :: "db \<Rightarrow> string" where "key_current s = db_coin s @ '':shares:roundCurrent''"
definition key_round :: "db \<Rightarrow> string \<Rightarrow> string" where "key_round s h = db_coin s @ '':shares:round'' @ h"
definition key_balances :: "db \<Rightarrow> string" where "key_balances s = db_coin s @ '':balances''"
definition key_payouts :: "db \<Rightarrow> string" where "key_payouts s = db_coin s @ '':payouts''"
definition key_cursor :: "db \<Rightarrow> string" where "key_cursor s = db_coin s @ '':pps:cursor''"
definition key_pool :: "db \<Rightarrow> string" where "key_pool s = db_coin s @ '':pool''"
definition key_miner :: "db \<Rightarrow> string \<Rightarrow> string \<Rightarrow> string" where
  "key_miner s miner rest = db_coin s @ '':miner:'' @ miner @ rest"

lemmas key_defs = key_pending_def key_confirmed_def key_orphaned_def key_intent_def key_pplns_def key_seq_def
  key_current_def key_round_def key_balances_def key_payouts_def key_cursor_def key_pool_def key_miner_def

subsection \<open>Writing shares\<close>

definition pplns_member :: "string \<Rightarrow> f64 \<Rightarrow> int \<Rightarrow> string" where
  "pplns_member miner diff seq = miner @ '':'' @ fmt_f64 diff @ '':'' @ fmt_int seq"

definition valid_share_cmds :: "db \<Rightarrow> int \<Rightarrow> share \<Rightarrow> int \<Rightarrow> redis_cmd list" where
  "valid_share_cmds s now sh seq =
     (let strDiff = fmt_f64_prec 5 (sh_Diff sh) in
      [ZAdd (key_pplns s) (f64_of_int seq) (pplns_member (sh_Miner sh) (sh_Diff sh) seq)] @
      (if db_ppsMode s then [] else [ZRemRangeByRank (key_pplns s) 0 (- (db_pplnsLogCap s + 1))]) @
      [HIncrByFloat (key_current s) (sh_Miner sh) (sh_Diff sh),
       HIncrBy (db_coin s @ '':miners:validShares'') (sh_Miner sh) 1,
       HIncrBy (key_pool s) ''validShares'' 1,
       ZAdd (db_coin s @ '':pool:shares'') (f64_of_int now) strDiff,
       ZAdd (key_miner s (sh_Miner sh) '':hashes'') (f64_of_int now) strDiff,
       ZAdd (key_miner s (sh_Miner sh) ('':rig:'' @ sh_Rig sh @ '':hashes'')) (f64_of_int now) strDiff])"

definition invalid_share_cmds :: "db \<Rightarrow> share \<Rightarrow> redis_cmd list" where
  "invalid_share_cmds s sh =
     [HIncrBy (db_coin s @ '':miners:invalidShares'') (sh_Miner sh) 1,
      HIncrBy (key_pool s) ''invalidShares'' 1]"

definition share_block :: "share \<Rightarrow> int \<Rightarrow> pending_block" where
  "share_block sh seq = \<lparr>pb_Hash = sh_BlockHash sh, pb_TxHash = sh_TxHash sh,
     pb_Height = word_of_int (sh_BlockHeight sh), pb_Finder = sh_Miner sh, pb_Mark = seq\<rparr>"

definition block_cmds :: "db \<Rightarrow> share \<Rightarrow> bool \<Rightarrow> int \<Rightarrow> redis_cmd list" where
  "block_cmds s sh accepted seq =
     (if sh_BlockHex sh = [] then []
      else if accepted then
        [Rename (key_current s) (key_round s (fmt_int (sh_BlockHeight sh))),
         SAdd (key_pending s) (PendingBlockString (share_block sh seq)),
         HIncrBy (key_pool s) ''validBlocks'' 1]
      else [HIncrBy (key_pool s) ''invalidBlocks'' 1])"

definition record_cmds :: "db \<Rightarrow> int \<Rightarrow> share \<Rightarrow> int \<Rightarrow> redis_cmd list" where
  "record_cmds s now sh seq =
     [SAdd (db_coin s @ '':pool:miners'') (sh_Miner sh), SAdd (key_miner s (sh_Miner sh) '':rigs'') (sh_Rig sh)] @
     (if sh_ErrorCode sh = 0 then valid_share_cmds s now sh seq else invalid_share_cmds s sh)"

definition share_cmds :: "db \<Rightarrow> int \<Rightarrow> share \<Rightarrow> bool \<Rightarrow> int \<Rightarrow> redis_cmd list" where
  "share_cmds s now sh accepted seq = record_cmds s now sh seq @ block_cmds s sh accepted seq"

text \<open>The sequence number is fetched at once; an error there leaves it zero.\<close>

definition next_seq :: "'r redis \<Rightarrow> db \<Rightarrow> share \<Rightarrow> 'r \<Rightarrow> int \<times> 'r" where
  "next_seq rd s sh r =
     (if sh_ErrorCode sh = 0
      then (case rd_do rd (Incr (key_seq s)) r of (rep, r) \<Rightarrow> ((case rep of RInt n \<Rightarrow> n | _ \<Rightarrow> 0), r))
      else (0, r))"

definition putShareNow :: "'r redis \<Rightarrow> db \<Rightarrow> int \<Rightarrow> share \<Rightarrow> bool \<Rightarrow> 'r \<Rightarrow> 'r" where
  "putShareNow rd s now sh accepted r =
     (case next_seq rd s sh r of (seq, r) \<Rightarrow> snd (rd_pipeline rd (share_cmds s now sh accepted seq) r))"

text \<open>
  The queue: \<open>PutShare\<close> appends and waits while 4096 shares are queued; the one writer takes
  the oldest. The clock of the writer is an argument of its step.
\<close>

record 'r share_db =
  sd_queue :: "(share \<times> bool) list"
  sd_redis :: 'r

definition PutShare :: "share \<Rightarrow> bool \<Rightarrow> 'r share_db \<Rightarrow> 'r share_db option" where
  "PutShare sh accepted d =
     (if length (sd_queue d) < 4096 then Some (d\<lparr>sd_queue := sd_queue d @ [(sh, accepted)]\<rparr>) else None)"

definition shareWriter :: "'r redis \<Rightarrow> db \<Rightarrow> int \<Rightarrow> 'r share_db \<Rightarrow> 'r share_db option" where
  "shareWriter rd s now d =
     (case sd_queue d of
        [] \<Rightarrow> None
      | (sh, accepted) # q \<Rightarrow> Some (d\<lparr>sd_queue := q, sd_redis := putShareNow rd s now sh accepted (sd_redis d)\<rparr>))"

text \<open>Interleavings of submitters and the writer, with the shares submitted and the writes done so far.\<close>

inductive queue_reach ::
  "'r redis \<Rightarrow> db \<Rightarrow> 'r \<Rightarrow> (share \<times> bool) list \<Rightarrow> (int \<times> share \<times> bool) list \<Rightarrow> 'r share_db \<Rightarrow> bool"
  for rd s r0 where
  start: "queue_reach rd s r0 [] [] \<lparr>sd_queue = [], sd_redis = r0\<rparr>"
| submit: "queue_reach rd s r0 subs ws d \<Longrightarrow> PutShare sh acc d = Some d' \<Longrightarrow>
        queue_reach rd s r0 (subs @ [(sh, acc)]) ws d'"
| flush: "queue_reach rd s r0 subs ws d \<Longrightarrow> sd_queue d = (sh, acc) # q \<Longrightarrow> shareWriter rd s now d = Some d' \<Longrightarrow>
        queue_reach rd s r0 subs (ws @ [(now, sh, acc)]) d'"

definition write_all :: "'r redis \<Rightarrow> db \<Rightarrow> (int \<times> share \<times> bool) list \<Rightarrow> 'r \<Rightarrow> 'r" where
  "write_all rd s ws r = foldl (\<lambda>r (now, sh, acc). putShareNow rd s now sh acc r) r ws"

subsection \<open>Reading\<close>

definition redis_error :: "'a res" where "redis_error = Inl (Err ''redis'')"

text \<open>\<open>.Result()\<close> of a list reply, \<open>.Float64()\<close>, \<open>.Uint64()\<close> of a string reply; a missing key is \<open>redis.Nil\<close>.\<close>

definition as_list :: "redis_reply \<Rightarrow> string list res" where
  "as_list rep = (case rep of RList xs \<Rightarrow> Inr xs | _ \<Rightarrow> redis_error)"

definition as_map :: "redis_reply \<Rightarrow> (string \<times> string) list res" where
  "as_map rep = (case rep of RMap m \<Rightarrow> Inr m | _ \<Rightarrow> redis_error)"

definition as_float64 :: "redis_reply \<Rightarrow> f64 res" where
  "as_float64 rep =
     (case rep of RStr v \<Rightarrow> (case parse_f64 v of Some x \<Rightarrow> Inr x | None \<Rightarrow> Inl (Err ''strconv.ParseFloat''))
      | _ \<Rightarrow> redis_error)"

definition as_uint64 :: "redis_reply \<Rightarrow> u64 res" where
  "as_uint64 rep =
     (case rep of RStr v \<Rightarrow> (case parse_uint 10 v of (n, ok) \<Rightarrow> if ok then Inr (word_of_nat n) else Inl (Err ''strconv.ParseUint''))
      | _ \<Rightarrow> redis_error)"

definition query :: "'r redis \<Rightarrow> redis_cmd \<Rightarrow> (redis_reply \<Rightarrow> 'a res) \<Rightarrow> 'r \<Rightarrow> 'a res \<times> 'r" where
  "query rd c f r = (case rd_do rd c r of (rep, r') \<Rightarrow> (f rep, r'))"

definition GetMinerIndex :: "'r redis \<Rightarrow> db \<Rightarrow> 'r \<Rightarrow> string list res \<times> 'r" where
  "GetMinerIndex rd s = query rd (SMembers (db_coin s @ '':pool:miners'')) as_list"

definition GetRigIndex :: "'r redis \<Rightarrow> db \<Rightarrow> string \<Rightarrow> 'r \<Rightarrow> string list res \<times> 'r" where
  "GetRigIndex rd s minerName = query rd (SMembers (key_miner s minerName '':rigs'')) as_list"

definition GetMinerCurrentRoundContrib :: "'r redis \<Rightarrow> db \<Rightarrow> string \<Rightarrow> 'r \<Rightarrow> f64 res \<times> 'r" where
  "GetMinerCurrentRoundContrib rd s minerName = query rd (HGet (key_current s) minerName) as_float64"

definition GetPoolTotalValidShares :: "'r redis \<Rightarrow> db \<Rightarrow> 'r \<Rightarrow> u64 res \<times> 'r" where
  "GetPoolTotalValidShares rd s = query rd (HGet (key_pool s) ''validShares'') as_uint64"

definition GetPoolTotalValidBlocks :: "'r redis \<Rightarrow> db \<Rightarrow> 'r \<Rightarrow> u64 res \<times> 'r" where
  "GetPoolTotalValidBlocks rd s = query rd (HGet (key_pool s) ''validBlocks'') as_uint64"

definition GetPoolTotalInvalidShares :: "'r redis \<Rightarrow> db \<Rightarrow> 'r \<Rightarrow> u64 res \<times> 'r" where
  "GetPoolTotalInvalidShares rd s = query rd (HGet (key_pool s) ''validShares'') as_uint64"

definition GetPoolTotalInvalidBlocks :: "'r redis \<Rightarrow> db \<Rightarrow> 'r \<Rightarrow> u64 res \<times> 'r" where
  "GetPoolTotalInvalidBlocks rd s = query rd (HGet (key_pool s) ''invalidBlocks'') as_uint64"

definition GetMinerRigs :: "'r redis \<Rightarrow> db \<Rightarrow> string \<Rightarrow> 'r \<Rightarrow> f64 res \<times> 'r" where
  "GetMinerRigs rd s minerName = query rd (HGet (db_coin s @ '':shares:contrib'') minerName) as_float64"

text \<open>The loop the three hashrate queries share, and the division by the range.\<close>

fun sum_diffs :: "f64 \<Rightarrow> string list \<Rightarrow> f64 res" where
  "sum_diffs totalDiff [] = Inr totalDiff"
| "sum_diffs totalDiff (x # xs) =
     (case parse_f64 x of Some diff \<Rightarrow> sum_diffs (f64_add totalDiff diff) xs | None \<Rightarrow> Inl (Err ''strconv.ParseFloat''))"

definition hashrate_of :: "int \<Rightarrow> int \<Rightarrow> redis_reply \<Rightarrow> f64 res" where
  "hashrate_of from to rep =
     rbind (as_list rep) (\<lambda>xs. rbind (sum_diffs (Fin 0) xs) (\<lambda>t. Inr (f64_div t (f64_of_int (to - from)))))"

definition GetRigHashrate :: "'r redis \<Rightarrow> db \<Rightarrow> string \<Rightarrow> string \<Rightarrow> int \<Rightarrow> int \<Rightarrow> 'r \<Rightarrow> f64 res \<times> 'r" where
  "GetRigHashrate rd s minerName rigName from to =
     query rd (ZRange (key_miner s minerName ('':rig:'' @ rigName @ '':hashes'')) from to) (hashrate_of from to)"

definition GetMinerHashrate :: "'r redis \<Rightarrow> db \<Rightarrow> string \<Rightarrow> int \<Rightarrow> int \<Rightarrow> 'r \<Rightarrow> f64 res \<times> 'r" where
  "GetMinerHashrate rd s minerName from to =
     query rd (ZRange (key_miner s minerName '':shares'') from to) (hashrate_of from to)"

definition GetPoolHashrate :: "'r redis \<Rightarrow> db \<Rightarrow> int \<Rightarrow> int \<Rightarrow> 'r \<Rightarrow> f64 res \<times> 'r" where
  "GetPoolHashrate rd s from to = query rd (ZRange (db_coin s @ '':pool:shares'') from to) (hashrate_of from to)"

subsection \<open>Payouts\<close>

definition payment_cmds :: "db \<Rightarrow> payment_update \<Rightarrow> redis_cmd list" where
  "payment_cmds s u =
     map (\<lambda>(miner, bal). HSet (key_balances s) [(miner, fmt_f64 bal)]) (pu_Balances u) @
     map (\<lambda>(miner, paid). HIncrByFloat (key_payouts s) miner paid) (pu_Paid u) @
     map (\<lambda>b. SMove (key_pending s) (key_confirmed s) b) (pu_Confirmed u) @
     map (\<lambda>b. SMove (key_pending s) (key_orphaned s) b) (pu_Orphaned u) @
     map (\<lambda>h. Del (key_round s (fmt_uint 10 (unat h)))) (pu_DeleteRounds u) @
     (if 0 < pu_PPSCursor u
      then [SetKey (key_cursor s) (fmt_int (pu_PPSCursor u)),
            ZRemRangeByScore (key_pplns s) ''0'' (fmt_int (pu_PPSCursor u))]
      else []) @
     [Del (key_intent s)]"

definition ApplyPayments :: "'r redis \<Rightarrow> db \<Rightarrow> payment_update \<Rightarrow> 'r \<Rightarrow> unit res \<times> 'r" where
  "ApplyPayments rd s u r =
     (case rd_tx rd (payment_cmds s u) r of (ok, r) \<Rightarrow> (if ok then Inr () else redis_error, r))"

definition as_err :: "redis_reply \<Rightarrow> unit res" where
  "as_err rep = (if rep = RErr then redis_error else Inr ())"

definition PutPayoutIntent :: "update_codec \<Rightarrow> 'r redis \<Rightarrow> db \<Rightarrow> payment_update \<Rightarrow> 'r \<Rightarrow> unit res \<times> 'r" where
  "PutPayoutIntent js rd s u r =
     (case uc_Marshal js u of
        None \<Rightarrow> (Inl (Err ''json: unsupported value''), r)
      | Some b \<Rightarrow> query rd (HSet (key_intent s) [(''update'', b), (''txid'', '''')]) as_err r)"

definition SetPayoutIntentTxid :: "'r redis \<Rightarrow> db \<Rightarrow> string \<Rightarrow> 'r \<Rightarrow> unit res \<times> 'r" where
  "SetPayoutIntentTxid rd s txid = query rd (HSet (key_intent s) [(''txid'', txid)]) as_err"

definition map_text :: "(string \<times> string) list \<Rightarrow> string \<Rightarrow> string" where
  "map_text m k = (case map_of m k of Some v \<Rightarrow> v | None \<Rightarrow> '''')"

definition intent_of :: "update_codec \<Rightarrow> redis_reply \<Rightarrow> (payment_update \<times> string) option res" where
  "intent_of js rep =
     rbind (as_map rep) (\<lambda>m.
       if m = [] then Inr None
       else case uc_Unmarshal js (map_text m ''update'') of
              None \<Rightarrow> Inl (Err ''json.Unmarshal'')
            | Some u \<Rightarrow> Inr (Some (u, map_text m ''txid'')))"

definition GetPayoutIntent :: "update_codec \<Rightarrow> 'r redis \<Rightarrow> db \<Rightarrow> 'r \<Rightarrow> (payment_update \<times> string) option res \<times> 'r" where
  "GetPayoutIntent js rd s = query rd (HGetAll (key_intent s)) (intent_of js)"

definition DelPayoutIntent :: "'r redis \<Rightarrow> db \<Rightarrow> 'r \<Rightarrow> unit res \<times> 'r" where
  "DelPayoutIntent rd s = query rd (Del (key_intent s)) as_err"

text \<open>The fields of a hash, each parsed as a float.\<close>

fun parse_fields :: "(string \<times> string) list \<Rightarrow> (string \<times> f64) list res" where
  "parse_fields [] = Inr []"
| "parse_fields ((k, v) # r) =
     (case parse_f64 v of
        None \<Rightarrow> Inl (Err ''strconv.ParseFloat'')
      | Some x \<Rightarrow> rbind (parse_fields r) (\<lambda>m. Inr ((k, x) # m)))"

definition GetAllMinerBalances :: "'r redis \<Rightarrow> db \<Rightarrow> 'r \<Rightarrow> (string \<times> f64) list res \<times> 'r" where
  "GetAllMinerBalances rd s = query rd (HGetAll (key_balances s)) (\<lambda>rep. rbind (as_map rep) parse_fields)"

fun parse_blocks :: "string list \<Rightarrow> pending_block list res" where
  "parse_blocks [] = Inr []"
| "parse_blocks (x # xs) =
     rbind (NewPendingBlockFromString x) (\<lambda>b. rbind (parse_blocks xs) (\<lambda>bs. Inr (b # bs)))"

definition GetAllPendingBlocks :: "'r redis \<Rightarrow> db \<Rightarrow> 'r \<Rightarrow> pending_block list res \<times> 'r" where
  "GetAllPendingBlocks rd s = query rd (SMembers (key_pending s)) (\<lambda>rep. rbind (as_list rep) parse_blocks)"

definition GetRoundContrib :: "'r redis \<Rightarrow> db \<Rightarrow> u64 \<Rightarrow> 'r \<Rightarrow> (string \<times> f64) list res \<times> 'r" where
  "GetRoundContrib rd s height =
     query rd (HGetAll (key_round s (fmt_uint 10 (unat height)))) (\<lambda>rep. rbind (as_map rep) parse_fields)"

text \<open>\<open>out[k] += d\<close> of a map of floats.\<close>

definition map_add :: "string \<Rightarrow> f64 \<Rightarrow> (string \<times> f64) list \<Rightarrow> (string \<times> f64) list" where
  "map_add k d m = map_put k (f64_add (case map_of m k of Some x \<Rightarrow> x | None \<Rightarrow> Fin 0) d) m"

text \<open>An entry of the PPLNS log, \<open>miner:diff:seq\<close>; \<open>None\<close> when the loops skip it.\<close>

definition log_entry :: "string \<Rightarrow> (string \<times> f64) option" where
  "log_entry m =
     (case splitn_on 3 CHR '':'' m of
        a # b # _ \<Rightarrow> (case parse_f64 b of Some diff \<Rightarrow> Some (a, diff) | None \<Rightarrow> None)
      | _ \<Rightarrow> None)"

fun pplns_loop :: "f64 \<Rightarrow> f64 \<Rightarrow> (string \<times> f64) list \<Rightarrow> string list \<Rightarrow> (string \<times> f64) list" where
  "pplns_loop window cum out [] = out"
| "pplns_loop window cum out (m # ms) =
     (case log_entry m of
        None \<Rightarrow> pplns_loop window cum out ms
      | Some (miner, diff) \<Rightarrow>
          let out' = map_add miner diff out; cum' = f64_add cum diff in
          if f64_less (Fin 0) window \<and> f64_le window cum' then out'
          else pplns_loop window cum' out' ms)"

definition GetPPLNSShares :: "'r redis \<Rightarrow> db \<Rightarrow> int \<Rightarrow> f64 \<Rightarrow> 'r \<Rightarrow> (string \<times> f64) list res \<times> 'r" where
  "GetPPLNSShares rd s uptoSeq window =
     query rd (ZRevRangeByScore (key_pplns s) (fmt_int uptoSeq) ''-inf'')
       (\<lambda>rep. rbind (as_list rep) (\<lambda>ms. Inr (pplns_loop window (Fin 0) [] ms)))"

definition GetPPSCursor :: "'r redis \<Rightarrow> db \<Rightarrow> 'r \<Rightarrow> int res \<times> 'r" where
  "GetPPSCursor rd s =
     query rd (Get (key_cursor s))
       (\<lambda>rep. case rep of
          RNil \<Rightarrow> Inr 0
        | RStr v \<Rightarrow> (case parse_int 10 v of (n, ok) \<Rightarrow> if ok then Inr n else Inl (Err ''strconv.ParseInt''))
        | _ \<Rightarrow> redis_error)"

text \<open>\<open>int64(score)\<close>: the scores are sequence numbers.\<close>

definition score_int :: "f64 \<Rightarrow> int" where
  "score_int x = (case x of Fin q \<Rightarrow> trunc_rat q | _ \<Rightarrow> - (2 ^ 63))"

fun since_loop :: "(string \<times> f64) list \<Rightarrow> int \<Rightarrow> (string \<times> f64) list \<Rightarrow> (string \<times> f64) list \<times> int" where
  "since_loop out maxSeq [] = (out, maxSeq)"
| "since_loop out maxSeq ((m, score) # zs) =
     (case log_entry m of
        None \<Rightarrow> since_loop out maxSeq zs
      | Some (miner, diff) \<Rightarrow> since_loop (map_add miner diff out) (max maxSeq (score_int score)) zs)"

definition GetSharesSince :: "'r redis \<Rightarrow> db \<Rightarrow> int \<Rightarrow> 'r \<Rightarrow> ((string \<times> f64) list \<times> int) res \<times> 'r" where
  "GetSharesSince rd s cursor =
     query rd (ZRangeByScoreWithScores (key_pplns s) (''('' @ fmt_int cursor) ''+inf'')
       (\<lambda>rep. case rep of RScored zs \<Rightarrow> Inr (since_loop [] cursor zs) | _ \<Rightarrow> redis_error)"

subsection \<open>Stored records\<close>

lemma colon_free_numbers [simp]:
  "CHR '':'' \<notin> set (fmt_uint 10 n)" "CHR '':'' \<notin> set (fmt_int i)"
  using fmt_uint_no_special [of 10 "CHR '':''"] by (auto simp: fmt_int_def)

lemma pending_block_read_back:
  assumes "CHR '':'' \<notin> set (pb_Hash pb @ pb_TxHash pb @ pb_Finder pb)"
    and "- (2 ^ 63) \<le> pb_Mark pb" "pb_Mark pb < 2 ^ 63"
  shows "NewPendingBlockFromString (PendingBlockString pb) = Inr pb"
proof -
  have "split_on CHR '':'' (PendingBlockString pb) =
      [pb_Hash pb, pb_TxHash pb, fmt_uint 10 (unat (pb_Height pb)), pb_Finder pb, fmt_int (pb_Mark pb)]"
    unfolding PendingBlockString_def using assms(1) by (intro split_join) auto
  moreover have "parse_uint 10 (fmt_uint 10 (unat (pb_Height pb))) = (unat (pb_Height pb), True)"
    using u64_less by (intro parse_uint_fmt) auto
  ultimately show ?thesis
    using parse_int_fmt [OF assms(2,3)] by (simp add: NewPendingBlockFromString_def Let_def)
qed

text \<open>
  C30. A pending block is stored as text and read back unchanged: parsing the string of a block
  whose hash, transaction hash and finder contain no colon gives that block, with the height
  and the PPLNS mark at their full 64-bit range.
\<close>

theorem pending_block_roundtrip:
  assumes "CHR '':'' \<notin> set (pb_Hash pb @ pb_TxHash pb @ pb_Finder pb)"
    and "- (2 ^ 63) \<le> pb_Mark pb" "pb_Mark pb < 2 ^ 63"
  shows "NewPendingBlockFromString (PendingBlockString pb) = Inr pb"
  using assms by (rule pending_block_read_back)

definition ex_block :: pending_block where
  "ex_block = \<lparr>pb_Hash = ''00ab'', pb_TxHash = ''77cd'', pb_Height = 840000, pb_Finder = ''bc1qminer'', pb_Mark = 41\<rparr>"

theorem pending_block_roundtrip_witness: "NewPendingBlockFromString (PendingBlockString ex_block) = Inr ex_block"
  by (rule pending_block_roundtrip) (simp_all add: ex_block_def)

lemma count_join: "\<forall>x\<in>set xs. c \<notin> set x \<Longrightarrow> xs \<noteq> [] \<Longrightarrow> Suc (count_list (join [c] xs) c) = length xs"
  by (induction "[c]" xs rule: join.induct) (auto simp: count_notin count_list_append)

lemma colon_finder_not_read_back:
  assumes "CHR '':'' \<notin> set (pb_Hash pb @ pb_TxHash pb @ a)" "pb_Finder pb = a @ '':'' @ b"
  shows "\<exists>pb'. NewPendingBlockFromString (PendingBlockString pb) = Inr pb' \<and> pb_Finder pb' = a \<and>
           pb_Hash pb' = pb_Hash pb \<and> pb_Height pb' = pb_Height pb \<and> PendingBlockString pb' \<noteq> PendingBlockString pb"
proof -
  let ?H = "fmt_uint 10 (unat (pb_Height pb))"
  obtain p ps where pp: "split_on CHR '':'' (b @ CHR '':'' # fmt_int (pb_Mark pb)) = p # ps"
    by (cases "split_on CHR '':'' (b @ CHR '':'' # fmt_int (pb_Mark pb))") auto
  define pb' where "pb' = pb\<lparr>pb_Finder := a, pb_Mark := fst (parse_int 10 p)\<rparr>"
  have str: "PendingBlockString pb = pb_Hash pb @ CHR '':'' # pb_TxHash pb @ CHR '':'' # ?H @ CHR '':'' # a @ CHR '':'' # b @ CHR '':'' # fmt_int (pb_Mark pb)"
    by (simp add: PendingBlockString_def assms(2))
  have sp: "split_on CHR '':'' (PendingBlockString pb) = pb_Hash pb # pb_TxHash pb # ?H # a # p # ps"
    unfolding str using assms(1) by (simp add: split_on_append pp)
  have "parse_uint 10 ?H = (unat (pb_Height pb), True)"
    using u64_less by (intro parse_uint_fmt) auto
  then have "NewPendingBlockFromString (PendingBlockString pb) =
      Inr \<lparr>pb_Hash = pb_Hash pb, pb_TxHash = pb_TxHash pb, pb_Height = pb_Height pb, pb_Finder = a, pb_Mark = fst (parse_int 10 p)\<rparr>"
    by (simp add: NewPendingBlockFromString_def sp)
  then have parse: "NewPendingBlockFromString (PendingBlockString pb) = Inr pb'"
    by (cases pb) (simp add: pb'_def)
  have "Suc (count_list (PendingBlockString pb') CHR '':'') = 5"
    unfolding PendingBlockString_def using assms(1)
    by (subst count_join) (auto simp: pb'_def)
  moreover have "5 \<le> count_list (PendingBlockString pb) CHR '':''"
    unfolding str by (simp add: count_list_append)
  ultimately have "PendingBlockString pb' \<noteq> PendingBlockString pb" by auto
  then show ?thesis using parse by (intro exI [of _ pb']) (simp add: pb'_def)
qed

lemma log_entry_of_member:
  assumes "CHR '':'' \<notin> set m" "representable d"
  shows "log_entry (pplns_member m d seq) = Some (m, d)"
  unfolding log_entry_def pplns_member_def
  using splitn_on_3 [OF assms(1) fmt_f64_no_colon, of d "fmt_int seq"] parse_fmt_f64 [OF assms(2)] by simp

text \<open>
  The difficulty a PPLNS or PPS payout credits can be forged with the worker name. The log
  entry of a share by a worker named \<open>a:x\<close>, where \<open>x\<close> reads as a number, is taken to be a share
  of difficulty \<open>x\<close> by \<open>a\<close>, whatever difficulty the share really had.
\<close>

theorem worker_name_forges_difficulty:
  assumes "CHR '':'' \<notin> set a" "CHR '':'' \<notin> set x" "parse_f64 x = Some v"
  shows "log_entry (pplns_member (a @ '':'' @ x) diff seq) = Some (a, v)"
  unfolding log_entry_def pplns_member_def
  using splitn_on_3 [OF assms(1,2), of "fmt_f64 diff @ '':'' @ fmt_int seq"] assms(3) by simp

theorem worker_name_forges_difficulty_witness:
  "log_entry (pplns_member (''bc1qminer'' @ '':'' @ fmt_f64 (Fin 1000000)) (Fin 1) 7) = Some (''bc1qminer'', Fin 1000000)"
proof -
  have "representable (Fin 1000000)"
    using rnd64_of_int [of 1000000] by (simp add: representable_def)
  then show ?thesis
    by (intro worker_name_forges_difficulty) (simp_all add: fmt_f64_no_colon parse_fmt_f64)
qed

subsection \<open>The share queue\<close>


definition ex_db :: db where
  "ex_db = \<lparr>db_coin = ''btc'', db_ppsMode = False, db_pplnsLogCap = 200000\<rparr>"

definition ex_credit :: share where
  "ex_credit = empty_share\<lparr>sh_Miner := ''bc1qminer'', sh_Rig := ''rig'', sh_Diff := Fin 2\<rparr>"


subsection \<open>Rounds\<close>

text \<open>What a share adds to the hash of its round.\<close>

definition contrib :: "float_incr \<Rightarrow> (string \<times> string) list \<Rightarrow> share \<Rightarrow> (string \<times> string) list" where
  "contrib hif m sh =
     (if sh_ErrorCode sh = 0
      then (case hif (map_of m (sh_Miner sh)) (sh_Diff sh) of Some v \<Rightarrow> map_put (sh_Miner sh) v m | None \<Rightarrow> m)
      else m)"

definition hash_of :: "rvalue \<Rightarrow> (string \<times> string) list" where
  "hash_of v = (case v of Fields h \<Rightarrow> h | _ \<Rightarrow> [])"

definition is_hash :: "rvalue \<Rightarrow> bool" where
  "is_hash v = (case v of Absent \<Rightarrow> True | Fields _ \<Rightarrow> True | _ \<Rightarrow> False)"

lemma eff_incr:
  assumes "is_hash (ks k)" "sh_ErrorCode sh = 0"
  shows "is_hash (redis_eff hif (HIncrByFloat k (sh_Miner sh) (sh_Diff sh)) ks k)"
    "hash_of (redis_eff hif (HIncrByFloat k (sh_Miner sh) (sh_Diff sh)) ks k) = contrib hif (hash_of (ks k)) sh"
  using assms by (auto simp: is_hash_def hash_of_def contrib_def redis_eff_def split: rvalue.splits option.splits)

lemma fmt_int_not_Current: "fmt_int i \<noteq> ''Current''"
proof -
  have "CHR ''u'' \<notin> set (fmt_uint 10 n)" for n
  proof
    assume "CHR ''u'' \<in> set (fmt_uint 10 n)"
    then have "is_dec CHR ''u''" using fmt_uint_dec [of n] by (simp add: list_all_iff)
    moreover have "\<not> is_dec CHR ''u''" by code_simp
    ultimately show False by simp
  qed
  then have "CHR ''u'' \<notin> set (fmt_int i)" by (simp add: fmt_int_def)
  then show ?thesis by auto
qed

lemma valid_cmds_current:
  assumes "is_hash (ks (key_current s))" "sh_ErrorCode sh = 0"
  shows "is_hash (redis_run hif (valid_share_cmds s now sh seq) ks (key_current s))"
    "hash_of (redis_run hif (valid_share_cmds s now sh seq) ks (key_current s)) = contrib hif (hash_of (ks (key_current s))) sh"
  using eff_incr [OF _ assms(2), of _ "key_current s"] assms(1)
  by (simp_all add: valid_share_cmds_def Let_def key_defs)

lemma record_cmds_current:
  assumes "is_hash (ks (key_current s))"
  shows "is_hash (redis_run hif (record_cmds s now sh seq) ks (key_current s)) \<and>
    hash_of (redis_run hif (record_cmds s now sh seq) ks (key_current s)) = contrib hif (hash_of (ks (key_current s))) sh"
proof -
  define ks' where "ks' = redis_run hif [SAdd (db_coin s @ '':pool:miners'') (sh_Miner sh), SAdd (key_miner s (sh_Miner sh) '':rigs'') (sh_Rig sh)] ks"
  have k: "ks' (key_current s) = ks (key_current s)"
    unfolding ks'_def by (rule redis_run_other) (auto simp: key_defs)
  show ?thesis
  proof (cases "sh_ErrorCode sh = 0")
    case True
    then show ?thesis
      using valid_cmds_current [of ks' s sh hif now seq] assms(1) k by (simp add: record_cmds_def ks'_def)
  next
    case False
    have "redis_run hif (invalid_share_cmds s sh) ks' (key_current s) = ks (key_current s)"
      unfolding k [symmetric] by (rule redis_run_other) (auto simp: invalid_share_cmds_def key_defs)
    with False assms(1) show ?thesis by (simp add: record_cmds_def ks'_def contrib_def)
  qed
qed

lemma eff_rename: "redis_eff hif (Rename k k') ks = (if ks k = Absent then ks else ks(k := Absent, k' := ks k))"
  by (simp add: redis_eff_def)

lemma share_cmds_round:
  fixes hif :: float_incr
  assumes "is_hash (ks (key_current s))"
  defines "m \<equiv> contrib hif (hash_of (ks (key_current s)))"
  shows "\<not> (accepted \<and> sh_BlockHex sh \<noteq> []) \<Longrightarrow>
      is_hash (redis_run hif (share_cmds s now sh accepted seq) ks (key_current s)) \<and>
      hash_of (redis_run hif (share_cmds s now sh accepted seq) ks (key_current s)) = m sh"
    "accepted \<Longrightarrow> sh_BlockHex sh \<noteq> [] \<Longrightarrow> m sh \<noteq> [] \<Longrightarrow>
      redis_run hif (share_cmds s now sh accepted seq) ks (key_current s) = Absent \<and>
      redis_run hif (share_cmds s now sh accepted seq) ks (key_round s (fmt_int (sh_BlockHeight sh))) = Fields (m sh)"
proof -
  define ks' where "ks' = redis_run hif (record_cmds s now sh seq) ks"
  have run: "redis_run hif (share_cmds s now sh accepted seq) ks = redis_run hif (block_cmds s sh accepted seq) ks'"
    by (simp add: share_cmds_def ks'_def)
  have c: "is_hash (ks' (key_current s))" "hash_of (ks' (key_current s)) = m sh"
    using record_cmds_current [of ks s hif now sh seq] assms by (simp_all add: ks'_def)
  {
    assume "\<not> (accepted \<and> sh_BlockHex sh \<noteq> [])"
    then have "redis_run hif (block_cmds s sh accepted seq) ks' (key_current s) = ks' (key_current s)"
      by (intro redis_run_other) (auto simp: block_cmds_def key_defs split: if_splits)
    then show "is_hash (redis_run hif (share_cmds s now sh accepted seq) ks (key_current s)) \<and>
      hash_of (redis_run hif (share_cmds s now sh accepted seq) ks (key_current s)) = m sh"
      using c by (simp add: run)
  next
    assume b: "accepted" "sh_BlockHex sh \<noteq> []" and "m sh \<noteq> []"
    then have f: "ks' (key_current s) = Fields (m sh)"
      using c by (auto simp: is_hash_def hash_of_def split: rvalue.splits)
    show "redis_run hif (share_cmds s now sh accepted seq) ks (key_current s) = Absent \<and>
      redis_run hif (share_cmds s now sh accepted seq) ks (key_round s (fmt_int (sh_BlockHeight sh))) = Fields (m sh)"
      using b f fmt_int_not_Current [of "sh_BlockHeight sh"]
      unfolding run by (simp add: block_cmds_def eff_rename key_defs)
  }
qed

text \<open>A write that is no accepted block.\<close>

definition no_seal :: "int \<times> share \<times> bool \<Rightarrow> bool" where
  "no_seal w = (case w of (_, sh, acc) \<Rightarrow> \<not> (acc \<and> sh_BlockHex sh \<noteq> []))"

definition pipelines_answer :: "'r redis \<Rightarrow> bool" where
  "pipelines_answer rd = (\<forall>cs r. fst (rd_pipeline rd cs r))"

lemma write_all_append [simp]: "write_all rd s (xs @ ys) r = write_all rd s ys (write_all rd s xs r)"
  by (simp add: write_all_def)

lemma write_all_simps [simp]:
  "write_all rd s [] r = r" "write_all rd s ((now, sh, acc) # ws) r = write_all rd s ws (putShareNow rd s now sh acc r)"
  by (simp_all add: write_all_def)

context redis_store
begin

lemma next_seq_view:
  assumes "next_seq rd s sh r = (seq, r')" "k \<noteq> key_seq s"
  shows "view r' k = view r k"
proof -
  have "view r'' k = view r k" if "rd_do rd (Incr (key_seq s)) r = (rep, r'')" for rep r''
    using do_view [OF that] assms(2) by auto
  then show ?thesis using assms(1) by (auto simp: next_seq_def split: if_splits prod.splits)
qed

lemma put_view:
  assumes "pipelines_answer rd"
  obtains r' seq where "next_seq rd s sh r = (seq, r')"
    "view (putShareNow rd s now sh acc r) = redis_run hif (share_cmds s now sh acc seq) (view r')"
proof -
  obtain seq r' where n: "next_seq rd s sh r = (seq, r')" by (cases "next_seq rd s sh r")
  obtain ok r'' where p: "rd_pipeline rd (share_cmds s now sh acc seq) r' = (ok, r'')"
    by (cases "rd_pipeline rd (share_cmds s now sh acc seq) r'")
  moreover have ok using assms p unfolding pipelines_answer_def by (metis fst_conv)
  ultimately have "view r'' = redis_run hif (share_cmds s now sh acc seq) (view r')"
    using pipeline_ok by simp
  then show ?thesis using that n p by (simp add: putShareNow_def)
qed

lemma put_round:
  assumes "pipelines_answer rd" "is_hash (view r (key_current s))"
  defines "m \<equiv> contrib hif (hash_of (view r (key_current s)))"
  shows "no_seal (now, sh, acc) \<Longrightarrow> is_hash (view (putShareNow rd s now sh acc r) (key_current s)) \<and>
      hash_of (view (putShareNow rd s now sh acc r) (key_current s)) = m sh"
    "\<not> no_seal (now, sh, acc) \<Longrightarrow> m sh \<noteq> [] \<Longrightarrow>
      view (putShareNow rd s now sh acc r) (key_current s) = Absent \<and>
      view (putShareNow rd s now sh acc r) (key_round s (fmt_int (sh_BlockHeight sh))) = Fields (m sh)"
proof -
  obtain r' seq where n: "next_seq rd s sh r = (seq, r')"
    and v: "view (putShareNow rd s now sh acc r) = redis_run hif (share_cmds s now sh acc seq) (view r')"
    by (rule put_view [OF assms(1), of s sh r now acc])
  have k: "view r' (key_current s) = view r (key_current s)"
    by (rule next_seq_view [OF n]) (simp add: key_defs)
  then have h: "is_hash (view r' (key_current s))" using assms(2) by simp
  show "no_seal (now, sh, acc) \<Longrightarrow> is_hash (view (putShareNow rd s now sh acc r) (key_current s)) \<and>
      hash_of (view (putShareNow rd s now sh acc r) (key_current s)) = m sh"
    using h share_cmds_round(1) [of "view r'" s acc sh hif now seq] by (simp add: v m_def k no_seal_def)
  show "\<not> no_seal (now, sh, acc) \<Longrightarrow> m sh \<noteq> [] \<Longrightarrow>
      view (putShareNow rd s now sh acc r) (key_current s) = Absent \<and>
      view (putShareNow rd s now sh acc r) (key_round s (fmt_int (sh_BlockHeight sh))) = Fields (m sh)"
    unfolding v using h share_cmds_round(2) [of "view r'" s acc sh hif now seq] by (simp add: m_def k no_seal_def)
qed

lemma round_contributions:
  assumes "pipelines_answer rd" "is_hash (view r (key_current s))" "list_all no_seal ws"
  shows "is_hash (view (write_all rd s ws r) (key_current s)) \<and>
    hash_of (view (write_all rd s ws r) (key_current s)) =
      foldl (contrib hif) (hash_of (view r (key_current s))) (map (\<lambda>(_, sh, _). sh) ws)"
  using assms(2,3)
proof (induction ws arbitrary: r)
  case (Cons w ws)
  obtain now sh acc where w: "w = (now, sh, acc)" by (cases w)
  with Cons.prems have "no_seal (now, sh, acc)" "list_all no_seal ws" by simp_all
  with put_round(1) [OF assms(1) Cons.prems(1), of now sh acc] Cons.IH [of "putShareNow rd s now sh acc r"]
  show ?case by (simp add: w)
qed simp

end


definition ex_found :: share where
  "ex_found = ex_credit\<lparr>sh_BlockHex := ''00'', sh_BlockHash := ''00ab'', sh_TxHash := ''77cd'', sh_BlockHeight := 840000\<rparr>"


subsection \<open>Types of the keys\<close>

datatype kind = KText | KSet | KHash | KZSet

fun of_kind :: "kind \<Rightarrow> rvalue \<Rightarrow> bool" where
  "of_kind KText v = (case v of Absent \<Rightarrow> True | Text _ \<Rightarrow> True | _ \<Rightarrow> False)"
| "of_kind KSet v = (case v of Absent \<Rightarrow> True | Members _ \<Rightarrow> True | _ \<Rightarrow> False)"
| "of_kind KHash v = (case v of Absent \<Rightarrow> True | Fields _ \<Rightarrow> True | _ \<Rightarrow> False)"
| "of_kind KZSet v = (case v of Absent \<Rightarrow> True | Scored _ \<Rightarrow> True | _ \<Rightarrow> False)"

inductive key_kind :: "db \<Rightarrow> string \<Rightarrow> kind \<Rightarrow> bool" for s where
  "key_kind s (key_seq s) KText"
| "key_kind s (key_cursor s) KText"
| "key_kind s (key_pending s) KSet"
| "key_kind s (key_confirmed s) KSet"
| "key_kind s (key_orphaned s) KSet"
| "key_kind s (db_coin s @ '':pool:miners'') KSet"
| "key_kind s (key_miner s m '':rigs'') KSet"
| "key_kind s (key_intent s) KHash"
| "key_kind s (key_balances s) KHash"
| "key_kind s (key_payouts s) KHash"
| "key_kind s (key_pool s) KHash"
| "key_kind s (key_current s) KHash"
| "key_kind s (key_round s h) KHash"
| "key_kind s (db_coin s @ '':miners:validShares'') KHash"
| "key_kind s (db_coin s @ '':miners:invalidShares'') KHash"
| "key_kind s (db_coin s @ '':shares:contrib'') KHash"
| "key_kind s (key_pplns s) KZSet"
| "key_kind s (db_coin s @ '':pool:shares'') KZSet"
| "key_kind s (key_miner s m '':hashes'') KZSet"
| "key_kind s (key_miner s m ('':rig:'' @ rig @ '':hashes'')) KZSet"
| "key_kind s (key_miner s m '':shares'') KZSet"

lemma rigs_not_zset:
  "m @ '':rigs'' \<noteq> m' @ '':hashes''" "m @ '':rigs'' \<noteq> m' @ '':rig:'' @ rig @ '':hashes''" "m @ '':rigs'' \<noteq> m' @ '':shares''"
  by (auto dest!: arg_cong [where f = "\<lambda>l. last (butlast l)"] simp: butlast_append)

lemma key_kind_unique: "key_kind s k K \<Longrightarrow> key_kind s k K' \<Longrightarrow> K = K'"
  by (erule key_kind.cases; erule key_kind.cases)
    (auto simp: key_defs rigs_not_zset [simplified] rigs_not_zset [symmetric, simplified])

text \<open>The keys a command uses, each with the type it needs.\<close>

fun needs :: "redis_cmd \<Rightarrow> (string \<times> kind) list" where
  "needs Ping = []"
| "needs (Get k) = [(k, KText)]"
| "needs (SetKey k v) = [(k, KText)]"
| "needs (Incr k) = [(k, KText)]"
| "needs (Del k) = []"
| "needs (Rename k k') = [(k, KHash), (k', KHash)]"
| "needs (SAdd k m) = [(k, KSet)]"
| "needs (SMembers k) = [(k, KSet)]"
| "needs (SMove k k' m) = [(k, KSet), (k', KSet)]"
| "needs (HGet k f) = [(k, KHash)]"
| "needs (HGetAll k) = [(k, KHash)]"
| "needs (HSet k kvs) = [(k, KHash)]"
| "needs (HIncrBy k f d) = [(k, KHash)]"
| "needs (HIncrByFloat k f d) = [(k, KHash)]"
| "needs (ZAdd k v m) = [(k, KZSet)]"
| "needs (ZRange k a b) = [(k, KZSet)]"
| "needs (ZRemRangeByRank k a b) = [(k, KZSet)]"
| "needs (ZRemRangeByScore k a b) = [(k, KZSet)]"
| "needs (ZRevRangeByScore k a b) = [(k, KZSet)]"
| "needs (ZRangeByScoreWithScores k a b) = [(k, KZSet)]"

definition typed_cmd :: "db \<Rightarrow> redis_cmd \<Rightarrow> bool" where
  "typed_cmd s c = (\<forall>(k, K)\<in>set (needs c). key_kind s k K)"

definition typed :: "db \<Rightarrow> keyspace \<Rightarrow> bool" where
  "typed s ks = (\<forall>k K. key_kind s k K \<longrightarrow> of_kind K (ks k))"

lemma typed_upd: "typed s ks \<Longrightarrow> key_kind s k K \<Longrightarrow> of_kind K v \<Longrightarrow> typed s (ks(k := v))"
  unfolding typed_def using key_kind_unique by (metis fun_upd_apply)

lemma of_kind_Absent [simp]: "of_kind K Absent"
  by (cases K) simp_all

lemma typed_Absent: "typed s ks \<Longrightarrow> typed s (ks(k := Absent))"
  by (simp add: typed_def)

lemma typedD: "typed s ks \<Longrightarrow> key_kind s k K \<Longrightarrow> of_kind K (ks k)"
  by (simp add: typed_def)

lemma eff_typed:
  assumes t: "typed s ks" and c: "typed_cmd s c"
  shows "typed s (redis_eff hif c ks)"
proof (cases c)
  case (Rename k k')
  then have "key_kind s k KHash" "key_kind s k' KHash" using c by (simp_all add: typed_cmd_def)
  then show ?thesis
    using t typedD [OF t] by (auto simp: Rename redis_eff_def intro!: typed_upd)
next
  case (SMove k k' m)
  then have "key_kind s k KSet" "key_kind s k' KSet" using c by (simp_all add: typed_cmd_def)
  then show ?thesis
    using t by (auto simp: SMove redis_eff_def split: rvalue.splits intro!: typed_upd)
qed (use t c in \<open>auto simp: typed_cmd_def redis_eff_def split: rvalue.splits option.splits prod.splits if_splits intro: typed_upd typed_Absent\<close>)

lemma run_typed: "typed s ks \<Longrightarrow> list_all (typed_cmd s) cs \<Longrightarrow> typed s (redis_run hif cs ks)"
  by (induction cs arbitrary: ks) (simp_all add: eff_typed)

lemma share_cmds_typed: "list_all (typed_cmd s) (share_cmds s now sh acc seq)"
  by (simp add: share_cmds_def record_cmds_def valid_share_cmds_def invalid_share_cmds_def block_cmds_def
      typed_cmd_def key_kind.intros key_kind.intros(20) [simplified] Let_def)

lemma payment_cmds_typed: "list_all (typed_cmd s) (payment_cmds s u)"
  by (auto simp: payment_cmds_def typed_cmd_def list_all_iff intro: key_kind.intros)

lemma list_all_take: "list_all P xs \<Longrightarrow> list_all P (take n xs)"
  by (auto simp: list_all_iff dest: in_set_takeD)

context redis_store
begin

lemma do_typed: "typed s (view r) \<Longrightarrow> typed_cmd s c \<Longrightarrow> rd_do rd c r = (rep, r') \<Longrightarrow> typed s (view r')"
  using do_view [of c r rep r'] eff_typed [of s "view r" c hif] by auto

lemma query_typed: "typed s (view r) \<Longrightarrow> typed_cmd s c \<Longrightarrow> typed s (view (snd (query rd c f r)))"
  using do_typed by (auto simp: query_def split: prod.splits)

lemma pipeline_typed:
  "typed s (view r) \<Longrightarrow> list_all (typed_cmd s) cs \<Longrightarrow> typed s (view (snd (rd_pipeline rd cs r)))"
  using pipeline_prefix [of cs r] run_typed list_all_take by (cases "rd_pipeline rd cs r") fastforce

lemma put_typed: "typed s (view r) \<Longrightarrow> typed s (view (putShareNow rd s now sh acc r))"
proof -
  assume t: "typed s (view r)"
  obtain seq r' where n: "next_seq rd s sh r = (seq, r')" by (cases "next_seq rd s sh r")
  have "typed_cmd s (Incr (key_seq s))" by (simp add: typed_cmd_def key_kind.intros)
  then have "typed s (view r')"
    using n t do_typed by (auto simp: next_seq_def split: if_splits prod.splits)
  then show ?thesis by (simp add: putShareNow_def n pipeline_typed share_cmds_typed)
qed

lemma apply_typed: "typed s (view r) \<Longrightarrow> typed s (view (snd (ApplyPayments rd s u r)))"
  using tx_view [of "payment_cmds s u" r] run_typed [OF _ payment_cmds_typed, of s "view r"]
  by (auto simp: ApplyPayments_def split: prod.splits)

lemma intent_typed:
  "typed s (view r) \<Longrightarrow> typed s (view (snd (PutPayoutIntent js rd s u r)))"
  "typed s (view r) \<Longrightarrow> typed s (view (snd (SetPayoutIntentTxid rd s txid r)))"
  "typed s (view r) \<Longrightarrow> typed s (view (snd (DelPayoutIntent rd s r)))"
  by (auto simp: PutPayoutIntent_def SetPayoutIntentTxid_def DelPayoutIntent_def typed_cmd_def key_kind.intros
      split: option.splits intro!: query_typed)

end

text \<open>
  C22. Every key keeps its Redis type, whatever the miners and rigs are called and whichever
  writes fail: writing a share, applying a payout and the three operations on the payout
  intent turn a well-typed keyspace into a well-typed one.
\<close>

theorem storage_keeps_types:
  assumes "redis_store rd view hif" "typed s (view r)"
  shows "typed s (view (putShareNow rd s now sh acc r)) \<and> typed s (view (snd (ApplyPayments rd s u r))) \<and>
    typed s (view (snd (PutPayoutIntent js rd s u r))) \<and> typed s (view (snd (SetPayoutIntentTxid rd s txid r))) \<and>
    typed s (view (snd (DelPayoutIntent rd s r)))"
  using redis_store.put_typed [OF assms] redis_store.apply_typed [OF assms] redis_store.intent_typed [OF assms(1)] assms(2)
  by simp

theorem storage_keeps_types_witness:
  "typed ex_db (\<lambda>_. Absent) \<and> typed ex_db (putShareNow mem_redis ex_db 5 ex_found True (\<lambda>_. Absent))"
  using storage_keeps_types [OF mem.redis_store_axioms, of ex_db "\<lambda>_. Absent" 5 ex_found True]
  by (simp add: typed_def)

end
