(* ===== verification/GoMonad.thy ===== *)
theory GoMonad
  imports Prelude
begin

text \<open>
  Stateful Go code. A computation takes the state and returns its result and the new state;
  when it panics or blocks for ever, the state it has reached is kept, so that what a handler
  did before it stopped can be stated. \<open>keeps P\<close> says that a computation preserves \<open>P\<close>, on
  every way out; its rules are collected in \<open>inv_intros\<close>.
\<close>

type_synonym ('s, 'a) go = "'s \<Rightarrow> 'a res \<times> 's"

definition go_return :: "'a \<Rightarrow> ('s, 'a) go" where
  "go_return x = (\<lambda>s. (Inr x, s))"

definition go_fail :: "go_error \<Rightarrow> ('s, 'a) go" where
  "go_fail e = (\<lambda>s. (Inl e, s))"

definition go_bind :: "('s, 'a) go \<Rightarrow> ('a \<Rightarrow> ('s, 'b) go) \<Rightarrow> ('s, 'b) go" where
  "go_bind m f = (\<lambda>s. case m s of (Inl e, s') \<Rightarrow> (Inl e, s') | (Inr x, s') \<Rightarrow> f x s')"

definition go_seq :: "('s, 'a) go \<Rightarrow> ('s, 'b) go \<Rightarrow> ('s, 'b) go" where
  "go_seq m k = go_bind m (\<lambda>_. k)"

definition go_get :: "('s \<Rightarrow> 'a) \<Rightarrow> ('s, 'a) go" where
  "go_get f = (\<lambda>s. (Inr (f s), s))"

definition go_modify :: "('s \<Rightarrow> 's) \<Rightarrow> ('s, unit) go" where
  "go_modify f = (\<lambda>s. (Inr (), f s))"

definition go_lift :: "'a res \<Rightarrow> ('s, 'a) go" where
  "go_lift r = (\<lambda>s. (r, s))"

definition go_when :: "bool \<Rightarrow> ('s, unit) go \<Rightarrow> ('s, unit) go" where
  "go_when b m = (if b then m else go_return ())"

text \<open>\<open>*p\<close> of a pointer that may be nil.\<close>

definition go_deref :: "'a option \<Rightarrow> ('s, 'a) go" where
  "go_deref p = (case p of Some x \<Rightarrow> go_return x | None \<Rightarrow> go_fail (Panic ''nil pointer dereference''))"

fun go_seq_list :: "('s, unit) go list \<Rightarrow> ('s, unit) go" where
  "go_seq_list [] = go_return ()"
| "go_seq_list (m # ms) = go_seq m (go_seq_list ms)"

lemma go_run [simp]:
  "go_return x s = (Inr x, s)" "go_fail e s = (Inl e, s)" "go_get f s = (Inr (f s), s)"
  "go_modify g s = (Inr (), g s)" "go_lift r s = (r, s)"
  by (simp_all add: go_return_def go_fail_def go_get_def go_modify_def go_lift_def)

lemma go_bind_run:
  "go_bind m f s = (case m s of (Inl e, s') \<Rightarrow> (Inl e, s') | (Inr x, s') \<Rightarrow> f x s')"
  by (simp add: go_bind_def)

lemma go_bind_ok [simp]: "m s = (Inr x, s') \<Longrightarrow> go_bind m f s = f x s'"
  by (simp add: go_bind_def)

lemma go_bind_err [simp]: "m s = (Inl e, s') \<Longrightarrow> go_bind m f s = (Inl e, s')"
  by (simp add: go_bind_def)

lemma go_bind_eq_ok:
  "go_bind m f s = (Inr y, s'') \<longleftrightarrow> (\<exists>x s'. m s = (Inr x, s') \<and> f x s' = (Inr y, s''))"
  by (auto simp: go_bind_def split: prod.splits sum.splits)

lemma go_seq_eq_ok:
  "go_seq m k s = (Inr y, s'') \<longleftrightarrow> (\<exists>x s'. m s = (Inr x, s') \<and> k s' = (Inr y, s''))"
  by (simp add: go_seq_def go_bind_eq_ok)

lemma go_seq_ok [simp]: "m s = (Inr x, s') \<Longrightarrow> go_seq m k s = k s'"
  by (simp add: go_seq_def)

lemma go_seq_err [simp]: "m s = (Inl e, s') \<Longrightarrow> go_seq m k s = (Inl e, s')"
  by (simp add: go_seq_def)

lemma go_when_run [simp]: "go_when b m s = (if b then m s else (Inr (), s))"
  by (simp add: go_when_def)

lemma go_deref_run [simp]:
  "go_deref (Some x) s = (Inr x, s)" "go_deref None s = (Inl (Panic ''nil pointer dereference''), s)"
  by (simp_all add: go_deref_def)

definition keeps :: "('s \<Rightarrow> bool) \<Rightarrow> ('s, 'a) go \<Rightarrow> bool" where
  "keeps P m \<longleftrightarrow> (\<forall>s. P s \<longrightarrow> P (snd (m s)))"

lemma keepsD: "keeps P m \<Longrightarrow> P s \<Longrightarrow> m s = (r, s') \<Longrightarrow> P s'"
  by (auto simp: keeps_def dest!: spec [where x = s])

lemma keeps_bind [inv_intros]: "keeps P m \<Longrightarrow> (\<And>x. keeps P (f x)) \<Longrightarrow> keeps P (go_bind m f)"
  unfolding keeps_def go_bind_def by (auto split: prod.splits sum.splits)

lemma keeps_seq [inv_intros]: "keeps P m \<Longrightarrow> keeps P k \<Longrightarrow> keeps P (go_seq m k)"
  unfolding go_seq_def by (rule keeps_bind)

lemma keeps_basic [inv_intros]:
  "keeps P (go_return x)" "keeps P (go_fail e)" "keeps P (go_get f)" "keeps P (go_lift r)" "keeps P (go_deref p)"
  by (simp_all add: keeps_def go_deref_def split: option.splits)

lemma keeps_modify [inv_intros]: "(\<And>s. P s \<Longrightarrow> P (g s)) \<Longrightarrow> keeps P (go_modify g)"
  by (simp add: keeps_def)

lemma keeps_if [inv_intros]: "(b \<Longrightarrow> keeps P m) \<Longrightarrow> (\<not> b \<Longrightarrow> keeps P k) \<Longrightarrow> keeps P (if b then m else k)"
  by simp

lemma keeps_when [inv_intros]: "keeps P m \<Longrightarrow> keeps P (go_when b m)"
  by (simp add: keeps_def)

lemma keeps_case_option [inv_intros]:
  "keeps P m \<Longrightarrow> (\<And>x. keeps P (f x)) \<Longrightarrow> keeps P (case p of None \<Rightarrow> m | Some x \<Rightarrow> f x)"
  by (cases p) simp_all

lemma keeps_case_prod [inv_intros]: "(\<And>x y. keeps P (f x y)) \<Longrightarrow> keeps P (case p of (x, y) \<Rightarrow> f x y)"
  by (cases p) simp

end
