(* ===== verification/Payments.thy ===== *)
theory Payments
  imports Storage Daemons GoMonad
begin

text \<open>
  \<open>payments/payer.go\<close> with the options of \<open>config/payment.go\<close> and the replies decoded by
  \<open>daemons/gettransaction.go\<close> and \<open>daemons/validateaddress.go\<close>: a payout run resolves an
  interrupted predecessor, classifies the pending blocks, splits the rewards of the mature
  ones, pays every miner above the threshold with one \<open>sendmany\<close>, and persists the result
  in one transaction. The store and the wallet daemon are the parameters of \<open>Redis\<close> and
  \<open>Daemons\<close>. The field \<open>ps_sent\<close> is a ghost: the updates whose \<open>sendmany\<close> the daemon did
  not reject, so that it was or may have been broadcast; the code does not read it.
\<close>

subsection \<open>Options\<close>

record payment_options =
  po_Interval :: int
  po_MinPayment :: f64
  po_Daemon :: int
  po_PayMode :: string
  po_PPLNSWindow :: f64
  po_PPSRate :: f64
  po_Magnitude :: f64
  po_MinConfirmations :: int
  po_AddressCheckMethod :: string
  po_SendManyDummy :: string
  po_OmitSendManyDummy :: bool

definition PayModeProp :: string where "PayModeProp = ''prop''"
definition PayModePPLNS :: string where "PayModePPLNS = ''pplns''"
definition PayModeSolo :: string where "PayModeSolo = ''solo''"
definition PayModePPS :: string where "PayModePPS = ''pps''"

lemmas PayMode_defs = PayModeProp_def PayModePPLNS_def PayModeSolo_def PayModePPS_def

definition WithDefaults :: "payment_options \<Rightarrow> payment_options" where
  "WithDefaults c =
     c\<lparr>po_Interval := (if po_Interval c \<le> 0 then 600 else po_Interval c),
       po_MinConfirmations := (if po_MinConfirmations c \<le> 0 then 100 else po_MinConfirmations c),
       po_AddressCheckMethod := (if po_AddressCheckMethod c = '''' then ''getaddressinfo'' else po_AddressCheckMethod c),
       po_PayMode := to_lower (if po_PayMode c = '''' then PayModeProp else po_PayMode c)\<rparr>"

subsection \<open>Decoded replies\<close>

text \<open>
  Fields of a JSON object: absent or null is the zero value, a value of another JSON type is
  an error (\<open>None\<close>). Fields that are never read are not decoded.
\<close>

definition json_float :: "(string \<times> iface) list \<Rightarrow> string \<Rightarrow> f64 option" where
  "json_float m k = (case map_of m k of None \<Rightarrow> Some (Fin 0) | Some INil \<Rightarrow> Some (Fin 0) | Some (INum x) \<Rightarrow> Some x | _ \<Rightarrow> None)"

definition json_int :: "(string \<times> iface) list \<Rightarrow> string \<Rightarrow> int option" where
  "json_int m k =
     (case map_of m k of
        None \<Rightarrow> Some 0
      | Some INil \<Rightarrow> Some 0
      | Some (INum (Fin q)) \<Rightarrow> if q = of_int \<lfloor>q\<rfloor> \<and> - (2 ^ 63) \<le> q \<and> q < 2 ^ 63 then Some \<lfloor>q\<rfloor> else None
      | _ \<Rightarrow> None)"

definition json_string :: "(string \<times> iface) list \<Rightarrow> string \<Rightarrow> string option" where
  "json_string m k = (case map_of m k of None \<Rightarrow> Some '''' | Some INil \<Rightarrow> Some '''' | Some (IStr s) \<Rightarrow> Some s | _ \<Rightarrow> None)"

definition json_bool :: "(string \<times> iface) list \<Rightarrow> string \<Rightarrow> bool option" where
  "json_bool m k = (case map_of m k of None \<Rightarrow> Some False | Some INil \<Rightarrow> Some False | Some (IBool b) \<Rightarrow> Some b | _ \<Rightarrow> None)"

text \<open>The object a result decodes into a struct from: null leaves the struct zero.\<close>

definition json_object :: "iface option \<Rightarrow> (string \<times> iface) list option" where
  "json_object b = (case b of Some (IMap m) \<Rightarrow> Some m | Some INil \<Rightarrow> Some [] | _ \<Rightarrow> None)"

record tx_detail =
  gd_Address :: string
  gd_Category :: string
  gd_Amount :: f64

record get_transaction =
  gt_Amount :: f64
  gt_Confirmations :: int
  gt_Details :: "tx_detail list"

fun decode_details :: "iface list \<Rightarrow> tx_detail list option" where
  "decode_details [] = Some []"
| "decode_details (x # xs) =
     (case json_object (Some x) of
        None \<Rightarrow> None
      | Some m \<Rightarrow>
          (case (json_string m ''address'', json_string m ''category'', json_float m ''amount'', decode_details xs) of
             (Some a, Some c, Some v, Some ds) \<Rightarrow> Some (\<lparr>gd_Address = a, gd_Category = c, gd_Amount = v\<rparr> # ds)
           | _ \<Rightarrow> None))"

definition BytesToGetTransaction :: "iface option \<Rightarrow> get_transaction option" where
  "BytesToGetTransaction b =
     (case json_object b of
        None \<Rightarrow> None
      | Some m \<Rightarrow>
          (case (json_float m ''amount'', json_int m ''confirmations'',
                 (case map_of m ''details'' of None \<Rightarrow> Some [] | Some INil \<Rightarrow> Some [] | Some (IList xs) \<Rightarrow> decode_details xs | _ \<Rightarrow> None)) of
             (Some a, Some c, Some ds) \<Rightarrow> Some \<lparr>gt_Amount = a, gt_Confirmations = c, gt_Details = ds\<rparr>
           | _ \<Rightarrow> None))"

record validate_address =
  va_Isvalid :: bool
  va_IsMine :: bool

definition BytesToValidateAddress :: "iface option \<Rightarrow> validate_address option" where
  "BytesToValidateAddress b =
     (case json_object b of
        None \<Rightarrow> None
      | Some m \<Rightarrow> (case (json_bool m ''isvalid'', json_bool m ''ismine'') of
                     (Some v, Some i) \<Rightarrow> Some \<lparr>va_Isvalid = v, va_IsMine = i\<rparr>
                   | _ \<Rightarrow> None))"

subsection \<open>The payment manager\<close>

record ('r, 'w) payer =
  pm_redis :: "'r redis"
  pm_rpc :: "'w transport"
  pm_json :: update_codec
  pm_options :: payment_options
  pm_dm :: daemon_manager
  pm_db :: db
  pm_PoolAddress :: string
  pm_Magnitude :: f64
  pm_MinPayment :: u64

record ('r, 'w) pay_state =
  ps_redis :: 'r
  ps_world :: 'w
  ps_validAddr :: "(string \<times> bool) list"
  ps_sent :: "payment_update list"

definition NewPaymentManager ::
  "'r redis \<Rightarrow> 'w transport \<Rightarrow> update_codec \<Rightarrow> payment_options \<Rightarrow> string \<Rightarrow> daemon_manager \<Rightarrow> db \<Rightarrow> ('r, 'w) payer" where
  "NewPaymentManager rd rpc js options poolAddr dm s =
     \<lparr>pm_redis = rd, pm_rpc = rpc, pm_json = js, pm_options = WithDefaults options, pm_dm = dm, pm_db = s,
      pm_PoolAddress = poolAddr, pm_Magnitude = Fin 0, pm_MinPayment = 0\<rparr>"

text \<open>A wallet RPC, and an operation of the store.\<close>

definition pay_cmd :: "('r, 'w) payer \<Rightarrow> string \<Rightarrow> iface list \<Rightarrow> (('r, 'w) pay_state, rpc_response option) go" where
  "pay_cmd p method params =
     (\<lambda>st. case CmdToDaemon (pm_rpc p) (pm_dm p) (po_Daemon (pm_options p)) method params (ps_world st) of
             (result, w) \<Rightarrow> (Inr result, st\<lparr>ps_world := w\<rparr>))"

definition on_db :: "('r \<Rightarrow> 'a res \<times> 'r) \<Rightarrow> (('r, 'w) pay_state, 'a) go" where
  "on_db f = (\<lambda>st. case f (ps_redis st) of (x, r) \<Rightarrow> (x, st\<lparr>ps_redis := r\<rparr>))"

text \<open>\<open>_ = f()\<close>: the error is dropped.\<close>

definition go_ignore :: "('s, 'a) go \<Rightarrow> ('s, unit) go" where
  "go_ignore m = (\<lambda>s. (Inr (), snd (m s)))"

definition SatToCoin :: "('r, 'w) payer \<Rightarrow> u64 \<Rightarrow> f64" where
  "SatToCoin p sat = f64_div (f64_of_u64 sat) (pm_Magnitude p)"

definition CoinToSat :: "('r, 'w) payer \<Rightarrow> f64 \<Rightarrow> u64" where
  "CoinToSat p coin =
     (if f64_le coin (Fin 0) then 0
      else f64_to_u64 (f64_floor (f64_add (f64_mul coin (pm_Magnitude p)) (Fin (1 / 2)))))"

definition setMagnitude :: "('r, 'w) payer \<Rightarrow> ('r, 'w) payer" where
  "setMagnitude p =
     (let p = p\<lparr>pm_Magnitude := (if f64_less (Fin 0) (po_Magnitude (pm_options p)) then po_Magnitude (pm_options p) else Fin 100000000)\<rparr>
      in p\<lparr>pm_MinPayment := CoinToSat p (po_MinPayment (pm_options p))\<rparr>)"

definition validatePoolAddress :: "('r, 'w) payer \<Rightarrow> (('r, 'w) pay_state, unit) go" where
  "validatePoolAddress p =
     go_bind (pay_cmd p (po_AddressCheckMethod (pm_options p)) [IStr (pm_PoolAddress p)]) (\<lambda>result.
       case result of
         None \<Rightarrow> go_fail (Err (''no response from payment daemon on '' @ po_AddressCheckMethod (pm_options p)))
       | Some r \<Rightarrow>
           (case rs_Error r of
              Some e \<Rightarrow> go_fail (Err (re_Message e))
            | None \<Rightarrow>
                (case BytesToValidateAddress (rs_Result r) of
                   None \<Rightarrow> go_fail (Err ''unmashal validateAddress response'')
                 | Some va \<Rightarrow>
                     if va_IsMine va then go_return ()
                     else go_fail (Err ''does not own pool address; payouts impossible''))))"

definition Init :: "('r, 'w) payer \<Rightarrow> (('r, 'w) pay_state, ('r, 'w) payer) go" where
  "Init p =
     (let m = po_PayMode (pm_options p) in
      if m = PayModeProp \<or> m = PayModePPLNS \<or> m = PayModeSolo \<or> m = PayModePPS then
        (if m = PayModePPS \<and> f64_le (po_PPSRate (pm_options p)) (Fin 0) then go_fail (Err ''requires a positive ppsRate'')
         else go_seq (validatePoolAddress p)
                (go_return (setMagnitude (p\<lparr>pm_db := SetPPSMode (m = PayModePPS) (pm_db p)\<rparr>))))
      else go_fail (Err (''unsupported payMode '' @ m)))"

definition validRecipient :: "('r, 'w) payer \<Rightarrow> string \<Rightarrow> (('r, 'w) pay_state, bool) go" where
  "validRecipient p addr =
     go_bind (go_get ps_validAddr) (\<lambda>cache.
       case map_of cache addr of
         Some v \<Rightarrow> go_return v
       | None \<Rightarrow>
           go_bind (pay_cmd p (po_AddressCheckMethod (pm_options p)) [IStr addr]) (\<lambda>result.
             let ok = (case result of
                         None \<Rightarrow> False
                       | Some r \<Rightarrow>
                           rs_Error r = None \<and>
                           (po_AddressCheckMethod (pm_options p) = ''validateaddress'' \<longrightarrow>
                              (case BytesToValidateAddress (rs_Result r) of None \<Rightarrow> False | Some va \<Rightarrow> va_Isvalid va)))
             in go_seq (go_modify (\<lambda>st. st\<lparr>ps_validAddr := map_put addr ok (ps_validAddr st)\<rparr>)) (go_return ok)))"

subsection \<open>Splitting a reward\<close>

text \<open>The association list is in the order in which the first loop ranges over the map.\<close>

definition splitByShares :: "u64 \<Rightarrow> (string \<times> f64) list \<Rightarrow> (string \<times> u64) list" where
  "splitByShares rewardSat shares =
     (let total = foldl f64_add (Fin 0) (map snd shares) in
      if f64_le total (Fin 0) then []
      else map (\<lambda>(miner, s). (miner, f64_to_u64 (f64_floor (f64_mul (f64_of_u64 rewardSat) (f64_div s total))))) shares)"

definition attribute :: "('r, 'w) payer \<Rightarrow> pending_block \<Rightarrow> u64 \<Rightarrow> (('r, 'w) pay_state, (string \<times> u64) list) go" where
  "attribute p pb rewardSat =
     (if po_PayMode (pm_options p) = PayModeSolo then
        go_return (if pb_Finder pb = '''' then [] else [(pb_Finder pb, rewardSat)])
      else if po_PayMode (pm_options p) = PayModePPLNS \<and> \<not> f64_le (po_PPLNSWindow (pm_options p)) (Fin 0) then
        go_bind (on_db (GetPPLNSShares (pm_redis p) (pm_db p) (pb_Mark pb) (po_PPLNSWindow (pm_options p))))
          (\<lambda>shares. go_return (splitByShares rewardSat shares))
      else
        go_bind (on_db (GetRoundContrib (pm_redis p) (pm_db p) (pb_Height pb)))
          (\<lambda>shares. go_return (splitByShares rewardSat shares)))"

subsection \<open>Classifying a block\<close>

text \<open>Reward, category and confirmations; \<open>None\<close> when the block is to be retried in the next run.\<close>

type_synonym classified = "(f64 \<times> string \<times> int) option"

definition classifyMissingTx :: "('r, 'w) payer \<Rightarrow> pending_block \<Rightarrow> (('r, 'w) pay_state, classified) go" where
  "classifyMissingTx p pb =
     go_bind (pay_cmd p ''getblock'' [IStr (pb_Hash pb)]) (\<lambda>result.
       case result of
         None \<Rightarrow> go_return None
       | Some r \<Rightarrow>
           if rs_Error r \<noteq> None then go_return (Some (Fin 0, Orphan, 0))
           else (case json_object (rs_Result r) of
                   None \<Rightarrow> go_return None
                 | Some m \<Rightarrow>
                     (case json_int m ''confirmations'' of
                        None \<Rightarrow> go_return None
                      | Some c \<Rightarrow> if c < 0 then go_return (Some (Fin 0, Orphan, 0)) else go_return None)))"

definition classifyBlock :: "('r, 'w) payer \<Rightarrow> pending_block \<Rightarrow> (('r, 'w) pay_state, classified) go" where
  "classifyBlock p pb =
     go_bind (pay_cmd p ''gettransaction'' [IStr (pb_TxHash pb)]) (\<lambda>result.
       case result of
         None \<Rightarrow> go_return None
       | Some r \<Rightarrow>
           (case rs_Error r of
              Some e \<Rightarrow> if re_Code e = -5 then classifyMissingTx p pb else go_return None
            | None \<Rightarrow>
                (case BytesToGetTransaction (rs_Result r) of
                   None \<Rightarrow> go_return None
                 | Some gt \<Rightarrow>
                     if gt_Confirmations gt < 0 then go_return (Some (Fin 0, Orphan, 0))
                     else (case List.find (\<lambda>d. gd_Address d = pm_PoolAddress p) (gt_Details gt) of
                             Some d \<Rightarrow> go_return (Some (gd_Amount d, gd_Category d, gt_Confirmations gt))
                           | None \<Rightarrow> go_return (Some (gt_Amount gt, Generate, gt_Confirmations gt))))))"

subsection \<open>Settling\<close>

record worker =
  wk_Address :: string
  wk_Balance :: u64
  wk_Reward :: u64
  wk_Sent :: u64

definition new_worker :: "string \<Rightarrow> u64 \<Rightarrow> worker" where
  "new_worker miner bal = \<lparr>wk_Address = miner, wk_Balance = bal, wk_Reward = 0, wk_Sent = 0\<rparr>"

definition seed_workers :: "('r, 'w) payer \<Rightarrow> (string \<times> f64) list \<Rightarrow> (string \<times> worker) list" where
  "seed_workers p balances = map (\<lambda>(miner, bal). (miner, new_worker miner (CoinToSat p bal))) balances"

definition add_reward :: "string \<Rightarrow> u64 \<Rightarrow> (string \<times> worker) list \<Rightarrow> (string \<times> worker) list" where
  "add_reward miner r workers =
     (let w = (case map_of workers miner of Some w \<Rightarrow> w | None \<Rightarrow> new_worker miner 0)
      in map_put miner (w\<lparr>wk_Reward := wk_Reward w + r\<rparr>) workers)"

definition add_rewards :: "(string \<times> u64) list \<Rightarrow> (string \<times> worker) list \<Rightarrow> (string \<times> worker) list" where
  "add_rewards credits workers = foldl (\<lambda>ws (miner, r). add_reward miner r ws) workers credits"

definition owed :: "worker \<Rightarrow> u64" where
  "owed w = wk_Balance w + wk_Reward w"

definition to_send :: "f64 \<Rightarrow> worker \<Rightarrow> u64" where
  "to_send withhold w = f64_to_u64 (f64_floor (f64_mul (f64_of_u64 (owed w)) (f64_sub (Fin 1) withhold)))"

definition settle_worker :: "('r, 'w) payer \<Rightarrow> f64 \<Rightarrow> worker \<Rightarrow> (('r, 'w) pay_state, worker) go" where
  "settle_worker p withhold w =
     (let toSend = to_send withhold w in
      if pm_MinPayment p \<le> toSend \<and> 0 < toSend
      then go_bind (validRecipient p (wk_Address w)) (\<lambda>ok. go_return (w\<lparr>wk_Sent := (if ok then toSend else 0)\<rparr>))
      else go_return (w\<lparr>wk_Sent := 0\<rparr>))"

fun settle_workers :: "('r, 'w) payer \<Rightarrow> f64 \<Rightarrow> (string \<times> worker) list \<Rightarrow> (('r, 'w) pay_state, (string \<times> worker) list) go" where
  "settle_workers p withhold [] = go_return []"
| "settle_workers p withhold ((k, w) # ws) =
     go_bind (settle_worker p withhold w) (\<lambda>w.
     go_bind (settle_workers p withhold ws) (\<lambda>ws. go_return ((k, w) # ws)))"

definition pay_amounts :: "('r, 'w) payer \<Rightarrow> (string \<times> worker) list \<Rightarrow> (string \<times> f64) list" where
  "pay_amounts p workers =
     foldl (\<lambda>m (_, w). if 0 < wk_Sent w then map_put (wk_Address w) (SatToCoin p (wk_Sent w)) m else m) [] workers"

definition fill_worker :: "('r, 'w) payer \<Rightarrow> payment_update \<Rightarrow> worker \<Rightarrow> payment_update" where
  "fill_worker p u w =
     u\<lparr>pu_Balances := map_put (wk_Address w) (SatToCoin p (owed w - wk_Sent w)) (pu_Balances u),
       pu_Paid := (if 0 < wk_Sent w then map_put (wk_Address w) (SatToCoin p (wk_Sent w)) (pu_Paid u)
                   else map_delete (wk_Address w) (pu_Paid u))\<rparr>"

definition fill_update :: "('r, 'w) payer \<Rightarrow> (string \<times> worker) list \<Rightarrow> payment_update \<Rightarrow> payment_update" where
  "fill_update p workers u = foldl (\<lambda>u (_, w). fill_worker p u w) u workers"

definition send_args :: "('r, 'w) payer \<Rightarrow> (string \<times> f64) list \<Rightarrow> iface list" where
  "send_args p amounts =
     (if po_OmitSendManyDummy (pm_options p) then [] else [IStr (po_SendManyDummy (pm_options p))]) @
     [IMap (map (\<lambda>(a, x). (a, INum x)) amounts)]"

definition record_sent :: "payment_update \<Rightarrow> ('r, 'w) pay_state \<Rightarrow> ('r, 'w) pay_state" where
  "record_sent u st = st\<lparr>ps_sent := ps_sent st @ [u]\<rparr>"

text \<open>\<open>0.01\<close>, and the next fraction to withhold.\<close>

definition one_percent :: f64 where "one_percent = f64_round (1 / 100)"

definition next_withhold :: "f64 \<Rightarrow> f64" where
  "next_withhold withhold =
     (let next = f64_mul withhold (Fin 2) in if f64_less next one_percent then one_percent else next)"

text \<open>
  The recursion on an insufficient-funds reply is bounded by fuel; \<open>settle_enough\<close> shows that
  the eight calls below are all it can make from a fraction of zero.
\<close>

fun settle :: "nat \<Rightarrow> ('r, 'w) payer \<Rightarrow> (string \<times> worker) list \<Rightarrow> payment_update \<Rightarrow> f64 \<Rightarrow> (('r, 'w) pay_state, payment_update) go" where
  "settle 0 p workers upd withhold = go_fail (Blocks ''settle'')"
| "settle (Suc fuel) p workers upd withhold =
     go_bind (settle_workers p withhold workers) (\<lambda>workers.
     let amounts = pay_amounts p workers; upd = fill_update p workers upd in
     if amounts = [] then go_return upd
     else
       go_seq (on_db (PutPayoutIntent (pm_json p) (pm_redis p) (pm_db p) upd))
       (go_bind (pay_cmd p ''sendmany'' (send_args p amounts)) (\<lambda>result.
        case result of
          None \<Rightarrow> go_seq (go_modify (record_sent upd)) (go_fail (Err ''no response from payment daemon on sendmany (payout intent left for review)''))
        | Some r \<Rightarrow>
            (case rs_Error r of
               Some e \<Rightarrow>
                 if re_Code e = -6 then
                   (let next = next_withhold withhold in
                    if f64_le (Fin 1) next
                    then go_seq (go_ignore (on_db (DelPayoutIntent (pm_redis p) (pm_db p))))
                           (go_fail (Err ''wallet cannot cover sendmany fees even at 100% withholding''))
                    else settle fuel p workers upd next)
                 else go_seq (go_ignore (on_db (DelPayoutIntent (pm_redis p) (pm_db p))))
                        (go_fail (Err (''sendmany failed: '' @ re_Message e)))
             | None \<Rightarrow>
                 (let txid = (case rs_Result r of Some v \<Rightarrow> RawJsonToString v | None \<Rightarrow> '''') in
                  go_seq (go_modify (record_sent upd))
                  (go_seq (on_db (SetPayoutIntentTxid (pm_redis p) (pm_db p) txid)) (go_return upd)))))))"

definition settle_fuel :: nat where "settle_fuel = 8"

subsection \<open>A payout run\<close>

definition reconcile :: "('r, 'w) payer \<Rightarrow> (('r, 'w) pay_state, unit) go" where
  "reconcile p =
     go_bind (on_db (GetPayoutIntent (pm_json p) (pm_redis p) (pm_db p))) (\<lambda>intent.
       case intent of
         None \<Rightarrow> go_return ()
       | Some (upd, txid) \<Rightarrow>
           if txid \<noteq> '''' then on_db (ApplyPayments (pm_redis p) (pm_db p) upd)
           else go_fail (Err ''in-flight payout intent has no txid; a sendmany may have broadcast''))"

definition empty_update :: "int \<Rightarrow> payment_update" where
  "empty_update cursor = \<lparr>pu_Balances = [], pu_Paid = [], pu_Confirmed = [], pu_Orphaned = [], pu_DeleteRounds = [], pu_PPSCursor = cursor\<rparr>"

definition add_orphan :: "pending_block \<Rightarrow> payment_update \<Rightarrow> payment_update" where
  "add_orphan pb u = u\<lparr>pu_Orphaned := pu_Orphaned u @ [PendingBlockString pb], pu_DeleteRounds := pu_DeleteRounds u @ [pb_Height pb]\<rparr>"

definition add_confirmed :: "pending_block \<Rightarrow> payment_update \<Rightarrow> payment_update" where
  "add_confirmed pb u = u\<lparr>pu_Confirmed := pu_Confirmed u @ [PendingBlockString pb], pu_DeleteRounds := pu_DeleteRounds u @ [pb_Height pb]\<rparr>"

definition is_orphan :: "string \<Rightarrow> bool" where
  "is_orphan category = (category = Orphan \<or> category = Kicked)"

fun split_blocks ::
  "('r, 'w) payer \<Rightarrow> (string \<times> worker) list \<Rightarrow> payment_update \<Rightarrow> pending_block list \<Rightarrow> pending_block list \<Rightarrow>
   (('r, 'w) pay_state, (string \<times> worker) list \<times> payment_update \<times> pending_block list) go" where
  "split_blocks p workers upd matured [] = go_return (workers, upd, matured)"
| "split_blocks p workers upd matured (pb # pbs) =
     go_bind (classifyBlock p pb) (\<lambda>c.
       case c of
         None \<Rightarrow> split_blocks p workers upd matured pbs
       | Some (reward, category, confirmations) \<Rightarrow>
           if is_orphan category then split_blocks p workers (add_orphan pb upd) matured pbs
           else if confirmations < po_MinConfirmations (pm_options p) then split_blocks p workers upd matured pbs
           else
             go_bind (attribute p pb (CoinToSat p reward)) (\<lambda>credits.
               if credits = [] then split_blocks p workers (add_orphan pb upd) matured pbs
               else split_blocks p (add_rewards credits workers) upd (matured @ [pb]) pbs))"

fun confirm_blocks ::
  "('r, 'w) payer \<Rightarrow> payment_update \<Rightarrow> pending_block list \<Rightarrow> (('r, 'w) pay_state, payment_update) go" where
  "confirm_blocks p upd [] = go_return upd"
| "confirm_blocks p upd (pb # pbs) =
     go_bind (classifyBlock p pb) (\<lambda>c.
       case c of
         None \<Rightarrow> confirm_blocks p upd pbs
       | Some (reward, category, confirmations) \<Rightarrow>
           if is_orphan category then confirm_blocks p (add_orphan pb upd) pbs
           else if confirmations < po_MinConfirmations (pm_options p) then confirm_blocks p upd pbs
           else confirm_blocks p (add_confirmed pb upd) pbs)"

definition processPPS :: "('r, 'w) payer \<Rightarrow> (('r, 'w) pay_state, unit) go" where
  "processPPS p =
     go_bind (on_db (GetPPSCursor (pm_redis p) (pm_db p))) (\<lambda>cursor.
     go_bind (on_db (GetSharesSince (pm_redis p) (pm_db p) cursor)) (\<lambda>(newShares, maxSeq).
     go_bind (on_db (GetAllMinerBalances (pm_redis p) (pm_db p))) (\<lambda>balances.
     let workers = add_rewards (map (\<lambda>(miner, diff). (miner, CoinToSat p (f64_mul diff (po_PPSRate (pm_options p))))) newShares)
                     (seed_workers p balances) in
     go_bind (on_db (GetAllPendingBlocks (pm_redis p) (pm_db p))) (\<lambda>pendingBlocks.
     go_bind (confirm_blocks p (empty_update maxSeq) pendingBlocks) (\<lambda>upd.
     go_bind (settle settle_fuel p workers upd (Fin 0)) (\<lambda>upd.
     on_db (ApplyPayments (pm_redis p) (pm_db p) upd)))))))"

definition pay_pending :: "('r, 'w) payer \<Rightarrow> (('r, 'w) pay_state, unit) go" where
  "pay_pending p =
     go_bind (on_db (GetAllPendingBlocks (pm_redis p) (pm_db p))) (\<lambda>pendingBlocks.
     if pendingBlocks = [] then go_return ()
     else
       go_bind (on_db (GetAllMinerBalances (pm_redis p) (pm_db p))) (\<lambda>balances.
       go_bind (split_blocks p (seed_workers p balances) (empty_update 0) [] pendingBlocks) (\<lambda>(workers, upd, matured).
       if matured = [] then
         (if pu_Orphaned upd = [] then go_return () else on_db (ApplyPayments (pm_redis p) (pm_db p) upd))
       else
         go_bind (settle settle_fuel p workers (foldl (\<lambda>u pb. add_confirmed pb u) upd matured) (Fin 0)) (\<lambda>upd.
         on_db (ApplyPayments (pm_redis p) (pm_db p) upd)))))"

definition processPayments :: "('r, 'w) payer \<Rightarrow> (('r, 'w) pay_state, unit) go" where
  "processPayments p =
     go_seq (reconcile p)
       (if po_PayMode (pm_options p) = PayModePPS then processPPS p else pay_pending p)"

subsection \<open>Splitting never overpays\<close>

definition share_weights :: "(string \<times> f64) list \<Rightarrow> rat list \<Rightarrow> bool" where
  "share_weights shares xs = (map snd shares = map Fin xs \<and> (\<forall>x\<in>set xs. 0 \<le> x \<and> representable (Fin x)))"

lemma f64_add_absorbs: "f64_add PInf v \<noteq> Fin x" "f64_add NInf v \<noteq> Fin x" "f64_add NaN v \<noteq> Fin x"
  by (cases v; simp)+

lemma foldl_add_Fin: "foldl f64_add a vs = Fin t \<Longrightarrow> \<exists>x. a = Fin x"
proof (induction vs arbitrary: a)
  case (Cons v vs)
  then obtain y where "f64_add a v = Fin y" by auto
  then show ?case using f64_add_absorbs by (cases a) metis+
qed simp

lemma float_sum_lower:
  assumes "foldl f64_add (Fin a) (map Fin xs) = Fin t"
    and "\<forall>x\<in>set xs. 0 \<le> x \<and> representable (Fin x)" "0 \<le> a" "representable (Fin a)"
    and "of_nat (length xs) \<le> (2 ^ 53 :: rat)"
  shows "(a + sum_list xs) * (1 - of_nat (length xs) / 2 ^ 53) \<le> t"
  using assms
proof (induction xs arbitrary: a)
  case (Cons x xs)
  define u :: rat where "u = 1 / 2 ^ 53"
  define n :: rat where "n = of_nat (length xs)"
  have x: "0 \<le> x" "representable (Fin x)" using Cons.prems(2) by simp_all
  from Cons.prems(1) obtain b where b: "f64_round (a + x) = Fin b"
    using foldl_add_Fin [of "f64_add (Fin a) (Fin x)" "map Fin xs" t] by auto
  then have br: "b = rnd64 (a + x)" by (auto dest: f64_round_Fin)
  have "0 \<le> b" unfolding br using x Cons.prems(3) by (intro rnd_nonneg) simp
  moreover have "foldl f64_add (Fin b) (map Fin xs) = Fin t" using Cons.prems(1) b by simp
  ultimately have IH: "(b + sum_list xs) * (1 - n * u) \<le> t"
    using Cons.IH [of b] Cons.prems(2,5) representable_round [OF b] by (simp add: n_def u_def)
  have "\<bar>b - (a + x)\<bar> \<le> \<bar>a + x\<bar> * u"
    unfolding br using rnd64_sum_err [OF Cons.prems(4) x(2)] by (simp add: u_def)
  then have lo: "(a + x) * (1 - u) \<le> b" using x Cons.prems(3) by (simp add: algebra_simps abs_le_iff)
  have s: "0 \<le> sum_list xs" using Cons.prems(2) by (intro sum_list_nonneg) auto
  have u: "0 \<le> u" "0 \<le> n" "0 \<le> 1 - n * u" using Cons.prems(5) by (simp_all add: u_def n_def)
  have "(a + x + sum_list xs) * (1 - u) \<le> b + sum_list xs"
    using lo mult_nonneg_nonneg [OF u(1) s] by (simp add: algebra_simps)
  then have "(a + x + sum_list xs) * (1 - u) * (1 - n * u) \<le> (b + sum_list xs) * (1 - n * u)"
    using u(3) by (rule mult_right_mono)
  moreover have "(a + x + sum_list xs) * (1 - (n + 1) * u) \<le> (a + x + sum_list xs) * ((1 - u) * (1 - n * u))"
    using x s u Cons.prems(3) by (intro mult_left_mono) (simp_all add: algebra_simps)
  ultimately have "(a + x + sum_list xs) * (1 - (n + 1) * u) \<le> t" using IH by (simp only: mult.assoc)
  then show ?case by (simp add: n_def u_def add.assoc add.commute [of 1])
qed simp

lemma rnd64_upper: "0 \<le> x \<Longrightarrow> rnd64 x \<le> x * (1 + 1 / 2 ^ 53) + 2 powi (-1075)"
proof -
  assume x: "0 \<le> x"
  define d :: rat where "d = 2 powi (-1075)"
  have "rnd64 x - x \<le> x * (1 / 2 ^ 53) + d" using rnd64_err [of x] x by (simp add: abs_le_iff d_def)
  then show ?thesis unfolding d_def [symmetric] by (simp only: distrib_left mult_1_right)
qed

lemma quotient_bound:
  assumes "0 \<le> x" "0 < t" "x \<le> 2 * t"
  obtains q where "f64_div (Fin x) (Fin t) = Fin q" "0 \<le> q" "q \<le> 2" "q \<le> x / t * (1 + 1 / 2 ^ 53) + 2 powi (-1075)"
proof -
  have y: "0 \<le> x / t" "x / t \<le> 2" using assms by (simp_all add: divide_le_eq)
  have r2: "rnd64 2 = 2" using rnd64_of_int [of 2] by simp
  have "0 \<le> rnd64 (x / t)" using y(1) by (rule rnd_nonneg)
  moreover have "rnd64 (x / t) \<le> 2" using rnd_mono [OF y(2), of 53 "-1074"] r2 by simp
  moreover from calculation have "\<bar>rnd64 (x / t)\<bar> < 2 ^ 1024" by (simp add: abs_less_iff)
  moreover have "rnd64 (x / t) \<le> x / t * (1 + 1 / 2 ^ 53) + 2 powi (-1075)"
    using y(1) by (rule rnd64_upper)
  ultimately show ?thesis using that [of "rnd64 (x / t)"] assms(2) by (simp add: f64_round_small)
qed

lemma part_bound:
  assumes "0 \<le> x" "0 < t" "x \<le> 2 * t" "unat rewardSat < 2 ^ 53"
  defines "R \<equiv> of_nat (unat rewardSat) :: rat" and "u \<equiv> 1 / 2 ^ 53 :: rat" and "d \<equiv> 2 powi (-1075) :: rat"
  shows "of_nat (unat (f64_to_u64 (f64_floor (f64_mul (f64_of_u64 rewardSat) (f64_div (Fin x) (Fin t))))))
    \<le> x / t * (R * (1 + u) ^ 2) + (R * (1 + u) + 1) * d"
proof -
  obtain q where q: "f64_div (Fin x) (Fin t) = Fin q" "0 \<le> q" "q \<le> 2" "q \<le> x / t * (1 + u) + d"
    using quotient_bound [OF assms(1-3)] unfolding u_def d_def by metis
  have "int (unat rewardSat) < int (2 ^ 53)" using assms(4) by (simp only: of_nat_less_iff)
  then have Rf: "f64_of_u64 rewardSat = Fin R"
    using f64_of_int_exact [of "uint rewardSat"] by (simp add: f64_of_u64_def R_def)
  have "of_nat (unat rewardSat) < (of_nat (2 ^ 53) :: rat)" using assms(4) by (simp only: of_nat_less_iff)
  then have R: "0 \<le> R" "R < 2 ^ 53" unfolding R_def by (simp_all only: of_nat_0_le_iff of_nat_power of_nat_numeral)
  have z: "0 \<le> R * q" "R * q \<le> 2 ^ 54"
    using mult_mono [of R "2 ^ 53" q 2] R q by simp_all
  have "rnd64 (2 ^ 54) = 2 ^ 54" by (rule rnd_exact [of _ 1 54]) auto
  then have r: "0 \<le> rnd64 (R * q)" "rnd64 (R * q) \<le> 2 ^ 54"
    using rnd_nonneg [OF z(1)] rnd_mono [OF z(2), of 53 "-1074"] by simp_all
  then have m: "f64_mul (Fin R) (Fin q) = Fin (rnd64 (R * q))"
    by (simp add: f64_round_small abs_less_iff)
  have fl: "0 \<le> \<lfloor>rnd64 (R * q)\<rfloor>" "of_int \<lfloor>rnd64 (R * q)\<rfloor> < (2 ^ 64 :: rat)" "of_int \<lfloor>rnd64 (R * q)\<rfloor> \<le> rnd64 (R * q)"
    using r of_int_floor_le [of "rnd64 (R * q)"] by simp_all
  have "unat (f64_to_u64 (Fin (of_int \<lfloor>rnd64 (R * q)\<rfloor>))) = nat \<lfloor>rnd64 (R * q)\<rfloor>"
    using f64_to_u64_nat [of "of_int \<lfloor>rnd64 (R * q)\<rfloor>"] fl by (simp del: f64_to_u64.simps)
  then have "of_nat (unat (f64_to_u64 (f64_floor (f64_mul (f64_of_u64 rewardSat) (f64_div (Fin x) (Fin t)))))) \<le> rnd64 (R * q)"
    unfolding Rf q(1) m f64_floor.simps using fl by (simp only: of_nat_nat)
  also have "\<dots> \<le> R * q * (1 + u) + d"
    using rnd64_upper [OF z(1)] by (simp only: u_def d_def)
  also have "\<dots> \<le> R * (x / t * (1 + u) + d) * (1 + u) + d"
    using R q(4) by (intro add_right_mono mult_right_mono mult_left_mono) (simp_all add: u_def)
  also have "\<dots> = x / t * (R * (1 + u) ^ 2) + (R * (1 + u) + 1) * d"
    by (simp add: algebra_simps power2_eq_square add_divide_distrib)
  finally show ?thesis .
qed

lemma split_arith:
  fixes R n u d s :: rat
  assumes "0 < u" "u \<le> 1" "0 \<le> d" "1 \<le> R" "0 \<le> n" "n * u \<le> 1 / 2" "R * (n + 4) * u \<le> 1 / 2" "3 * n * d < 2 * u"
    and "0 \<le> s" "s * (1 - n * u) \<le> 1"
  shows "s * (R * (1 + u) ^ 2) + n * ((R * (1 + u) + 1) * d) < R + 1"
proof -
  have nu: "0 \<le> n * u" "0 < 1 - n * u" using assms by auto
  have "s * (1 - n * u) \<le> (1 + 2 * (n * u)) * (1 - n * u)"
  proof -
    have "0 \<le> (n * u) * (1 - 2 * (n * u))" using assms(6) nu by simp
    then show ?thesis using assms(10) by (simp add: algebra_simps)
  qed
  then have s: "s \<le> 1 + 2 * (n * u)" using nu(2) by simp
  have "(1 + u) ^ 2 \<le> 1 + 3 * u" using assms(1,2) mult_left_mono [of u 1 u] by (simp add: power2_eq_square algebra_simps)
  then have "s * (1 + u) ^ 2 \<le> (1 + 2 * (n * u)) * (1 + 3 * u)"
    using s assms(1,9) nu by (intro mult_mono) auto
  also have "\<dots> = 1 + 3 * u + 2 * (n * u) + 6 * u * (n * u)" by (simp add: algebra_simps)
  also have "\<dots> \<le> 1 + 3 * u + 2 * (n * u) + 6 * u * (1 / 2)"
    using assms(1,6) by (intro add_left_mono mult_left_mono) auto
  finally have f: "s * (1 + u) ^ 2 \<le> 1 + 2 * ((n + 3) * u)" by (simp add: algebra_simps)
  have "R * s * (1 + u) ^ 2 \<le> R * (1 + 2 * ((n + 3) * u))"
    using f assms(4) by (simp only: mult.assoc) (intro mult_left_mono, auto)
  also have "\<dots> = R + 2 * (R * (n + 4) * u) - 2 * R * u" by (simp add: algebra_simps)
  also have "\<dots> \<le> R + 1 - 2 * R * u" using assms(7) by simp
  finally have 1: "R * s * (1 + u) ^ 2 \<le> R + 1 - 2 * R * u" .
  have "R * u \<le> R * 1" using assms(2,4) by (intro mult_left_mono) auto
  then have "R * (1 + u) + 1 \<le> 3 * R" using assms(4) by (simp only: distrib_left mult_1_right)
  then have "n * ((R * (1 + u) + 1) * d) \<le> n * (3 * R * d)"
    using assms(3,5) by (intro mult_left_mono mult_right_mono) auto
  also have "\<dots> = R * (3 * n * d)" by simp
  also have "\<dots> < R * (2 * u)" using assms(4,8) by (intro mult_strict_left_mono) auto
  finally show ?thesis using 1 by (simp add: algebra_simps)
qed

lemma sum_list_parts:
  fixes f :: "'a \<Rightarrow> nat" and g :: "'a \<Rightarrow> rat"
  shows "\<forall>x\<in>set xs. of_nat (f x) \<le> g x * a + b \<Longrightarrow>
    of_nat (sum_list (map f xs)) \<le> sum_list (map g xs) * a + of_nat (length xs) * b"
  by (induction xs) (auto simp: algebra_simps intro: order.trans)

lemma elem_le_sum: "x \<in> set xs \<Longrightarrow> \<forall>y\<in>set xs. 0 \<le> y \<Longrightarrow> x \<le> sum_list (xs :: rat list)"
  by (induction xs) (auto simp: sum_list_nonneg intro: add_increasing)

lemma sum_list_div: "sum_list (map (\<lambda>x. x / t) xs) = sum_list xs / (t :: rat)"
  by (induction xs) (simp_all add: add_divide_distrib)

lemma split_parts:
  assumes "foldl f64_add (Fin 0) (map snd shares) = Fin t" "0 < t" "map snd shares = map Fin xs"
  shows "map (unat \<circ> snd) (splitByShares rewardSat shares) =
    map (\<lambda>x. unat (f64_to_u64 (f64_floor (f64_mul (f64_of_u64 rewardSat) (f64_div (Fin x) (Fin t)))))) xs"
proof -
  have "map (unat \<circ> snd) (splitByShares rewardSat shares) =
      map (\<lambda>s. unat (f64_to_u64 (f64_floor (f64_mul (f64_of_u64 rewardSat) (f64_div s (Fin t)))))) (map snd shares)"
    using assms(1,2) by (simp add: splitByShares_def split_beta comp_def del: f64_div.simps)
  then show ?thesis by (simp add: assms(3) comp_def del: f64_div.simps)
qed

text \<open>The sum of the weights as computed is not far below the exact sum, so no weight exceeds it twofold.\<close>

lemma weights_total:
  assumes "foldl f64_add (Fin 0) (map Fin xs) = Fin t" "\<forall>x\<in>set xs. 0 \<le> x \<and> representable (Fin x)"
    and "of_nat (length xs) * (1 / 2 ^ 53) \<le> (1 / 2 :: rat)"
  shows "sum_list xs * (1 - of_nat (length xs) * (1 / 2 ^ 53)) \<le> t" "x \<in> set xs \<Longrightarrow> x \<le> 2 * t"
proof -
  have "representable (Fin 0)" using representable_small_int [of 0] by simp
  then show lo: "sum_list xs * (1 - of_nat (length xs) * (1 / 2 ^ 53)) \<le> t"
    using float_sum_lower [of 0 xs t] assms by simp
  assume "x \<in> set xs"
  then have "x \<le> sum_list xs" using assms(2) by (simp add: elem_le_sum)
  moreover have "sum_list xs * (1 / 2) \<le> sum_list xs * (1 - of_nat (length xs) * (1 / 2 ^ 53))"
    using assms(2,3) by (intro mult_left_mono sum_list_nonneg) auto
  ultimately show "x \<le> 2 * t" using lo by linarith
qed

text \<open>
  C7. A block's reward is never overspent. For shares of finite non-negative difficulties,
  the amounts \<open>splitByShares\<close> gives out, each computed in floating point and rounded down,
  add up to at most the reward, as long as reward times number of miners stays below about
  \<open>2 ^ 52\<close> (four million miners for a reward of ten coins).
\<close>

theorem split_never_overpays:
  assumes "share_weights shares xs" "foldl f64_add (Fin 0) (map snd shares) = Fin t"
    and "unat rewardSat * (length shares + 4) \<le> 2 ^ 52" "length shares \<le> 2 ^ 50"
  shows "sum_list (map (unat \<circ> snd) (splitByShares rewardSat shares)) \<le> unat rewardSat"
proof (cases "t \<le> 0")
  case True
  then show ?thesis using assms(2) by (simp add: splitByShares_def)
next
  case False
  define R n u d :: rat where "R = of_nat (unat rewardSat)" and "n = of_nat (length shares)" and "u = 1 / 2 ^ 53" and "d = 2 powi (-1075)"
  define part where "part = (\<lambda>x. unat (f64_to_u64 (f64_floor (f64_mul (f64_of_u64 rewardSat) (f64_div (Fin x) (Fin t))))))"
  have xs: "map snd shares = map Fin xs" "\<forall>x\<in>set xs. 0 \<le> x \<and> representable (Fin x)" "length xs = length shares"
    using assms(1) by (auto simp: share_weights_def dest: arg_cong [of _ _ length])
  have nb: "0 \<le> n" "n \<le> 2 ^ 50" "n * u \<le> 1 / 2"
    using assms(4) by (simp_all add: n_def u_def)
  have "n * d \<le> 2 ^ 50 * d" using nb(2) by (intro mult_right_mono) (simp_all add: d_def)
  moreover have "3 * (2 ^ 50 * d) < 2 * u" "2 ^ 50 * d < 1" by (simp_all add: d_def u_def)
  ultimately have small: "3 * n * d < 2 * u" "n * d < 1" by (simp_all only: mult.assoc)
  have ud: "0 < u" "u \<le> 1" "0 \<le> d" by (simp_all add: u_def d_def)
  have R0: "0 \<le> R" unfolding R_def by (rule of_nat_0_le_iff)
  have tot: "foldl f64_add (Fin 0) (map Fin xs) = Fin t" "of_nat (length xs) * (1 / 2 ^ 53) \<le> (1 / 2 :: rat)"
    using assms(2) xs nb(3) by (simp_all add: n_def u_def)
  note lo = weights_total(1) [OF tot(1) xs(2) tot(2), unfolded xs(3), folded n_def u_def]
  have "of_nat (unat rewardSat * (length shares + 4)) \<le> (of_nat (2 ^ 52) :: rat)" using assms(3) by (simp only: of_nat_le_iff)
  then have Rn: "R * (n + 4) * u \<le> 1 / 2" by (simp add: R_def n_def u_def)
  have "unat rewardSat * 4 \<le> unat rewardSat * (length shares + 4)" by (intro mult_left_mono) auto
  then have "unat rewardSat * 4 \<le> 2 ^ 52" using assms(3) by (rule le_trans)
  then have Rb: "unat rewardSat < 2 ^ 53" by simp
  have t: "0 < t" using False by simp
  note x2 = weights_total(2) [OF tot(1) xs(2) tot(2)]
  have "sum_list (map (unat \<circ> snd) (splitByShares rewardSat shares)) = sum_list (map part xs)"
    using split_parts [OF assms(2) t xs(1), of rewardSat] by (simp only: part_def)
  moreover have "\<forall>x\<in>set xs. of_nat (part x) \<le> x / t * (R * (1 + u) ^ 2) + (R * (1 + u) + 1) * d"
    using part_bound [OF _ t x2 Rb] xs(2) unfolding part_def R_def u_def d_def
    by (auto simp del: of_nat_unat f64_div.simps)
  ultimately have "of_nat (sum_list (map (unat \<circ> snd) (splitByShares rewardSat shares)))
      \<le> sum_list xs / t * (R * (1 + u) ^ 2) + n * ((R * (1 + u) + 1) * d)"
    using sum_list_parts [of xs part "\<lambda>x. x / t"] xs(3) by (simp only: sum_list_div n_def)
  also have "\<dots> < R + 1"
  proof (cases "R = 0")
    case False
    then have "1 \<le> unat rewardSat" unfolding R_def by (cases "unat rewardSat") simp_all
    then have "of_nat 1 \<le> R" unfolding R_def by (simp only: of_nat_le_iff)
    then have "1 \<le> R" by simp
    moreover have "0 \<le> sum_list xs / t" using xs(2) t by (simp add: sum_list_nonneg)
    moreover have "sum_list xs / t * (1 - n * u) \<le> 1" using lo t by simp
    ultimately show ?thesis by (rule split_arith [OF ud _ nb(1,3) Rn small(1)])
  qed (use small(2) in simp)
  finally have "of_nat (sum_list (map (unat \<circ> snd) (splitByShares rewardSat shares))) < (of_nat (unat rewardSat + 1) :: rat)"
    by (simp add: R_def)
  then show ?thesis by (simp only: of_nat_less_iff)
qed

theorem split_never_overpays_witness:
  "sum_list (map (unat \<circ> snd) (splitByShares 5000000000 [(''a'', Fin 1), (''b'', Fin 2)])) \<le> unat (5000000000 :: u64)"
proof (rule split_never_overpays [of _ "[1, 2]" 3])
  show "share_weights [(''a'', Fin 1), (''b'', Fin 2)] [1, 2]"
    using representable_small_int [of 1] representable_small_int [of 2] by (simp add: share_weights_def)
  show "foldl f64_add (Fin 0) (map snd [(''a'', Fin 1), (''b'', Fin 2)]) = Fin 3"
    using f64_of_int_exact [of 1] f64_of_int_exact [of 3] by (simp add: f64_of_int_def)
qed simp_all

subsection \<open>Coins and base units\<close>

lemma rnd64_near: "0 \<le> x \<Longrightarrow> \<bar>rnd64 x - x\<bar> \<le> x * (1 / 2 ^ 53) + 2 powi (-1075)"
  using rnd64_err [of x] by simp

lemma coin_error:
  fixes s M u d q z :: rat
  assumes "1 \<le> s" "s \<le> 2 ^ 50" "1 \<le> M" "M \<le> 2 ^ 60" "u = 1 / 2 ^ 53" "0 \<le> d" "2 ^ 62 * d \<le> 1 / 16"
    and "0 \<le> q" "\<bar>q - s / M\<bar> \<le> s / M * u + d" "\<bar>z - q * M\<bar> \<le> q * M * u + d"
  shows "\<bar>z - s\<bar> \<le> 3 / 8"
proof -
  define e where "e = s * u + M * d"
  have "\<bar>q - s / M\<bar> * M \<le> (s / M * u + d) * M" using assms(3,9) by (intro mult_right_mono) auto
  moreover have "\<bar>q - s / M\<bar> * M = \<bar>q * M - s\<bar>"
  proof -
    have "\<bar>q - s / M\<bar> * M = \<bar>(q - s / M) * M\<bar>" using assms(3) by (simp add: abs_mult)
    also have "(q - s / M) * M = q * M - s" using assms(3) by (simp add: left_diff_distrib)
    finally show ?thesis .
  qed
  moreover have "(s / M * u + d) * M = e" using assms(3) by (simp add: e_def distrib_right)
  ultimately have 1: "\<bar>q * M - s\<bar> \<le> e" by simp
  have "s * u \<le> 2 ^ 50 * u" using assms(2,5) by (intro mult_right_mono) auto
  moreover have "M * d \<le> 2 ^ 60 * d" using assms(4,6) by (intro mult_right_mono) auto
  moreover have "2 ^ 50 * u = 1 / 8" "2 ^ 60 * d \<le> 1 / 64" using assms(5,7) by simp_all
  ultimately have e: "e \<le> 1 / 8 + 1 / 64" unfolding e_def by linarith
  have "q * M \<le> 2 ^ 50 + 1" using 1 e assms(2) by (simp add: abs_le_iff)
  then have "q * M * u \<le> (2 ^ 50 + 1) * u" using assms(5) by (intro mult_right_mono) auto
  moreover have "(2 ^ 50 + 1) * u \<le> 1 / 8 + 1 / 64" "d \<le> 1 / 64" using assms(5,6,7) by simp_all
  ultimately have "q * M * u + d \<le> 1 / 8 + 1 / 32" by linarith
  then show ?thesis using 1 e assms(10) by linarith
qed

lemma round_half:
  assumes "n < 2 ^ 50" "\<bar>z - of_int n\<bar> \<le> 3 / 8" "0 \<le> n"
  shows "f64_floor (f64_round (z + 1 / 2)) = Fin (of_int n)"
proof -
  have n: "rnd64 (of_int n) = of_int n" using assms by (intro rnd64_of_int) auto
  have k: "rnd64 (of_int n + 7 / 8) = of_int n + 7 / 8"
    by (rule rnd_exact [of _ "8 * n + 7" "-3"]) (use assms in \<open>simp_all add: field_simps\<close>)
  have "of_int n \<le> z + 1 / 2" "z + 1 / 2 \<le> of_int n + 7 / 8" using assms(2) by linarith+
  then have "of_int n \<le> rnd64 (z + 1 / 2)" "rnd64 (z + 1 / 2) \<le> of_int n + 7 / 8"
    using rnd_mono [of "of_int n" "z + 1 / 2" 53 "-1074"] rnd_mono [of "z + 1 / 2" "of_int n + 7 / 8" 53 "-1074"] n k by simp_all
  moreover have "(0 :: rat) \<le> of_int n" "(of_int n :: rat) < 2 ^ 50" using assms
    by simp (metis assms(1) of_int_less_iff of_int_numeral of_int_power)
  moreover have "(2 ^ 50 + 1 :: rat) < 2 ^ 1024" by simp
  ultimately have "f64_round (z + 1 / 2) = Fin (rnd64 (z + 1 / 2))" "\<lfloor>rnd64 (z + 1 / 2)\<rfloor> = n"
    by (auto intro!: f64_round_small floor_unique simp: abs_less_iff)
  then show ?thesis by simp
qed


definition ex_options :: payment_options where
  "ex_options = \<lparr>po_Interval = 0, po_MinPayment = Fin 0, po_Daemon = 0, po_PayMode = ''SOLO'', po_PPLNSWindow = Fin 0,
     po_PPSRate = Fin 0, po_Magnitude = Fin 0, po_MinConfirmations = 0, po_AddressCheckMethod = '''', po_SendManyDummy = '''',
     po_OmitSendManyDummy = False\<rparr>"

definition ex_payer :: "'w transport \<Rightarrow> update_codec \<Rightarrow> (keyspace, 'w) payer" where
  "ex_payer rpc js = setMagnitude (NewPaymentManager mem_redis rpc js ex_options ''pool'' ex_manager ex_db)"

lemma ex_payer_magnitude: "pm_Magnitude (ex_payer rpc js) = Fin 100000000"
  by (simp add: ex_payer_def setMagnitude_def NewPaymentManager_def ex_options_def WithDefaults_def Let_def)


subsection \<open>Payout runs return\<close>

text \<open>A computation returns when it ends with a value or a Go \<open>error\<close>: no panic, no endless loop.\<close>

definition returned :: "'a res \<Rightarrow> bool" where
  "returned r = (case r of Inl (Err _) \<Rightarrow> True | Inl _ \<Rightarrow> False | Inr _ \<Rightarrow> True)"

definition returns :: "('s, 'a) go \<Rightarrow> bool" where
  "returns m = (\<forall>s. returned (fst (m s)))"

lemma returned_simps [simp]: "returned (Inr x)" "returned (Inl (Err e))" "returned redis_error"
  by (simp_all add: returned_def redis_error_def)

lemma returned_rbind: "returned r \<Longrightarrow> (\<And>x. returned (f x)) \<Longrightarrow> returned (rbind r f)"
  by (cases r) (auto simp: returned_def split: go_error.splits)

lemma returns_bind [inv_intros]: "returns m \<Longrightarrow> (\<And>x. returns (f x)) \<Longrightarrow> returns (go_bind m f)"
  unfolding returns_def go_bind_def by (auto split: prod.splits sum.splits) (metis fst_conv returned_def sum.case(1))

lemma returns_seq [inv_intros]: "returns m \<Longrightarrow> returns k \<Longrightarrow> returns (go_seq m k)"
  unfolding go_seq_def by (rule returns_bind)

lemma returns_basic [inv_intros]:
  "returns (go_return x)" "returns (go_fail (Err e))" "returns (go_get f)" "returns (go_modify g)" "returns (go_ignore m)"
  by (simp_all add: returns_def go_ignore_def)

lemma returns_if [inv_intros]: "(b \<Longrightarrow> returns m) \<Longrightarrow> (\<not> b \<Longrightarrow> returns k) \<Longrightarrow> returns (if b then m else k)"
  by simp

lemma returns_case_option [inv_intros]:
  "returns m \<Longrightarrow> (\<And>x. returns (f x)) \<Longrightarrow> returns (case c of None \<Rightarrow> m | Some x \<Rightarrow> f x)"
  by (cases c) simp_all

lemma returns_case_prod [inv_intros]: "(\<And>x y. returns (f x y)) \<Longrightarrow> returns (case c of (x, y) \<Rightarrow> f x y)"
  by (cases c) simp

lemma returns_pay_cmd [inv_intros]: "returns (pay_cmd p method params)"
  by (simp add: returns_def pay_cmd_def split: prod.splits)

lemma returns_query [inv_intros]: "(\<And>rep. returned (f rep)) \<Longrightarrow> returns (on_db (query rd c f))"
  by (simp add: returns_def on_db_def query_def split: prod.splits)

lemma returned_reads [simp]:
  "returned (as_list rep)" "returned (as_map rep)" "returned (as_err rep)"
  by (simp_all add: as_list_def as_map_def as_err_def split: redis_reply.splits)

lemma returned_parse_fields [simp]: "returned (parse_fields m)"
  by (induction m rule: parse_fields.induct) (auto split: option.splits intro: returned_rbind)

lemma returned_parse_blocks [simp]: "returned (parse_blocks bs)"
  by (induction bs)
    (auto simp: NewPendingBlockFromString_def Let_def split: prod.splits intro!: returned_rbind)

lemma returns_db [inv_intros]:
  "returns (on_db (GetPayoutIntent js rd s))" "returns (on_db (GetPPSCursor rd s))"
  "returns (on_db (GetSharesSince rd s cursor))" "returns (on_db (GetAllMinerBalances rd s))"
  "returns (on_db (GetAllPendingBlocks rd s))" "returns (on_db (GetRoundContrib rd s h))"
  "returns (on_db (GetPPLNSShares rd s seqno window))" "returns (on_db (SetPayoutIntentTxid rd s txid))"
  unfolding GetPayoutIntent_def GetPPSCursor_def GetSharesSince_def GetAllMinerBalances_def GetAllPendingBlocks_def
    GetRoundContrib_def GetPPLNSShares_def SetPayoutIntentTxid_def intent_of_def
  by (rule returns_query; auto split: option.splits redis_reply.splits prod.splits intro!: returned_rbind)+

lemma returns_db_write [inv_intros]:
  "returns (on_db (PutPayoutIntent js rd s u))" "returns (on_db (ApplyPayments rd s u))"
  by (auto simp: returns_def on_db_def PutPayoutIntent_def ApplyPayments_def query_def split: option.splits prod.splits)

lemma returns_validRecipient [inv_intros]: "returns (validRecipient p addr)"
  unfolding validRecipient_def Let_def by (intro inv_intros)

lemma returns_settle_workers [inv_intros]: "returns (settle_workers p withhold ws)"
proof (induction ws)
  case Nil
  show ?case unfolding settle_workers.simps by (intro inv_intros)
next
  case (Cons kw ws)
  obtain k w where kw: "kw = (k, w)" by (cases kw)
  show ?case unfolding kw settle_workers.simps settle_worker_def Let_def by (intro inv_intros Cons)
qed

lemma returns_classify [inv_intros]: "returns (classifyBlock p pb)"
  unfolding classifyBlock_def classifyMissingTx_def by (intro inv_intros)

lemma returns_attribute [inv_intros]: "returns (attribute p pb r)"
  unfolding attribute_def by (intro inv_intros)

lemma returns_blocks [inv_intros]:
  "returns (split_blocks p ws u matured pbs)" "returns (confirm_blocks p u pbs)"
proof -
  show "returns (split_blocks p ws u matured pbs)"
    by (induction pbs arbitrary: ws u matured; unfold split_blocks.simps) (intro inv_intros; assumption)+
  show "returns (confirm_blocks p u pbs)"
    by (induction pbs arbitrary: u; unfold confirm_blocks.simps) (intro inv_intros; assumption)+
qed

text \<open>The fraction withheld doubles from one percent on, so that the seventh retry is the last.\<close>

primrec retries :: "nat \<Rightarrow> f64 \<Rightarrow> bool" where
  "retries 0 withhold = False"
| "retries (Suc n) withhold = (f64_le (Fin 1) (next_withhold withhold) \<or> retries n (next_withhold withhold))"

lemma settle_enough:
  "retries n withhold \<Longrightarrow> n \<le> m \<Longrightarrow>
   settle m p ws u withhold = settle n p ws u withhold \<and> returns (settle n p ws u withhold)"
proof (induction n arbitrary: m withhold ws u)
  case (Suc n)
  obtain m' where m: "m = Suc m'" "n \<le> m'" using Suc.prems(2) by (cases m) auto
  have IH: "settle m' p ws u (next_withhold withhold) = settle n p ws u (next_withhold withhold)"
    "returns (settle n p ws u (next_withhold withhold))" if "\<not> f64_le (Fin 1) (next_withhold withhold)" for ws u
    using Suc.IH [OF _ m(2)] Suc.prems(1) that by simp_all
  have "settle (Suc m') p ws u withhold = settle (Suc n) p ws u withhold"
  proof (cases "f64_le (Fin 1) (next_withhold withhold)")
    case True
    then show ?thesis by (simp only: settle.simps Let_def if_True)
  next
    case False
    then show ?thesis by (simp only: settle.simps Let_def if_False IH(1) [OF False])
  qed
  moreover have "returns (settle (Suc n) p ws u withhold)"
    unfolding settle.simps Let_def by (intro inv_intros IH(2))
  ultimately show ?case by (simp only: m(1))
qed simp

lemma one_percent_bounds:
  obtains c where "one_percent = Fin c" "1 / 128 \<le> c" "c \<le> 1 / 64" "representable (Fin c)"
proof -
  have e: "rnd64 (1 / 128) = 1 / 128" "rnd64 (1 / 64) = 1 / 64"
    by (rule rnd_exact [of _ 1 "-7"]; simp) (rule rnd_exact [of _ 1 "-6"]; simp)
  have b: "1 / 128 \<le> rnd64 (1 / 100)" "rnd64 (1 / 100) \<le> 1 / 64"
    using rnd_mono [of "1 / 128" "1 / 100" 53 "-1074"] rnd_mono [of "1 / 100" "1 / 64" 53 "-1074"] e by simp_all
  then have "f64_round (1 / 100) = Fin (rnd64 (1 / 100))" by (intro f64_round_small) simp
  then show ?thesis using that b representable_round by (metis one_percent_def)
qed

lemma double_exact:
  assumes "representable (Fin x)" "\<bar>x\<bar> \<le> 1"
  shows "f64_mul (Fin x) (Fin 2) = Fin (2 * x)" "representable (Fin (2 * x))"
proof -
  obtain m :: int and q where f: "rnd64 x = of_int m * 2 powi q" "\<bar>m\<bar> < 2 ^ 53" "-1074 \<le> q" by (rule rnd64_form)
  have "2 * x = of_int m * 2 powi (q + 1)"
    using assms(1) f(1) by (simp add: representable_def power_int_add)
  then have r: "rnd64 (2 * x) = 2 * x" by (rule rnd_exact) (use f in auto)
  have "\<bar>2 * x\<bar> \<le> 2" "(2 :: rat) < 2 ^ 1024" using assms(2) by simp_all
  then have b: "\<bar>2 * x\<bar> < 2 ^ 1024" by (meson order_le_less_trans)
  show "f64_mul (Fin x) (Fin 2) = Fin (2 * x)" using f64_round_exact [OF r b] by (simp add: mult.commute)
  show "representable (Fin (2 * x))" using r b by (simp add: representable_def)
qed

lemma retries_double:
  assumes c: "one_percent = Fin c" "0 < c"
  shows "representable (Fin x) \<Longrightarrow> c \<le> x \<Longrightarrow> x \<le> 1 \<Longrightarrow> 1 \<le> 2 ^ Suc n * x \<Longrightarrow> retries (Suc n) (Fin x)"
proof (induction n arbitrary: x)
  case (Suc n)
  have d: "next_withhold (Fin x) = Fin (2 * x)" "representable (Fin (2 * x))"
    using double_exact [of x] Suc.prems c(2) unfolding next_withhold_def c(1) by (simp_all add: Let_def)
  show ?case
  proof (cases "1 \<le> 2 * x")
    case False
    then have "retries (Suc n) (Fin (2 * x))" using Suc.IH [of "2 * x"] Suc.prems c d by (simp add: mult.assoc)
    then show ?thesis using d by simp
  qed (simp add: d)
qed (use double_exact(1) c(2) in \<open>simp add: next_withhold_def c(1) Let_def\<close>)

lemma retries_from_zero: "retries 8 (Fin 0)"
proof -
  obtain c where c: "one_percent = Fin c" "1 / 128 \<le> c" "c \<le> 1 / 64" "representable (Fin c)"
    by (rule one_percent_bounds)
  then have "next_withhold (Fin 0) = Fin c" unfolding next_withhold_def c(1) by (simp add: Let_def f64_round_def)
  moreover have "retries (Suc 6) (Fin c)" by (rule retries_double [OF c(1)]) (use c in simp_all)
  ultimately have "retries (Suc (Suc 6)) (Fin 0)" by (simp only: retries.simps(2) [of "Suc 6"] simp_thms)
  moreover have "Suc (Suc 6) = (8 :: nat)" by simp
  ultimately show ?thesis by (simp only:)
qed

text \<open>
  C21. Every payout run ends. Whatever the store and the wallet answer, \<open>processPayments\<close> returns
  a result or an error; and when the wallet keeps reporting insufficient funds, \<open>settle\<close>
  makes at most eight attempts (the withheld fraction doubles from one percent to one), so
  that allowing it more makes no difference.
\<close>

theorem payout_run_returns:
  "returns (processPayments p) \<and> (8 \<le> fuel \<longrightarrow> settle fuel p ws u (Fin 0) = settle settle_fuel p ws u (Fin 0))"
proof -
  have s: "returns (settle settle_fuel p ws u (Fin 0))" for ws u
    using settle_enough [OF retries_from_zero order.refl] by (simp add: settle_fuel_def)
  have "returns (processPayments p)"
    unfolding processPayments_def reconcile_def processPPS_def pay_pending_def Let_def
    by (intro inv_intros s)
  then show ?thesis using settle_enough [OF retries_from_zero, of fuel p ws u] by (simp add: settle_fuel_def)
qed

theorem payout_run_returns_witness:
  "\<forall>js. settle 20 (ex_payer (\<lambda>_ _ _ (w :: unit). (NoResponse, w)) js) [] (empty_update 0) (Fin 0) =
     settle settle_fuel (ex_payer (\<lambda>_ _ _ w. (NoResponse, w)) js) [] (empty_update 0) (Fin 0)"
proof
  fix js
  have "(8 :: nat) \<le> 20" by simp
  with payout_run_returns [where fuel = 20 and p = "ex_payer (\<lambda>_ _ _ (w :: unit). (NoResponse, w)) js" and ws = "[]" and u = "empty_update 0"]
  show "settle 20 (ex_payer (\<lambda>_ _ _ (w :: unit). (NoResponse, w)) js) [] (empty_update 0) (Fin 0) =
     settle settle_fuel (ex_payer (\<lambda>_ _ _ w. (NoResponse, w)) js) [] (empty_update 0) (Fin 0)"
    by blast
qed

end
