(* ===== verification/PayoutSafety.thy ===== *)
theory PayoutSafety
  imports Payments "HOL-Library.Sublist"
begin

text \<open>
  Payments and storage together: over any sequence of payout runs, restarts and newly found
  blocks, with any of the calls to the store or to the wallet failing at any point, no block is
  confirmed by two broadcast payouts. Triples state what a computation establishes when it
  returns a value and what it leaves behind when it does not.
\<close>

definition go_triple :: "('s \<Rightarrow> bool) \<Rightarrow> ('s, 'a) go \<Rightarrow> ('a \<Rightarrow> 's \<Rightarrow> bool) \<Rightarrow> ('s \<Rightarrow> bool) \<Rightarrow> bool" where
  "go_triple P m Q E \<longleftrightarrow> (\<forall>s. P s \<longrightarrow> (case m s of (Inr x, s') \<Rightarrow> Q x s' | (Inl e, s') \<Rightarrow> E s'))"

named_theorems triple_intros "rules for triples"

lemma triple_bind [triple_intros]:
  "go_triple P m Q E \<Longrightarrow> (\<And>x. go_triple (Q x) (f x) Q' E) \<Longrightarrow> go_triple P (go_bind m f) Q' E"
  unfolding go_triple_def go_bind_def by (fastforce split: prod.splits sum.splits)

lemma triple_seq [triple_intros]:
  "go_triple P m (\<lambda>_. Q) E \<Longrightarrow> go_triple Q k Q' E \<Longrightarrow> go_triple P (go_seq m k) Q' E"
  unfolding go_seq_def by (rule triple_bind)

lemma triple_return: "(\<And>s. P s \<Longrightarrow> Q x s) \<Longrightarrow> go_triple P (go_return x) Q E"
  by (simp add: go_triple_def)

lemma triple_fail: "(\<And>s. P s \<Longrightarrow> E s) \<Longrightarrow> go_triple P (go_fail e) Q E"
  by (simp add: go_triple_def)

lemma triple_modify: "(\<And>s. P s \<Longrightarrow> Q () (g s)) \<Longrightarrow> go_triple P (go_modify g) Q E"
  by (simp add: go_triple_def)

lemma triple_if [triple_intros]:
  "(b \<Longrightarrow> go_triple P m Q E) \<Longrightarrow> (\<not> b \<Longrightarrow> go_triple P k Q E) \<Longrightarrow> go_triple P (if b then m else k) Q E"
  by simp

lemma triple_option [triple_intros]:
  "(c = None \<Longrightarrow> go_triple P m Q E) \<Longrightarrow> (\<And>x. c = Some x \<Longrightarrow> go_triple P (f x) Q E) \<Longrightarrow>
   go_triple P (case c of None \<Rightarrow> m | Some x \<Rightarrow> f x) Q E"
  by (cases c) simp_all

lemma triple_weaken:
  "go_triple P m Q E \<Longrightarrow> (\<And>s. P' s \<Longrightarrow> P s) \<Longrightarrow> (\<And>x s. Q x s \<Longrightarrow> Q' x s) \<Longrightarrow> (\<And>s. E s \<Longrightarrow> E' s) \<Longrightarrow> go_triple P' m Q' E'"
  unfolding go_triple_def by (fastforce split: prod.splits sum.splits)

lemma triple_keeps: "keeps P m \<Longrightarrow> (\<And>s. P s \<Longrightarrow> E s) \<Longrightarrow> go_triple P m (\<lambda>_. P) E"
  unfolding go_triple_def keeps_def by (fastforce split: prod.splits sum.splits)

lemma triple_result:
  "go_triple P m (\<lambda>_. Q) E \<Longrightarrow> (\<And>s x s'. P s \<Longrightarrow> m s = (Inr x, s') \<Longrightarrow> R x) \<Longrightarrow> go_triple P m (\<lambda>x s. Q s \<and> R x) E"
  unfolding go_triple_def by (fastforce split: prod.splits sum.splits)

lemma triple_pure: "(A \<Longrightarrow> go_triple P m Q E) \<Longrightarrow> go_triple (\<lambda>s. P s \<and> A) m Q E"
  by (auto simp: go_triple_def)

subsection \<open>Computations that leave the store alone\<close>

definition stays :: "('r \<Rightarrow> keyspace) \<Rightarrow> keyspace \<Rightarrow> payment_update list \<Rightarrow> ('r, 'w) pay_state \<Rightarrow> bool" where
  "stays view ks sent st = (view (ps_redis st) = ks \<and> ps_sent st = sent)"

definition quiet :: "('r \<Rightarrow> keyspace) \<Rightarrow> (('r, 'w) pay_state, 'a) go \<Rightarrow> bool" where
  "quiet view m = (\<forall>ks sent. keeps (stays view ks sent) m)"

lemma quietI: "(\<And>ks sent. keeps (stays view ks sent) m) \<Longrightarrow> quiet view m"
  by (simp add: quiet_def)

lemma quietD: "quiet view m \<Longrightarrow> m st = (r, st') \<Longrightarrow> view (ps_redis st') = view (ps_redis st) \<and> ps_sent st' = ps_sent st"
  unfolding quiet_def keeps_def stays_def by (metis snd_conv)

lemma quiet_triple:
  assumes "quiet view m" "\<And>st. P (view (ps_redis st)) (ps_sent st) \<Longrightarrow> E st"
  shows "go_triple (\<lambda>st. P (view (ps_redis st)) (ps_sent st)) m (\<lambda>_ st. P (view (ps_redis st)) (ps_sent st)) E"
  unfolding go_triple_def using quietD [OF assms(1)] assms(2) by (fastforce split: prod.splits sum.splits)

lemma keeps_pay_cmd [inv_intros]: "keeps (stays view ks sent) (pay_cmd p method params)"
  by (auto simp: keeps_def pay_cmd_def stays_def split: prod.splits)

lemma keeps_validRecipient [inv_intros]: "keeps (stays view ks sent) (validRecipient p addr)"
  unfolding validRecipient_def Let_def by (intro inv_intros) (simp add: stays_def)

lemma keeps_settle_workers [inv_intros]: "keeps (stays view ks sent) (settle_workers p withhold ws)"
proof (induction ws)
  case Nil
  show ?case unfolding settle_workers.simps by (intro inv_intros)
next
  case (Cons kw ws)
  obtain k w where kw: "kw = (k, w)" by (cases kw)
  show ?case unfolding kw settle_workers.simps settle_worker_def Let_def by (intro inv_intros Cons)
qed

lemma keeps_classify [inv_intros]: "keeps (stays view ks sent) (classifyBlock p pb)"
  unfolding classifyBlock_def classifyMissingTx_def by (intro inv_intros)

lemma read_only: "touches c = {} \<Longrightarrow> redis_eff hif c ks = ks"
  by (rule ext) simp

context redis_store
begin

lemma keeps_read [inv_intros]: "touches c = {} \<Longrightarrow> keeps (stays view ks sent) (on_db (query rd c f))"
  using do_view read_only by (fastforce simp: keeps_def on_db_def query_def stays_def split: prod.splits)

lemma keeps_db [inv_intros]:
  "keeps (stays view ks sent) (on_db (GetPayoutIntent js rd s))" "keeps (stays view ks sent) (on_db (GetPPSCursor rd s))"
  "keeps (stays view ks sent) (on_db (GetSharesSince rd s cursor))" "keeps (stays view ks sent) (on_db (GetAllMinerBalances rd s))"
  "keeps (stays view ks sent) (on_db (GetAllPendingBlocks rd s))" "keeps (stays view ks sent) (on_db (GetRoundContrib rd s h))"
  "keeps (stays view ks sent) (on_db (GetPPLNSShares rd s seqno window))"
  unfolding GetPayoutIntent_def GetPPSCursor_def GetSharesSince_def GetAllMinerBalances_def GetAllPendingBlocks_def
    GetRoundContrib_def GetPPLNSShares_def by (rule keeps_read; simp)+

lemma keeps_attribute [inv_intros]: "pm_redis p = rd \<Longrightarrow> keeps (stays view ks sent) (attribute p pb r)"
  unfolding attribute_def by (intro inv_intros | simp add: keeps_db keeps_basic)+

lemma keeps_split [inv_intros]: "pm_redis p = rd \<Longrightarrow> keeps (stays view ks sent) (split_blocks p ws u matured pbs)"
  by (induction pbs arbitrary: ws u matured; unfold split_blocks.simps) (intro inv_intros; assumption)+

lemma keeps_confirm [inv_intros]: "keeps (stays view ks sent) (confirm_blocks p u pbs)"
  by (induction pbs arbitrary: u; unfold confirm_blocks.simps) (intro inv_intros; assumption)+

end

subsection \<open>What a payout does to the pending set\<close>

definition pend :: "db \<Rightarrow> keyspace \<Rightarrow> string list" where
  "pend s ks = (case ks (key_pending s) of Members ms \<Rightarrow> ms | _ \<Rightarrow> [])"

definition intent :: "db \<Rightarrow> keyspace \<Rightarrow> (string \<times> string) list" where
  "intent s ks = hash_of (ks (key_intent s))"

definition shrinks :: "db \<Rightarrow> string set \<Rightarrow> keyspace \<Rightarrow> bool" where
  "shrinks s A ks = (typed s ks \<and> distinct (pend s ks) \<and> set (pend s ks) \<subseteq> A)"

lemma pend_cong: "ks' (key_pending s) = ks (key_pending s) \<Longrightarrow> pend s ks' = pend s ks"
  by (simp add: pend_def)

lemma intent_cong: "ks' (key_intent s) = ks (key_intent s) \<Longrightarrow> intent s ks' = intent s ks"
  by (simp add: intent_def)

lemma typed_sets:
  assumes "typed s ks"
  shows "of_kind KSet (ks (key_pending s))" "of_kind KSet (ks (key_confirmed s))" "of_kind KSet (ks (key_orphaned s))"
  by (rule typedD [OF assms], rule key_kind.intros)+

lemma move_pending:
  assumes "typed s ks" "distinct (pend s ks)" "dst = key_confirmed s \<or> dst = key_orphaned s"
  shows "pend s (redis_eff hif (SMove (key_pending s) dst b) ks) = remove1 b (pend s ks)"
proof -
  have ne: "key_confirmed s \<noteq> key_pending s" "key_orphaned s \<noteq> key_pending s" by (simp_all add: key_defs)
  show ?thesis
    using typed_sets [OF assms(1)] assms(2,3) ne
    by (auto simp: pend_def redis_eff_def remove1_idem split: rvalue.splits)
qed

lemma payment_cmds_shrink:
  assumes "c \<in> set (payment_cmds s u)" "shrinks s A ks"
  shows "shrinks s A (redis_eff hif c ks)"
proof -
  have t: "typed s (redis_eff hif c ks)"
    using assms payment_cmds_typed [of s u] eff_typed by (auto simp: list_all_iff shrinks_def)
  consider b dst where "c = SMove (key_pending s) dst b" "dst = key_confirmed s \<or> dst = key_orphaned s"
    | "key_pending s \<notin> touches c"
    using assms(1) unfolding payment_cmds_def by (auto simp: key_defs split: if_splits)
  then show ?thesis
  proof cases
    case 1
    then show ?thesis
      using assms(2) t move_pending [of s ks dst hif b] notin_set_remove1 by (auto simp: shrinks_def dest: set_remove1_subset [THEN subsetD])
  next
    case 2
    then show ?thesis using assms(2) t pend_cong [of "redis_eff hif c ks" s ks] by (simp add: shrinks_def)
  qed
qed

lemma payment_run:
  assumes "shrinks s A ks"
  shows "shrinks s A (redis_run hif (payment_cmds s u) ks)"
    "b \<in> set (pu_Confirmed u) \<Longrightarrow> b \<notin> set (pend s (redis_run hif (payment_cmds s u) ks))"
    "intent s (redis_run hif (payment_cmds s u) ks) = []"
proof -
  have keep: "shrinks s B (redis_run hif cs ks')" if "shrinks s B ks'" "set cs \<subseteq> set (payment_cmds s u)" for B cs ks'
    using that payment_cmds_shrink by (intro redis_run_keeps [where P = "shrinks s B"]) auto
  show "shrinks s A (redis_run hif (payment_cmds s u) ks)" using keep assms by simp
  show "intent s (redis_run hif (payment_cmds s u) ks) = []"
    unfolding payment_cmds_def append_assoc [symmetric] redis_run_append
    by (simp add: intent_def hash_of_def redis_eff_def)
  assume "b \<in> set (pu_Confirmed u)"
  then have "SMove (key_pending s) (key_confirmed s) b \<in> set (payment_cmds s u)" by (simp add: payment_cmds_def)
  then obtain xs ys where cs: "payment_cmds s u = xs @ SMove (key_pending s) (key_confirmed s) b # ys"
    by (meson split_list)
  define k1 where "k1 = redis_run hif xs ks"
  define k2 where "k2 = redis_eff hif (SMove (key_pending s) (key_confirmed s) b) k1"
  have s1: "shrinks s A k1" unfolding k1_def using keep [OF assms, of xs] cs by auto
  then have "pend s k2 = remove1 b (pend s k1)"
    unfolding k2_def by (intro move_pending) (auto simp: shrinks_def)
  moreover have "shrinks s A k2" unfolding k2_def using s1 cs by (intro payment_cmds_shrink [of _ s u]) auto
  ultimately have "shrinks s (- {b}) k2" using s1 by (auto simp: shrinks_def)
  then have "shrinks s (- {b}) (redis_run hif ys k2)" using keep [of _ k2 ys] cs by auto
  then show "b \<notin> set (pend s (redis_run hif (payment_cmds s u) ks))"
    by (auto simp: cs k1_def k2_def shrinks_def)
qed

subsection \<open>The invariant\<close>

text \<open>
  A stored block is good when reading it back gives its own string and its text survives the
  JSON encoding; \<open>utf8\<close> stands for the strings that do (valid UTF-8).
\<close>

definition good_block :: "(string \<Rightarrow> bool) \<Rightarrow> string \<Rightarrow> bool" where
  "good_block utf8 b = (utf8 b \<and> (\<exists>pb. NewPendingBlockFromString b = Inr pb \<and> PendingBlockString pb = b))"

definition codec_ok :: "(string \<Rightarrow> bool) \<Rightarrow> update_codec \<Rightarrow> bool" where
  "codec_ok utf8 js = (\<forall>u t u'. list_all utf8 (pu_Confirmed u) \<longrightarrow> uc_Marshal js u = Some t \<longrightarrow>
     uc_Unmarshal js t = Some u' \<longrightarrow> pu_Confirmed u' = pu_Confirmed u)"

definition paid_blocks :: "payment_update list \<Rightarrow> string list" where
  "paid_blocks sent = concat (map pu_Confirmed sent)"

definition base_ok :: "(string \<Rightarrow> bool) \<Rightarrow> db \<Rightarrow> keyspace \<Rightarrow> payment_update list \<Rightarrow> bool" where
  "base_ok utf8 s ks sent = (typed s ks \<and> distinct (paid_blocks sent) \<and> distinct (pend s ks) \<and> (\<forall>b\<in>set (pend s ks). good_block utf8 b))"

definition paid_within :: "db \<Rightarrow> string set \<Rightarrow> keyspace \<Rightarrow> payment_update list \<Rightarrow> bool" where
  "paid_within s B ks sent = (set (paid_blocks sent) \<inter> set (pend s ks) \<subseteq> B)"

definition pay_inv :: "(string \<Rightarrow> bool) \<Rightarrow> update_codec \<Rightarrow> db \<Rightarrow> keyspace \<Rightarrow> payment_update list \<Rightarrow> bool" where
  "pay_inv utf8 js s ks sent =
     (base_ok utf8 s ks sent \<and>
      (if intent s ks = [] then paid_within s {} ks sent
       else \<forall>u. uc_Unmarshal js (map_text (intent s ks) ''update'') = Some u \<longrightarrow> paid_within s (set (pu_Confirmed u)) ks sent))"

lemma clean_inv: "base_ok utf8 s ks sent \<Longrightarrow> paid_within s {} ks sent \<Longrightarrow> pay_inv utf8 js s ks sent"
  by (auto simp: pay_inv_def paid_within_def)

lemma base_ok_cong:
  "base_ok utf8 s ks sent \<Longrightarrow> typed s ks' \<Longrightarrow> ks' (key_pending s) = ks (key_pending s) \<Longrightarrow> base_ok utf8 s ks' sent"
  using pend_cong [of ks' s ks] by (simp add: base_ok_def)

lemma paid_within_cong: "paid_within s B ks sent \<Longrightarrow> ks' (key_pending s) = ks (key_pending s) \<Longrightarrow> paid_within s B ks' sent"
  using pend_cong [of ks' s ks] by (simp add: paid_within_def)

lemma applied_clean:
  assumes "base_ok utf8 s ks sent" "paid_within s (set (pu_Confirmed u)) ks sent"
  shows "base_ok utf8 s (redis_run hif (payment_cmds s u) ks) sent" "paid_within s {} (redis_run hif (payment_cmds s u) ks) sent"
    "intent s (redis_run hif (payment_cmds s u) ks) = []"
proof -
  have "shrinks s (set (pend s ks)) ks" using assms(1) by (simp add: shrinks_def base_ok_def)
  note r = payment_run [OF this, where hif = hif and u = u]
  show "base_ok utf8 s (redis_run hif (payment_cmds s u) ks) sent"
    using r(1) assms(1) by (auto simp: shrinks_def base_ok_def)
  show "paid_within s {} (redis_run hif (payment_cmds s u) ks) sent"
    using r(1,2) assms(2) by (fastforce simp: shrinks_def paid_within_def)
  show "intent s (redis_run hif (payment_cmds s u) ks) = []" by (rule r(3))
qed

subsection \<open>The operations\<close>

abbreviation on_view :: "('r \<Rightarrow> keyspace) \<Rightarrow> (keyspace \<Rightarrow> payment_update list \<Rightarrow> bool) \<Rightarrow> ('r, 'w) pay_state \<Rightarrow> bool" where
  "on_view view P st \<equiv> P (view (ps_redis st)) (ps_sent st)"

lemma map_put_nonempty [simp]: "map_put k v m \<noteq> []"
  by (induction k v m rule: map_put.induct) auto

lemma eff_put_intent:
  assumes "typed s ks"
  shows "map_text (intent s (redis_eff hif (HSet (key_intent s) [(''update'', t), (''txid'', x)]) ks)) ''update'' = t"
    "intent s (redis_eff hif (HSet (key_intent s) [(''update'', t), (''txid'', x)]) ks) \<noteq> []"
proof -
  have k: "of_kind KHash (ks (key_intent s))" by (rule typedD [OF assms], rule key_kind.intros)
  then have h: "redis_eff hif (HSet (key_intent s) [(''update'', t), (''txid'', x)]) ks (key_intent s) =
      Fields (map_put ''txid'' x (map_put ''update'' t (hash_of (ks (key_intent s)))))"
    by (auto simp: redis_eff_def fields_put_def hash_of_def split: rvalue.splits)
  then show "map_text (intent s (redis_eff hif (HSet (key_intent s) [(''update'', t), (''txid'', x)]) ks)) ''update'' = t"
    by (simp add: intent_def hash_of_def map_text_def)
  from h show "intent s (redis_eff hif (HSet (key_intent s) [(''update'', t), (''txid'', x)]) ks) \<noteq> []"
    by (simp add: intent_def hash_of_def)
qed

lemma eff_set_txid:
  assumes "typed s ks" "intent s ks \<noteq> []"
  shows "map_text (intent s (redis_eff hif (HSet (key_intent s) [(''txid'', x)]) ks)) ''update'' = map_text (intent s ks) ''update''"
    "intent s (redis_eff hif (HSet (key_intent s) [(''txid'', x)]) ks) \<noteq> []"
proof -
  from assms(2) show "map_text (intent s (redis_eff hif (HSet (key_intent s) [(''txid'', x)]) ks)) ''update'' = map_text (intent s ks) ''update''"
    "intent s (redis_eff hif (HSet (key_intent s) [(''txid'', x)]) ks) \<noteq> []"
    by (auto simp: intent_def hash_of_def redis_eff_def fields_put_def map_text_def split: rvalue.splits)
qed

lemma intent_cmds:
  "typed_cmd s (HSet (key_intent s) kvs)" "typed_cmd s (Del (key_intent s))"
  "key_pending s \<noteq> key_intent s"
proof -
  show "typed_cmd s (HSet (key_intent s) kvs)" "typed_cmd s (Del (key_intent s))"
    by (simp_all add: typed_cmd_def key_kind.intros)
qed (simp add: key_defs)

text \<open>Before a broadcast: nothing that was paid is pending, and the blocks to confirm are pending.\<close>

definition ready :: "(string \<Rightarrow> bool) \<Rightarrow> db \<Rightarrow> string list \<Rightarrow> keyspace \<Rightarrow> payment_update list \<Rightarrow> bool" where
  "ready utf8 s cf ks sent = (base_ok utf8 s ks sent \<and> paid_within s {} ks sent \<and> distinct cf \<and> set cf \<subseteq> set (pend s ks))"

text \<open>With the intent of this broadcast stored.\<close>

definition armed :: "(string \<Rightarrow> bool) \<Rightarrow> update_codec \<Rightarrow> db \<Rightarrow> string list \<Rightarrow> keyspace \<Rightarrow> payment_update list \<Rightarrow> bool" where
  "armed utf8 js s cf ks sent =
     (base_ok utf8 s ks sent \<and> paid_within s (set cf) ks sent \<and> intent s ks \<noteq> [] \<and>
      (\<forall>u. uc_Unmarshal js (map_text (intent s ks) ''update'') = Some u \<longrightarrow> pu_Confirmed u = cf))"

lemma armed_inv: "armed utf8 js s cf ks sent \<Longrightarrow> pay_inv utf8 js s ks sent \<and> paid_within s (set cf) ks sent"
  by (auto simp: armed_def pay_inv_def)

lemma ready_inv: "ready utf8 s cf ks sent \<Longrightarrow> pay_inv utf8 js s ks sent"
  by (auto simp: ready_def intro: clean_inv)

lemma ready_cong:
  "ready utf8 s cf ks sent \<Longrightarrow> typed s ks' \<Longrightarrow> ks' (key_pending s) = ks (key_pending s) \<Longrightarrow> ready utf8 s cf ks' sent"
  unfolding ready_def using base_ok_cong paid_within_cong pend_cong by metis

lemma ready_send:
  assumes "ready utf8 s (pu_Confirmed u) ks sent" "armed utf8 js s (pu_Confirmed u) ks sent"
  shows "armed utf8 js s (pu_Confirmed u) ks (sent @ [u])"
  using assms by (auto simp: ready_def armed_def base_ok_def paid_within_def paid_blocks_def)

context redis_store
begin

lemma db_step:
  assumes "typed s (view r)" "typed_cmd s c" "key_pending s \<notin> touches c" "rd_do rd c r = (rep, r')"
  shows "typed s (view r')" "view r' (key_pending s) = view r (key_pending s)"
  using do_typed [OF assms(1,2,4)] do_view [OF assms(4)] assms(3) by auto

lemma triple_put_intent:
  assumes "codec_ok utf8 js" "pu_Confirmed u = cf"
  shows "go_triple (on_view view (ready utf8 s cf)) (on_db (PutPayoutIntent js rd s u))
    (\<lambda>_. on_view view (\<lambda>ks sent. ready utf8 s cf ks sent \<and> armed utf8 js s cf ks sent)) (on_view view (ready utf8 s cf))"
  unfolding go_triple_def
proof (intro allI impI)
  fix st :: "('r, 'w) pay_state"
  assume st: "on_view view (ready utf8 s cf) st"
  show "case on_db (PutPayoutIntent js rd s u) st of
      (Inl e, s') \<Rightarrow> on_view view (ready utf8 s cf) s'
    | (Inr x, s') \<Rightarrow> on_view view (\<lambda>ks sent. ready utf8 s cf ks sent \<and> armed utf8 js s cf ks sent) s'"
  proof (cases "uc_Marshal js u")
    case None
    then show ?thesis using st by (simp add: on_db_def PutPayoutIntent_def)
  next
    case (Some t)
    define c where "c = HSet (key_intent s) [(''update'', t), (''txid'', '''')]"
    obtain rep r' where d: "rd_do rd c (ps_redis st) = (rep, r')" by fastforce
    have ty: "typed s (view (ps_redis st))" using st by (simp add: ready_def base_ok_def)
    have n: "typed s (view r')" "view r' (key_pending s) = view (ps_redis st) (key_pending s)"
      using db_step [OF ty _ _ d] by (simp_all add: c_def intent_cmds)
    have rd': "ready utf8 s cf (view r') (ps_sent st)" by (rule ready_cong [OF st n])
    have "armed utf8 js s cf (view r') (ps_sent st)" if "rep \<noteq> RErr"
    proof -
      have v: "view r' = redis_eff hif c (view (ps_redis st))"
        using do_reply [OF d that] by (simp add: redis_eff_def)
      have "list_all utf8 cf" using st by (auto simp: ready_def base_ok_def good_block_def list_all_iff)
      then have "\<forall>u'. uc_Unmarshal js t = Some u' \<longrightarrow> pu_Confirmed u' = cf"
        using assms Some unfolding codec_ok_def by metis
      then show ?thesis
        using rd' eff_put_intent [OF ty, of hif t "''''"]
        by (auto simp: armed_def ready_def v c_def paid_within_def)
    qed
    then show ?thesis
      using rd' d by (auto simp: on_db_def PutPayoutIntent_def query_def Some c_def [symmetric] as_err_def redis_error_def)
  qed
qed

lemma triple_set_txid:
  "go_triple (on_view view (armed utf8 js s cf)) (on_db (SetPayoutIntentTxid rd s txid))
    (\<lambda>_. on_view view (armed utf8 js s cf)) (on_view view (armed utf8 js s cf))"
  unfolding go_triple_def
proof (intro allI impI)
  fix st :: "('r, 'w) pay_state"
  assume st: "on_view view (armed utf8 js s cf) st"
  obtain rep r' where d: "rd_do rd (HSet (key_intent s) [(''txid'', txid)]) (ps_redis st) = (rep, r')" by fastforce
  have ty: "typed s (view (ps_redis st))" using st by (simp add: armed_def base_ok_def)
  have n: "typed s (view r')" "view r' (key_pending s) = view (ps_redis st) (key_pending s)"
    using db_step [OF ty _ _ d] by (simp_all add: intent_cmds)
  have "intent s (view r') \<noteq> [] \<and> map_text (intent s (view r')) ''update'' = map_text (intent s (view (ps_redis st))) ''update''"
    using do_view [OF d] eff_set_txid [OF ty, of hif txid] st by (auto simp: armed_def)
  then have "armed utf8 js s cf (view r') (ps_sent st)"
    using st n base_ok_cong [of utf8 s "view (ps_redis st)" "ps_sent st" "view r'"]
      paid_within_cong [of s "set cf" "view (ps_redis st)" "ps_sent st" "view r'"] by (auto simp: armed_def)
  then show "case on_db (SetPayoutIntentTxid rd s txid) st of
      (Inl e, s') \<Rightarrow> on_view view (armed utf8 js s cf) s' | (Inr x, s') \<Rightarrow> on_view view (armed utf8 js s cf) s'"
    using d by (auto simp: on_db_def SetPayoutIntentTxid_def query_def split: sum.splits)
qed

lemma keeps_del_intent: "keeps (on_view view (ready utf8 s cf)) (go_ignore (on_db (DelPayoutIntent rd s)))"
  unfolding keeps_def
proof (intro allI impI)
  fix st :: "('r, 'w) pay_state"
  assume st: "on_view view (ready utf8 s cf) st"
  obtain rep r' where d: "rd_do rd (Del (key_intent s)) (ps_redis st) = (rep, r')" by fastforce
  have "typed s (view (ps_redis st))" using st by (simp add: ready_def base_ok_def)
  from db_step [OF this _ _ d] st show "on_view view (ready utf8 s cf) (snd (go_ignore (on_db (DelPayoutIntent rd s)) st))"
    by (simp add: intent_cmds go_ignore_def on_db_def DelPayoutIntent_def query_def d) (rule ready_cong)
qed

lemma triple_apply:
  "go_triple (on_view view (\<lambda>ks sent. pay_inv utf8 js s ks sent \<and> paid_within s (set (pu_Confirmed u)) ks sent))
    (on_db (ApplyPayments rd s u))
    (\<lambda>_. on_view view (ready utf8 s [])) (on_view view (pay_inv utf8 js s))"
  unfolding go_triple_def
proof (intro allI impI)
  fix st :: "('r, 'w) pay_state"
  assume st: "on_view view (\<lambda>ks sent. pay_inv utf8 js s ks sent \<and> paid_within s (set (pu_Confirmed u)) ks sent) st"
  obtain ok r' where d: "rd_tx rd (payment_cmds s u) (ps_redis st) = (ok, r')" by fastforce
  note a = applied_clean [of utf8 s "view (ps_redis st)" "ps_sent st" u, where hif = hif]
  have "ready utf8 s [] (view r') (ps_sent st)" if "ok"
    using a st tx_ok [of "payment_cmds s u"] d that by (auto simp: ready_def pay_inv_def)
  moreover have "pay_inv utf8 js s (view r') (ps_sent st)"
    using a st tx_view [OF d] clean_inv by (auto simp: pay_inv_def)
  ultimately show "case on_db (ApplyPayments rd s u) st of
      (Inl e, s') \<Rightarrow> on_view view (pay_inv utf8 js s) s' | (Inr x, s') \<Rightarrow> on_view view (ready utf8 s []) s'"
    using d by (auto simp: on_db_def ApplyPayments_def redis_error_def)
qed

end

subsection \<open>Runs\<close>

lemma fill_update_keeps [simp]:
  "pu_Confirmed (fill_update p ws u) = pu_Confirmed u"
proof -
  have "pu_Confirmed (foldl (\<lambda>u (_, w). fill_worker p u w) u ws) = pu_Confirmed u"
    by (induction ws arbitrary: u) (auto simp: fill_worker_def)
  then show ?thesis by (simp add: fill_update_def)
qed

definition settled :: "(string \<Rightarrow> bool) \<Rightarrow> update_codec \<Rightarrow> db \<Rightarrow> string list \<Rightarrow> keyspace \<Rightarrow> payment_update list \<Rightarrow> bool" where
  "settled utf8 js s cf ks sent = (pay_inv utf8 js s ks sent \<and> paid_within s (set cf) ks sent)"

lemma ready_settled: "ready utf8 s cf ks sent \<Longrightarrow> settled utf8 js s cf ks sent"
  by (auto simp: settled_def ready_inv ready_def paid_within_def)

context redis_store
begin

lemma triple_rejected:
  "go_triple (on_view view (ready utf8 s cf)) (go_seq (go_ignore (on_db (DelPayoutIntent rd s))) (go_fail e)) Q (on_view view (pay_inv utf8 js s))"
  by (rule triple_seq, rule triple_keeps [OF keeps_del_intent]) (auto intro: ready_inv triple_fail)

lemma triple_settle:
  fixes p :: "('r, 'w) payer"
  assumes "codec_ok utf8 js" "pm_redis p = rd" "pm_json p = js" "pm_db p = s"
  shows "pu_Confirmed upd = cf \<Longrightarrow> go_triple (on_view view (ready utf8 s cf)) (settle fuel p ws upd withhold)
    (\<lambda>upd' st. on_view view (settled utf8 js s cf) st \<and> pu_Confirmed upd' = cf) (on_view view (pay_inv utf8 js s))"
proof (induction fuel arbitrary: ws upd withhold)
  case 0
  then show ?case unfolding settle.simps by (rule_tac triple_fail) (rule ready_inv)
next
  case (Suc fuel)
  let ?RA = "\<lambda>ks sent. ready utf8 s cf ks sent \<and> armed utf8 js s cf ks sent"
  have sent: "go_triple (on_view view ?RA) (go_modify (record_sent u)) (\<lambda>_. on_view view (armed utf8 js s cf)) E"
    if "pu_Confirmed u = cf" for u E
    using that ready_send by (intro triple_modify) (auto simp: record_sent_def)
  have next_step: "go_triple (on_view view ?RA) (settle fuel p ws u w)
      (\<lambda>upd' st. on_view view (settled utf8 js s cf) st \<and> pu_Confirmed upd' = cf) (on_view view (pay_inv utf8 js s))"
    if "pu_Confirmed u = cf" for u w ws
    by (rule triple_weaken [OF Suc.IH [OF that]]) auto
  have rejected: "go_triple (on_view view ?RA) (go_seq (go_ignore (on_db (DelPayoutIntent rd s))) (go_fail e)) Q (on_view view (pay_inv utf8 js s))"
    for e and Q :: "payment_update \<Rightarrow> ('r, 'w) pay_state \<Rightarrow> bool"
    by (rule triple_weaken [OF triple_rejected]) auto
  have out: "go_triple (on_view view ?RA) (go_seq (go_modify (record_sent u)) (go_fail e)) Q (on_view view (pay_inv utf8 js s))"
    if "pu_Confirmed u = cf" for u e and Q :: "payment_update \<Rightarrow> ('r, 'w) pay_state \<Rightarrow> bool"
    using that armed_inv by (intro triple_seq [OF sent] triple_fail) auto
  have accepted: "go_triple (on_view view ?RA)
      (go_seq (go_modify (record_sent u)) (go_seq (on_db (SetPayoutIntentTxid rd s t)) (go_return u)))
      (\<lambda>upd' st. on_view view (settled utf8 js s cf) st \<and> pu_Confirmed upd' = cf) (on_view view (pay_inv utf8 js s))"
    if "pu_Confirmed u = cf" for u t
    using that armed_inv
    by (intro triple_seq [OF sent] triple_seq [OF triple_weaken [OF triple_set_txid]] triple_return)
      (auto simp: settled_def)
  have broadcast: "go_triple (on_view view ?RA) (pay_cmd p m args) (\<lambda>_. on_view view ?RA) (on_view view (pay_inv utf8 js s))" for m args
    using ready_inv by (intro quiet_triple quietI keeps_pay_cmd) auto
  have workers: "go_triple (on_view view (ready utf8 s cf)) (settle_workers p w ws) (\<lambda>_. on_view view (ready utf8 s cf)) (on_view view (pay_inv utf8 js s))" for w ws
    using ready_inv by (intro quiet_triple quietI inv_intros) auto
  have put: "go_triple (on_view view (ready utf8 s cf)) (on_db (PutPayoutIntent js rd s u)) (\<lambda>_. on_view view ?RA) (on_view view (pay_inv utf8 js s))"
    if "pu_Confirmed u = cf" for u
    by (rule triple_weaken [OF triple_put_intent [OF assms(1) that]]) (auto intro: ready_inv)
  show ?case
    unfolding settle.simps Let_def assms(2-4)
    by (intro triple_bind [OF workers] triple_if triple_seq [OF put] triple_bind [OF broadcast] triple_option
        out rejected accepted next_step triple_return) (use Suc.prems ready_settled in auto)
qed

lemma triple_get_intent:
  "go_triple (on_view view (pay_inv utf8 js s)) (on_db (GetPayoutIntent js rd s))
    (\<lambda>i. on_view view (\<lambda>ks sent. pay_inv utf8 js s ks sent \<and>
       (case i of None \<Rightarrow> intent s ks = [] | Some (u, _) \<Rightarrow> intent s ks \<noteq> [] \<and> uc_Unmarshal js (map_text (intent s ks) ''update'') = Some u)))
    (on_view view (pay_inv utf8 js s))"
  unfolding go_triple_def
proof (intro allI impI)
  fix st :: "('r, 'w) pay_state"
  assume st: "on_view view (pay_inv utf8 js s) st"
  obtain rep r' where d: "rd_do rd (HGetAll (key_intent s)) (ps_redis st) = (rep, r')" by fastforce
  have v: "view r' = view (ps_redis st)" using do_view [OF d] read_only [of "HGetAll (key_intent s)" hif] by simp
  have "m = intent s (view (ps_redis st))" if "rep = RMap m" for m
    using do_reply [OF d] that by (auto simp: intent_def hash_of_def split: rvalue.splits)
  then show "case on_db (GetPayoutIntent js rd s) st of
      (Inl e, s') \<Rightarrow> on_view view (pay_inv utf8 js s) s'
    | (Inr i, s') \<Rightarrow> on_view view (\<lambda>ks sent. pay_inv utf8 js s ks sent \<and>
       (case i of None \<Rightarrow> intent s ks = [] | Some (u, _) \<Rightarrow> intent s ks \<noteq> [] \<and> uc_Unmarshal js (map_text (intent s ks) ''update'') = Some u)) s'"
    using st d v
    by (auto simp: on_db_def GetPayoutIntent_def query_def intent_of_def as_map_def redis_error_def
        split: redis_reply.splits option.splits)
qed

lemma triple_reconcile:
  assumes "pm_redis p = rd" "pm_json p = js" "pm_db p = s"
  shows "go_triple (on_view view (pay_inv utf8 js s)) (reconcile p) (\<lambda>_. on_view view (ready utf8 s [])) (on_view view (pay_inv utf8 js s))"
  unfolding reconcile_def assms
proof (rule triple_bind [OF triple_get_intent])
  fix i
  show "go_triple (on_view view (\<lambda>ks sent. pay_inv utf8 js s ks sent \<and>
       (case i of None \<Rightarrow> intent s ks = [] | Some (u, _) \<Rightarrow> intent s ks \<noteq> [] \<and> uc_Unmarshal js (map_text (intent s ks) ''update'') = Some u)))
     (case i of None \<Rightarrow> go_return ()
      | Some (upd, txid) \<Rightarrow> if txid \<noteq> '''' then on_db (ApplyPayments rd s upd)
          else go_fail (Err ''in-flight payout intent has no txid; a sendmany may have broadcast''))
     (\<lambda>_. on_view view (ready utf8 s [])) (on_view view (pay_inv utf8 js s))"
  proof (cases i)
    case None
    then show ?thesis by (auto intro!: triple_return simp: pay_inv_def ready_def)
  next
    case (Some ut)
    obtain u t where ut: "ut = (u, t)" by (cases ut)
    show ?thesis
      unfolding Some ut option.case prod.case
      by (intro triple_if triple_weaken [OF triple_apply] triple_fail) (auto simp: pay_inv_def)
  qed
qed

end

lemma parse_good:
  "\<forall>b\<in>set bs. good_block utf8 b \<Longrightarrow> parse_blocks bs = Inr pbs \<Longrightarrow> map PendingBlockString pbs = bs"
  by (induction bs arbitrary: pbs) (fastforce simp: res_simps good_block_def)+

lemma split_result:
  "split_blocks p ws u matured pbs st = (Inr (ws', u', mat), st') \<Longrightarrow>
   \<exists>sub. mat = matured @ sub \<and> subseq sub pbs \<and> pu_Confirmed u' = pu_Confirmed u"
proof (induction pbs arbitrary: ws u matured st)
  case (Cons pb pbs)
  have ih: "\<exists>sub. mat = matured @ sub \<and> subseq sub (pb # pbs) \<and> pu_Confirmed u' = pu_Confirmed u"
    if "split_blocks p ws1 u1 m1 pbs st1 = (Inr (ws', u', mat), st')" "pu_Confirmed u1 = pu_Confirmed u"
       "m1 = matured \<or> m1 = matured @ [pb]" for ws1 u1 m1 st1
    using Cons.IH [OF that(1)] that(2,3) by auto
  obtain c st1 where c: "classifyBlock p pb st = (Inr c, st1)"
    and rest: "(case c of None \<Rightarrow> split_blocks p ws u matured pbs
       | Some (reward, category, confirmations) \<Rightarrow>
           if is_orphan category then split_blocks p ws (add_orphan pb u) matured pbs
           else if confirmations < po_MinConfirmations (pm_options p) then split_blocks p ws u matured pbs
           else go_bind (attribute p pb (CoinToSat p reward)) (\<lambda>credits.
               if credits = [] then split_blocks p ws (add_orphan pb u) matured pbs
               else split_blocks p (add_rewards credits ws) u (matured @ [pb]) pbs)) st1 = (Inr (ws', u', mat), st')"
    using Cons.prems unfolding split_blocks.simps go_bind_eq_ok by blast
  have orphan: "pu_Confirmed (add_orphan pb u) = pu_Confirmed u" by (simp add: add_orphan_def)
  show ?case
  proof (cases c)
    case None
    then show ?thesis using ih rest by simp
  next
    case (Some rcc)
    obtain reward category confirmations where rcc: "rcc = (reward, category, confirmations)" by (cases rcc)
    show ?thesis
    proof (cases "is_orphan category \<or> confirmations < po_MinConfirmations (pm_options p)")
      case True
      then show ?thesis using ih orphan rest by (auto simp: Some rcc split: if_splits)
    next
      case False
      then obtain credits st2 where
        "(if credits = [] then split_blocks p ws (add_orphan pb u) matured pbs
          else split_blocks p (add_rewards credits ws) u (matured @ [pb]) pbs) st2 = (Inr (ws', u', mat), st')"
        using rest by (auto simp: Some rcc go_bind_eq_ok)
      then show ?thesis using ih orphan by (auto split: if_splits)
    qed
  qed
qed simp

lemma confirm_result:
  "confirm_blocks p u pbs st = (Inr u', st') \<Longrightarrow>
   \<exists>sub. pu_Confirmed u' = pu_Confirmed u @ map PendingBlockString sub \<and> subseq sub pbs"
proof (induction pbs arbitrary: u st)
  case (Cons pb pbs)
  have ih: "\<exists>sub. pu_Confirmed u' = pu_Confirmed u @ map PendingBlockString sub \<and> subseq sub (pb # pbs)"
    if u1: "confirm_blocks p u1 pbs st1 = (Inr u', st')"
       and u2: "pu_Confirmed u1 = pu_Confirmed u \<or> pu_Confirmed u1 = pu_Confirmed u @ [PendingBlockString pb]" for u1 st1
  proof -
    obtain sub where "pu_Confirmed u' = pu_Confirmed u1 @ map PendingBlockString sub" "subseq sub pbs"
      using Cons.IH u1 by blast
    then show ?thesis using u2 by (auto intro: exI [of _ sub] exI [of _ "pb # sub"])
  qed
  obtain c st1 where c: "classifyBlock p pb st = (Inr c, st1)"
    and rest: "(case c of None \<Rightarrow> confirm_blocks p u pbs
       | Some (reward, category, confirmations) \<Rightarrow>
           if is_orphan category then confirm_blocks p (add_orphan pb u) pbs
           else if confirmations < po_MinConfirmations (pm_options p) then confirm_blocks p u pbs
           else confirm_blocks p (add_confirmed pb u) pbs) st1 = (Inr u', st')"
    using Cons.prems unfolding confirm_blocks.simps go_bind_eq_ok by blast
  have "pu_Confirmed (add_orphan pb u) = pu_Confirmed u" "pu_Confirmed (add_confirmed pb u) = pu_Confirmed u @ [PendingBlockString pb]"
    by (simp_all add: add_orphan_def add_confirmed_def)
  then show ?case using ih rest by (auto split: option.splits if_splits prod.splits)
qed simp

lemma distinct_subseq: "subseq xs ys \<Longrightarrow> distinct ys \<Longrightarrow> distinct xs \<and> set xs \<subseteq> set ys"
  by (induction rule: list_emb.induct) auto

lemma ready_sub:
  assumes "ready utf8 s [] ks sent" "map PendingBlockString pbs = pend s ks" "subseq sub pbs"
  shows "ready utf8 s (map PendingBlockString sub) ks sent"
proof -
  have "subseq (map PendingBlockString sub) (pend s ks)" using assms(2,3) by (metis subseq_map)
  moreover have "distinct (pend s ks)" using assms(1) by (simp add: ready_def base_ok_def)
  ultimately show ?thesis using assms(1) distinct_subseq by (fastforce simp: ready_def)
qed

lemma foldl_confirmed: "pu_Confirmed (foldl (\<lambda>u pb. add_confirmed pb u) u mat) = pu_Confirmed u @ map PendingBlockString mat"
  by (induction mat arbitrary: u) (simp_all add: add_confirmed_def)

context redis_store
begin

abbreviation listed :: "(string \<Rightarrow> bool) \<Rightarrow> db \<Rightarrow> pending_block list \<Rightarrow> ('r, 'w) pay_state \<Rightarrow> bool" where
  "listed utf8 s pbs \<equiv> on_view view (\<lambda>ks sent. ready utf8 s [] ks sent \<and> map PendingBlockString pbs = pend s ks)"

lemma triple_get_blocks:
  "go_triple (on_view view (ready utf8 s [])) (on_db (GetAllPendingBlocks rd s)) (\<lambda>pbs. listed utf8 s pbs) (on_view view (pay_inv utf8 js s))"
  unfolding go_triple_def
proof (intro allI impI)
  fix st :: "('r, 'w) pay_state"
  assume st: "on_view view (ready utf8 s []) st"
  obtain rep r' where d: "rd_do rd (SMembers (key_pending s)) (ps_redis st) = (rep, r')" by fastforce
  have v: "view r' = view (ps_redis st)" using do_view [OF d] read_only [of "SMembers (key_pending s)" hif] by simp
  have "bs = pend s (view (ps_redis st))" if "rep = RList bs" for bs
    using do_reply [OF d] that by (auto simp: pend_def split: rvalue.splits)
  moreover have "\<forall>b\<in>set (pend s (view (ps_redis st))). good_block utf8 b" using st by (simp add: ready_def base_ok_def)
  ultimately have "map PendingBlockString pbs = pend s (view (ps_redis st))"
    if "rep = RList bs" "parse_blocks bs = Inr pbs" for bs pbs
    using that parse_good by blast
  then show "case on_db (GetAllPendingBlocks rd s) st of
      (Inl e, s') \<Rightarrow> on_view view (pay_inv utf8 js s) s' | (Inr pbs, s') \<Rightarrow> listed utf8 s pbs s'"
    using st d v ready_inv
    by (auto simp: on_db_def GetAllPendingBlocks_def query_def as_list_def redis_error_def rbind_def
        split: redis_reply.splits sum.splits)
qed

lemma triple_quiet_listed:
  "quiet view m \<Longrightarrow> go_triple (listed utf8 s pbs) m (\<lambda>_. listed utf8 s pbs) (on_view view (pay_inv utf8 js s))"
  using ready_inv by (intro quiet_triple) auto

lemma triple_quiet_ready:
  "quiet view m \<Longrightarrow> go_triple (on_view view (ready utf8 s cf)) m (\<lambda>_. on_view view (ready utf8 s cf)) (on_view view (pay_inv utf8 js s))"
  using ready_inv by (intro quiet_triple) auto

lemma triple_split:
  assumes "pm_redis p = rd"
  shows "go_triple (listed utf8 s pbs) (split_blocks p ws (empty_update 0) [] pbs)
    (\<lambda>(ws, upd, mat) st. on_view view (ready utf8 s (map PendingBlockString mat)) st \<and> pu_Confirmed upd = [])
    (on_view view (pay_inv utf8 js s))"
proof -
  have "quiet view (split_blocks p ws (empty_update 0) [] pbs)" using assms by (intro quietI inv_intros)
  from triple_result [OF triple_quiet_listed [OF this],
      where R = "\<lambda>(ws, upd, mat). subseq mat pbs \<and> pu_Confirmed upd = []"]
  show ?thesis
    by (rule triple_weaken) (auto dest: split_result simp: empty_update_def intro: ready_sub)
qed

lemma triple_confirm:
  "go_triple (listed utf8 s pbs) (confirm_blocks p (empty_update c) pbs)
    (\<lambda>upd. on_view view (ready utf8 s (pu_Confirmed upd))) (on_view view (pay_inv utf8 js s))"
proof -
  have "quiet view (confirm_blocks p (empty_update c) pbs)" by (intro quietI inv_intros)
  from triple_result [OF triple_quiet_listed [OF this],
      where R = "\<lambda>upd. \<exists>sub. pu_Confirmed upd = map PendingBlockString sub \<and> subseq sub pbs"]
  show ?thesis
    by (rule triple_weaken) (auto dest!: confirm_result simp: empty_update_def intro: ready_sub)
qed

lemma triple_apply_settled:
  "pu_Confirmed u = cf \<Longrightarrow>
   go_triple (on_view view (settled utf8 js s cf)) (on_db (ApplyPayments rd s u)) (\<lambda>_. on_view view (pay_inv utf8 js s)) (on_view view (pay_inv utf8 js s))"
  by (rule triple_weaken [OF triple_apply]) (auto simp: settled_def intro: ready_inv)

lemma triple_pay:
  assumes "codec_ok utf8 js" "pm_redis p = rd" "pm_json p = js" "pm_db p = s"
  shows "go_triple (on_view view (pay_inv utf8 js s)) (processPayments p) (\<lambda>_. on_view view (pay_inv utf8 js s)) (on_view view (pay_inv utf8 js s))"
proof -
  let ?E = "on_view view (pay_inv utf8 js s)"
  have finish: "go_triple (on_view view (ready utf8 s cf)) (go_bind (settle n p ws u w) (\<lambda>u. on_db (ApplyPayments rd s u))) (\<lambda>_. ?E) ?E"
    if "pu_Confirmed u = cf" for cf n ws u w
    by (rule triple_bind [OF triple_settle [OF assms that]], rule triple_pure, rule triple_apply_settled)
  have quietly: "go_triple (listed utf8 s pbs) (on_db (GetAllMinerBalances rd s)) (\<lambda>_. listed utf8 s pbs) ?E" for pbs
    by (intro triple_quiet_listed quietI inv_intros)
  have pending: "go_triple (on_view view (ready utf8 s [])) (pay_pending p) (\<lambda>_. ?E) ?E"
    unfolding pay_pending_def assms(2,4)
  proof (intro triple_bind [OF triple_get_blocks] triple_if triple_bind [OF quietly] triple_bind [OF triple_split [OF assms(2)]], goal_cases)
    case (1 pbs)
    then show ?case by (auto intro!: triple_return ready_inv)
  next
    case (2 pbs balances res)
    obtain ws upd mat where res: "res = (ws, upd, mat)" by (cases res)
    have idle: "go_triple (on_view view (ready utf8 s [])) (on_db (ApplyPayments rd s upd)) (\<lambda>_. ?E) ?E"
      by (rule triple_weaken [OF triple_apply]) (auto simp: ready_def paid_within_def intro: ready_inv clean_inv)
    show ?case
      unfolding res prod.case
      by (rule triple_pure) (auto intro!: triple_return idle finish intro: ready_inv simp: foldl_confirmed)
  qed
  have pps: "go_triple (on_view view (ready utf8 s [])) (processPPS p) (\<lambda>_. ?E) ?E"
    unfolding processPPS_def assms(2,4) Let_def case_prod_beta
    by (intro triple_bind [OF triple_get_blocks] triple_bind [OF triple_confirm] finish refl
        triple_bind [OF triple_quiet_ready] quietI inv_intros)
  show ?thesis
    unfolding processPayments_def by (intro triple_seq [OF triple_reconcile [OF assms(2-4)]] triple_if pending pps)
qed

end

subsection \<open>Shares arriving between runs\<close>

definition block_hash :: "string \<Rightarrow> string" where
  "block_hash b = takeWhile (\<lambda>c. c \<noteq> CHR '':'') b"

text \<open>The share of a block that was not paid before, by a miner whose name has no colon.\<close>

definition new_block :: "(string \<Rightarrow> bool) \<Rightarrow> share \<Rightarrow> payment_update list \<Rightarrow> bool" where
  "new_block utf8 sh sent =
     (CHR '':'' \<notin> set (sh_BlockHash sh @ sh_TxHash sh @ sh_Miner sh) \<and>
      (\<forall>seq. utf8 (PendingBlockString (share_block sh seq))) \<and>
      sh_BlockHash sh \<notin> block_hash ` set (paid_blocks sent))"

lemma block_hash_string: "CHR '':'' \<notin> set (pb_Hash pb) \<Longrightarrow> block_hash (PendingBlockString pb) = pb_Hash pb"
proof -
  assume h: "CHR '':'' \<notin> set (pb_Hash pb)"
  have "takeWhile (\<lambda>c. c \<noteq> CHR '':'') (pb_Hash pb @ CHR '':'' # r) = pb_Hash pb" for r
    using h by (induction "pb_Hash pb") (auto simp: takeWhile_append)
  then show ?thesis by (simp add: block_hash_def PendingBlockString_def)
qed

lemma new_block_good:
  assumes "new_block utf8 sh sent" "- (2 ^ 63) \<le> seq" "seq < 2 ^ 63"
  shows "good_block utf8 (PendingBlockString (share_block sh seq))" "PendingBlockString (share_block sh seq) \<notin> set (paid_blocks sent)"
proof -
  let ?pb = "share_block sh seq"
  have "NewPendingBlockFromString (PendingBlockString ?pb) = Inr ?pb"
    using assms by (intro pending_block_read_back) (auto simp: new_block_def share_block_def)
  then show "good_block utf8 (PendingBlockString ?pb)" using assms(1) by (auto simp: good_block_def new_block_def)
  have "block_hash (PendingBlockString ?pb) = sh_BlockHash sh"
    using assms(1) by (subst block_hash_string) (auto simp: new_block_def share_block_def)
  then show "PendingBlockString ?pb \<notin> set (paid_blocks sent)" using assms(1) by (force simp: new_block_def)
qed

definition grows :: "db \<Rightarrow> string \<Rightarrow> keyspace \<Rightarrow> keyspace \<Rightarrow> bool" where
  "grows s b ks ks' = (typed s ks' \<and> ks' (key_intent s) = ks (key_intent s) \<and> distinct (pend s ks') \<and> set (pend s ks') \<subseteq> insert b (set (pend s ks)))"

lemma share_cmds_grow:
  assumes "c \<in> set (share_cmds s now sh acc seq)" "grows s (PendingBlockString (share_block sh seq)) ks ks'"
  shows "grows s (PendingBlockString (share_block sh seq)) ks (redis_eff hif c ks')"
proof -
  have t: "typed s (redis_eff hif c ks')"
    using assms share_cmds_typed [of s now sh acc seq] eff_typed by (auto simp: list_all_iff grows_def)
  have i: "key_intent s \<notin> touches c"
    using assms(1) unfolding share_cmds_def record_cmds_def valid_share_cmds_def invalid_share_cmds_def block_cmds_def Let_def
    by (auto simp: key_defs split: if_splits)
  consider "c = SAdd (key_pending s) (PendingBlockString (share_block sh seq))" | "key_pending s \<notin> touches c"
    using assms(1) unfolding share_cmds_def record_cmds_def valid_share_cmds_def invalid_share_cmds_def block_cmds_def Let_def
    by (auto simp: key_defs split: if_splits)
  then show ?thesis
  proof cases
    case 1
    have "of_kind KSet (ks' (key_pending s))" using assms(2) typed_sets by (simp add: grows_def)
    then have "distinct (pend s (redis_eff hif c ks'))" "set (pend s (redis_eff hif c ks')) \<subseteq> insert (PendingBlockString (share_block sh seq)) (set (pend s ks'))"
      using assms(2) by (auto simp: 1 pend_def redis_eff_def grows_def split: rvalue.splits)
    then show ?thesis using assms(2) t i by (auto simp: grows_def)
  next
    case 2
    then show ?thesis using assms(2) t i pend_cong [of "redis_eff hif c ks'" s ks'] by (simp add: grows_def)
  qed
qed

lemma parse_int_range: "parse_int 10 v = (n, True) \<Longrightarrow> - (2 ^ 63) \<le> n \<and> n < 2 ^ 63"
  by (auto simp: parse_int_def Let_def split: list.splits prod.splits if_splits)

lemma grows_inv:
  assumes "pay_inv utf8 js s ks sent" "grows s b ks ks'" "good_block utf8 b" "b \<notin> set (paid_blocks sent)"
  shows "pay_inv utf8 js s ks' sent"
proof -
  have "intent s ks' = intent s ks" using assms(2) intent_cong [of ks' s ks] by (simp add: grows_def)
  moreover have "paid_within s B ks sent \<Longrightarrow> paid_within s B ks' sent" for B
    using assms(2,4) unfolding grows_def paid_within_def by blast
  moreover have "base_ok utf8 s ks' sent" using assms by (auto simp: grows_def base_ok_def pay_inv_def)
  ultimately show ?thesis using assms(1) unfolding pay_inv_def by presburger
qed

context redis_store
begin

lemma next_seq_range:
  "next_seq rd s sh r = (seq, r') \<Longrightarrow> - (2 ^ 63) \<le> seq \<and> seq < 2 ^ 63"
proof -
  assume n: "next_seq rd s sh r = (seq, r')"
  have "- (2 ^ 63) \<le> k \<and> k < 2 ^ 63" if "rd_do rd (Incr (key_seq s)) r = (RInt k, r'')" for k r''
    using do_reply [OF that] parse_int_range by (fastforce split: rvalue.splits prod.splits if_splits)
  then show ?thesis
    using n by (auto simp: next_seq_def split: if_splits prod.splits redis_reply.splits)
qed

lemma sadd_pending:
  assumes "typed s ks" shows "b \<in> set (pend s (redis_eff hif (SAdd (key_pending s) b) ks))"
  using typed_sets(1) [OF assms] by (auto simp: pend_def redis_eff_def split: rvalue.splits)

lemma put_pending:
  assumes "typed s (view r)" "fst (rd_pipeline rd (share_cmds s now sh True (fst (next_seq rd s sh r))) (snd (next_seq rd s sh r)))"
    and "sh_BlockHex sh \<noteq> []"
  shows "\<exists>seq. PendingBlockString (share_block sh seq) \<in> set (pend s (view (putShareNow rd s now sh True r)))"
proof -
  obtain seq r' where n: "next_seq rd s sh r = (seq, r')" by (cases "next_seq rd s sh r")
  obtain r'' where p: "rd_pipeline rd (share_cmds s now sh True seq) r' = (True, r'')"
    using assms(2) n by (cases "rd_pipeline rd (share_cmds s now sh True seq) r'") auto
  let ?b = "PendingBlockString (share_block sh seq)"
  let ?pre = "record_cmds s now sh seq @ [Rename (key_current s) (key_round s (fmt_int (sh_BlockHeight sh)))]"
  have ty: "typed s (view r')"
    using n assms(1) do_typed [of s r "Incr (key_seq s)"]
    by (auto simp: next_seq_def typed_cmd_def key_kind.intros split: if_splits prod.splits)
  have cmds: "share_cmds s now sh True seq = ?pre @ [SAdd (key_pending s) ?b, HIncrBy (key_pool s) ''validBlocks'' 1]"
    using assms(3) by (simp add: share_cmds_def block_cmds_def)
  have "list_all (typed_cmd s) ?pre" using share_cmds_typed [of s now sh True seq] unfolding cmds by simp
  then have pre: "typed s (redis_run hif ?pre (view r'))" using ty by (intro run_typed)
  then have "?b \<in> set (pend s (redis_eff hif (SAdd (key_pending s) ?b) (redis_run hif ?pre (view r'))))" by (rule sadd_pending)
  moreover have "key_pending s \<notin> touches (HIncrBy (key_pool s) ''validBlocks'' 1)" by (auto simp: key_defs)
  ultimately have "?b \<in> set (pend s (redis_run hif (share_cmds s now sh True seq) (view r')))"
    unfolding cmds redis_run_append [where xs = ?pre] by (simp only: redis_run_simps pend_def redis_eff_other simp_thms)
  then show ?thesis using pipeline_ok [OF p] by (auto simp: putShareNow_def n p)
qed

lemma put_inv:
  assumes "pay_inv utf8 js s (view r) sent" "new_block utf8 sh sent"
  shows "pay_inv utf8 js s (view (putShareNow rd s now sh acc r)) sent"
proof -
  obtain seq r' where n: "next_seq rd s sh r = (seq, r')" by (cases "next_seq rd s sh r")
  obtain ok r'' where p: "rd_pipeline rd (share_cmds s now sh acc seq) r' = (ok, r'')" by fastforce
  define b where "b = PendingBlockString (share_block sh seq)"
  note range = next_seq_range [OF n]
  have ty: "typed s (view r')"
    using n assms(1) do_typed [of s r "Incr (key_seq s)"]
    by (auto simp: next_seq_def pay_inv_def base_ok_def typed_cmd_def key_kind.intros split: if_splits prod.splits)
  have k: "view r' (key_pending s) = view r (key_pending s)" "view r' (key_intent s) = view r (key_intent s)"
    using next_seq_view [OF n] by (simp_all add: key_defs)
  then have "grows s b (view r) (view r')"
    using ty assms(1) pend_cong [of "view r'" s "view r"] by (auto simp: grows_def pay_inv_def base_ok_def)
  then have "grows s b (view r) (redis_run hif (take m (share_cmds s now sh acc seq)) (view r'))" for m
  proof (rule redis_run_keeps [rotated])
    fix c ks assume "c \<in> set (take m (share_cmds s now sh acc seq))" "grows s b (view r) ks"
    then show "grows s b (view r) (redis_eff hif c ks)"
      unfolding b_def by (metis share_cmds_grow in_set_takeD)
  qed
  then have "grows s b (view r) (view r'')" using pipeline_prefix [OF p] by auto
  then have "pay_inv utf8 js s (view r'') sent"
    using new_block_good [OF assms(2), of seq] range unfolding b_def by (intro grows_inv [OF assms(1)]) simp_all
  then show ?thesis by (simp add: putShareNow_def n p)
qed

end

subsection \<open>No block is paid twice\<close>

text \<open>
  The states the payment manager can be in: from a start without an intent, after payout runs
  (whatever they return), restarts (which lose the address cache) and written shares.
\<close>

inductive payer_reach :: "('r \<Rightarrow> keyspace) \<Rightarrow> (string \<Rightarrow> bool) \<Rightarrow> ('r, 'w) payer \<Rightarrow> ('r, 'w) pay_state \<Rightarrow> bool" for view utf8 p where
  start: "typed (pm_db p) (view (ps_redis st)) \<Longrightarrow> intent (pm_db p) (view (ps_redis st)) = [] \<Longrightarrow>
     distinct (pend (pm_db p) (view (ps_redis st))) \<Longrightarrow> list_all (good_block utf8) (pend (pm_db p) (view (ps_redis st))) \<Longrightarrow>
     ps_sent st = [] \<Longrightarrow> payer_reach view utf8 p st"
| run: "payer_reach view utf8 p st \<Longrightarrow> processPayments p st = (r, st') \<Longrightarrow> payer_reach view utf8 p st'"
| restart: "payer_reach view utf8 p st \<Longrightarrow> payer_reach view utf8 p (st\<lparr>ps_validAddr := [], ps_world := w\<rparr>)"
| share: "payer_reach view utf8 p st \<Longrightarrow> new_block utf8 sh (ps_sent st) \<Longrightarrow>
     payer_reach view utf8 p (st\<lparr>ps_redis := putShareNow (pm_redis p) (pm_db p) now sh acc (ps_redis st)\<rparr>)"

lemma payer_reach_inv:
  assumes "redis_store (pm_redis p) view hif" "codec_ok utf8 (pm_json p)" "payer_reach view utf8 p st"
  shows "on_view view (pay_inv utf8 (pm_json p) (pm_db p)) st"
  using assms(3)
proof induction
  case (start st)
  then show ?case by (auto simp: pay_inv_def base_ok_def paid_within_def paid_blocks_def list_all_iff)
next
  case (run st r st')
  with redis_store.triple_pay [OF assms(1,2) refl refl refl] show ?case
    by (auto simp: go_triple_def split: sum.splits)
next
  case (share st sh now acc)
  then show ?case using redis_store.put_inv [OF assms(1)] by simp
qed simp


definition ex_codec :: update_codec where
  "ex_codec = \<lparr>uc_Marshal = (\<lambda>u. Some (concat (map (\<lambda>b. b @ [CHR ''!'']) (pu_Confirmed u)))),
     uc_Unmarshal = (\<lambda>t. Some ((empty_update 0)\<lparr>pu_Confirmed := butlast (split_on CHR ''!'' t)\<rparr>))\<rparr>"

definition ex_text :: "string \<Rightarrow> bool" where
  "ex_text b = (CHR ''!'' \<notin> set b)"

lemma ex_codec_ok: "codec_ok ex_text ex_codec"
proof -
  have "butlast (split_on c (concat (map (\<lambda>b. b @ [c]) bs))) = bs" if "\<forall>b\<in>set bs. c \<notin> set b" for c bs
    using that by (induction bs) (simp_all add: split_on_append)
  then show ?thesis by (auto simp: codec_ok_def ex_codec_def ex_text_def list_all_iff)
qed

definition ex_start :: "(keyspace, unit) pay_state" where
  "ex_start = \<lparr>ps_redis = (\<lambda>_. Absent)(key_pending ex_db := Members [PendingBlockString ex_block]),
     ps_world = (), ps_validAddr = [], ps_sent = []\<rparr>"


subsection \<open>Interrupted runs\<close>

text \<open>
  C20. A run that finds a payout intent without a transaction id stops: it returns an error
  without a single call to the wallet and without changing the store, so that a payout that
  may already be on its way is never sent again before an operator has looked at it.
\<close>

theorem unresolved_intent_halts:
  assumes "redis_store (pm_redis p) view hif" "view (ps_redis st) (key_intent (pm_db p)) = Fields h" "h \<noteq> []" "map_text h ''txid'' = ''''"
  shows "\<exists>e st'. processPayments p st = (Inl (Err e), st') \<and> ps_world st' = ps_world st \<and>
    view (ps_redis st') = view (ps_redis st) \<and> ps_sent st' = ps_sent st"
proof -
  let ?c = "HGetAll (key_intent (pm_db p))"
  obtain rep r' where d: "rd_do (pm_redis p) ?c (ps_redis st) = (rep, r')" by fastforce
  have v: "view r' = view (ps_redis st)"
    using redis_store.do_view [OF assms(1) d] read_only [of ?c hif] by simp
  have rep: "rep = RErr \<or> rep = RMap h"
    using redis_store.do_reply [OF assms(1) d] assms(2) by auto
  have "\<exists>e. reconcile p st = (Inl (Err e), st\<lparr>ps_redis := r'\<rparr>)"
    using rep d assms(3,4)
    by (auto simp: reconcile_def go_bind_def on_db_def GetPayoutIntent_def query_def intent_of_def as_map_def redis_error_def
        split: option.splits)
  then show ?thesis using v by (auto simp: processPayments_def)
qed

theorem unresolved_intent_halts_witness:
  "\<forall>rpc. \<exists>e st'. processPayments (ex_payer rpc ex_codec) (ex_start\<lparr>ps_redis := (ps_redis ex_start)(key_intent ex_db := Fields [(''update'', ''''), (''txid'', '''')])\<rparr>)
     = (Inl (Err e), st') \<and> ps_world st' = () \<and> ps_sent st' = []"
proof
  fix rpc :: "unit transport"
  have p: "pm_redis (ex_payer rpc ex_codec) = mem_redis" "pm_db (ex_payer rpc ex_codec) = ex_db"
    by (simp_all add: ex_payer_def setMagnitude_def NewPaymentManager_def Let_def)
  have "redis_store (pm_redis (ex_payer rpc ex_codec)) (\<lambda>ks. ks) mem_hif" unfolding p by (rule mem.redis_store_axioms)
  from unresolved_intent_halts [OF this, of "ex_start\<lparr>ps_redis := (ps_redis ex_start)(key_intent ex_db := Fields [(''update'', ''''), (''txid'', '''')])\<rparr>"]
  show "\<exists>e st'. processPayments (ex_payer rpc ex_codec) (ex_start\<lparr>ps_redis := (ps_redis ex_start)(key_intent ex_db := Fields [(''update'', ''''), (''txid'', '''')])\<rparr>)
     = (Inl (Err e), st') \<and> ps_world st' = () \<and> ps_sent st' = []"
    unfolding p by (fastforce simp: map_text_def ex_start_def)
qed

subsection \<open>Amounts\<close>

lemma to_send_le_owed:
  assumes "unat (owed w) < 2 ^ 53" "0 \<le> x" "x \<le> 1"
  shows "unat (to_send (Fin x) w) \<le> unat (owed w)"
proof -
  define n where "n = int (unat (owed w))"
  have "int (unat (owed w)) < int (2 ^ 53)" using assms(1) by (simp only: of_nat_less_iff)
  then have n: "0 \<le> n" "n < 2 ^ 53" unfolding n_def by (simp_all only: of_nat_power of_nat_numeral of_nat_0_le_iff)
  have f: "f64_of_u64 (owed w) = Fin (of_int n)"
    using f64_of_int_exact [of n] n by (simp add: f64_of_u64_def n_def)
  have r1: "rnd64 1 = 1" using rnd64_of_int [of 1] by simp
  have q: "0 \<le> rnd64 (1 - x)" "rnd64 (1 - x) \<le> 1"
    using assms(2,3) rnd_mono [of "1 - x" 1 53 "-1074"] r1 by (simp_all add: rnd_nonneg)
  moreover have "(1 :: rat) < 2 ^ 1024" by simp
  ultimately have s: "f64_sub (Fin 1) (Fin x) = Fin (rnd64 (1 - x))" by (simp add: f64_sub_def f64_round_small)
  define z where "z = of_int n * rnd64 (1 - x)"
  have z: "0 \<le> z" "z \<le> of_int n" using n q mult_left_mono [of "rnd64 (1 - x)" 1 "of_int n"] by (simp_all add: z_def)
  have rz: "0 \<le> rnd64 z" "rnd64 z \<le> of_int n"
    using rnd_nonneg [OF z(1)] rnd_mono [OF z(2), of 53 "-1074"] rnd64_of_int [of n] n by simp_all
  have nb: "(of_int n :: rat) < of_int (2 ^ 53)" using n by (simp only: of_int_less_iff)
  then have "\<bar>rnd64 z\<bar> < 2 ^ 1024" using rz by (simp add: abs_less_iff)
  then have m: "f64_mul (Fin (of_int n)) (Fin (rnd64 (1 - x))) = Fin (rnd64 z)" by (simp add: z_def f64_round_small)
  have fl: "0 \<le> \<lfloor>rnd64 z\<rfloor>" "\<lfloor>rnd64 z\<rfloor> \<le> n" using rz by (simp_all add: floor_le_iff)
  have "(of_int (2 ^ 53) :: rat) < 2 ^ 64" by simp
  then have "(of_int \<lfloor>rnd64 z\<rfloor> :: rat) < 2 ^ 64" using nb rz(2) of_int_floor_le [of "rnd64 z"] by linarith
  then have "unat (to_send (Fin x) w) = nat \<lfloor>rnd64 z\<rfloor>"
    unfolding to_send_def f s m f64_floor.simps using fl(1) f64_to_u64_nat [of "of_int \<lfloor>rnd64 z\<rfloor>"] by (simp del: f64_to_u64.simps)
  then show ?thesis using fl by (simp add: n_def nat_le_iff)
qed


definition ex_worker :: worker where
  "ex_worker = \<lparr>wk_Address = ''bc1qminer'', wk_Balance = 0, wk_Reward = 0, wk_Sent = 5\<rparr>"


subsection \<open>Finders with a colon\<close>

lemma payment_cmds_retain:
  assumes "c \<in> set (payment_cmds s u)" "b \<notin> set (pu_Confirmed u) \<union> set (pu_Orphaned u)"
    and "shrinks s UNIV ks \<and> b \<in> set (pend s ks)"
  shows "shrinks s UNIV (redis_eff hif c ks) \<and> b \<in> set (pend s (redis_eff hif c ks))"
proof -
  consider x dst where "c = SMove (key_pending s) dst x" "dst = key_confirmed s \<or> dst = key_orphaned s" "x \<noteq> b"
    | "key_pending s \<notin> touches c"
    using assms(1,2) unfolding payment_cmds_def by (auto simp: key_defs split: if_splits)
  then have "b \<in> set (pend s (redis_eff hif c ks))"
  proof cases
    case 1
    then show ?thesis using assms(3) move_pending [of s ks dst hif x] by (simp add: shrinks_def)
  next
    case 2
    then show ?thesis using assms(3) pend_cong [of "redis_eff hif c ks" s ks] by simp
  qed
  then show ?thesis using payment_cmds_shrink assms by blast
qed



end
