(* ===== verification/Vardiff.thy ===== *)
theory Vardiff
  imports Utils
begin

text \<open>
  \<open>vardiff/ringbuffer.go\<close> and \<open>vardiff/vardiff.go\<close>: the window of recent share
  intervals and the difficulty retargeting that reads it. \<open>int64\<close> seconds and counters
  are integers (they stay far below the word size); the difficulties are \<open>float64\<close>. The
  current time is an argument.

  The contract the retargeting needs from its buffer is the locale \<open>window\<close>, interpreted
  on the ring buffer.
\<close>

record ring_buffer =
  rb_IsFull :: bool
  rb_MaxSize :: int
  rb_Cursor :: int
  rb_Data :: "int list"

definition NewRingBuffer :: "int \<Rightarrow> ring_buffer" where
  "NewRingBuffer maxSize = \<lparr>rb_IsFull = False, rb_MaxSize = maxSize, rb_Cursor = 0, rb_Data = []\<rparr>"

definition RingAppend :: "int \<Rightarrow> ring_buffer \<Rightarrow> ring_buffer res" where
  "RingAppend x rb =
     (if rb_IsFull rb then
        (if rb_Cursor rb < 0 \<or> int (length (rb_Data rb)) \<le> rb_Cursor rb then Inl (Panic ''index out of range'')
         else if rb_MaxSize rb = 0 then Inl (Panic ''integer divide by zero'')
         else Inr (rb\<lparr>rb_Data := (rb_Data rb)[nat (rb_Cursor rb) := x],
                      rb_Cursor := (rb_Cursor rb + 1) mod rb_MaxSize rb\<rparr>))
      else
        (let d = rb_Data rb @ [x];
             rb' = rb\<lparr>rb_Data := d, rb_Cursor := rb_Cursor rb + 1\<rparr>
         in if int (length d) = rb_MaxSize rb then Inr (rb'\<lparr>rb_Cursor := 0, rb_IsFull := True\<rparr>) else Inr rb'))"

definition RingSize :: "ring_buffer \<Rightarrow> int" where
  "RingSize rb = (if rb_IsFull rb then rb_MaxSize rb else rb_Cursor rb)"

definition RingAvg :: "ring_buffer \<Rightarrow> f64" where
  "RingAvg rb = f64_div (f64_of_int (sum_list (rb_Data rb))) (f64_of_int (RingSize rb))"

definition RingClear :: "ring_buffer \<Rightarrow> ring_buffer" where
  "RingClear rb = rb\<lparr>rb_Data := [], rb_Cursor := 0, rb_IsFull := False\<rparr>"

record vardiff_options =
  vo_MinDiff :: f64
  vo_MaxDiff :: f64
  vo_TargetTime :: int
  vo_RetargetTime :: int
  vo_VariancePercent :: f64
  vo_X2Mode :: bool

record var_diff =
  vd_Options :: vardiff_options
  vd_BufferSize :: int
  vd_MaxTargetTime :: f64
  vd_MinTargetTime :: f64
  vd_TimeBuffer :: ring_buffer
  vd_LastRtc :: int
  vd_LastTimestamp :: int

definition NewVarDiff :: "int \<Rightarrow> vardiff_options \<Rightarrow> var_diff res" where
  "NewVarDiff timestamp options =
     rbind (go_div (vo_RetargetTime options) (vo_TargetTime options)) (\<lambda>q.
     rbind (go_div (vo_RetargetTime options) 2) (\<lambda>half.
       let bufferSize = q * 4 in
       Inr \<lparr>vd_Options = options,
            vd_BufferSize = bufferSize,
            vd_MaxTargetTime = f64_mul (f64_of_int (vo_TargetTime options)) (f64_add (Fin 1) (vo_VariancePercent options)),
            vd_MinTargetTime = f64_mul (f64_of_int (vo_TargetTime options)) (f64_sub (Fin 1) (vo_VariancePercent options)),
            vd_TimeBuffer = NewRingBuffer bufferSize,
            vd_LastRtc = timestamp - half,
            vd_LastTimestamp = timestamp\<rparr>))"

text \<open>
  The difficulty factor of \<open>CalcNextDiff\<close>, from the mean interval \<open>avg\<close>; \<open>None\<close> is the
  branch that keeps the current difficulty. The numerator is
  \<open>float64(time.Duration(TargetTime) * time.Second)\<close>, a count of nanoseconds.
\<close>

definition next_ddiff :: "var_diff \<Rightarrow> f64 \<Rightarrow> f64 \<Rightarrow> f64 option" where
  "next_ddiff vd avg currentDiff =
     (let opt = vd_Options vd;
          ddiff = f64_div (f64_of_int (vo_TargetTime opt * 1000000000)) avg
      in if f64_less (vd_MaxTargetTime vd) avg \<and> f64_less (vo_MinDiff opt) currentDiff then
           (let ddiff = (if vo_X2Mode opt then Fin (1 / 2) else ddiff)
            in Some (if f64_less (f64_mul ddiff currentDiff) (vo_MinDiff opt)
                     then f64_div (vo_MinDiff opt) currentDiff else ddiff))
         else if f64_less avg (vd_MinTargetTime vd) then
           (let ddiff = (if vo_X2Mode opt then Fin 2 else ddiff); diffMax = vo_MaxDiff opt
            in Some (if f64_less diffMax (f64_mul ddiff currentDiff)
                     then f64_div diffMax currentDiff else ddiff))
         else None)"

definition CalcNextDiff :: "int \<Rightarrow> f64 \<Rightarrow> var_diff \<Rightarrow> (f64 \<times> var_diff) res" where
  "CalcNextDiff timestamp currentDiff vd =
     (if vd_LastRtc vd = 0 then
        rbind (go_div (vo_RetargetTime (vd_Options vd)) 2) (\<lambda>half.
          Inr (Fin 0, vd\<lparr>vd_LastRtc := timestamp - half, vd_LastTimestamp := timestamp\<rparr>))
      else
        rbind (RingAppend (timestamp - vd_LastTimestamp vd) (vd_TimeBuffer vd)) (\<lambda>tb.
          let vd = vd\<lparr>vd_TimeBuffer := tb, vd_LastTimestamp := timestamp\<rparr>
          in if timestamp - vd_LastRtc vd < vo_RetargetTime (vd_Options vd) \<and> 0 < RingSize tb then Inr (Fin 0, vd)
             else
               (let vd = vd\<lparr>vd_LastRtc := timestamp\<rparr>; avg = RingAvg tb
                in case next_ddiff vd avg currentDiff of
                     None \<Rightarrow> Inr (currentDiff, vd)
                   | Some ddiff \<Rightarrow>
                       (let newDiff = f64_mul currentDiff ddiff;
                            newDiff = (if f64_le newDiff (Fin 0) then currentDiff else newDiff)
                        in Inr (newDiff, vd\<lparr>vd_TimeBuffer := RingClear tb\<rparr>)))))"

subsection \<open>The window contract\<close>

text \<open>The last \<open>n\<close> elements of a list.\<close>

definition last_n :: "nat \<Rightarrow> 'a list \<Rightarrow> 'a list" where
  "last_n n xs = drop (length xs - n) xs"

lemma last_n_short [simp]: "length xs \<le> n \<Longrightarrow> last_n n xs = xs"
  by (simp add: last_n_def)

lemma length_last_n [simp]: "length (last_n n xs) = min n (length xs)"
  by (simp add: last_n_def)

lemma last_n_last_n: "last_n n (last_n n xs @ ys) = last_n n (xs @ ys)"
  by (cases "length xs \<le> n") (simp_all add: last_n_def add.commute)

locale window =
  fixes invar :: "'b \<Rightarrow> bool"
    and cap :: "'b \<Rightarrow> nat"
    and contents :: "'b \<Rightarrow> int list"
    and append :: "int \<Rightarrow> 'b \<Rightarrow> 'b res"
    and size :: "'b \<Rightarrow> int"
    and avg :: "'b \<Rightarrow> f64"
    and clear :: "'b \<Rightarrow> 'b"
  assumes append_window: "invar b \<Longrightarrow>
      \<exists>b'. append x b = Inr b' \<and> invar b' \<and> cap b' = cap b \<and> contents b' = last_n (cap b) (contents b @ [x])"
    and size_window: "invar b \<Longrightarrow> size b = int (length (contents b))"
    and avg_window: "invar b \<Longrightarrow> avg b = f64_div (f64_of_int (sum_list (contents b))) (f64_of_int (int (length (contents b))))"
    and clear_window: "invar b \<Longrightarrow> invar (clear b) \<and> cap (clear b) = cap b \<and> contents (clear b) = []"
begin

fun append_all :: "'b \<Rightarrow> int list \<Rightarrow> 'b res" where
  "append_all b [] = Inr b"
| "append_all b (x # xs) = rbind (append x b) (\<lambda>b'. append_all b' xs)"

lemma append_all_window:
  "invar b \<Longrightarrow> contents b = last_n (cap b) (contents b) \<Longrightarrow>
   \<exists>b'. append_all b xs = Inr b' \<and> invar b' \<and> cap b' = cap b \<and> contents b' = last_n (cap b) (contents b @ xs)"
proof (induction xs arbitrary: b)
  case Nil
  then show ?case by auto
next
  case (Cons x xs)
  from append_window [OF Cons.prems(1), of x] obtain b1 where b1:
    "append x b = Inr b1" "invar b1" "cap b1 = cap b" "contents b1 = last_n (cap b) (contents b @ [x])"
    by blast
  then have "contents b1 = last_n (cap b1) (contents b1)"
    using last_n_last_n [of "cap b" "contents b @ [x]" "[]"] by simp
  from Cons.IH [OF b1(2) this] obtain b' where
    "append_all b1 xs = Inr b'" "invar b'" "cap b' = cap b1" "contents b' = last_n (cap b1) (contents b1 @ xs)"
    by blast
  with b1 show ?case
    using last_n_last_n [of "cap b" "contents b @ [x]" xs] by auto
qed

lemma size_append: "invar b \<Longrightarrow> 0 < cap b \<Longrightarrow> append x b = Inr b' \<Longrightarrow> 0 < size b'"
  using append_window [of b x] size_window [of b'] by auto

end

definition ring_inv :: "ring_buffer \<Rightarrow> bool" where
  "ring_inv rb \<longleftrightarrow>
     0 < rb_MaxSize rb \<and> int (length (rb_Data rb)) \<le> rb_MaxSize rb \<and>
     (rb_IsFull rb \<longleftrightarrow> int (length (rb_Data rb)) = rb_MaxSize rb) \<and>
     (if rb_IsFull rb then 0 \<le> rb_Cursor rb \<and> rb_Cursor rb < rb_MaxSize rb else rb_Cursor rb = int (length (rb_Data rb)))"

definition ring_cap :: "ring_buffer \<Rightarrow> nat" where
  "ring_cap rb = nat (rb_MaxSize rb)"

text \<open>The contents, oldest first: a full buffer starts at its cursor.\<close>

definition ring_contents :: "ring_buffer \<Rightarrow> int list" where
  "ring_contents rb =
     (if rb_IsFull rb then drop (nat (rb_Cursor rb)) (rb_Data rb) @ take (nat (rb_Cursor rb)) (rb_Data rb) else rb_Data rb)"

lemma ring_append_contents:
  assumes inv: "ring_inv rb"
  shows "\<exists>rb'. RingAppend x rb = Inr rb' \<and> ring_inv rb' \<and> ring_cap rb' = ring_cap rb \<and>
           ring_contents rb' = last_n (ring_cap rb) (ring_contents rb @ [x])"
proof (cases "rb_IsFull rb")
  case True
  define c where "c = nat (rb_Cursor rb)"
  define D where "D = rb_Data rb"
  have c: "c < length D" "rb_Cursor rb = int c" "rb_MaxSize rb = int (length D)"
    using inv True by (auto simp: ring_inv_def c_def D_def)
  define rb' where "rb' = rb\<lparr>rb_Data := D[c := x], rb_Cursor := (int c + 1) mod int (length D)\<rparr>"
  have step: "RingAppend x rb = Inr rb'"
    using True c by (auto simp: RingAppend_def rb'_def D_def)
  have inv': "ring_inv rb'" using inv True c by (auto simp: ring_inv_def rb'_def D_def)
  have old: "ring_contents rb = drop c D @ take c D"
    using True c by (simp add: ring_contents_def D_def)
  have "ring_contents rb' = tl (drop c D) @ take c D @ [x]"
  proof (cases "Suc c = length D")
    case last: True
    then have "int c + 1 = int (length D)" by linarith
    then have cur: "rb_Cursor rb' = 0" by (simp add: rb'_def)
    have "D[c := x] = take c D @ [x]" using last by (simp add: upd_conv_take_nth_drop)
    then show ?thesis using True cur last by (simp add: ring_contents_def rb'_def tl_drop)
  next
    case False
    then have cur: "nat (rb_Cursor rb') = Suc c" using c(1) by (simp add: rb'_def)
    have "rb_IsFull rb'" "rb_Data rb' = D[c := x]" using True by (simp_all add: rb'_def)
    then show ?thesis using c(1)
      by (simp add: ring_contents_def cur drop_update_cancel take_Suc_conv_app_nth tl_drop drop_Suc [symmetric])
  qed
  moreover have "last_n (length D) ((drop c D @ take c D) @ [x]) = tl (drop c D) @ take c D @ [x]"
    using c(1) by (simp add: last_n_def) (simp add: drop_Suc tl_drop)
  ultimately show ?thesis using step inv' old c True by (auto simp: ring_cap_def rb'_def)
next
  case False
  have len: "rb_Cursor rb = int (length (rb_Data rb))" "int (length (rb_Data rb)) < rb_MaxSize rb"
    using inv False by (auto simp: ring_inv_def)
  then have short: "length (rb_Data rb @ [x]) \<le> nat (rb_MaxSize rb)" by simp
  show ?thesis
    using inv False len last_n_short [OF short]
    by (auto simp: RingAppend_def Let_def ring_inv_def ring_contents_def ring_cap_def)
qed

lemma ring_contents_length: "ring_inv rb \<Longrightarrow> length (ring_contents rb) = length (rb_Data rb)"
  by (auto simp: ring_contents_def ring_inv_def)

lemma ring_contents_sum: "sum_list (ring_contents rb) = sum_list (rb_Data rb)"
proof -
  have "sum_list (drop n xs) + sum_list (take n xs) = sum_list xs" for n and xs :: "int list"
    by (metis append_take_drop_id sum_list_append add.commute)
  then show ?thesis by (simp add: ring_contents_def)
qed

interpretation ring: window ring_inv ring_cap ring_contents RingAppend RingSize RingAvg RingClear
proof
  fix b x
  assume inv: "ring_inv b"
  show "\<exists>b'. RingAppend x b = Inr b' \<and> ring_inv b' \<and> ring_cap b' = ring_cap b \<and>
      ring_contents b' = last_n (ring_cap b) (ring_contents b @ [x])"
    using inv by (rule ring_append_contents)
  show size: "RingSize b = int (length (ring_contents b))"
    using inv ring_contents_length [OF inv] by (auto simp: RingSize_def ring_inv_def)
  show "RingAvg b = f64_div (f64_of_int (sum_list (ring_contents b))) (f64_of_int (int (length (ring_contents b))))"
    by (simp add: RingAvg_def ring_contents_sum size)
  show "ring_inv (RingClear b) \<and> ring_cap (RingClear b) = ring_cap b \<and> ring_contents (RingClear b) = []"
    using inv by (auto simp: RingClear_def ring_inv_def ring_cap_def ring_contents_def)
qed

lemma NewRingBuffer_inv: "0 < n \<Longrightarrow> ring_inv (NewRingBuffer n)"
  by (simp add: NewRingBuffer_def ring_inv_def)

subsection \<open>Retargeting\<close>

definition vardiff_inv :: "var_diff \<Rightarrow> bool" where
  "vardiff_inv vd \<longleftrightarrow> ring_inv (vd_TimeBuffer vd)"

lemma NewVarDiff_inv:
  assumes "0 < vo_TargetTime opt" "vo_TargetTime opt \<le> vo_RetargetTime opt"
  shows "\<exists>vd. NewVarDiff now opt = Inr vd \<and> vardiff_inv vd \<and> vd_Options vd = opt"
proof -
  have "1 \<le> vo_RetargetTime opt div vo_TargetTime opt"
    using assms by (simp add: pos_imp_zdiv_pos_iff int_one_le_iff_zero_less)
  then show ?thesis
    using assms by (auto simp: NewVarDiff_def go_div_pos Let_def vardiff_inv_def NewRingBuffer_inv)
qed

lemma CalcNextDiff_ok:
  assumes "vardiff_inv vd"
  shows "\<exists>d vd'. CalcNextDiff now cur vd = Inr (d, vd') \<and> vardiff_inv vd' \<and> vd_Options vd' = vd_Options vd"
proof (cases "vd_LastRtc vd = 0")
  case True
  then show ?thesis using assms by (auto simp: CalcNextDiff_def go_div_def vardiff_inv_def)
next
  case False
  have inv: "ring_inv (vd_TimeBuffer vd)" using assms by (simp add: vardiff_inv_def)
  from ring.append_window [OF inv, of "now - vd_LastTimestamp vd"]
  obtain tb where tb: "RingAppend (now - vd_LastTimestamp vd) (vd_TimeBuffer vd) = Inr tb" "ring_inv tb"
    by blast
  then show ?thesis
    using False ring.clear_window [OF tb(2)]
    by (auto simp: CalcNextDiff_def vardiff_inv_def Let_def split: option.splits)
qed

text \<open>A sequence of calls, each with the time and the client's current difficulty.\<close>

fun CalcNextDiffs :: "var_diff \<Rightarrow> (int \<times> f64) list \<Rightarrow> (f64 list \<times> var_diff) res" where
  "CalcNextDiffs vd [] = Inr ([], vd)"
| "CalcNextDiffs vd ((now, cur) # calls) =
     rbind (CalcNextDiff now cur vd) (\<lambda>(d, vd).
     rbind (CalcNextDiffs vd calls) (\<lambda>(ds, vd). Inr (d # ds, vd)))"

lemma CalcNextDiffs_ok:
  "vardiff_inv vd \<Longrightarrow> \<exists>ds vd'. CalcNextDiffs vd calls = Inr (ds, vd') \<and> length ds = length calls \<and>
     vardiff_inv vd' \<and> vd_Options vd' = vd_Options vd"
proof (induction calls arbitrary: vd)
  case (Cons c calls)
  obtain now cur where c: "c = (now, cur)" by (cases c)
  from CalcNextDiff_ok [OF Cons.prems] obtain d vd1 where
    1: "CalcNextDiff now cur vd = Inr (d, vd1)" "vardiff_inv vd1" "vd_Options vd1 = vd_Options vd" by blast
  from Cons.IH [OF 1(2)] 1 show ?case by (auto simp: c)
qed simp

text \<open>The retargeting step proper: past the retarget time, with a non-empty buffer.\<close>

lemma CalcNextDiff_retarget:
  assumes "vd_LastRtc vd \<noteq> 0"
    and "RingAppend (now - vd_LastTimestamp vd) (vd_TimeBuffer vd) = Inr tb"
    and "vo_RetargetTime (vd_Options vd) \<le> now - vd_LastRtc vd"
    and "next_ddiff vd (RingAvg tb) cur = Some dd"
  shows "\<exists>vd'. CalcNextDiff now cur vd =
     Inr (if f64_le (f64_mul cur dd) (Fin 0) then cur else f64_mul cur dd, vd') \<and> vd_TimeBuffer vd' = RingClear tb"
proof -
  have "next_ddiff (vd\<lparr>vd_TimeBuffer := tb, vd_LastTimestamp := now, vd_LastRtc := now\<rparr>) (RingAvg tb) cur =
      next_ddiff vd (RingAvg tb) cur"
    by (cases vd) (simp only: next_ddiff_def var_diff.simps)
  then show ?thesis using assms(4) assms(1-3) by (simp add: CalcNextDiff_def Let_def)
qed

subsection \<open>Properties\<close>

text \<open>
  C28. The ring buffer is a sliding window: starting from an empty buffer of positive
  capacity, recording any sequence of intervals never panics, keeps the buffer's
  invariant, and leaves exactly the last \<open>capacity\<close> intervals, oldest first.
\<close>

theorem ring_buffer_is_window:
  assumes "0 < n"
  shows "\<exists>rb. ring.append_all (NewRingBuffer n) xs = Inr rb \<and> ring_inv rb \<and>
              ring_contents rb = last_n (nat n) xs \<and>
              RingSize rb = int (min (nat n) (length xs))"
proof -
  have "ring_cap (NewRingBuffer n) = nat n" "ring_contents (NewRingBuffer n) = []"
    by (simp_all add: ring_cap_def ring_contents_def NewRingBuffer_def)
  with ring.append_all_window [OF NewRingBuffer_inv [OF assms], of xs] show ?thesis
    using ring.size_window by auto
qed

theorem ring_buffer_is_window_witness:
  "\<exists>rb. ring.append_all (NewRingBuffer 3) [10, 20, 30, 40] = Inr rb \<and> ring_contents rb = [20, 30, 40]"
  using ring_buffer_is_window [of 3 "[10, 20, 30, 40]"] by (auto simp: last_n_def numeral_3_eq_3)

text \<open>
  C27. A variable-difficulty state made from a configuration whose target time is positive
  and at most the retarget time works for ever: creating it does not fail, and no sequence of
  \<open>CalcNextDiff\<close> calls, whatever the times and the current difficulties, panics (neither an
  index out of the buffer nor a division by zero); each call returns a difficulty and the
  buffer invariant and the options are kept.
\<close>

theorem vardiff_never_panics:
  assumes "0 < vo_TargetTime opt" "vo_TargetTime opt \<le> vo_RetargetTime opt"
  shows "\<exists>vd ds vd'. NewVarDiff now opt = Inr vd \<and> CalcNextDiffs vd calls = Inr (ds, vd') \<and>
           length ds = length calls \<and> vardiff_inv vd' \<and> vd_Options vd' = opt"
proof -
  from NewVarDiff_inv [OF assms] obtain vd where vd: "NewVarDiff now opt = Inr vd" "vardiff_inv vd" "vd_Options vd = opt"
    by blast
  with CalcNextDiffs_ok [OF vd(2), of calls] show ?thesis by auto
qed

theorem vardiff_never_panics_witness:
  "\<exists>vd ds vd'. NewVarDiff 1000 \<lparr>vo_MinDiff = Fin 1, vo_MaxDiff = Fin 64, vo_TargetTime = 15,
        vo_RetargetTime = 90, vo_VariancePercent = Fin (3 / 10), vo_X2Mode = True\<rparr> = Inr vd \<and>
     CalcNextDiffs vd [(1001, Fin 2), (1200, Fin 2)] = Inr (ds, vd') \<and> length ds = 2 \<and> vardiff_inv vd'"
  using vardiff_never_panics [of "\<lparr>vo_MinDiff = Fin 1, vo_MaxDiff = Fin 64, vo_TargetTime = 15,
        vo_RetargetTime = 90, vo_VariancePercent = Fin (3 / 10), vo_X2Mode = True\<rparr>" 1000 "[(1001, Fin 2), (1200, Fin 2)]"]
  by auto

text \<open>
  Outside X2 mode the branch for a miner that is too slow does not lower the
  difficulty. The factor divides the target time in nanoseconds by the mean interval in
  seconds, so it is at least 1 for every mean interval up to \<open>10 ^ 9\<close> target times: a miner
  whose shares arrive too slowly, with a current difficulty above the minimum, is given a
  new difficulty at least as high as the one it could not keep up with.
\<close>

theorem slow_miner_not_eased:
  assumes slow: "f64_less (vd_MaxTargetTime vd) (Fin a)" and avg: "RingAvg tb = Fin a"
    and a: "0 < a" "a \<le> of_int (vo_TargetTime (vd_Options vd) * 1000000000)"
    and T: "0 < vo_TargetTime (vd_Options vd)" "vo_TargetTime (vd_Options vd) \<le> 4294967"
    and cur: "0 < c" "rnd64 c = c" "c < 2 ^ 1024"
    and mn: "vo_MinDiff (vd_Options vd) = Fin m" "m < c"
    and x2: "\<not> vo_X2Mode (vd_Options vd)"
    and run: "vd_LastRtc vd \<noteq> 0" "vo_RetargetTime (vd_Options vd) \<le> now - vd_LastRtc vd"
      "RingAppend (now - vd_LastTimestamp vd) (vd_TimeBuffer vd) = Inr tb"
  shows "\<exists>d vd'. CalcNextDiff now (Fin c) vd = Inr (d, vd') \<and> f64_le (Fin c) d"
proof -
  define N where "N = vo_TargetTime (vd_Options vd) * 1000000000"
  have "\<bar>N\<bar> < 2 ^ 53" using T by (simp add: N_def)
  then have N: "f64_of_int N = Fin (of_int N)" by (rule f64_of_int_exact)
  define q where "q = of_int N / a"
  have q: "1 \<le> q" using a by (simp add: q_def N_def)
  have "f64_le (Fin 1) (f64_round q)"
    by (rule f64_round_ge) (use q rnd64_of_int [of 1] in simp_all)
  then consider r where "f64_round q = Fin r" "1 \<le> r" | "f64_round q = PInf"
    by (cases "f64_round q") (auto simp: f64_le_def f64_eq_def)
  then have mul: "f64_le (Fin c) (f64_mul (f64_round q) (Fin c)) \<and> f64_le (Fin c) (f64_mul (Fin c) (f64_round q))"
  proof cases
    case 1
    have "f64_le (Fin c) (f64_round (r * c))"
      by (rule f64_round_ge) (use cur 1 in \<open>simp_all add: mult_le_cancel_right1\<close>)
    then show ?thesis by (simp add: 1 mult.commute)
  next
    case 2
    then show ?thesis using cur by (simp add: f64_inf_def f64_le_def)
  qed
  have "\<not> f64_less (f64_mul (f64_round q) (Fin c)) (Fin m)"
    using mul mn(2) by (cases "f64_mul (f64_round q) (Fin c)") (auto simp: f64_le_def f64_eq_def)
  then have dd: "next_ddiff vd (RingAvg tb) (Fin c) = Some (f64_round q)"
    using slow mn x2 a(1) by (simp add: next_ddiff_def Let_def avg N [unfolded N_def] q_def [unfolded N_def])
  have "\<not> f64_le (f64_mul (Fin c) (f64_round q)) (Fin 0)"
    using mul cur(1) by (cases "f64_mul (Fin c) (f64_round q)") (auto simp: f64_le_def f64_eq_def)
  with CalcNextDiff_retarget [OF run(1,3,2) dd] mul show ?thesis by auto
qed

text \<open>
  At a concrete miner: target 15 s, one share in the 200 s since the last retarget, current
  difficulty 8 with a minimum of 1.
\<close>

definition slow_vd :: var_diff where
  "slow_vd = \<lparr>vd_Options = \<lparr>vo_MinDiff = Fin 1, vo_MaxDiff = Fin 64, vo_TargetTime = 15, vo_RetargetTime = 90,
       vo_VariancePercent = Fin (1 / 4), vo_X2Mode = False\<rparr>,
     vd_BufferSize = 24, vd_MaxTargetTime = Fin (75 / 4), vd_MinTargetTime = Fin (45 / 4),
     vd_TimeBuffer = NewRingBuffer 24, vd_LastRtc = 1000, vd_LastTimestamp = 1000\<rparr>"

theorem slow_miner_not_eased_witness:
  "\<exists>d vd'. CalcNextDiff 1200 (Fin 8) slow_vd = Inr (d, vd') \<and> f64_le (Fin 8) d"
proof -
  define tb where "tb = \<lparr>rb_IsFull = False, rb_MaxSize = 24, rb_Cursor = 1, rb_Data = [200]\<rparr>"
  have app: "RingAppend (1200 - vd_LastTimestamp slow_vd) (vd_TimeBuffer slow_vd) = Inr tb"
    by (simp add: RingAppend_def slow_vd_def NewRingBuffer_def tb_def)
  have avg: "RingAvg tb = Fin 200"
    using f64_of_int_exact [of 200] f64_of_int_exact [of 1] rnd64_of_int [of 200]
    by (simp add: RingAvg_def RingSize_def tb_def f64_round_def)
  have "rnd64 8 = 8" using rnd64_of_int [of 8] by simp
  then show ?thesis
    by (intro slow_miner_not_eased [where a = 200 and tb = tb and m = 1] app avg)
      (simp_all add: slow_vd_def)
qed

end
