(* ===== verification/Bans.thy ===== *)
theory Bans
  imports GoFloat GoText
begin

text \<open>
  \<open>bans/banning.go\<close>: the table of banned addresses. \<open>time.Time\<close> values are nanoseconds,
  and the current time is an argument of every operation that reads the clock. The purge
  goroutine of \<open>Init\<close> appears as its loop body \<open>BanPurge\<close>, one tick at a time.
\<close>

record banning_options =
  bo_Time :: int
  bo_InvalidPercent :: f64
  bo_CheckThreshold :: u64
  bo_PurgeInterval :: int

record banning_manager =
  bm_Options :: banning_options
  bm_BannedIPList :: "string \<rightharpoonup> int"

definition NewBanningManager :: "banning_options \<Rightarrow> banning_manager" where
  "NewBanningManager options = \<lparr>bm_Options = options, bm_BannedIPList = Map.empty\<rparr>"

definition ban_nanos :: "banning_manager \<Rightarrow> int" where
  "ban_nanos bm = bo_Time (bm_Options bm) * 1000000000"

text \<open>One tick: every entry older than the ban time is deleted.\<close>

definition BanPurge :: "int \<Rightarrow> banning_manager \<Rightarrow> banning_manager" where
  "BanPurge now bm =
     bm\<lparr>bm_BannedIPList := (\<lambda>ip. case bm_BannedIPList bm ip of
           None \<Rightarrow> None
         | Some banTime \<Rightarrow> if ban_nanos bm < now - banTime then None else Some banTime)\<rparr>"

definition CheckBan :: "int \<Rightarrow> string \<Rightarrow> banning_manager \<Rightarrow> bool \<times> banning_manager" where
  "CheckBan now strRemoteAddr bm =
     (case bm_BannedIPList bm strRemoteAddr of
        Some bannedTime \<Rightarrow>
          (let bannedTimeAgo = now - bannedTime; timeLeft = ban_nanos bm - bannedTimeAgo
           in if 0 < timeLeft then (True, bm)
              else (False, bm\<lparr>bm_BannedIPList := (bm_BannedIPList bm)(strRemoteAddr := None)\<rparr>))
      | None \<Rightarrow> (False, bm))"

definition AddBannedIP :: "int \<Rightarrow> string \<Rightarrow> banning_manager \<Rightarrow> banning_manager" where
  "AddBannedIP now strRemoteAddr bm = bm\<lparr>bm_BannedIPList := (bm_BannedIPList bm)(strRemoteAddr \<mapsto> now)\<rparr>"

subsection \<open>The ban log\<close>

text \<open>
  The specification keeps the history of operations; the table is its implementation. The
  operations run by the connections and by the purge goroutine interleave in any order, each
  at the time it carries.
\<close>

datatype ban_op = OpAdd int string | OpCheck int string | OpPurge int

fun op_time :: "ban_op \<Rightarrow> int" where
  "op_time (OpAdd t _) = t"
| "op_time (OpCheck t _) = t"
| "op_time (OpPurge t) = t"

fun ban_step :: "ban_op \<Rightarrow> banning_manager \<Rightarrow> banning_manager" where
  "ban_step (OpAdd t ip) bm = AddBannedIP t ip bm"
| "ban_step (OpCheck t ip) bm = snd (CheckBan t ip bm)"
| "ban_step (OpPurge t) bm = BanPurge t bm"

definition ban_run :: "ban_op list \<Rightarrow> banning_manager \<Rightarrow> banning_manager" where
  "ban_run ops bm = fold ban_step ops bm"

text \<open>The time of the last ban of an address, and whether it is still in force.\<close>

fun last_ban :: "string \<Rightarrow> ban_op list \<Rightarrow> int option" where
  "last_ban ip [] = None"
| "last_ban ip (x # ops) =
     (case last_ban ip ops of
        Some t \<Rightarrow> Some t
      | None \<Rightarrow> (case x of OpAdd t ip' \<Rightarrow> if ip' = ip then Some t else None | _ \<Rightarrow> None))"

definition ban_in_force :: "int \<Rightarrow> int \<Rightarrow> string \<Rightarrow> ban_op list \<Rightarrow> bool" where
  "ban_in_force dur now ip ops = (case last_ban ip ops of None \<Rightarrow> False | Some t \<Rightarrow> now < t + dur)"

lemma last_ban_snoc [simp]:
  "last_ban ip (ops @ [x]) = (case x of OpAdd t ip' \<Rightarrow> if ip' = ip then Some t else last_ban ip ops | _ \<Rightarrow> last_ban ip ops)"
  by (induction ops) (auto split: ban_op.splits option.splits)

text \<open>The table holds the last ban of an address unless that ban is over.\<close>

definition ban_rel :: "int \<Rightarrow> int \<Rightarrow> ban_op list \<Rightarrow> banning_manager \<Rightarrow> bool" where
  "ban_rel dur now ops bm \<longleftrightarrow> ban_nanos bm = dur \<and>
     (\<forall>ip. bm_BannedIPList bm ip = last_ban ip ops \<or>
           (bm_BannedIPList bm ip = None \<and> \<not> ban_in_force dur now ip ops))"

lemma ban_nanos_step [simp]: "ban_nanos (ban_step x bm) = ban_nanos bm"
  by (cases x) (auto simp: AddBannedIP_def CheckBan_def BanPurge_def ban_nanos_def split: option.splits)

lemma ban_rel_lookup:
  "ban_rel dur now ops bm \<Longrightarrow> bm_BannedIPList bm ip = Some t \<Longrightarrow> last_ban ip ops = Some t"
  by (auto simp: ban_rel_def) (metis option.distinct(1))

lemma ban_rel_later: "ban_rel dur now ops bm \<Longrightarrow> now \<le> now' \<Longrightarrow> ban_rel dur now' ops bm"
proof -
  assume rel: "ban_rel dur now ops bm" and le: "now \<le> now'"
  have "\<not> ban_in_force dur now ip ops \<Longrightarrow> \<not> ban_in_force dur now' ip ops" for ip
    using le by (auto simp: ban_in_force_def split: option.splits)
  with rel show ?thesis unfolding ban_rel_def by blast
qed

lemma ban_rel_step:
  assumes "ban_rel dur now ops bm" "op_time x = now"
  shows "ban_rel dur now (ops @ [x]) (ban_step x bm)"
proof (cases x)
  case (OpAdd t ip)
  then show ?thesis using assms by (auto simp: ban_rel_def AddBannedIP_def ban_in_force_def ban_nanos_def)
next
  case (OpCheck t ip)
  then show ?thesis using assms ban_rel_lookup [OF assms(1), of ip]
    by (auto simp: ban_rel_def CheckBan_def ban_in_force_def ban_nanos_def split: option.splits)
next
  case (OpPurge t)
  have now: "t = now" using OpPurge assms(2) by simp
  have *: "bm_BannedIPList bm ip = last_ban ip ops \<or> (bm_BannedIPList bm ip = None \<and> \<not> ban_in_force dur now ip ops)" for ip
    using assms(1) by (simp add: ban_rel_def)
  have dur: "ban_nanos bm = dur" using assms(1) by (simp add: ban_rel_def)
  have "bm_BannedIPList (BanPurge t bm) ip = last_ban ip ops \<or>
      (bm_BannedIPList (BanPurge t bm) ip = None \<and> \<not> ban_in_force dur now ip ops)" for ip
    using * [of ip] now dur by (cases "bm_BannedIPList bm ip") (auto simp: BanPurge_def ban_in_force_def split: option.splits)
  then show ?thesis using OpPurge dur by (simp add: ban_rel_def ban_in_force_def BanPurge_def ban_nanos_def)
qed

lemma ban_rel_run:
  "sorted (map op_time ops) \<Longrightarrow> (\<forall>x\<in>set ops. op_time x \<le> now) \<Longrightarrow>
   ban_rel (ban_nanos (NewBanningManager opt)) now ops (ban_run ops (NewBanningManager opt))"
proof (induction ops arbitrary: now rule: rev_induct)
  case Nil
  then show ?case by (simp add: ban_rel_def ban_run_def NewBanningManager_def)
next
  case (snoc x ops)
  then have "ban_rel (ban_nanos (NewBanningManager opt)) (op_time x) ops (ban_run ops (NewBanningManager opt))"
    by (intro snoc.IH) (auto simp: sorted_append)
  from ban_rel_later [OF ban_rel_step [OF this refl], of now] snoc.prems show ?case
    by (simp add: ban_run_def)
qed

lemma CheckBan_rel:
  "ban_rel dur now ops bm \<Longrightarrow> fst (CheckBan now ip bm) = ban_in_force dur now ip ops"
  using ban_rel_lookup [of dur now ops bm ip]
  by (auto simp: ban_rel_def CheckBan_def ban_in_force_def split: option.splits) force+

subsection \<open>Properties\<close>

text \<open>
  C26. A ban lasts exactly the configured number of seconds. After any interleaving of bans,
  checks and purge ticks in time order, \<open>CheckBan\<close> answers true for an address exactly when
  the address has been banned and less than \<open>Time\<close> seconds have passed since its latest
  ban. In particular neither the deletion inside \<open>CheckBan\<close> nor the purge goroutine ever
  lifts a ban early or keeps one alive.
\<close>

theorem ban_lasts_exactly:
  assumes "sorted (map op_time ops)" "\<forall>x\<in>set ops. op_time x \<le> now"
  shows "fst (CheckBan now ip (ban_run ops (NewBanningManager opt))) =
           ban_in_force (bo_Time opt * 1000000000) now ip ops"
  using CheckBan_rel [OF ban_rel_run [OF assms], of ip opt]
  by (simp add: ban_nanos_def NewBanningManager_def)

theorem ban_lasts_exactly_witness:
  "fst (CheckBan 4000000000 ''10.0.0.1''
     (ban_run [OpAdd 1000000000 ''10.0.0.1'', OpPurge 2000000000, OpCheck 3000000000 ''10.0.0.2'']
        (NewBanningManager \<lparr>bo_Time = 5, bo_InvalidPercent = Fin 50, bo_CheckThreshold = 10, bo_PurgeInterval = 1\<rparr>)))"
  using ban_lasts_exactly [of "[OpAdd 1000000000 ''10.0.0.1'', OpPurge 2000000000, OpCheck 3000000000 ''10.0.0.2'']"
      4000000000 "''10.0.0.1''" "\<lparr>bo_Time = 5, bo_InvalidPercent = Fin 50, bo_CheckThreshold = 10, bo_PurgeInterval = 1\<rparr>"]
  by (simp add: ban_in_force_def)

end
