(* ===== verification/StratumClient.thy ===== *)
theory StratumClient
  imports Jobs Vardiff Bans GoMonad
begin

text \<open>
  \<open>stratum/client.go\<close>, \<open>stratum/shares.go\<close> and \<open>stratum/subscriptionCounter.go\<close>: the handlers of
  one miner connection on the Bitcoin (getblocktemplate) path. The state of a handler is the
  client with the messages written to its socket, and what clients share: the ban table, the
  job manager, the queue of shares handed to the storage, and the world of the daemons. All
  clock reads of one handler return the same \<open>now\<close>, in nanoseconds. The environment \<open>env\<close> holds
  what handlers only read.
\<close>

record shares_count =
  sc_Valid :: u64
  sc_Invalid :: u64

definition TotalShares :: "shares_count \<Rightarrow> u64" where
  "TotalShares s = sc_Valid s + sc_Invalid s"

definition BadPercent :: "shares_count \<Rightarrow> f64" where
  "BadPercent s = f64_div (f64_of_u64 (sc_Invalid s * 100)) (f64_of_u64 (TotalShares s))"

definition SharesReset :: "shares_count \<Rightarrow> shares_count" where
  "SharesReset s = s\<lparr>sc_Invalid := 0, sc_Valid := 0\<rparr>"

record subscription_counter =
  ctr_Count :: u64
  ctr_Padding :: bytes

definition NewSubscriptionCounter :: subscription_counter where
  "NewSubscriptionCounter = \<lparr>ctr_Count = 0, ctr_Padding = []\<rparr>"

definition NextSubscription :: "subscription_counter \<Rightarrow> bytes \<times> subscription_counter" where
  "NextSubscription c =
     (let n = ctr_Count c + 1; n = (if n = - 1 then 0 else n)
      in (ctr_Padding c @ le_bytes 8 (unat n), c\<lparr>ctr_Count := n\<rparr>))"

datatype message = MRequest rpc_request | MResponse rpc_response

text \<open>
  A client. \<open>cl_SocketClosedEvent\<close> tells whether the channel has been made (a nil channel
  blocks every send for ever); \<open>cl_SocketOpen\<close> is False once the socket has been closed;
  \<open>cl_out\<close> lists the messages written to the socket, oldest first.
\<close>

record client =
  cl_SubscriptionId :: bytes
  cl_RemoteAddress :: string
  cl_LastActivity :: int
  cl_Shares :: shares_count
  cl_IsAuthorized :: bool
  cl_SubscriptionBeforeAuth :: bool
  cl_ExtraNonce1 :: "bytes option"
  cl_VarDiff :: "var_diff option"
  cl_WorkerName :: string
  cl_WorkerPass :: string
  cl_PendingDifficulty :: "bigfloat option"
  cl_CurrentDifficulty :: "bigfloat option"
  cl_PreviousDifficulty :: "bigfloat option"
  cl_SocketClosedEvent :: bool
  cl_SocketOpen :: bool
  cl_out :: "message list"

record 'w session =
  s_cl :: client
  s_bm :: banning_manager
  s_jm :: job_manager
  s_store :: "(share \<times> bool) list"
  s_world :: 'w

record 'w stratum_env =
  e_rpc :: "'w transport"
  e_decode_gbt :: "iface option \<Rightarrow> block_template option"
  e_dm :: daemon_manager
  e_al :: address_libs
  e_ar :: algo_registry
  e_PortDiff :: "f64 option"
  e_PortVarDiff :: "vardiff_options option"
  e_ConnectionTimeout :: int
  e_Banning :: "banning_options option"

definition big_zero :: bigfloat where
  "big_zero = \<lparr>bf_prec = 53, bf_val = Fin 0\<rparr>"

text \<open>\<open>NewStratumClient\<close> on the Bitcoin path: \<open>SocketClosedEvent\<close> is not initialised.\<close>

definition NewStratumClient :: "'w stratum_env \<Rightarrow> int \<Rightarrow> bytes \<Rightarrow> bytes \<Rightarrow> string \<Rightarrow> client res" where
  "NewStratumClient env now rand subscriptionId remote =
     rbind (case e_PortVarDiff env of
              None \<Rightarrow> Inr None
            | Some vo \<Rightarrow> rbind (NewVarDiff (now div 1000000000) vo) (\<lambda>vd. Inr (Some vd))) (\<lambda>varDiff.
       Inr \<lparr>cl_SubscriptionId = subscriptionId, cl_RemoteAddress = remote, cl_LastActivity = now,
            cl_Shares = \<lparr>sc_Valid = 0, sc_Invalid = 0\<rparr>, cl_IsAuthorized = False, cl_SubscriptionBeforeAuth = False,
            cl_ExtraNonce1 = Some (GetExtraNonce1 rand), cl_VarDiff = varDiff, cl_WorkerName = '''', cl_WorkerPass = '''',
            cl_PendingDifficulty = Some big_zero, cl_CurrentDifficulty = None, cl_PreviousDifficulty = None,
            cl_SocketClosedEvent = False, cl_SocketOpen = True, cl_out = []\<rparr>)"

subsection \<open>State access\<close>

definition upd_cl :: "(client \<Rightarrow> client) \<Rightarrow> ('w session, unit) go" where
  "upd_cl f = go_modify (\<lambda>s. s\<lparr>s_cl := f (s_cl s)\<rparr>)"

definition get_cl :: "(client \<Rightarrow> 'a) \<Rightarrow> ('w session, 'a) go" where
  "get_cl f = go_get (\<lambda>s. f (s_cl s))"

definition SendJsonRPC :: "message \<Rightarrow> ('w session, unit) go" where
  "SendJsonRPC m = upd_cl (\<lambda>c. c\<lparr>cl_out := cl_out c @ [m]\<rparr>)"

definition SocketClose :: "('w session, unit) go" where
  "SocketClose = upd_cl (\<lambda>c. c\<lparr>cl_SocketOpen := False\<rparr>)"

text \<open>\<open>sc.SocketClosedEvent <- struct{}{}\<close>\<close>

definition send_closed :: "('w session, unit) go" where
  "send_closed = go_bind (get_cl cl_SocketClosedEvent) (\<lambda>made.
     if made then go_return () else go_fail (Blocks ''send on nil channel''))"

subsection \<open>The handlers\<close>

definition ShouldBan :: "'w stratum_env \<Rightarrow> int \<Rightarrow> bool \<Rightarrow> ('w session, bool) go" where
  "ShouldBan env now shareValid =
     (if shareValid then
        go_seq (upd_cl (\<lambda>c. c\<lparr>cl_Shares := (cl_Shares c)\<lparr>sc_Valid := sc_Valid (cl_Shares c) + 1\<rparr>\<rparr>)) (go_return False)
      else
        go_seq (upd_cl (\<lambda>c. c\<lparr>cl_Shares := (cl_Shares c)\<lparr>sc_Invalid := sc_Invalid (cl_Shares c) + 1\<rparr>\<rparr>))
        (go_bind (go_deref (e_Banning env)) (\<lambda>bo.
         go_bind (get_cl cl_Shares) (\<lambda>sh.
           if bo_CheckThreshold bo \<le> TotalShares sh then
             (if f64_less (BadPercent sh) (bo_InvalidPercent bo) then
                go_seq (upd_cl (\<lambda>c. c\<lparr>cl_Shares := SharesReset (cl_Shares c)\<rparr>)) (go_return False)
              else
                go_seq (go_modify (\<lambda>s. s\<lparr>s_bm := AddBannedIP now (cl_RemoteAddress (s_cl s)) (s_bm s)\<rparr>))
                (go_seq send_closed
                (go_seq SocketClose (go_return True))))
           else go_return False))))"

definition EnqueueNextDifficulty :: "f64 \<Rightarrow> ('w session, bool) go" where
  "EnqueueNextDifficulty nextDiff =
     go_bind (go_lift (bf_new nextDiff)) (\<lambda>d.
     go_seq (upd_cl (\<lambda>c. c\<lparr>cl_PendingDifficulty := Some d\<rparr>)) (go_return True))"

definition set_difficulty_msg :: "iface \<Rightarrow> bigfloat \<Rightarrow> message" where
  "set_difficulty_msg i d =
     MRequest \<lparr>rq_Id = i, rq_Method = ''mining.set_difficulty'', rq_Params = Some (MarshalParams [INum (bf_float64 d)])\<rparr>"

definition SendDifficulty :: "bigfloat option \<Rightarrow> ('w session, bool) go" where
  "SendDifficulty diff =
     (case diff of
        None \<Rightarrow> go_fail (Fatal ''trying to send empty diff!'')
      | Some d \<Rightarrow>
          go_bind (get_cl cl_CurrentDifficulty) (\<lambda>cur.
            if (case cur of Some c \<Rightarrow> bf_val d = bf_val c | None \<Rightarrow> False) then go_return False
            else
              go_seq (upd_cl (\<lambda>c. c\<lparr>cl_PreviousDifficulty := cl_CurrentDifficulty c, cl_CurrentDifficulty := Some d\<rparr>))
              (go_seq (SendJsonRPC (set_difficulty_msg (IInt 0) d)) (go_return True))))"

text \<open>\<open>PendingDifficulty != nil && PendingDifficulty.Cmp(0) != 0\<close>: send it and clear it.\<close>

definition flush_pending :: "('w session, unit) go" where
  "flush_pending =
     go_bind (get_cl cl_PendingDifficulty) (\<lambda>p.
       case p of
         None \<Rightarrow> go_return ()
       | Some d \<Rightarrow>
           if bf_val d = Fin 0 then go_return ()
           else go_seq (SendDifficulty (Some d)) (upd_cl (\<lambda>c. c\<lparr>cl_PendingDifficulty := None\<rparr>)))"

definition notify_msg :: "iface list \<Rightarrow> message" where
  "notify_msg jobParams = MRequest \<lparr>rq_Id = INil, rq_Method = ''mining.notify'', rq_Params = Some (MarshalParams jobParams)\<rparr>"

definition SendMiningJob :: "'w stratum_env \<Rightarrow> int \<Rightarrow> iface list \<Rightarrow> ('w session, unit) go" where
  "SendMiningJob env now jobParams =
     go_bind (get_cl cl_LastActivity) (\<lambda>la.
       if e_ConnectionTimeout env * 1000000000 < now - la then go_seq SocketClose send_closed
       else go_seq flush_pending (SendJsonRPC (notify_msg jobParams)))"

definition current_params :: "int \<Rightarrow> ('w session, iface list) go" where
  "current_params now =
     go_bind (go_get (\<lambda>s. current_job (s_jm s))) (\<lambda>j.
     go_bind (go_deref j) (\<lambda>j. go_return (GetJobParams (now div 1000000000) j True)))"

definition HandleSubscribe :: "rpc_request \<Rightarrow> ('w session, unit) go" where
  "HandleSubscribe message =
     go_seq (upd_cl (\<lambda>c. if cl_IsAuthorized c then c else c\<lparr>cl_SubscriptionBeforeAuth := True\<rparr>))
     (go_bind (go_get (\<lambda>s. jm_ExtraNonce2Size (s_jm s))) (\<lambda>extraNonce2Size.
      go_bind (get_cl id) (\<lambda>c.
      go_bind (go_lift (le_read 8 (cl_SubscriptionId c))) (\<lambda>subId.
        SendJsonRPC (MResponse \<lparr>rs_Id = rq_Id message,
          rs_Result = Some (IList [
            IList [IList [IStr ''mining.set_difficulty'', IStr (fmt_uint 10 subId)],
                   IList [IStr ''mining.notify'', IStr (fmt_uint 10 subId)]],
            IStr (hex_encode (case cl_ExtraNonce1 c of Some e \<Rightarrow> e | None \<Rightarrow> [])),
            IInt extraNonce2Size]), rs_Error = None\<rparr>)))))"

text \<open>\<open>AuthorizeFn\<close> authorizes everybody, so the branches of \<open>HandleAuthorize\<close> for a refused or
  disconnected worker are not reached.\<close>

definition AuthorizeFn :: "string \<Rightarrow> string \<Rightarrow> string \<Rightarrow> bool \<times> bool" where
  "AuthorizeFn ip workerName password = (True, False)"

definition HandleAuthorize :: "'w stratum_env \<Rightarrow> int \<Rightarrow> rpc_request \<Rightarrow> bool \<Rightarrow> ('w session, unit) go" where
  "HandleAuthorize env now message replyToSocket =
     (let authParams = ParamsArray message in
      if length authParams < 2 then go_return ()
      else
        go_seq (upd_cl (\<lambda>c. c\<lparr>cl_WorkerName := RawJsonToString (authParams ! 0), cl_WorkerPass := RawJsonToString (authParams ! 1)\<rparr>))
        (go_bind (get_cl id) (\<lambda>c.
         case AuthorizeFn (cl_RemoteAddress c) (cl_WorkerName c) (cl_WorkerPass c) of (authorized, disconnect) \<Rightarrow>
           go_seq (upd_cl (\<lambda>c. c\<lparr>cl_IsAuthorized := authorized\<rparr>))
           (go_seq (go_when replyToSocket
              (SendJsonRPC (MResponse \<lparr>rs_Id = rq_Id message, rs_Result = Some (IBool authorized),
                 rs_Error = (if authorized then None else Some \<lparr>re_Code = 20, re_Message = ''null''\<rparr>)\<rparr>)))
           (go_seq (go_when disconnect (go_seq SocketClose send_closed))
           (go_bind (go_deref (e_PortDiff env)) (\<lambda>diff.
            go_bind (go_lift (bf_new diff)) (\<lambda>d.
            go_seq (SendDifficulty (Some d))
            (go_bind (current_params now) (\<lambda>params. SendMiningJob env now params)))))))))) "

definition error_response :: "iface \<Rightarrow> iface option \<Rightarrow> int \<Rightarrow> string \<Rightarrow> message" where
  "error_response i result code msg = MResponse \<lparr>rs_Id = i, rs_Result = result, rs_Error = Some \<lparr>re_Code = code, re_Message = msg\<rparr>\<rparr>"

definition ok_response :: "iface \<Rightarrow> message" where
  "ok_response i = MResponse \<lparr>rs_Id = i, rs_Result = Some (IBool True), rs_Error = None\<rparr>"

text \<open>\<open>JobManager.ProcessSubmit\<close> and \<open>ProcessShare\<close> on the shared state.\<close>

definition submit_to_jobs :: "'w stratum_env \<Rightarrow> int \<Rightarrow> bytes \<Rightarrow> bytes \<Rightarrow> iface list \<Rightarrow> ('w session, share) go" where
  "submit_to_jobs env now rand extraNonce1 p =
     go_bind (go_get id) (\<lambda>s.
     go_bind (go_lift (ProcessSubmit (e_ar env) (now div 1000000000) (RawJsonToString (p ! 1))
          (cl_PreviousDifficulty (s_cl s)) (cl_CurrentDifficulty (s_cl s)) extraNonce1
          (RawJsonToString (p ! 2)) (RawJsonToString (p ! 3)) (RawJsonToString (p ! 4))
          (cl_RemoteAddress (s_cl s)) (RawJsonToString (p ! 0)) (s_jm s))) (\<lambda>(share, jm).
     go_seq (go_modify (\<lambda>s. s\<lparr>s_jm := jm\<rparr>))
     (go_bind (\<lambda>s. case ProcessShare (e_rpc env) (e_decode_gbt env) (e_dm env) (e_al env) (now div 1000000000) rand share (s_jm s) (s_world s) of
                     (Inl e, w) \<Rightarrow> (Inl e, s\<lparr>s_world := w\<rparr>)
                   | (Inr (share, isAccepted, jm), w) \<Rightarrow>
                       (Inr share, s\<lparr>s_world := w, s_jm := jm, s_store := s_store s @ [(share, isAccepted)]\<rparr>))
        go_return)))"

definition retarget :: "int \<Rightarrow> ('w session, unit) go" where
  "retarget now =
     go_bind (get_cl id) (\<lambda>c.
       case cl_VarDiff c of
         None \<Rightarrow> go_return ()
       | Some vd \<Rightarrow>
           go_bind (go_deref (cl_CurrentDifficulty c)) (\<lambda>cd.
             let diff = bf_float64 cd in
             go_bind (go_lift (CalcNextDiff (now div 1000000000) diff vd)) (\<lambda>(nextDiff, vd).
               go_seq (upd_cl (\<lambda>c. c\<lparr>cl_VarDiff := Some vd\<rparr>))
               (go_when (\<not> f64_eq nextDiff diff \<and> \<not> f64_eq nextDiff (Fin 0))
                  (go_bind (EnqueueNextDifficulty nextDiff) (\<lambda>_. go_return ()))))))"

definition HandleSubmit :: "'w stratum_env \<Rightarrow> int \<Rightarrow> bytes \<Rightarrow> rpc_request \<Rightarrow> ('w session, unit) go" where
  "HandleSubmit env now rand message =
     (let reject = (\<lambda>code msg. go_seq (SendJsonRPC (error_response (rq_Id message) None code msg))
                                (go_bind (ShouldBan env now False) (\<lambda>_. go_return ())));
          submitParams = ParamsArray message in
      go_bind (get_cl id) (\<lambda>c.
        if \<not> cl_IsAuthorized c then reject 24 ''unauthorized worker''
        else
          (case cl_ExtraNonce1 c of
             None \<Rightarrow> reject 25 ''not subscribed''
           | Some extraNonce1 \<Rightarrow>
               if length submitParams < 5 then reject 24 ''malformed submit params''
               else
                 go_bind (submit_to_jobs env now rand extraNonce1 submitParams) (\<lambda>share.
                 go_seq (go_when (sh_ErrorCode share = ErrLowDiffShare)
                    (go_bind (get_cl cl_CurrentDifficulty) (\<lambda>cd.
                     go_bind (go_deref cd) (\<lambda>d. SendJsonRPC (set_difficulty_msg INil d)))))
                 (go_seq (go_when (sh_ErrorCode share = ErrNTimeOutOfRange)
                    (go_bind (current_params now) (\<lambda>params. SendMiningJob env now params)))
                 (go_seq (retarget now)
                 (go_seq flush_pending
                 (go_bind (ShouldBan env now (sh_ErrorCode share = 0)) (\<lambda>banned.
                    if banned then go_return ()
                    else
                      go_seq (go_when (sh_ErrorCode share \<noteq> 0)
                        (SendJsonRPC (error_response (rq_Id message) (Some (IBool False)) (sh_ErrorCode share) (ErrorString (sh_ErrorCode share)))))
                      (SendJsonRPC (ok_response (rq_Id message)))))))))))) "

definition HandleMessage :: "'w stratum_env \<Rightarrow> int \<Rightarrow> bytes \<Rightarrow> rpc_request \<Rightarrow> ('w session, unit) go" where
  "HandleMessage env now rand message =
     (if rq_Method message = ''mining.subscribe'' then HandleSubscribe message
      else if rq_Method message = ''mining.authorize'' then HandleAuthorize env now message True
      else if rq_Method message = ''mining.submit'' then
        go_seq (upd_cl (\<lambda>c. c\<lparr>cl_LastActivity := now\<rparr>)) (HandleSubmit env now rand message)
      else if rq_Method message = ''mining.get_transactions'' then
        SendJsonRPC (MResponse \<lparr>rs_Id = IInt 0, rs_Result = None, rs_Error = None\<rparr>)
      else go_return ())"

definition GetLabel :: "client \<Rightarrow> string" where
  "GetLabel c = (if cl_WorkerName c \<noteq> '''' then cl_WorkerName c @ '' ['' @ cl_RemoteAddress c @ '']''
                 else ''(unauthorized)'' @ '' ['' @ cl_RemoteAddress c @ '']'')"

definition ManuallySetValues :: "client \<Rightarrow> ('w session, unit) go" where
  "ManuallySetValues otherClient =
     upd_cl (\<lambda>c. c\<lparr>cl_ExtraNonce1 := cl_ExtraNonce1 otherClient, cl_PreviousDifficulty := cl_PreviousDifficulty otherClient,
                  cl_CurrentDifficulty := cl_CurrentDifficulty otherClient\<rparr>)"

definition ManuallyAuthClient :: "'w stratum_env \<Rightarrow> int \<Rightarrow> string \<Rightarrow> string \<Rightarrow> ('w session, unit) go" where
  "ManuallyAuthClient env now username password =
     HandleAuthorize env now \<lparr>rq_Id = IInt 1, rq_Method = '''', rq_Params = Some (MarshalParams [IStr username, IStr password])\<rparr> False"

lemma NewStratumClient_fields:
  "NewStratumClient env t rand0 sid ip = Inr c \<Longrightarrow>
   cl_out c = [] \<and> cl_CurrentDifficulty c = None \<and> cl_SocketClosedEvent c = False \<and> cl_RemoteAddress c = ip \<and>
   cl_SocketOpen c \<and> cl_Shares c = \<lparr>sc_Valid = 0, sc_Invalid = 0\<rparr> \<and> \<not> cl_IsAuthorized c"
  by (auto simp: NewStratumClient_def rbind_eq_Inr)

subsection \<open>Sequences of messages\<close>

text \<open>The messages of one connection in the order they arrive, each with its time and random bytes.\<close>

fun handle_all :: "'w stratum_env \<Rightarrow> (int \<times> bytes \<times> rpc_request) list \<Rightarrow> ('w session, unit) go" where
  "handle_all env [] = go_return ()"
| "handle_all env ((now, rand, msg) # ms) = go_seq (HandleMessage env now rand msg) (handle_all env ms)"

lemma upd_cl_run [simp]: "upd_cl f s = (Inr (), s\<lparr>s_cl := f (s_cl s)\<rparr>)"
  by (simp add: upd_cl_def)

lemma get_cl_run [simp]: "get_cl f s = (Inr (f (s_cl s)), s)"
  by (simp add: get_cl_def)

lemma SendJsonRPC_run [simp]: "SendJsonRPC m s = (Inr (), s\<lparr>s_cl := (s_cl s)\<lparr>cl_out := cl_out (s_cl s) @ [m]\<rparr>\<rparr>)"
  by (simp add: SendJsonRPC_def)

lemma SocketClose_run [simp]: "SocketClose s = (Inr (), s\<lparr>s_cl := (s_cl s)\<lparr>cl_SocketOpen := False\<rparr>\<rparr>)"
  by (simp add: SocketClose_def)

lemma send_closed_run:
  "send_closed s = (if cl_SocketClosedEvent (s_cl s) then (Inr (), s) else (Inl (Blocks ''send on nil channel''), s))"
  by (simp add: send_closed_def)

lemma keeps_cl [inv_intros]:
  "(\<And>s. P s \<Longrightarrow> P (s\<lparr>s_cl := f (s_cl s)\<rparr>)) \<Longrightarrow> keeps P (upd_cl f)"
  "keeps P (get_cl g)"
  by (simp_all add: keeps_def)

lemma keeps_send_closed [inv_intros]: "keeps P send_closed"
  by (simp add: keeps_def send_closed_run)

lemma keeps_current_params [inv_intros]: "keeps P (current_params now)"
  unfolding current_params_def by (intro inv_intros)

lemma keeps_handle_all:
  "(\<And>now rand msg. keeps P (HandleMessage env now rand msg)) \<Longrightarrow> keeps P (handle_all env ms)"
  by (induction ms) (auto intro!: inv_intros)

lemma submit_to_jobs_cl: "submit_to_jobs env now rand e p s = (r, s') \<Longrightarrow> s_cl s' = s_cl s \<and> s_bm s' = s_bm s"
  by (auto simp: submit_to_jobs_def go_bind_run go_seq_def split: prod.splits sum.splits)

subsection \<open>Invariants of a client\<close>

text \<open>
  The interface between an invariant of the client record and the handlers: the writes the
  handlers make. An invariant that survives each of them is kept by every handler, on every
  way out. A change of difficulty and the message announcing it count as one write.
\<close>

locale session_invariant =
  fixes P :: "client \<Rightarrow> bool"
  assumes response: "P c \<Longrightarrow> P (c\<lparr>cl_out := cl_out c @ [MResponse r]\<rparr>)"
    and notify: "P c \<Longrightarrow> P (c\<lparr>cl_out := cl_out c @ [notify_msg p]\<rparr>)"
    and new_diff: "P c \<Longrightarrow> P (c\<lparr>cl_PreviousDifficulty := cl_CurrentDifficulty c, cl_CurrentDifficulty := Some d,
                                 cl_out := cl_out c @ [set_difficulty_msg (IInt 0) d]\<rparr>)"
    and same_diff: "P c \<Longrightarrow> cl_CurrentDifficulty c = Some d \<Longrightarrow> P (c\<lparr>cl_out := cl_out c @ [set_difficulty_msg INil d]\<rparr>)"
    and counters: "P c \<Longrightarrow> P (c\<lparr>cl_Shares := x\<rparr>)"
    and closing: "P c \<Longrightarrow> P (c\<lparr>cl_SocketOpen := False\<rparr>)"
    and pending: "P c \<Longrightarrow> P (c\<lparr>cl_PendingDifficulty := pd\<rparr>)"
    and vardiff: "P c \<Longrightarrow> P (c\<lparr>cl_VarDiff := Some vd\<rparr>)"
    and worker: "P c \<Longrightarrow> P (c\<lparr>cl_WorkerName := n, cl_WorkerPass := pw\<rparr>)"
    and authorize: "P c \<Longrightarrow> P (c\<lparr>cl_IsAuthorized := True\<rparr>)"
    and subscribe: "P c \<Longrightarrow> P (c\<lparr>cl_SubscriptionBeforeAuth := True\<rparr>)"
    and activity: "P c \<Longrightarrow> P (c\<lparr>cl_LastActivity := t\<rparr>)"
begin

lemma keeps_response: "keeps (\<lambda>s. P (s_cl s)) (SendJsonRPC (MResponse r))"
  by (simp add: keeps_def response)

lemma keeps_close: "keeps (\<lambda>s. P (s_cl s)) SocketClose"
  by (simp add: keeps_def closing)

lemma keeps_ban: "keeps (\<lambda>s. P (s_cl s)) (ShouldBan env now v)"
  unfolding ShouldBan_def by (intro inv_intros keeps_close) (simp_all add: counters)

lemma keeps_diff: "keeps (\<lambda>s. P (s_cl s)) (SendDifficulty d)"
  by (cases d) (auto simp: keeps_def SendDifficulty_def go_seq_def go_bind_run new_diff split: option.splits)

lemma keeps_flush: "keeps (\<lambda>s. P (s_cl s)) flush_pending"
  unfolding flush_pending_def by (intro inv_intros keeps_diff) (simp add: pending)

lemma keeps_job: "keeps (\<lambda>s. P (s_cl s)) (SendMiningJob env now p)"
proof -
  have "keeps (\<lambda>s. P (s_cl s)) (SendJsonRPC (notify_msg p))" by (simp add: keeps_def notify)
  then show ?thesis unfolding SendMiningJob_def by (intro inv_intros keeps_flush keeps_close)
qed

lemma keeps_submit_to_jobs: "keeps (\<lambda>s. P (s_cl s)) (submit_to_jobs env now rand e p)"
  unfolding keeps_def by (metis submit_to_jobs_cl prod.collapse)

lemma keeps_retarget: "keeps (\<lambda>s. P (s_cl s)) (retarget now)"
  unfolding retarget_def EnqueueNextDifficulty_def Let_def by (intro inv_intros) (simp_all add: vardiff pending)

lemma keeps_warn: "keeps (\<lambda>s. P (s_cl s)) (go_bind (get_cl cl_CurrentDifficulty) (\<lambda>cd. go_bind (go_deref cd) (\<lambda>d. SendJsonRPC (set_difficulty_msg INil d))))"
  by (auto simp: keeps_def go_bind_run go_deref_def same_diff split: option.splits)

lemma keeps_submit: "keeps (\<lambda>s. P (s_cl s)) (HandleSubmit env now rand msg)"
  unfolding HandleSubmit_def Let_def error_response_def ok_response_def
  by (intro inv_intros keeps_response keeps_ban keeps_submit_to_jobs keeps_warn keeps_job keeps_retarget keeps_flush)

lemma keeps_authorize: "keeps (\<lambda>s. P (s_cl s)) (HandleAuthorize env now msg reply)"
  unfolding HandleAuthorize_def Let_def AuthorizeFn_def prod.case
  by (intro inv_intros keeps_response keeps_close keeps_diff keeps_job) (simp_all add: worker authorize)

lemma keeps_message: "keeps (\<lambda>s. P (s_cl s)) (HandleMessage env now rand msg)"
proof -
  have "keeps (\<lambda>s. P (s_cl s)) (HandleSubscribe msg)"
    unfolding HandleSubscribe_def by (intro inv_intros keeps_response) (simp add: subscribe)
  then show ?thesis
    unfolding HandleMessage_def by (intro inv_intros keeps_response keeps_submit keeps_authorize) (simp_all add: activity)
qed

lemma run_keeps: "handle_all env ms s = (r, s') \<Longrightarrow> P (s_cl s) \<Longrightarrow> P (s_cl s')"
  using keepsD [OF keeps_handle_all [OF keeps_message], of s env ms r s'] by simp

end

text \<open>The channel of a client and its address never change.\<close>

interpretation channel: session_invariant "\<lambda>c. cl_SocketClosedEvent c = made \<and> cl_RemoteAddress c = ip" for made ip
  by unfold_locales simp_all

text \<open>
  The difficulty a miner has been told: the parameter of the last \<open>mining.set_difficulty\<close>
  written to its socket.
\<close>

definition note_diff :: "f64 option \<Rightarrow> message \<Rightarrow> f64 option" where
  "note_diff acc m =
     (case m of
        MRequest r \<Rightarrow>
          (if rq_Method r = ''mining.set_difficulty''
           then (case rq_Params r of Some (IList [INum d]) \<Rightarrow> Some d | _ \<Rightarrow> acc) else acc)
      | MResponse _ \<Rightarrow> acc)"

definition told_diff :: "message list \<Rightarrow> f64 option" where
  "told_diff ms = foldl note_diff None ms"

lemma told_diff_simps [simp]:
  "told_diff [] = None" "told_diff (ms @ [MResponse r]) = told_diff ms" "told_diff (ms @ [notify_msg p]) = told_diff ms"
  "told_diff (ms @ [set_difficulty_msg i d]) = Some (bf_float64 d)"
  by (simp_all add: told_diff_def note_diff_def notify_msg_def set_difficulty_msg_def MarshalParams_def)

interpretation told: session_invariant "\<lambda>c. told_diff (cl_out c) = map_option bf_float64 (cl_CurrentDifficulty c)"
  by unfold_locales simp_all

subsection \<open>Properties\<close>

text \<open>
  C18. The miner always knows the difficulty its shares are judged by. For a client as
  \<open>NewStratumClient\<close> makes it, after any sequence of messages, also one that ended in a panic
  or a block, the last \<open>mining.set_difficulty\<close> written to the socket carries exactly the
  client's current difficulty, and none has been written while it has none.
\<close>

theorem difficulty_announced:
  assumes "NewStratumClient env t rand0 sid ip = Inr (s_cl s)" "handle_all env ms s = (r, s')"
  shows "told_diff (cl_out (s_cl s')) = map_option bf_float64 (cl_CurrentDifficulty (s_cl s'))"
proof -
  have "told_diff (cl_out (s_cl s)) = map_option bf_float64 (cl_CurrentDifficulty (s_cl s))"
    using NewStratumClient_fields [OF assms(1)] by simp
  then show ?thesis using told.run_keeps [OF assms(2)] by blast
qed

text \<open>
  A ban never closes the connection. \<open>NewStratumClient\<close> leaves the client's
  \<open>SocketClosedEvent\<close> channel nil. Whenever such a client, after any messages, sends an invalid
  share that reaches the banning threshold, \<open>ShouldBan\<close> records the ban and then blocks for
  ever on the channel: it does not return, and the socket has not been closed.
\<close>

theorem ban_blocks_forever:
  assumes made: "NewStratumClient env t rand0 sid ip = Inr (s_cl s0)" and run: "handle_all env ms s0 = (r, s)"
    and bo: "e_Banning env = Some bo"
    and limit: "bo_CheckThreshold bo \<le> TotalShares ((cl_Shares (s_cl s))\<lparr>sc_Invalid := sc_Invalid (cl_Shares (s_cl s)) + 1\<rparr>)"
      "\<not> f64_less (BadPercent ((cl_Shares (s_cl s))\<lparr>sc_Invalid := sc_Invalid (cl_Shares (s_cl s)) + 1\<rparr>)) (bo_InvalidPercent bo)"
  shows "\<exists>s'. ShouldBan env now False s = (Inl (Blocks ''send on nil channel''), s') \<and>
           s_bm s' = AddBannedIP now ip (s_bm s) \<and> cl_SocketOpen (s_cl s') = cl_SocketOpen (s_cl s)"
proof -
  have "cl_SocketClosedEvent (s_cl s0) = False \<and> cl_RemoteAddress (s_cl s0) = ip"
    using NewStratumClient_fields [OF made] by simp
  from channel.run_keeps [OF run this] bo limit show ?thesis
    by (simp add: ShouldBan_def go_seq_def go_bind_run send_closed_run)
qed

text \<open>
  Only authorized clients reach the job manager. A submission on a connection that has not
  been authorized leaves the job manager, the share queue, the daemons and the difficulties
  untouched, and the miner is answered with error 24.
\<close>

theorem unauthorized_submit_ignored:
  assumes "\<not> cl_IsAuthorized (s_cl s)" "HandleSubmit env now rand msg s = (r, s')"
  shows "s_jm s' = s_jm s \<and> s_store s' = s_store s \<and> s_world s' = s_world s \<and>
    cl_CurrentDifficulty (s_cl s') = cl_CurrentDifficulty (s_cl s) \<and>
    cl_out (s_cl s') = cl_out (s_cl s) @ [error_response (rq_Id msg) None 24 ''unauthorized worker'']"
  using assms
  by (auto simp: HandleSubmit_def Let_def ShouldBan_def go_seq_def go_bind_run send_closed_run go_deref_def
      split: option.splits if_splits)

text \<open>
  An invalid share is answered twice. When \<open>HandleSubmit\<close> has processed a share with an
  error code and returns with the socket open, the last two messages to the miner are the
  rejection with that code and then the acceptance of the same request.
\<close>

theorem invalid_share_acknowledged:
  assumes run: "HandleSubmit env now rand msg s = (Inr (), s')"
    and auth: "cl_IsAuthorized (s_cl s)" "cl_ExtraNonce1 (s_cl s) = Some en1" "5 \<le> length (ParamsArray msg)"
    and share: "submit_to_jobs env now rand en1 (ParamsArray msg) s = (Inr share, s1)" "sh_ErrorCode share \<noteq> 0"
    and open_: "cl_SocketOpen (s_cl s')"
  shows "\<exists>pre. cl_out (s_cl s') = pre @
     [error_response (rq_Id msg) (Some (IBool False)) (sh_ErrorCode share) (ErrorString (sh_ErrorCode share)), ok_response (rq_Id msg)]"
proof -
  from run auth share obtain s2 banned s3 where ban: "ShouldBan env now False s2 = (Inr banned, s3)" and
    tail: "(if banned then go_return () else
        go_seq (go_when (sh_ErrorCode share \<noteq> 0)
          (SendJsonRPC (error_response (rq_Id msg) (Some (IBool False)) (sh_ErrorCode share) (ErrorString (sh_ErrorCode share)))))
          (SendJsonRPC (ok_response (rq_Id msg)))) s3 = (Inr (), s')"
    by (simp add: HandleSubmit_def Let_def go_bind_eq_ok go_seq_eq_ok go_when_def) blast
  have "banned \<Longrightarrow> \<not> cl_SocketOpen (s_cl s3)"
    using ban by (auto simp: ShouldBan_def go_seq_def go_bind_run send_closed_run go_deref_def split: option.splits if_splits)
  with tail open_ share(2) show ?thesis by (cases banned) auto
qed

definition ex_env :: "unit stratum_env" where
  "ex_env = \<lparr>e_rpc = (\<lambda>_ _ _ w. (NoResponse, w)), e_decode_gbt = (\<lambda>_. None), e_dm = ex_manager, e_al = ex_libs,
     e_ar = ex_registry, e_PortDiff = Some (Fin 1), e_PortVarDiff = None, e_ConnectionTimeout = 600,
     e_Banning = Some \<lparr>bo_Time = 600, bo_InvalidPercent = Fin 50, bo_CheckThreshold = 1, bo_PurgeInterval = 60\<rparr>\<rparr>"

definition ex_client :: client where
  "ex_client = \<lparr>cl_SubscriptionId = replicate 8 0, cl_RemoteAddress = ''10.0.0.1:4444'', cl_LastActivity = 0,
     cl_Shares = \<lparr>sc_Valid = 0, sc_Invalid = 0\<rparr>, cl_IsAuthorized = False, cl_SubscriptionBeforeAuth = False,
     cl_ExtraNonce1 = Some [1, 2, 3, 4], cl_VarDiff = None, cl_WorkerName = '''', cl_WorkerPass = '''',
     cl_PendingDifficulty = Some big_zero, cl_CurrentDifficulty = None, cl_PreviousDifficulty = None,
     cl_SocketClosedEvent = False, cl_SocketOpen = True, cl_out = []\<rparr>"

definition ex_session :: "unit session" where
  "ex_session = \<lparr>s_cl = ex_client,
     s_bm = NewBanningManager \<lparr>bo_Time = 600, bo_InvalidPercent = Fin 50, bo_CheckThreshold = 1, bo_PurgeInterval = 60\<rparr>,
     s_jm = ex_jm, s_store = [], s_world = ()\<rparr>"

definition ex_msg :: "string \<Rightarrow> string list \<Rightarrow> rpc_request" where
  "ex_msg m ps = \<lparr>rq_Id = IInt 7, rq_Method = m, rq_Params = Some (IList (map IStr ps))\<rparr>"

lemma ex_client_new: "NewStratumClient ex_env 0 [1, 2, 3, 4] (replicate 8 0) ''10.0.0.1:4444'' = Inr (s_cl ex_session)"
  by (simp add: NewStratumClient_def ex_env_def ex_session_def ex_client_def GetExtraNonce1_def ExtraNonce1Size_def)

theorem difficulty_announced_witness:
  "let s' = snd (handle_all ex_env [(5, [], ex_msg ''mining.authorize'' [''alice.rig1'', ''x''])] ex_session)
   in told_diff (cl_out (s_cl s')) = map_option bf_float64 (cl_CurrentDifficulty (s_cl s')) \<and> cl_CurrentDifficulty (s_cl s') \<noteq> None"
proof -
  let ?run = "handle_all ex_env [(5, [], ex_msg ''mining.authorize'' [''alice.rig1'', ''x''])] ex_session"
  have "cl_CurrentDifficulty (s_cl (snd ?run)) \<noteq> None"
    by (simp add: HandleMessage_def HandleAuthorize_def ex_msg_def ParamsArray_def AuthorizeFn_def go_bind_run go_seq_def
        ex_env_def bf_new_def SendDifficulty_def ex_session_def ex_client_def SendMiningJob_def current_params_def
        flush_pending_def current_job_def ex_jm_def send_closed_run big_zero_def)
  with difficulty_announced [OF ex_client_new surjective_pairing [of ?run]] show ?thesis
    unfolding Let_def by blast
qed

theorem ban_blocks_forever_witness:
  "\<exists>s'. ShouldBan ex_env 9 False ex_session = (Inl (Blocks ''send on nil channel''), s') \<and>
     s_bm s' = AddBannedIP 9 ''10.0.0.1:4444'' (s_bm ex_session) \<and> cl_SocketOpen (s_cl s')"
proof -
  have run: "handle_all ex_env [] ex_session = (Inr (), ex_session)" by simp
  have bo: "e_Banning ex_env = Some \<lparr>bo_Time = 600, bo_InvalidPercent = Fin 50, bo_CheckThreshold = 1, bo_PurgeInterval = 60\<rparr>"
    by (simp add: ex_env_def)
  have pct: "BadPercent \<lparr>sc_Valid = 0, sc_Invalid = 1\<rparr> = Fin 100"
    using f64_of_int_exact [of 100] f64_of_int_exact [of 1] rnd64_of_int [of 100]
    by (simp add: BadPercent_def TotalShares_def f64_of_u64_def f64_round_def)
  from ban_blocks_forever [OF ex_client_new run bo, of 9] show ?thesis
    by (simp add: ex_session_def ex_client_def TotalShares_def pct)
qed

theorem unauthorized_submit_ignored_witness:
  "s_store (snd (HandleSubmit ex_env 5 [] (ex_msg ''mining.submit'' []) ex_session)) = []"
  using unauthorized_submit_ignored [of ex_session ex_env 5 "[]" "ex_msg ''mining.submit'' []", OF _ surjective_pairing]
  by (simp add: ex_session_def ex_client_def)

definition ex_authorized :: "unit session" where
  "ex_authorized = ex_session\<lparr>s_cl := ex_client\<lparr>cl_IsAuthorized := True, cl_CurrentDifficulty := Some (bf_set_int 1),
     cl_Shares := \<lparr>sc_Valid = 10, sc_Invalid = 0\<rparr>\<rparr>\<rparr>"

definition ex_lenient_env :: "unit stratum_env" where
  "ex_lenient_env = ex_env\<lparr>e_Banning := Some \<lparr>bo_Time = 600, bo_InvalidPercent = Fin 50, bo_CheckThreshold = 100, bo_PurgeInterval = 60\<rparr>\<rparr>"

theorem invalid_share_acknowledged_witness:
  "\<exists>s' pre. HandleSubmit ex_lenient_env 5 [] (ex_msg ''mining.submit'' [''alice'', ''nojob'', ''00'', ''00'', ''00'']) ex_authorized = (Inr (), s') \<and>
     cl_out (s_cl s') = pre @ [error_response (IInt 7) (Some (IBool False)) 20 ''job not found'', ok_response (IInt 7)]"
proof -
  let ?m = "ex_msg ''mining.submit'' [''alice'', ''nojob'', ''00'', ''00'', ''00'']"
  define sh where "sh = reject_share ''nojob'' ''10.0.0.1:4444'' (split_names ''alice'') ErrJobNotFound"
  define s1 where "s1 = ex_authorized\<lparr>s_store := [(sh, False)]\<rparr>"
  have auth: "cl_IsAuthorized (s_cl ex_authorized)" "cl_ExtraNonce1 (s_cl ex_authorized) = Some [1, 2, 3, 4]" "5 \<le> length (ParamsArray ?m)"
    by (simp_all add: ex_authorized_def ex_client_def ex_msg_def ParamsArray_def)
  have sub: "submit_to_jobs ex_lenient_env 5 [] [1, 2, 3, 4] (ParamsArray ?m) ex_authorized = (Inr sh, s1)"
    by (simp add: submit_to_jobs_def go_bind_run go_seq_def ex_authorized_def ex_session_def ex_client_def ProcessSubmit_def Let_def
        RawJsonToString_def ParamsArray_def ex_msg_def ex_jm_def ProcessShare_def sh_def s1_def reject_share_def empty_share_def)
  have code: "sh_ErrorCode sh = 20" "ErrorString 20 = ''job not found''"
    by (simp_all add: sh_def reject_share_def error_code_defs ErrorString_def codeToErrMap_def)
  have "\<exists>s'. HandleSubmit ex_lenient_env 5 [] ?m ex_authorized = (Inr (), s') \<and> cl_SocketOpen (s_cl s')"
  proof -
    have s1: "cl_VarDiff (s_cl s1) = None" "cl_PendingDifficulty (s_cl s1) = Some big_zero" "cl_SocketOpen (s_cl s1)"
      "cl_Shares (s_cl s1) = \<lparr>sc_Valid = 10, sc_Invalid = 0\<rparr>"
      by (simp_all add: s1_def ex_authorized_def ex_client_def)
    have bo: "e_Banning ex_lenient_env = Some \<lparr>bo_Time = 600, bo_InvalidPercent = Fin 50, bo_CheckThreshold = 100, bo_PurgeInterval = 60\<rparr>"
      by (simp add: ex_lenient_env_def)
    have rt: "retarget 5 s1 = (Inr (), s1)" by (simp add: retarget_def s1)
    have fl: "flush_pending s1 = (Inr (), s1)" by (simp add: flush_pending_def s1 big_zero_def)
    have bn: "\<exists>s2. ShouldBan ex_lenient_env 5 False s1 = (Inr False, s2) \<and> cl_SocketOpen (s_cl s2)"
      by (simp add: ShouldBan_def bo s1 TotalShares_def go_seq_def go_bind_run)
    show ?thesis using auth bn
      by (auto simp: HandleSubmit_def Let_def go_bind_run go_seq_def sub code error_code_defs rt fl)
  qed
  then obtain s' where s': "HandleSubmit ex_lenient_env 5 [] ?m ex_authorized = (Inr (), s')" "cl_SocketOpen (s_cl s')" by blast
  from invalid_share_acknowledged [OF s'(1) auth sub _ s'(2)] s'(1) code show ?thesis by (auto simp: ex_msg_def)
qed

text \<open>The identifiers a server hands out to its first \<open>n\<close> connections.\<close>

fun subscription_ids :: "nat \<Rightarrow> subscription_counter \<Rightarrow> bytes list" where
  "subscription_ids 0 c = []"
| "subscription_ids (Suc n) c = (case NextSubscription c of (b, c) \<Rightarrow> b # subscription_ids n c)"

lemma next_count:
  assumes "unat (ctr_Count c) < 2 ^ 64 - 1"
  shows "unat (ctr_Count (snd (NextSubscription c))) = (unat (ctr_Count c) + 1) mod (2 ^ 64 - 1)"
proof -
  have "unat (ctr_Count c + 1) = unat (ctr_Count c) + 1"
    using assms by (simp add: unat_plus_if')
  moreover have "(ctr_Count c + 1 = - 1) \<longleftrightarrow> unat (ctr_Count c + 1) = 2 ^ 64 - 1"
  proof -
    have "unat (- 1 :: u64) = 2 ^ 64 - 1" by (simp add: unsigned_minus_1_eq_mask mask_eq_exp_minus_1)
    then show ?thesis by (metis word_unat_eq_iff)
  qed
  ultimately show ?thesis using assms by (auto simp: NextSubscription_def Let_def)
qed

lemma mod_add_left_eq': "Suc (Suc a mod m + k) mod m = Suc (Suc (a + k)) mod (m :: nat)"
  using mod_add_left_eq [of "Suc a" m "Suc k"] by simp

lemma subscription_ids_eq:
  "unat (ctr_Count c) < 2 ^ 64 - 1 \<Longrightarrow> ctr_Padding c = [] \<Longrightarrow>
   subscription_ids n c = map (\<lambda>k. le_bytes 8 ((unat (ctr_Count c) + k + 1) mod (2 ^ 64 - 1))) [0..<n]"
proof (induction n arbitrary: c)
  case (Suc n)
  define c' where "c' = snd (NextSubscription c)"
  have c': "unat (ctr_Count c') = (unat (ctr_Count c) + 1) mod (2 ^ 64 - 1)" "ctr_Padding c' = []"
    using next_count [OF Suc.prems(1)] Suc.prems(2) by (simp_all add: c'_def NextSubscription_def Let_def)
  have fst: "fst (NextSubscription c) = le_bytes 8 ((unat (ctr_Count c) + 1) mod (2 ^ 64 - 1))"
    using c'(1) Suc.prems(2) by (simp add: c'_def NextSubscription_def Let_def)
  have "unat (ctr_Count c') < 2 ^ 64 - 1" unfolding c'(1) by simp
  from Suc.IH [OF this c'(2)] have
    "subscription_ids n c' = map (\<lambda>k. le_bytes 8 ((unat (ctr_Count c) + Suc k + 1) mod (2 ^ 64 - 1))) [0..<n]"
    unfolding c'(1) by (simp add: mod_add_left_eq')
  with fst c'_def show ?case
    by (subst map_upt_shift) (cases "NextSubscription c", simp)
qed simp

text \<open>
  Connections get different subscription ids. The counter wraps from \<open>2 ^ 64 - 2\<close> to 0, so
  any \<open>2 ^ 64 - 1\<close> consecutive connections of a new server get pairwise different ids, of
  eight bytes each.
\<close>

theorem subscription_ids_distinct:
  assumes "n < 2 ^ 64"
  shows "distinct (subscription_ids n NewSubscriptionCounter) \<and> (\<forall>b\<in>set (subscription_ids n NewSubscriptionCounter). length b = 8)"
proof -
  let ?M = "2 ^ 64 - 1 :: nat"
  have ids: "subscription_ids n NewSubscriptionCounter = map (\<lambda>k. le_bytes 8 ((k + 1) mod ?M)) [0..<n]"
    using subscription_ids_eq [of NewSubscriptionCounter n] by (simp add: NewSubscriptionCounter_def)
  have inj: "i = j" if "i < n" "j < n" "le_bytes 8 ((i + 1) mod ?M) = le_bytes 8 ((j + 1) mod ?M)" for i j
  proof -
    have "(i + 1) mod ?M < 256 ^ 8" "(j + 1) mod ?M < 256 ^ 8"
      by (rule less_trans [OF mod_less_divisor], simp, simp)+
    with arg_cong [OF that(3), of le_nat] have eq: "(i + 1) mod ?M = (j + 1) mod ?M"
      by (simp add: le_nat_le_bytes)
    have *: "k + 1 = ?M \<or> (k + 1 < ?M \<and> (k + 1) mod ?M = k + 1)" if "k < n" for k using that assms by auto
    from * [OF that(1)] * [OF that(2)] eq show ?thesis by auto
  qed
  then show ?thesis unfolding ids by (auto simp: distinct_map inj_on_def)
qed

theorem subscription_ids_distinct_witness: "distinct (subscription_ids 3 NewSubscriptionCounter)"
  using subscription_ids_distinct [of 3] by simp

end
