(* ===== verification/StratumEngine.thy ===== *)
theory StratumEngine
  imports StratumClient
begin

text \<open>
  \<open>stratum/engine.go\<close> over the interface of \<open>engine/engine.go\<close>: the connection handlers when a
  pluggable mining engine drives the pool. An engine is a record of its operations on a state
  of type \<open>'e\<close>, with the optional capabilities (\<open>diffJobber\<close>, \<open>notifyMethoder\<close>, \<open>targetSetter\<close>,
  \<open>objectParamser\<close>) as option-valued fields. The handlers run on the session state of the
  client theory with the engine state as its world; the job manager in it is not used (it is
  nil on this path).
\<close>

text \<open>What an engine sees of a connection: \<open>engine.Session\<close>.\<close>

record session_view =
  sv_ExtraNonce1 :: "bytes option"
  sv_Difficulty :: f64
  sv_WorkerName :: string
  sv_RemoteAddr :: string

text \<open>\<open>OnSubscribe\<close> returns the reply, the extranonce (nil is \<open>None\<close>) and its second size.\<close>

record 'e engine =
  en_OnSubscribe :: "session_view \<Rightarrow> iface list \<Rightarrow> 'e \<Rightarrow> ((iface \<times> bytes option \<times> int) res) \<times> 'e"
  en_JobNotification :: "bool \<Rightarrow> 'e \<Rightarrow> string \<times> iface list option"
  en_OnSubmit :: "session_view \<Rightarrow> iface list \<Rightarrow> 'e \<Rightarrow> share res \<times> 'e"
  en_JobParamsForDifficulty :: "(f64 \<Rightarrow> 'e \<Rightarrow> iface list option) option"
  en_NotifyMethod :: "string option"
  en_TargetParams :: "(f64 \<Rightarrow> 'e \<Rightarrow> string \<times> iface list) option"
  en_ObjectParams :: "bool option"

definition session_Difficulty :: "client \<Rightarrow> f64" where
  "session_Difficulty c = (case cl_CurrentDifficulty c of None \<Rightarrow> Fin 0 | Some d \<Rightarrow> bf_float64 d)"

definition view_of :: "client \<Rightarrow> session_view" where
  "view_of c = \<lparr>sv_ExtraNonce1 = cl_ExtraNonce1 c, sv_Difficulty = session_Difficulty c,
     sv_WorkerName = cl_WorkerName c, sv_RemoteAddr = cl_RemoteAddress c\<rparr>"

definition wantsObjectParams :: "'e engine \<Rightarrow> bool" where
  "wantsObjectParams en = (case en_ObjectParams en of Some b \<Rightarrow> b | None \<Rightarrow> False)"

definition result_response :: "iface \<Rightarrow> iface \<Rightarrow> message" where
  "result_response i r = MResponse \<lparr>rs_Id = i, rs_Result = Some r, rs_Error = None\<rparr>"

definition EngineSend :: "'e engine \<Rightarrow> string \<Rightarrow> iface list \<Rightarrow> ('e session, unit) go" where
  "EngineSend en method params =
     (if method = '''' then SendJsonRPC (result_response (IInt 0) (IList params))
      else
        (let raw = (if wantsObjectParams en \<and> length params = 1 then params ! 0 else MarshalParams params)
         in SendJsonRPC (MRequest \<lparr>rq_Id = INil, rq_Method = method, rq_Params = Some raw\<rparr>)))"

definition portDefaultDiff :: "'e stratum_env \<Rightarrow> f64" where
  "portDefaultDiff env = (case e_PortDiff env of Some d \<Rightarrow> d | None \<Rightarrow> Fin 1)"

definition engineDiff :: "'e stratum_env \<Rightarrow> client \<Rightarrow> f64" where
  "engineDiff env c = (case cl_CurrentDifficulty c of Some d \<Rightarrow> bf_float64 d | None \<Rightarrow> portDefaultDiff env)"

definition engineJobParams :: "'e stratum_env \<Rightarrow> 'e engine \<Rightarrow> ('e session, iface list option) go" where
  "engineJobParams env en =
     go_get (\<lambda>s. case en_JobParamsForDifficulty en of
                   Some f \<Rightarrow> f (engineDiff env (s_cl s)) (s_world s)
                 | None \<Rightarrow> snd (en_JobNotification en True (s_world s)))"

definition sendEngineWork :: "'e stratum_env \<Rightarrow> 'e engine \<Rightarrow> ('e session, unit) go" where
  "sendEngineWork env en =
     go_bind (engineJobParams env en) (\<lambda>params.
       case params of
         None \<Rightarrow> go_return ()
       | Some params \<Rightarrow>
           go_seq (case en_TargetParams en of
                     None \<Rightarrow> go_return ()
                   | Some f \<Rightarrow>
                       go_bind (go_get (\<lambda>s. f (engineDiff env (s_cl s)) (s_world s))) (\<lambda>(method, tParams).
                         go_when (method \<noteq> '''') (EngineSend en method tParams)))
           (EngineSend en (case en_NotifyMethod en of Some m \<Rightarrow> m | None \<Rightarrow> '''') params))"

definition engine_call :: "('e \<Rightarrow> 'a res \<times> 'e) \<Rightarrow> ('e session, 'a) go" where
  "engine_call f = (\<lambda>s. case f (s_world s) of (r, e) \<Rightarrow> (r, s\<lparr>s_world := e\<rparr>))"

definition on_subscribe :: "'e engine \<Rightarrow> iface list \<Rightarrow> ('e session, iface \<times> bytes option \<times> int) go" where
  "on_subscribe en params =
     go_bind (get_cl view_of) (\<lambda>v. engine_call (en_OnSubscribe en v params))"

text \<open>\<open>sc.CurrentDifficulty = big.NewFloat(sc.portDefaultDiff())\<close> when it is nil.\<close>

definition init_difficulty :: "'e stratum_env \<Rightarrow> ('e session, unit) go" where
  "init_difficulty env =
     go_bind (get_cl cl_CurrentDifficulty) (\<lambda>cd.
       case cd of
         Some _ \<Rightarrow> go_return ()
       | None \<Rightarrow> go_bind (go_lift (bf_new (portDefaultDiff env))) (\<lambda>d. upd_cl (\<lambda>c. c\<lparr>cl_CurrentDifficulty := Some d\<rparr>)))"

definition meetsPreviousEngineDiff :: "client \<Rightarrow> f64 \<Rightarrow> bool" where
  "meetsPreviousEngineDiff c achieved =
     (case cl_PreviousDifficulty c of
        None \<Rightarrow> False
      | Some p \<Rightarrow> (let prev = bf_float64 p in f64_less (Fin 0) prev \<and> f64_le prev achieved))"

definition creditedEngineDiff :: "'e stratum_env \<Rightarrow> client \<Rightarrow> f64 \<Rightarrow> f64" where
  "creditedEngineDiff env c achieved =
     (let cur = engineDiff env c in
      if f64_le cur achieved then cur
      else
        (case cl_PreviousDifficulty c of
           None \<Rightarrow> cur
         | Some p \<Rightarrow> (let prev = bf_float64 p in if f64_less (Fin 0) prev \<and> f64_le prev achieved then prev else cur)))"

definition splitWorker :: "string \<Rightarrow> string \<times> string" where
  "splitWorker workerName =
     (case index_byte workerName (CHR ''.'') of
        Some i \<Rightarrow> (take i workerName, drop (i + 1) workerName)
      | None \<Rightarrow> (workerName, ''unknown''))"

definition applyEngineVarDiff :: "'e stratum_env \<Rightarrow> 'e engine \<Rightarrow> int \<Rightarrow> ('e session, unit) go" where
  "applyEngineVarDiff env en now =
     go_bind (get_cl id) (\<lambda>c.
       case (cl_VarDiff c, cl_CurrentDifficulty c) of
         (Some vd, Some cd) \<Rightarrow>
           (let cur = bf_float64 cd in
            go_bind (go_lift (CalcNextDiff (now div 1000000000) cur vd)) (\<lambda>(nxt, vd).
            go_seq (upd_cl (\<lambda>c. c\<lparr>cl_VarDiff := Some vd\<rparr>))
            (if \<not> f64_eq nxt (Fin 0) \<and> \<not> f64_eq nxt cur then
               go_bind (go_lift (bf_new nxt)) (\<lambda>d.
               go_seq (upd_cl (\<lambda>c. c\<lparr>cl_PreviousDifficulty := cl_CurrentDifficulty c, cl_CurrentDifficulty := Some d\<rparr>))
               (sendEngineWork env en))
             else go_return ())))
       | _ \<Rightarrow> go_return ())"

definition put_share :: "bool \<Rightarrow> share \<Rightarrow> bool \<Rightarrow> ('e session, unit) go" where
  "put_share db share accepted = go_when db (go_modify (\<lambda>s. s\<lparr>s_store := s_store s @ [(share, accepted)]\<rparr>))"

text \<open>The submit branch of \<open>handleEngineMessage\<close>; \<open>db\<close> tells whether a storage is attached.\<close>

definition engine_submit :: "'e stratum_env \<Rightarrow> 'e engine \<Rightarrow> bool \<Rightarrow> int \<Rightarrow> rpc_request \<Rightarrow> ('e session, unit) go" where
  "engine_submit env en db now message =
     go_bind (get_cl id) (\<lambda>c.
       if \<not> cl_IsAuthorized c then
         go_seq (SendJsonRPC (error_response (rq_Id message) (Some (IBool False)) 24 ''unauthorized worker''))
         (go_bind (ShouldBan env now False) (\<lambda>_. go_return ()))
       else
         go_bind (engine_call (en_OnSubmit en (view_of c) (rawParamsToIface (rq_Params message)))) (\<lambda>share.
           let achievedDiff = sh_Diff share;
               share = (if sh_ErrorCode share = ErrLowDiffShare \<and> meetsPreviousEngineDiff c achievedDiff
                        then share\<lparr>sh_ErrorCode := 0\<rparr> else share);
               valid = (sh_ErrorCode share = 0);
               names = splitWorker (cl_WorkerName c) in
           go_seq
             (if valid then
                (let share = share\<lparr>sh_Miner := fst names, sh_Rig := snd names, sh_Diff := creditedEngineDiff env c achievedDiff\<rparr>;
                     blockAccepted = (sh_TxHash share \<noteq> '''');
                     share = (if sh_BlockHex share \<noteq> '''' \<and> \<not> blockAccepted then share\<lparr>sh_BlockHex := ''''\<rparr> else share)
                 in go_seq (put_share db share blockAccepted) (applyEngineVarDiff env en now))
              else put_share db (share\<lparr>sh_Miner := fst names, sh_Rig := snd names\<rparr>) False)
           (go_bind (ShouldBan env now valid) (\<lambda>banned.
              if banned then go_return ()
              else if \<not> valid then
                SendJsonRPC (error_response (rq_Id message) (Some (IBool False)) (sh_ErrorCode share) (ErrorString (sh_ErrorCode share)))
              else if wantsObjectParams en then SendJsonRPC (result_response (rq_Id message) (IMap [(''status'', IStr ''OK'')]))
              else SendJsonRPC (result_response (rq_Id message) (IBool True))))))"

definition login_name :: "iface list \<Rightarrow> string option" where
  "login_name params =
     (case params of
        [IMap obj] \<Rightarrow> (case map_of obj ''login'' of Some (IStr l) \<Rightarrow> Some l | _ \<Rightarrow> None)
      | _ \<Rightarrow> None)"

definition list_iface :: "iface list option \<Rightarrow> iface" where
  "list_iface p = (case p of None \<Rightarrow> INil | Some xs \<Rightarrow> IList xs)"

definition handleEngineMessage :: "'e stratum_env \<Rightarrow> 'e engine \<Rightarrow> bool \<Rightarrow> int \<Rightarrow> rpc_request \<Rightarrow> ('e session, unit) go" where
  "handleEngineMessage env en db now message =
     (let m = rq_Method message; params = rawParamsToIface (rq_Params message);
          remember = (\<lambda>en1. upd_cl (\<lambda>c. if en1 = None then c else c\<lparr>cl_ExtraNonce1 := en1\<rparr>)) in
      if m = ''mining.subscribe'' then
        go_bind (on_subscribe en params) (\<lambda>(result, en1, _).
        go_seq (remember en1) (SendJsonRPC (result_response (rq_Id message) result)))
      else if m = ''eth_submitLogin'' \<or> m = ''mining.authorize'' then
        go_bind (get_cl cl_ExtraNonce1) (\<lambda>cur.
        go_seq (if cur = None then go_bind (on_subscribe en params) (\<lambda>(_, en1, _). upd_cl (\<lambda>c. c\<lparr>cl_ExtraNonce1 := en1\<rparr>)) else go_return ())
        (go_seq (case ParamsArray message of [] \<Rightarrow> go_return () | p # _ \<Rightarrow> upd_cl (\<lambda>c. c\<lparr>cl_WorkerName := RawJsonToString p\<rparr>))
        (go_seq (upd_cl (\<lambda>c. c\<lparr>cl_IsAuthorized := True\<rparr>))
        (go_seq (init_difficulty env)
        (go_seq (SendJsonRPC (result_response (rq_Id message) (IBool True)))
        (sendEngineWork env en))))))
      else if m = ''login'' then
        go_bind (on_subscribe en params) (\<lambda>(result, en1, _).
        go_seq (remember en1)
        (go_seq (case login_name params of None \<Rightarrow> go_return () | Some l \<Rightarrow> upd_cl (\<lambda>c. c\<lparr>cl_WorkerName := l\<rparr>))
        (go_seq (upd_cl (\<lambda>c. c\<lparr>cl_IsAuthorized := True\<rparr>))
        (go_seq (init_difficulty env)
        (SendJsonRPC (result_response (rq_Id message) result))))))
      else if m = ''getjob'' then
        go_bind (engineJobParams env en) (\<lambda>ps.
          case ps of
            Some [p] \<Rightarrow> SendJsonRPC (result_response (rq_Id message) (if wantsObjectParams en then p else IList [p]))
          | _ \<Rightarrow> SendJsonRPC (result_response (rq_Id message) (list_iface ps)))
      else if m = ''keepalived'' then SendJsonRPC (result_response (rq_Id message) (IMap [(''status'', IStr ''KEEPALIVED'')]))
      else if m = ''eth_getWork'' then
        go_bind (engineJobParams env en) (\<lambda>ps. SendJsonRPC (result_response (rq_Id message) (list_iface ps)))
      else if m = ''eth_submitWork'' \<or> m = ''mining.submit'' \<or> m = ''submit'' then engine_submit env en db now message
      else if m = ''eth_submitHashrate'' \<or> m = ''mining.extranonce.subscribe'' then
        SendJsonRPC (result_response (rq_Id message) (IBool True))
      else go_return ())"

text \<open>\<open>HandleMessage\<close> of an engine client.\<close>

definition HandleEngineClient :: "'e stratum_env \<Rightarrow> 'e engine \<Rightarrow> bool \<Rightarrow> int \<Rightarrow> rpc_request \<Rightarrow> ('e session, unit) go" where
  "HandleEngineClient env en db now message =
     go_seq (upd_cl (\<lambda>c. c\<lparr>cl_LastActivity := now\<rparr>)) (handleEngineMessage env en db now message)"

subsection \<open>The share queue\<close>

lemma keeps_store_basic:
  "keeps (\<lambda>s. s_store s = X) (SendJsonRPC m)" "keeps (\<lambda>s. s_store s = X) SocketClose"
  by (simp_all add: keeps_def)

lemma keeps_store_EngineSend: "keeps (\<lambda>s. s_store s = X) (EngineSend en m p)"
  unfolding EngineSend_def Let_def by (intro inv_intros keeps_store_basic)

lemma keeps_store_work: "keeps (\<lambda>s. s_store s = X) (sendEngineWork env en)"
  unfolding sendEngineWork_def engineJobParams_def by (intro inv_intros keeps_store_EngineSend)

lemma keeps_store_vardiff: "keeps (\<lambda>s. s_store s = X) (applyEngineVarDiff env en now)"
proof -
  have "keeps (\<lambda>s. s_store s = X) (case (v, d) of (Some vd, Some cd) \<Rightarrow> m vd cd | _ \<Rightarrow> go_return ())"
    if "\<And>vd cd. keeps (\<lambda>s. s_store s = X) (m vd cd)" for v d m
    using that by (cases v; cases d) (auto intro: inv_intros)
  then show ?thesis
    unfolding applyEngineVarDiff_def Let_def by (intro inv_intros keeps_store_work) auto
qed

lemma keeps_store_ban: "keeps (\<lambda>s. s_store s = X) (ShouldBan env now v)"
  unfolding ShouldBan_def by (intro inv_intros keeps_store_basic) auto

text \<open>What \<open>engine_submit\<close> adds to the queue for a share that counts as valid.\<close>

lemma engine_submit_valid:
  assumes auth: "cl_IsAuthorized (s_cl s)"
    and call: "en_OnSubmit en (view_of (s_cl s)) (rawParamsToIface (rq_Params msg)) (s_world s) = (Inr share, e')"
    and valid: "sh_ErrorCode share = 0 \<or> (sh_ErrorCode share = ErrLowDiffShare \<and> meetsPreviousEngineDiff (s_cl s) (sh_Diff share))"
    and run: "engine_submit env en True now msg s = (r, s')"
  shows "\<exists>sh. s_store s' = s_store s @ [(sh, sh_TxHash sh \<noteq> '''')] \<and> sh_ErrorCode sh = 0 \<and>
     sh_Diff sh = creditedEngineDiff env (s_cl s) (sh_Diff share) \<and>
     (sh_Miner sh, sh_Rig sh) = splitWorker (cl_WorkerName (s_cl s)) \<and> sh_TxHash sh = sh_TxHash share \<and>
     (sh_BlockHex sh = (if sh_TxHash share = '''' then '''' else sh_BlockHex share)) \<and>
     sh_BlockHash sh = sh_BlockHash share \<and> sh_BlockHeight sh = sh_BlockHeight share"
proof -
  define c where "c = s_cl s"
  define sh0 where "sh0 = share\<lparr>sh_ErrorCode := 0, sh_Miner := fst (splitWorker (cl_WorkerName c)),
     sh_Rig := snd (splitWorker (cl_WorkerName c)), sh_Diff := creditedEngineDiff env c (sh_Diff share)\<rparr>"
  define sh where "sh = (if sh_BlockHex sh0 \<noteq> '''' \<and> \<not> sh_TxHash sh0 \<noteq> '''' then sh0\<lparr>sh_BlockHex := ''''\<rparr> else sh0)"
  define X where "X = s_store s @ [(sh, sh_TxHash sh \<noteq> '''')]"
  define tail where "tail = (\<lambda>banned. if banned then go_return () else if wantsObjectParams en
      then SendJsonRPC (result_response (rq_Id msg) (IMap [(''status'', IStr ''OK'')]))
      else SendJsonRPC (result_response (rq_Id msg) (IBool True)) :: ('a session, unit) go)"
  have sh1: "(if sh_ErrorCode share = ErrLowDiffShare \<and> meetsPreviousEngineDiff c (sh_Diff share)
      then share\<lparr>sh_ErrorCode := 0\<rparr> else share) = share\<lparr>sh_ErrorCode := 0\<rparr>"
    using valid by (auto simp: c_def)
  have call': "engine_call (en_OnSubmit en (view_of c) (rawParamsToIface (rq_Params msg))) s = (Inr share, s\<lparr>s_world := e'\<rparr>)"
    using call by (simp add: engine_call_def c_def)
  have tx: "sh_TxHash sh = sh_TxHash sh0" by (simp add: sh_def)
  have eq: "engine_submit env en True now msg s =
      go_seq (go_seq (put_share True sh (sh_TxHash sh \<noteq> '''')) (applyEngineVarDiff env en now))
        (go_bind (ShouldBan env now True) tail) (s\<lparr>s_world := e'\<rparr>)"
    unfolding engine_submit_def
    by (simp only: go_bind_run get_cl_run id_apply prod.case sum.case c_def [symmetric] auth [folded c_def] not_True_eq_False if_False
        call' sh1 Let_def tx)
      (simp add: sh_def sh0_def tail_def go_seq_def go_bind_run)
  have keep: "keeps (\<lambda>s. s_store s = X) (go_seq (applyEngineVarDiff env en now) (go_bind (ShouldBan env now True) tail))"
    unfolding tail_def by (intro inv_intros keeps_store_vardiff keeps_store_ban keeps_store_basic)
  have "engine_submit env en True now msg s =
      go_seq (applyEngineVarDiff env en now) (go_bind (ShouldBan env now True) tail) (s\<lparr>s_world := e', s_store := X\<rparr>)"
    unfolding eq by (simp add: put_share_def go_seq_def go_bind_run X_def)
  then have "s_store s' = X" using run keepsD [OF keep, of "s\<lparr>s_world := e', s_store := X\<rparr>" r s'] by simp
  then show ?thesis by (intro exI [of _ sh]) (auto simp: X_def sh_def sh0_def c_def)
qed

subsection \<open>Worker names\<close>

lemma hd_split_on: "hd (split_on c s) = takeWhile (\<lambda>x. x \<noteq> c) s"
proof (induction s)
  case (Cons x s)
  then show ?case by (cases "split_on c s") simp_all
qed simp

lemma worker_split:
  "splitWorker (a @ CHR ''.'' # r) = (a, r)" "split_names (a @ CHR ''.'' # r) = (a, hd (split_on (CHR ''.'') r))"
  if "CHR ''.'' \<notin> set a"
proof -
  have "takeWhile (\<lambda>x. x \<noteq> CHR ''.'') (a @ CHR ''.'' # r) = a" using that by (induction a) auto
  then show "splitWorker (a @ CHR ''.'' # r) = (a, r)" by (simp add: splitWorker_def index_byte_def)
  show "split_names (a @ CHR ''.'' # r) = (a, hd (split_on (CHR ''.'') r))"
    using split_on_append [OF that, of r]
    by (cases "split_on (CHR ''.'') r") (simp_all add: split_names_def)
qed

subsection \<open>Properties\<close>


definition ex_engine :: "unit engine" where
  "ex_engine = \<lparr>en_OnSubscribe = (\<lambda>_ _ e. (Inr (INil, None, 0), e)), en_JobNotification = (\<lambda>_ _. ('''', None)),
     en_OnSubmit = (\<lambda>v _ e. (Inr (empty_share\<lparr>sh_Diff := Fin 5, sh_BlockHex := ''00''\<rparr>), e)),
     en_JobParamsForDifficulty = None, en_NotifyMethod = None, en_TargetParams = None, en_ObjectParams = None\<rparr>"


text \<open>
  The two paths name workers alike except for names with several dots. \<open>splitWorker\<close> on
  the engine path and the split in \<open>ProcessSubmit\<close> give the same miner for every worker name,
  and the same rig exactly when the name has at most one dot: for more dots the engine path
  keeps everything after the first dot, the Bitcoin path only the second component.
\<close>

theorem worker_names_agree:
  "fst (splitWorker w) = fst (split_names w) \<and>
   (splitWorker w = split_names w \<longleftrightarrow> length (filter (\<lambda>c. c = CHR ''.'') w) \<le> 1)"
proof (cases "CHR ''.'' \<in> set w")
  case True
  then obtain a r where w: "w = a @ CHR ''.'' # r" "CHR ''.'' \<notin> set a" by (meson split_list_first)
  have a: "filter (\<lambda>c. c = CHR ''.'') a = []" using w(2) by (auto simp: filter_empty_conv)
  have "(hd (split_on (CHR ''.'') r) = r) = (filter (\<lambda>c. c = CHR ''.'') r = [])"
    unfolding hd_split_on by (auto simp: filter_empty_conv takeWhile_eq_all_conv)
  then show ?thesis using worker_split [OF w(2), of r] a by (auto simp: w(1))
next
  case False
  then have none: "filter (\<lambda>c. c = CHR ''.'') w = []" "takeWhile (\<lambda>x. x \<noteq> CHR ''.'') w = w"
    by (auto simp: filter_empty_conv takeWhile_eq_all_conv)
  have "splitWorker w = (w, ''unknown'')" by (simp only: splitWorker_def index_byte_def none Let_def) simp
  then show ?thesis using split_on_no_sep [OF False] by (simp add: none split_names_def)
qed

end
