(* ===== verification/EngineCore.thy ===== *)
theory EngineCore
  imports StratumEngine GoStrconv
begin

text \<open>
  What the mining engines share: \<open>engine/pow.go\<close> (targets and difficulties), the registry of
  \<open>engine/engine.go\<close>, and the bookkeeping every engine repeats: a counter for job ids, the
  current job, and a short history of jobs with the nonces seen on each.

  A job is a pointer reachable from \<open>cur\<close> and from the history. Its fields never change after
  it is made, except the set \<open>seen\<close>, which is only read and written through the history. So
  the history holds each job together with its \<open>seen\<close>, and \<open>cur\<close> holds the job alone.
\<close>

definition Pow256 :: int where
  "Pow256 = 2 ^ 256"

text \<open>A nil \<open>*big.Int\<close> (from an infinite quotient) would panic in the next comparison.\<close>

definition TargetFromDiff :: "int \<Rightarrow> f64 \<Rightarrow> int res" where
  "TargetFromDiff base diff =
     (let diff = (if f64_le diff (Fin 0) then Fin 1 else diff) in
      rbind (bf_new diff) (\<lambda>d.
      rbind (bf_quo (bf_set_int base) d) (\<lambda>q.
        case bf_int q of Some t \<Rightarrow> Inr t | None \<Rightarrow> Inl (Panic ''nil pointer dereference''))))"

text \<open>The divisor is positive, so the quotient exists.\<close>

definition DiffFromValue :: "int \<Rightarrow> int \<Rightarrow> f64" where
  "DiffFromValue base v =
     (if v \<le> 0 then Fin 0
      else case bf_quo (bf_set_int base) (bf_set_int v) of Inr q \<Rightarrow> bf_float64 q | Inl _ \<Rightarrow> NaN)"

definition big_text16 :: "int \<Rightarrow> string" where
  "big_text16 t = (if t < 0 then CHR ''-'' # fmt_uint 16 (nat (- t)) else fmt_uint 16 (nat t))"

definition TargetHex :: "int \<Rightarrow> string" where
  "TargetHex t =
     (let s = big_text16 t in
      if 64 < length s then replicate 64 (CHR ''f'') else replicate (64 - length s) (CHR ''0'') @ s)"

subsection \<open>The registry\<close>

type_synonym 'e engine_registry = "(string \<times> (unit \<Rightarrow> 'e)) list"

definition EngineRegister :: "string \<Rightarrow> (unit \<Rightarrow> 'e) \<Rightarrow> 'e engine_registry \<Rightarrow> 'e engine_registry" where
  "EngineRegister name f registry = map_put name f registry"

definition EngineGet :: "'e engine_registry \<Rightarrow> string \<Rightarrow> 'e option" where
  "EngineGet registry name = (case map_of registry name of None \<Rightarrow> None | Some f \<Rightarrow> Some (f ()))"

definition Registered :: "'e engine_registry \<Rightarrow> string list" where
  "Registered registry = map fst registry"

subsection \<open>Jobs and their history\<close>

type_synonym 'j history = "(string \<times> 'j \<times> string list) list"

record ('j, 'w) engine_state =
  es_enCounter :: u32
  es_jobCounter :: u64
  es_cur :: "'j option"
  es_history :: "'j history"
  es_world :: 'w

definition new_engine :: "'w \<Rightarrow> ('j, 'w) engine_state" where
  "new_engine w = \<lparr>es_enCounter = 0, es_jobCounter = 0, es_cur = None, es_history = [], es_world = w\<rparr>"

text \<open>\<open>strconv.FormatUint(atomic.AddUint64(&e.jobCounter, 1), 16)\<close>: the id is the text of the new counter.\<close>

definition job_id :: "u64 \<Rightarrow> string" where
  "job_id c = fmt_uint 16 (unat c)"

definition bump :: "('j, 'w) engine_state \<Rightarrow> ('j, 'w) engine_state" where
  "bump st = st\<lparr>es_jobCounter := es_jobCounter st + 1\<rparr>"

text \<open>
  The eviction loop \<open>for k := range e.history\<close>: Go visits the keys in an unspecified order,
  which is the argument \<open>ord\<close>. Every key but \<open>keep\<close> is deleted while more than \<open>mx\<close> remain.
\<close>

definition evict_step :: "nat \<Rightarrow> string \<Rightarrow> string \<Rightarrow> 'j history \<Rightarrow> 'j history" where
  "evict_step mx keep k h = (if k \<noteq> keep \<and> mx < length h then map_delete k h else h)"

definition evict :: "nat \<Rightarrow> string \<Rightarrow> string list \<Rightarrow> 'j history \<Rightarrow> 'j history" where
  "evict mx keep ord h = (if mx < length h then fold (evict_step mx keep) ord h else h)"

definition store_job :: "nat \<Rightarrow> string list \<Rightarrow> string \<Rightarrow> 'j \<Rightarrow> ('j, 'w) engine_state \<Rightarrow> ('j, 'w) engine_state" where
  "store_job mx ord i j st =
     st\<lparr>es_cur := Some j, es_history := evict mx i ord (map_put i (j, []) (es_history st))\<rparr>"

text \<open>\<open>j.seen[key] = struct{}{}\<close> on the job found in the history.\<close>

definition mark_seen :: "string \<Rightarrow> string \<Rightarrow> 'j history \<Rightarrow> 'j history" where
  "mark_seen i key h = (case map_of h i of None \<Rightarrow> h | Some (j, seen) \<Rightarrow> map_put i (j, key # seen) h)"

text \<open>\<open>x.(string)\<close> with the comma-ok form.\<close>

fun as_string :: "iface \<Rightarrow> string option" where
  "as_string (IStr s) = Some s"
| "as_string _ = None"

text \<open>\<open>strings.ToLower(strings.TrimPrefix(s, "0x"))\<close>.\<close>

definition norm_hex :: "string \<Rightarrow> string" where
  "norm_hex s = to_lower (trim_prefix s ''0x'')"

definition fresh_share :: "session_view \<Rightarrow> share" where
  "fresh_share v = empty_share\<lparr>sh_Miner := sv_WorkerName v, sh_RemoteAddr := sv_RemoteAddr v\<rparr>"

definition set_err :: "int \<Rightarrow> share \<Rightarrow> share" where
  "set_err c sh = sh\<lparr>sh_ErrorCode := c\<rparr>"

definition reject :: "int \<Rightarrow> share \<Rightarrow> 's \<Rightarrow> share res \<times> 's" where
  "reject c sh st = (Inr (set_err c sh), st)"

text \<open>\<open>len(en1) > 0 && !strings.HasPrefix(nonceHex, hex.EncodeToString(en1))\<close> is the rejection.\<close>

definition prefix_ok :: "session_view \<Rightarrow> string \<Rightarrow> bool" where
  "prefix_ok v nonceHex =
     (case sv_ExtraNonce1 v of None \<Rightarrow> True | Some en \<Rightarrow> en = [] \<or> has_prefix nonceHex (hex_encode en))"

text \<open>The second and third parameters: the job id as sent, the nonce normalised.\<close>

fun job_nonce :: "iface list \<Rightarrow> string \<times> string" where
  "job_nonce (_ # IStr jobID # IStr nonceHex # _) = (jobID, norm_hex nonceHex)"
| "job_nonce _ = ('''', '''')"

definition note_nonce :: "string \<Rightarrow> string \<Rightarrow> ('j, 'w) engine_state \<Rightarrow> ('j, 'w) engine_state" where
  "note_nonce i n st = st\<lparr>es_history := mark_seen i n (es_history st)\<rparr>"

subsection \<open>Targets and difficulties\<close>

lemma rnd64_above:
  assumes x: "representable (Fin x)" "0 < x" and z: "x * (1 - 1 / 2 ^ 60) \<le> z"
  shows "x \<le> rnd64 z"
proof (cases "x \<le> z")
  case True
  then show ?thesis using rnd_mono [of x z 53 "-1074"] x(1) by (simp add: representable_def)
next
  case False
  have "0 < x * (1 - 1 / 2 ^ 60)" using x(2) by simp
  then have z0: "0 < z" using z by linarith
  define e where "e = quantum 53 (-1074) z"
  define q where "q = quantum 53 (-1074) x"
  have eq: "e \<le> q" using ilog2_mono [of z x] z0 False x(2) by (auto simp: e_def q_def quantum_def)
  define m where "m = rne (x / 2 powi q)"
  have "x = of_int m * 2 powi q" using x by (metis m_def q_def f64.inject(1) less_irrefl representable_def rnd_nz)
  also have "(2 :: rat) powi q = 2 powi (q - e) * 2 powi e" by (simp add: power_int_diff)
  also have "(2 :: rat) powi (q - e) = of_int (2 ^ nat (q - e))" using eq by (simp add: power_int_def)
  finally have xe: "x = of_int (m * 2 ^ nat (q - e)) * 2 powi e" by simp
  define M where "M = rne (z / 2 powi e)"
  have ze: "rnd64 z = of_int M * 2 powi e" using z0 by (simp add: rnd_nz M_def e_def)
  have pe: "(0 :: rat) < 2 powi e" by simp
  show ?thesis
  proof (rule ccontr)
    assume "\<not> x \<le> rnd64 z"
    then have "of_int M * 2 powi e < of_int (m * 2 ^ nat (q - e)) * (2 :: rat) powi e" using xe ze by simp
    then have "(of_int M :: rat) < of_int (m * 2 ^ nat (q - e))" using pe by simp
    then have "M + 1 \<le> m * 2 ^ nat (q - e)" by (simp only: of_int_less_iff)
    then have "(of_int (M + 1) :: rat) \<le> of_int (m * 2 ^ nat (q - e))" by (simp only: of_int_le_iff)
    then have "of_int (M + 1) * 2 powi e \<le> of_int (m * 2 ^ nat (q - e)) * (2 :: rat) powi e" by (rule mult_right_mono) simp
    then have "rnd64 z + 2 powi e \<le> x" using xe ze by (simp only: of_int_add distrib_right)
    moreover have "\<bar>rnd64 z - z\<bar> \<le> 2 powi e / 2" unfolding e_def by (rule rnd_error)
    ultimately have gap: "2 powi e / 2 \<le> x - z" by linarith
    have "z < 2 powi (ilog2 z + 1)" using ilog2_bounds [OF z0] by simp
    also have "\<dots> \<le> 2 powi (e + 53)" using z0 by (intro power_int_increasing) (auto simp: e_def quantum_def)
    also have "\<dots> = 2 powi e * 2 ^ 53" by (simp add: power_int_add)
    finally have "z / 2 ^ 54 < 2 powi e / 2" by simp
    with gap have "z / 2 ^ 54 < x - z" by linarith
    with z x(2) show False by (simp add: field_simps)
  qed
qed

lemma big_round_err:
  assumes "2 powi (-100000) \<le> y" "64 \<le> p"
  shows "\<bar>big_round p y - y\<bar> \<le> y / 2 ^ 64"
proof -
  have "(0 :: rat) < 2 powi (-100000)" by (rule zero_less_power_int) simp
  then have y0: "0 < y" using assms(1) by linarith
  have "2 powi (-100000) < (2 :: rat) powi (ilog2 y + 1)" using ilog2_bounds [OF y0] assms(1) by linarith
  then have "- 100000 < ilog2 y + 1" by (rule powi_less_D)
  then have q: "quantum p (-2147483648 - p) y = ilog2 y - (p - 1)" using y0 by (simp add: quantum_def)
  have "\<bar>big_round p y - y\<bar> \<le> 2 powi (ilog2 y - (p - 1)) / 2" unfolding big_round_def using rnd_error [of p "-2147483648 - p" y] q by simp
  also have "\<dots> = 2 powi (ilog2 y - p)" by (simp add: power_int_diff)
  also have "\<dots> \<le> 2 powi (ilog2 y - 64)" using assms(2) by (intro power_int_increasing) auto
  also have "\<dots> = 2 powi ilog2 y / 2 ^ 64" by (simp add: power_int_diff)
  also have "\<dots> \<le> y / 2 ^ 64" using ilog2_bounds [OF y0] by (intro divide_right_mono) auto
  finally show ?thesis .
qed

lemma TargetFromDiff_pos:
  assumes "0 < x"
  shows "TargetFromDiff base (Fin x) = Inr (trunc_rat (big_round (max (bf_prec (bf_set_int base)) 53) (of_int base / x)))"
  using assms by (simp add: TargetFromDiff_def bf_new_def bf_quo_def bf_int_def bf_set_int_def Let_def)

lemma DiffFromValue_pos:
  assumes "0 < v"
  shows "DiffFromValue base v =
    f64_round (big_round (max (bf_prec (bf_set_int base)) (bf_prec (bf_set_int v))) (of_int base / of_int v))"
  using assms by (simp add: DiffFromValue_def bf_quo_def bf_set_int_def bf_float64_def Let_def)

lemma powi_le: "m \<le> n \<Longrightarrow> (2 :: rat) powi m \<le> 2 powi n"
  by (simp add: power_int_increasing)

lemma powi_gt_0: "(0 :: rat) < 2 powi m"
  by simp

lemma powi_double: "(2 :: rat) powi (m + 1) = 2 * 2 powi m"
  by (simp add: power_int_add)

lemma quotient_ge_powi:
  assumes "1 \<le> b" "0 < z" "z \<le> 2 powi m"
  shows "2 powi (- m) \<le> b / (z :: rat)"
proof -
  have "(2 :: rat) powi (- m) = 1 / 2 powi m" by (simp add: power_int_minus divide_inverse)
  also have "\<dots> \<le> b / z" using assms by (intro frac_le) auto
  finally show ?thesis .
qed

lemma representable_ge:
  assumes "representable (Fin x)" "0 < x"
  shows "2 powi (-1074) \<le> x"
proof -
  define g :: rat where "g = 2 powi (-1074)"
  have g: "0 < g" unfolding g_def by (rule powi_gt_0)
  obtain k :: int where k: "x = of_int k * g" unfolding g_def using assms(1) by (rule representable_grid)
  then have "0 < k" using assms(2) g by (simp add: zero_less_mult_iff)
  then have "1 \<le> k" by simp
  then have "(1 :: rat) \<le> of_int k" by simp
  then have "1 * g \<le> of_int k * g" using g by (intro mult_right_mono) auto
  then have "g \<le> x" using k by simp
  then show ?thesis unfolding g_def .
qed

lemma representable_le:
  assumes "representable (Fin x)"
  shows "x \<le> 2 powi 1024"
proof -
  have "(2 :: rat) powi 1024 = 2 ^ 1024" by (simp only: power_int_numeral)
  then show ?thesis using assms by (simp add: representable_def abs_less_iff del: power_int_numeral)
qed

text \<open>
  A target not above the rounded quotient \<open>b / x\<close> has a rounded quotient near \<open>x\<close> or above.
\<close>

lemma quotient_of_quotient:
  assumes b: "1 \<le> b" and x: "2 powi (-1074) \<le> x" "x \<le> 2 powi 1024" and p: "64 \<le> p" "64 \<le> p'"
    and v: "0 < v" "v \<le> big_round p (b / x)"
  shows "x * (1 - 1 / 2 ^ 60) \<le> big_round p' (b / v)"
proof -
  have x0: "0 < x" by (rule less_le_trans [OF powi_gt_0 x(1)])
  have "2 powi (-100000) \<le> (2 :: rat) powi (-1024)" by (rule powi_le) simp
  also have "\<dots> \<le> b / x" using b x0 x(2) by (rule quotient_ge_powi)
  finally have "2 powi (-100000) \<le> b / x" .
  from big_round_err [OF this p(1)] have "big_round p (b / x) \<le> b / x * (1 + 1 / 2 ^ 64)"
    by (simp add: algebra_simps abs_le_iff)
  with v(2) have "v \<le> b / x * (1 + 1 / 2 ^ 64)" by linarith
  then have "v * x \<le> b / x * (1 + 1 / 2 ^ 64) * x" using x0 by (intro mult_right_mono) auto
  then have "v * x \<le> b * (1 + 1 / 2 ^ 64)" using x0 by simp
  then have near: "x \<le> b / v * (1 + 1 / 2 ^ 64)" using v(1) by (simp add: field_simps)
  have bv: "0 < b / v" using b v(1) by simp
  have "2 * 2 powi (-100000) = (2 :: rat) powi (-100000 + 1)" by (rule powi_double [symmetric])
  also have "\<dots> \<le> 2 powi (-1074)" by (rule powi_le) simp
  also note x(1)
  also note near
  also have "b / v * (1 + 1 / 2 ^ 64) \<le> 2 * (b / v)" using bv by simp
  finally have "2 powi (-100000) \<le> b / v" by (rule mult_left_le_imp_le) simp
  from big_round_err [OF this p(2)] have "b / v * (1 - 1 / 2 ^ 64) \<le> big_round p' (b / v)"
    by (simp add: algebra_simps abs_le_iff)
  moreover have "x * (1 - 1 / 2 ^ 60) \<le> b / v * (1 - 1 / 2 ^ 64)"
  proof -
    have "x * (1 - 1 / 2 ^ 60) \<le> b / v * (1 + 1 / 2 ^ 64) * (1 - 1 / 2 ^ 60)" using near by (rule mult_right_mono) simp
    also have "\<dots> = b / v * ((1 + 1 / 2 ^ 64) * (1 - 1 / 2 ^ 60))" by (rule mult.assoc)
    also have "\<dots> \<le> b / v * (1 - 1 / 2 ^ 64)" using bv by (intro mult_left_mono) (simp_all del: times_divide_eq_left)
    finally show ?thesis .
  qed
  ultimately show ?thesis by linarith
qed

text \<open>
  C19. A hash that meets the share target shows the difficulty it is judged by. For every
  base target and every positive representable difficulty \<open>d\<close> of a connection, a positive
  hash value not above \<open>TargetFromDiff base d\<close> has a \<open>DiffFromValue\<close> of at least \<open>d\<close>, in
  spite of the roundings of the two quotients and of the conversion to \<open>float64\<close>.
\<close>

theorem target_hit_shows_difficulty:
  assumes "0 < base" "representable (Fin x)" "0 < x" "TargetFromDiff base (Fin x) = Inr t" "0 < v" "v \<le> t"
  shows "f64_le (Fin x) (DiffFromValue base v)"
proof -
  define p where "p = max (bf_prec (bf_set_int base)) 53"
  define p' where "p' = max (bf_prec (bf_set_int base)) (bf_prec (bf_set_int v))"
  have p: "64 \<le> p" "64 \<le> p'" by (simp_all add: p_def p'_def bf_set_int_def)
  have b: "(1 :: rat) \<le> of_int base" using assms(1) by simp
  let ?y = "big_round p (of_int base / x)"
  have "t = trunc_rat ?y" using TargetFromDiff_pos [OF assms(3), of base] assms(4) by (simp add: p_def)
  moreover have "0 \<le> ?y" using b assms(3) by (simp add: big_round_def rnd_nonneg)
  ultimately have "v \<le> \<lfloor>?y\<rfloor>" using assms(6) by (simp add: trunc_rat_def)
  then have v: "of_int v \<le> ?y" by (simp add: le_floor_iff)
  have "x * (1 - 1 / 2 ^ 60) \<le> big_round p' (of_int base / of_int v)"
    by (rule quotient_of_quotient [OF b representable_ge [OF assms(2,3)] representable_le [OF assms(2)] p _ v]) (simp add: assms(5))
  then have "x \<le> rnd64 (big_round p' (of_int base / of_int v))" by (rule rnd64_above [OF assms(2,3)])
  then show ?thesis
    using assms(2) by (auto simp: DiffFromValue_pos [OF assms(5)] p'_def [symmetric] f64_round_def Let_def
      f64_le_def f64_eq_def representable_def)
qed

theorem target_hit_shows_difficulty_witness:
  "f64_le (Fin 2) (DiffFromValue (2 ^ 256) (2 ^ 255))"
proof (rule target_hit_shows_difficulty)
  have "big_round p ((2 :: rat) ^ 256 / 2) = 2 ^ 255" if "257 \<le> p" for p
  proof -
    have "rnd p (-2147483648 - p) (of_int (2 ^ 255)) = (of_int (2 ^ 255) :: rat)"
    proof (rule rnd_of_int)
      have "(2 :: int) ^ 255 < 2 ^ nat p" using that by (intro power_strict_increasing) auto
      then show "\<bar>2 ^ 255\<bar> < (2 :: int) ^ nat p" by simp
    qed (use that in auto)
    then show ?thesis by (simp add: big_round_def)
  qed
  moreover have "bitlen (1 :: int) = 1" by (simp add: bitlen_def floorlog_def)
  then have "bitlen (2 ^ 256 :: int) = 257" using bitlen_pow2 [of 1 256] by simp
  ultimately show "TargetFromDiff (2 ^ 256) (Fin 2) = Inr (2 ^ 255)"
    by (simp add: TargetFromDiff_pos bf_set_int_def trunc_rat_def)
  show "representable (Fin 2)" using representable_small_int [of 2] by simp
qed simp_all

subsection \<open>The history\<close>

lemma map_of_map_delete: "map_of (map_delete k m) = (map_of m)(k := None)"
  by (induction m) (auto simp: map_delete_def fun_eq_iff)

lemma map_delete_keys: "map fst (map_delete k m) = filter (\<lambda>x. x \<noteq> k) (map fst m)"
  by (induction m) (auto simp: map_delete_def)

lemma length_map_delete: "length (map_delete k m) \<le> length m"
  by (simp add: map_delete_def)

lemma map_put_keys: "map fst (map_put k v m) = (if k \<in> set (map fst m) then map fst m else map fst m @ [k])"
  by (induction k v m rule: map_put.induct) auto

lemma evict_step_sub: "map_of (evict_step mx keep k h) i = Some e \<Longrightarrow> map_of h i = Some e"
  by (auto simp: evict_step_def map_of_map_delete split: if_splits)

lemma fold_evict_sub: "map_of (fold (evict_step mx keep) ord h) i = Some e \<Longrightarrow> map_of h i = Some e"
  by (induction ord arbitrary: h) (auto dest: evict_step_sub)

lemma evict_sub: "map_of (evict mx keep ord h) i = Some e \<Longrightarrow> map_of h i = Some e"
  by (auto simp: evict_def split: if_splits dest: fold_evict_sub)

lemma evict_keeps: "map_of (evict mx keep ord h) keep = map_of h keep"
proof -
  have "map_of (fold (evict_step mx keep) ord h) keep = map_of h keep"
    by (induction ord arbitrary: h) (auto simp: evict_step_def map_of_map_delete)
  then show ?thesis by (simp add: evict_def)
qed

lemma fold_evict_distinct: "distinct (map fst h) \<Longrightarrow> distinct (map fst (fold (evict_step mx keep) ord h))"
  by (induction ord arbitrary: h) (auto simp: evict_step_def map_delete_keys)

lemma fold_evict_length: "length (fold (evict_step mx keep) ord h) \<le> length h"
proof (induction ord arbitrary: h)
  case (Cons k ord)
  have "length (evict_step mx keep k h) \<le> length h" by (simp add: evict_step_def length_map_delete)
  then show ?case using Cons [of "evict_step mx keep k h"] by simp
qed simp

lemma fold_evict_keys:
  assumes "mx < length (fold (evict_step mx keep) ord h)"
  shows "set (map fst (fold (evict_step mx keep) ord h)) \<subseteq> set (map fst h) - (set ord - {keep})"
  using assms
proof (induction ord arbitrary: h)
  case (Cons k ord)
  have "mx < length (evict_step mx keep k h)"
    using Cons.prems fold_evict_length [of mx keep ord "evict_step mx keep k h"] by simp
  moreover have "length (evict_step mx keep k h) \<le> length h" by (simp add: evict_step_def length_map_delete)
  ultimately have "set (map fst (evict_step mx keep k h)) \<subseteq> set (map fst h) - ({k} - {keep})"
    by (auto simp: evict_step_def map_delete_keys simp del: set_map)
  moreover have "set (map fst (fold (evict_step mx keep) (k # ord) h)) \<subseteq> set (map fst (evict_step mx keep k h)) - (set ord - {keep})"
    using Cons.IH [of "evict_step mx keep k h"] Cons.prems by (simp del: set_map)
  ultimately show ?case by (auto simp del: set_map)
qed simp

text \<open>Whatever the iteration order, as long as it visits every key: at most \<open>mx\<close> jobs remain.\<close>

lemma evict_bound:
  assumes "distinct (map fst h)" "set (map fst h) \<subseteq> set ord" "1 \<le> mx"
  shows "length (evict mx keep ord h) \<le> mx"
proof (rule ccontr)
  assume "\<not> ?thesis"
  then have big: "mx < length (fold (evict_step mx keep) ord h)" by (auto simp: evict_def split: if_splits)
  have "set (map fst (fold (evict_step mx keep) ord h)) \<subseteq> {keep}" using fold_evict_keys [OF big] assms(2) by auto
  then have "card (set (map fst (fold (evict_step mx keep) ord h))) \<le> 1" using card_mono [of "{keep}"] by fastforce
  then show False using big assms(3) distinct_card [OF fold_evict_distinct [OF assms(1)]] by simp
qed

lemma mark_seen_lookup:
  "map_of (mark_seen i key h) k =
     (case map_of h i of Some (j, s) \<Rightarrow> if k = i then Some (j, key # s) else map_of h k | None \<Rightarrow> map_of h k)"
  by (auto simp: mark_seen_def split: option.splits)

lemma mark_seen_grows:
  assumes "map_of (mark_seen i n h) k = Some (j, seen)"
  shows "\<exists>seen0. map_of h k = Some (j, seen0) \<and> set seen0 \<subseteq> set seen"
  using assms by (auto simp: mark_seen_lookup split: option.splits if_splits)

subsection \<open>Every nonce counts once\<close>

text \<open>
  A share counts when the engine accepts it or finds it too easy: the connection may still
  credit the latter at the difficulty in force before the last retarget.
\<close>

definition counts :: "share \<Rightarrow> bool" where
  "counts sh = (sh_ErrorCode sh = 0 \<or> sh_ErrorCode sh = ErrLowDiffShare)"

datatype 't engine_event = Arrive 't | Submit session_view "iface list"

text \<open>The keys of the submissions that count, over a sequence of new work and submissions.\<close>

fun credited ::
  "(session_view \<Rightarrow> iface list \<Rightarrow> 's \<Rightarrow> share res \<times> 's) \<Rightarrow> ('t \<Rightarrow> 's \<Rightarrow> unit res \<times> 's) \<Rightarrow> (iface list \<Rightarrow> 'k) \<Rightarrow>
   't engine_event list \<Rightarrow> 's \<Rightarrow> 'k list" where
  "credited submit accept key [] st = []"
| "credited submit accept key (Arrive t # es) st = credited submit accept key es (snd (accept t st))"
| "credited submit accept key (Submit v ps # es) st =
     (case submit v ps st of
        (Inr sh, st') \<Rightarrow> (if counts sh then [key ps] else []) @ credited submit accept key es st'
      | (Inl _, st') \<Rightarrow> credited submit accept key es st')"

fun arrivals :: "'t engine_event list \<Rightarrow> nat" where
  "arrivals [] = 0"
| "arrivals (Arrive _ # es) = Suc (arrivals es)"
| "arrivals (Submit _ _ # es) = arrivals es"

text \<open>The state after a sequence of new work and submissions.\<close>

fun after_events ::
  "(session_view \<Rightarrow> iface list \<Rightarrow> 's \<Rightarrow> share res \<times> 's) \<Rightarrow> ('t \<Rightarrow> 's \<Rightarrow> unit res \<times> 's) \<Rightarrow> 't engine_event list \<Rightarrow> 's \<Rightarrow> 's" where
  "after_events submit accept [] st = st"
| "after_events submit accept (Arrive t # es) st = after_events submit accept es (snd (accept t st))"
| "after_events submit accept (Submit v ps # es) st = after_events submit accept es (snd (submit v ps st))"

lemma after_events_inv:
  assumes "I st" "\<And>v ps st. I st \<Longrightarrow> I (snd (submit v ps st))" "\<And>t st. I st \<Longrightarrow> I (snd (accept t st))"
  shows "I (after_events submit accept es st)"
  using assms by (induction submit accept es st rule: after_events.induct) auto

text \<open>Every job of a history has a property. New jobs must have it; noting a nonce keeps it.\<close>

definition all_jobs :: "('j \<Rightarrow> bool) \<Rightarrow> 'j history \<Rightarrow> bool" where
  "all_jobs P h \<longleftrightarrow> (\<forall>i j seen. map_of h i = Some (j, seen) \<longrightarrow> P j)"

lemma all_jobs_Nil [simp]: "all_jobs P []"
  by (simp add: all_jobs_def)

lemma all_jobsD: "all_jobs P h \<Longrightarrow> map_of h i = Some (j, seen) \<Longrightarrow> P j"
  by (auto simp: all_jobs_def)

lemma all_jobs_mark_seen: "all_jobs P h \<Longrightarrow> all_jobs P (mark_seen i n h)"
  unfolding all_jobs_def by (blast dest: mark_seen_grows)

lemma all_jobs_store:
  "all_jobs P (es_history st) \<Longrightarrow> P j \<Longrightarrow> all_jobs P (es_history (store_job mx ord i j st))"
  unfolding all_jobs_def store_job_def by (auto dest!: evict_sub split: if_splits) blast+

lemma fmt_uint_inj:
  assumes "fmt_uint 16 m = fmt_uint 16 n"
  shows "m = n"
proof -
  have "parse_digits 16 (max m n) 0 (fmt_uint 16 m) = (m, True)" by (rule parse_digits_fmt) simp_all
  moreover have "parse_digits 16 (max m n) 0 (fmt_uint 16 n) = (n, True)" by (rule parse_digits_fmt) simp_all
  ultimately show ?thesis using assms by (metis prod.inject)
qed

text \<open>The id has been given out when the counter stands at \<open>c\<close>.\<close>

definition issued :: "u64 \<Rightarrow> string \<Rightarrow> bool" where
  "issued c i \<longleftrightarrow> (\<exists>n\<le>unat c. i = fmt_uint 16 n)"

lemma issued_mono: "issued c i \<Longrightarrow> unat c \<le> unat c' \<Longrightarrow> issued c' i"
  unfolding issued_def using le_trans by blast

lemma issued_not_new: "issued c (fmt_uint 16 n) \<Longrightarrow> n \<le> unat c"
  unfolding issued_def using fmt_uint_inj by blast

definition new_id :: "u64 \<Rightarrow> u64 \<Rightarrow> string \<Rightarrow> bool" where
  "new_id c c' i \<longleftrightarrow> (\<exists>n. unat c < n \<and> n \<le> unat c' \<and> i = fmt_uint 16 n)"

lemma new_id_issued: "new_id c c' i \<Longrightarrow> issued c' i"
  unfolding new_id_def issued_def by blast

lemma new_id_not_issued: "new_id c c' i \<Longrightarrow> \<not> issued c i"
  unfolding new_id_def using issued_not_new leD by blast

lemma new_id_next: "unat (c + 1 :: u64) = Suc (unat c) \<Longrightarrow> new_id c (c + 1) (job_id (c + 1))"
  unfolding new_id_def job_id_def by (intro exI [of _ "unat (c + 1)"]) simp

text \<open>
  The contract between an engine and its ledger of nonces: a submission changes the history
  only by recording its own key, it counts only if the key was not recorded, and new work
  enters the history under ids that were not used before (at most \<open>burst\<close> of them at a time,
  as long as the counter does not wrap).
\<close>

locale nonce_ledger =
  fixes submit :: "session_view \<Rightarrow> iface list \<Rightarrow> 's \<Rightarrow> share res \<times> 's"
    and accept :: "'t \<Rightarrow> 's \<Rightarrow> unit res \<times> 's"
    and key :: "iface list \<Rightarrow> string \<times> string"
    and hist :: "'s \<Rightarrow> 'j history"
    and ctr :: "'s \<Rightarrow> u64"
    and burst :: nat
  assumes submit_ctr: "submit v ps st = (r, st') \<Longrightarrow> ctr st' = ctr st"
    and submit_hist: "submit v ps st = (r, st') \<Longrightarrow>
      hist st' = hist st \<or> hist st' = mark_seen (fst (key ps)) (snd (key ps)) (hist st)"
    and submit_counts: "submit v ps st = (Inr sh, st') \<Longrightarrow> counts sh \<Longrightarrow>
      hist st' = mark_seen (fst (key ps)) (snd (key ps)) (hist st) \<and>
      (\<exists>j seen. map_of (hist st) (fst (key ps)) = Some (j, seen) \<and> snd (key ps) \<notin> set seen)"
    and accept_ctr: "accept t st = (u, st') \<Longrightarrow> unat (ctr st) + burst < 2 ^ 64 \<Longrightarrow>
      unat (ctr st) \<le> unat (ctr st') \<and> unat (ctr st') \<le> unat (ctr st) + burst"
    and accept_hist: "accept t st = (u, st') \<Longrightarrow> unat (ctr st) + burst < 2 ^ 64 \<Longrightarrow> map_of (hist st') i = Some (j, seen) \<Longrightarrow>
      map_of (hist st) i = Some (j, seen) \<or>
      (seen = [] \<and> new_id (ctr st) (ctr st') i)"
begin

text \<open>
  The invariant: every id in use is below the counter, and what has counted is recorded for as
  long as its job is in the history.
\<close>

definition ledger :: "(string \<times> string) list \<Rightarrow> 's \<Rightarrow> bool" where
  "ledger cs st \<longleftrightarrow> distinct cs \<and> (\<forall>i e. map_of (hist st) i = Some e \<longrightarrow> issued (ctr st) i) \<and>
     (\<forall>i n. (i, n) \<in> set cs \<longrightarrow> issued (ctr st) i \<and> (\<forall>j seen. map_of (hist st) i = Some (j, seen) \<longrightarrow> n \<in> set seen))"

lemma ledger_accept:
  assumes "ledger cs st" "accept t st = (r, st')" "unat (ctr st) + burst < 2 ^ 64"
  shows "ledger cs st'"
proof -
  have le: "unat (ctr st) \<le> unat (ctr st')" using accept_ctr [OF assms(2,3)] by simp
  have "issued (ctr st') i" if m: "map_of (hist st') i = Some e" for i e
  proof -
    obtain j seen where "e = (j, seen)" by (cases e)
    with accept_hist [OF assms(2,3)] m have "map_of (hist st) i = Some e \<or> issued (ctr st') i" using new_id_issued by blast
    then show ?thesis
    proof
      assume "map_of (hist st) i = Some e"
      then have "issued (ctr st) i" using assms(1) unfolding ledger_def by blast
      then show ?thesis using le by (rule issued_mono)
    qed simp
  qed
  moreover have "issued (ctr st') i \<and> n \<in> set seen" if cs: "(i, n) \<in> set cs" and m: "map_of (hist st') i = Some (j, seen)" for i n j seen
  proof -
    have c: "issued (ctr st) i" using assms(1) cs unfolding ledger_def by blast
    then have "map_of (hist st) i = Some (j, seen)" using accept_hist [OF assms(2,3) m] by (auto dest: new_id_not_issued)
    then show ?thesis using assms(1) cs issued_mono [OF c le] unfolding ledger_def by blast
  qed
  moreover have "issued (ctr st') i" if "(i, n) \<in> set cs" for i n
    using that assms(1) issued_mono [OF _ le] unfolding ledger_def by blast
  ultimately show ?thesis using assms(1) unfolding ledger_def by simp
qed

lemma ledger_mark:
  assumes "ledger cs st" "ctr st' = ctr st" "hist st' = hist st \<or> hist st' = mark_seen i n (hist st)"
  shows "ledger cs st'"
proof -
  have grow: "\<exists>seen0. map_of (hist st) k = Some (j, seen0) \<and> set seen0 \<subseteq> set seen" if "map_of (hist st') k = Some (j, seen)" for k j seen
    using assms(3)
  proof
    assume "hist st' = mark_seen i n (hist st)"
    then show ?thesis using that mark_seen_grows by simp
  qed (use that in simp)
  have "issued (ctr st') k" if "map_of (hist st') k = Some e" for k e
  proof -
    obtain j seen where "e = (j, seen)" by (cases e)
    then show ?thesis using grow that assms(1,2) unfolding ledger_def by metis
  qed
  moreover have "m \<in> set seen" if "(k, m) \<in> set cs" "map_of (hist st') k = Some (j, seen)" for k m j seen
    using grow [OF that(2)] that(1) assms(1) unfolding ledger_def by blast
  ultimately show ?thesis using assms(1,2) unfolding ledger_def by simp
qed

lemma ledger_counts:
  assumes "ledger cs st" "ctr st' = ctr st" "hist st' = mark_seen i n (hist st)"
    and "map_of (hist st) i = Some (j, seen)" "n \<notin> set seen"
  shows "ledger (cs @ [(i, n)]) st'"
proof -
  have "ledger cs st'" by (rule ledger_mark [OF assms(1,2) disjI2 [OF assms(3)]])
  moreover have "(i, n) \<notin> set cs" using assms(1,4,5) unfolding ledger_def by blast
  moreover have "issued (ctr st) i" using assms(1,4) unfolding ledger_def by blast
  moreover have "map_of (hist st') i = Some (j, n # seen)" using assms(3,4) by (simp add: mark_seen_lookup)
  ultimately show ?thesis using assms(2) unfolding ledger_def by auto
qed

lemma ledger_run:
  "ledger cs st \<Longrightarrow> unat (ctr st) + burst * arrivals es < 2 ^ 64 \<Longrightarrow> distinct (cs @ credited submit accept key es st)"
proof (induction es arbitrary: cs st)
  case Nil
  then show ?case by (simp add: ledger_def)
next
  case (Cons e es)
  show ?case
  proof (cases e)
    case (Arrive t)
    obtain r st' where a: "accept t st = (r, st')" by (cases "accept t st")
    have b: "unat (ctr st) + burst < 2 ^ 64" using Cons.prems(2) Arrive by (simp add: algebra_simps)
    have "unat (ctr st') + burst * arrivals es < 2 ^ 64"
      using accept_ctr [OF a b] Cons.prems(2) Arrive by (simp add: algebra_simps)
    then show ?thesis using Cons.IH [OF ledger_accept [OF Cons.prems(1) a b]] by (simp add: Arrive a)
  next
    case (Submit v ps)
    obtain r st' where s: "submit v ps st = (r, st')" by (cases "submit v ps st")
    have b: "unat (ctr st') + burst * arrivals es < 2 ^ 64" using Cons.prems(2) Submit submit_ctr [OF s] by simp
    show ?thesis
    proof (cases "\<exists>sh. r = Inr sh \<and> counts sh")
      case True
      then obtain sh where sh: "r = Inr sh" "counts sh" by blast
      obtain j seen where "hist st' = mark_seen (fst (key ps)) (snd (key ps)) (hist st)"
        "map_of (hist st) (fst (key ps)) = Some (j, seen)" "snd (key ps) \<notin> set seen"
        using submit_counts [of v ps st sh st'] s sh by blast
      then have "ledger (cs @ [(fst (key ps), snd (key ps))]) st'"
        by (intro ledger_counts [OF Cons.prems(1) submit_ctr [OF s]])
      then have "distinct ((cs @ [key ps]) @ credited submit accept key es st')" using Cons.IH [OF _ b] by (metis prod.collapse)
      then show ?thesis by (simp add: Submit s sh)
    next
      case False
      have "ledger cs st'" using Cons.prems(1) submit_ctr [OF s] submit_hist [OF s] by (rule ledger_mark)
      moreover have "credited submit accept key (e # es) st = credited submit accept key es st'"
        using False by (auto simp: Submit s split: sum.splits)
      ultimately show ?thesis using Cons.IH [OF _ b] by simp
    qed
  qed
qed

lemma credits_once:
  assumes "hist st = []" "unat (ctr st) + burst * arrivals es < 2 ^ 64"
  shows "distinct (credited submit accept key es st)"
  using ledger_run [of "[]" st es] assms by (simp add: ledger_def)

end

text \<open>The two laws of new work, for the engines that store one job at a time.\<close>

lemma bump_store_ctr:
  assumes "unat (c :: u64) + 1 < 2 ^ 64"
  shows "unat (c + 1) = unat c + 1"
  using assms by (simp add: unat_word_ariths)

lemma bump_hist:
  assumes "unat (es_jobCounter st) + 1 < 2 ^ 64"
    and "st' = bump st \<or> (\<exists>ord j. st' = store_job mx ord (job_id (es_jobCounter st + 1)) j (bump st))"
  shows "es_jobCounter st' = es_jobCounter st + 1 \<and> unat (es_jobCounter st + 1) = unat (es_jobCounter st) + 1 \<and>
    (\<forall>i j seen. map_of (es_history st') i = Some (j, seen) \<longrightarrow> map_of (es_history st) i = Some (j, seen) \<or>
       (seen = [] \<and> new_id (es_jobCounter st) (es_jobCounter st') i))"
proof -
  note c = bump_store_ctr [OF assms(1)]
  have "es_jobCounter st' = es_jobCounter st + 1" using assms(2) by (auto simp: bump_def store_job_def)
  moreover have "map_of (es_history st) i = Some (j, seen) \<or>
      (seen = [] \<and> new_id (es_jobCounter st) (es_jobCounter st + 1) i)"
    if "map_of (es_history st') i = Some (j, seen)" for i j seen
    using assms(2) that c
    by (auto simp: bump_def store_job_def dest!: evict_sub split: if_splits simp: new_id_next)
  ultimately show ?thesis using c by simp
qed

lemma one_job_laws:
  assumes "unat (es_jobCounter st) + 1 < 2 ^ 64"
    and "st' = st \<or> st' = bump st \<or> (\<exists>ord j. st' = store_job mx ord (job_id (es_jobCounter st + 1)) j (bump st))"
  shows "unat (es_jobCounter st) \<le> unat (es_jobCounter st') \<and> unat (es_jobCounter st') \<le> unat (es_jobCounter st) + 1"
    and "map_of (es_history st') i = Some (j, seen) \<Longrightarrow> map_of (es_history st) i = Some (j, seen) \<or>
       (seen = [] \<and> new_id (es_jobCounter st) (es_jobCounter st') i)"
proof -
  have "st' = st \<or> (es_jobCounter st' = es_jobCounter st + 1 \<and> unat (es_jobCounter st + 1) = unat (es_jobCounter st) + 1 \<and>
    (\<forall>i j seen. map_of (es_history st') i = Some (j, seen) \<longrightarrow> map_of (es_history st) i = Some (j, seen) \<or>
       (seen = [] \<and> new_id (es_jobCounter st) (es_jobCounter st') i)))"
    using assms(2) bump_hist [OF assms(1), of st' mx] by blast
  note h = this
  show "unat (es_jobCounter st) \<le> unat (es_jobCounter st') \<and> unat (es_jobCounter st') \<le> unat (es_jobCounter st) + 1"
    using h by (elim disjE conjE) simp_all
  show "map_of (es_history st) i = Some (j, seen) \<or> (seen = [] \<and> new_id (es_jobCounter st) (es_jobCounter st') i)"
    if "map_of (es_history st') i = Some (j, seen)"
    using h that by blast
qed

subsection \<open>Submissions of a job id and a nonce\<close>

lemma as_string_iff: "as_string x = Some s \<longleftrightarrow> x = IStr s"
  by (cases x) auto

lemma job_nonce_eq:
  assumes "2 < length ps" "as_string (ps ! 1) = Some i" "as_string (ps ! 2) = Some n"
  shows "job_nonce ps = (i, norm_hex n)"
proof -
  obtain a b c r where "ps = a # b # c # r"
    using assms(1) by (cases ps; cases "tl ps"; cases "tl (tl ps)") auto
  then show ?thesis using assms by (simp add: as_string_iff)
qed

lemma lower_char_idem: "lower_char (lower_char c) = lower_char c"
  by (simp add: lower_char_def Let_def)

lemma norm_hex_lower [simp]: "to_lower (norm_hex s) = norm_hex s"
  by (simp add: norm_hex_def to_lower_def lower_char_idem)

lemma not_counts_err:
  "c \<noteq> 0 \<Longrightarrow> c \<noteq> ErrLowDiffShare \<Longrightarrow> \<not> counts (set_err c sh)"
  by (simp add: counts_def set_err_def)

lemmas err_codes = ErrJobNotFound_def ErrNTimeOutOfRange_def ErrIncorrectNonceSize_def ErrDuplicateShare_def ErrLowDiffShare_def

lemma credited_all:
  assumes "\<And>v ps st sh st'. submit v ps st = (Inr sh, st') \<Longrightarrow> counts sh \<Longrightarrow> Q (key ps)"
  shows "\<forall>k\<in>set (credited submit accept key es st). Q k"
proof (induction es arbitrary: st)
  case (Cons e es)
  show ?case
  proof (cases e)
    case (Submit v ps)
    obtain r st' where s: "submit v ps st = (r, st')" by (cases "submit v ps st")
    show ?thesis using Cons [of st'] assms [of v ps st _ st'] by (auto simp: Submit s split: sum.splits)
  qed (use Cons in simp)
qed simp

text \<open>Texts of equal length without upper-case letters that parse to the same number are equal.\<close>

lemma unhex_lower:
  assumes "lower_char c = c" "unhex c = Some d"
  shows "c = hex_char d"
proof -
  have codes: "\<forall>d\<in>set [0..<16]. (of_char (hex_char d) :: nat) = (if d < 10 then d + 48 else d + 87)" by code_simp
  define n where "n = (of_char c :: nat)"
  have "\<not> (65 \<le> n \<and> n \<le> 90)"
  proof
    assume n: "65 \<le> n \<and> n \<le> 90"
    then have "(of_char (char_of (n + 32)) :: nat) = n" using assms(1) by (simp add: lower_char_def n_def [symmetric] Let_def)
    then show False using n by simp
  qed
  then have "d < 16 \<and> n = (if d < 10 then d + 48 else d + 87)"
    using assms(2) by (auto simp: unhex_def n_def [symmetric] Let_def split: if_splits)
  then have "(of_char c :: nat) = of_char (hex_char d)" using codes by (simp add: n_def)
  then show ?thesis by (metis char_of_char)
qed

lemma parse_digits_lower_inj:
  assumes "length s = length t" "parse_digits 16 mx a s = (v, True)" "parse_digits 16 mx b t = (v, True)"
    "to_lower s = s" "to_lower t = t"
  shows "a = b \<and> s = t"
  using assms
proof (induction s t arbitrary: a b rule: list_induct2)
  case (Cons c s c' t)
  from Cons.prems(1) obtain d where d: "unhex c = Some d" "d < 16" "parse_digits 16 mx (a * 16 + d) s = (v, True)"
    by (auto split: option.splits if_splits)
  from Cons.prems(2) obtain d' where d': "unhex c' = Some d'" "d' < 16" "parse_digits 16 mx (b * 16 + d') t = (v, True)"
    by (auto split: option.splits if_splits)
  have "a * 16 + d = b * 16 + d' \<and> s = t" using Cons.IH [OF d(3) d'(3)] Cons.prems(3,4) by (simp add: to_lower_def)
  moreover from this have "a = b" using d(2) d'(2) by linarith
  ultimately have "a = b" "d = d'" "s = t" by simp_all
  then show ?case
    using unhex_lower [of c d] unhex_lower [of c' d'] d(1) d'(1) Cons.prems(3,4) by (simp add: to_lower_def)
qed simp

lemma parse_uint_lower_inj:
  assumes "parse_uint 16 s = (v, True)" "parse_uint 16 t = (v, True)" "to_lower s = s" "to_lower t = t" "length s = length t"
  shows "s = t"
proof -
  have "parse_digits 16 (2 ^ 64 - 1) 0 s = (v, True)" "parse_digits 16 (2 ^ 64 - 1) 0 t = (v, True)"
    using assms(1,2) by (auto simp: parse_uint_def split: if_splits)
  then show ?thesis using parse_digits_lower_inj [OF assms(5)] assms(3,4) by blast
qed

end
