(* ===== verification/Kawpow.thy ===== *)
theory Kawpow
  imports EngineCore Daemons
begin

text \<open>
  \<open>engine/kawpow/kawpow.go\<close>: the KawPow engine (Ravencoin). It builds jobs from block templates
  with the machinery of \<open>jobs/job.go\<close> (theory \<open>Jobs\<close>), fixes the coinbase per job, and lets
  miners roll the 64-bit header nonce. The progpow computation (powkit) and Keccak are
  parameters, as are the daemons.
\<close>

text \<open>
  \<open>kp_compute\<close> is \<open>pow.Compute(headerHash, height, nonce)\<close>: the mix and the digest, or an error
  (\<open>None\<close>).
\<close>

record 'w kawpow_env =
  kp_al :: address_libs
  kp_rpc :: "'w transport"
  kp_decode_gbt :: "iface option \<Rightarrow> block_template option"
  kp_dm :: daemon_manager
  kp_opts :: job_options
  kp_compute :: "bytes \<Rightarrow> u64 \<Rightarrow> u64 \<Rightarrow> (bytes \<times> bytes) option"
  kp_keccak :: "bytes \<Rightarrow> bytes"

definition kawpow_diff1 :: int where
  "kawpow_diff1 = 0xff * 2 ^ 216"

definition epochLength :: nat where
  "epochLength = 7500"

record kawpow_job =
  kj_id :: string
  kj_inner :: job
  kj_header80 :: bytes
  kj_headerHash :: bytes
  kj_seedHash :: bytes
  kj_height :: u64
  kj_bits :: string
  kj_coinbase :: bytes

type_synonym 'w kawpow = "(kawpow_job, 'w) engine_state"

definition serializeKawpowInput :: "u32 \<Rightarrow> bytes \<Rightarrow> bytes \<Rightarrow> u32 \<Rightarrow> string \<Rightarrow> u32 \<Rightarrow> bytes res" where
  "serializeKawpowInput version prevHashInternal merkleRootInternal nTime bitsHex height =
     rbind (HexDecode bitsHex) (\<lambda>bits.
       Inr (PackUint32LE version @ prevHashInternal @ merkleRootInternal @ PackUint32LE nTime @
            ReverseBytes bits @ PackUint32LE height))"

definition fullHeader :: "kawpow_job \<Rightarrow> u64 \<Rightarrow> bytes \<Rightarrow> bytes" where
  "fullHeader j nonce mix = kj_header80 j @ PackUint64LE nonce @ ReverseBytes mix"

definition kawpow_serializeBlock :: "kawpow_job \<Rightarrow> u64 \<Rightarrow> bytes \<Rightarrow> bytes" where
  "kawpow_serializeBlock j nonce mix =
     fullHeader j nonce mix @
     VarIntBytes (word_of_nat (length (gbt_Transactions (j_GetBlockTemplate (kj_inner j))) + 1)) @
     kj_coinbase j @ j_TransactionData (kj_inner j)"

definition seedHash :: "(bytes \<Rightarrow> bytes) \<Rightarrow> u64 \<Rightarrow> bytes" where
  "seedHash keccak height = (keccak ^^ (unat height div epochLength)) (replicate 32 0)"

text \<open>
  The job of a template. The counter \<open>c\<close> is the one that gave the id; a nil coinbase hasher is
  double SHA-256.
\<close>

definition kawpow_job_of :: "'w kawpow_env \<Rightarrow> int \<Rightarrow> u64 \<Rightarrow> block_template \<Rightarrow> kawpow_job res" where
  "kawpow_job_of env now c gbt =
     rbind (recipient_script (kp_al env) (jo_PoolAddress (kp_opts env))) (\<lambda>script.
     rbind (HexDecode ''f000000ff111111f'') (\<lambda>placeholder.
     rbind (NewJob (kp_al env) now (job_id c) gbt script placeholder ''POW'' (jo_TxMessages (kp_opts env))
              (jo_RewardRecipients (kp_opts env)) Sha256d) (\<lambda>inner.
       let fixed = be_bytes 8 (unat c);
           coinbase = SerializeCoinbase inner (take 4 fixed) (drop 4 fixed);
           merkleRt = WithFirst (j_MerkleTree inner) (Sha256d coinbase) in
     rbind (HexDecode (gbt_PreviousBlockHash gbt)) (\<lambda>prev.
     rbind (serializeKawpowInput (gbt_Version gbt) (ReverseBytes prev) merkleRt (gbt_CurTime gbt) (gbt_Bits gbt)
              (word_of_int (gbt_Height gbt))) (\<lambda>header80.
       Inr \<lparr>kj_id = job_id c, kj_inner = inner, kj_header80 = header80,
            kj_headerHash = ReverseBytes (Sha256d header80),
            kj_seedHash = seedHash (kp_keccak env) (word_of_int (gbt_Height gbt)),
            kj_height = word_of_int (gbt_Height gbt), kj_bits = gbt_Bits gbt, kj_coinbase = coinbase\<rparr>)))))"

definition kawpow_acceptTemplate ::
  "'w kawpow_env \<Rightarrow> int \<times> string list \<times> block_template \<Rightarrow> 'w kawpow \<Rightarrow> unit res \<times> 'w kawpow" where
  "kawpow_acceptTemplate env = (\<lambda>(now, ord, gbt) st.
     let st = bump st in
     case kawpow_job_of env now (es_jobCounter st) gbt of
       Inl e \<Rightarrow> (Inl e, st)
     | Inr j \<Rightarrow> (Inr (), store_job 8 ord (kj_id j) j st))"

definition kawpow_fetch :: "'w kawpow_env \<Rightarrow> 'w kawpow \<Rightarrow> block_template res \<times> 'w kawpow" where
  "kawpow_fetch env st =
     (case FetchBlockTemplate (kp_rpc env) (kp_decode_gbt env) (kp_dm env) (es_world st) of
        (r, w) \<Rightarrow> (r, st\<lparr>es_world := w\<rparr>))"

text \<open>\<open>Init\<close> without the warm-up of the epoch cache, which changes no state of the engine.\<close>

definition kawpow_Init :: "'w kawpow_env \<Rightarrow> int \<Rightarrow> string list \<Rightarrow> 'w kawpow \<Rightarrow> unit res \<times> 'w kawpow" where
  "kawpow_Init env now ord st =
     (case kawpow_fetch env st of
        (Inl e, st) \<Rightarrow> (Inl e, st)
      | (Inr gbt, st) \<Rightarrow> kawpow_acceptTemplate env (now, ord, gbt) st)"

definition kawpow_refresh :: "'w kawpow_env \<Rightarrow> int \<Rightarrow> string list \<Rightarrow> 'w kawpow \<Rightarrow> bool res \<times> 'w kawpow" where
  "kawpow_refresh env now ord st =
     (case kawpow_fetch env st of
        (Inl e, st) \<Rightarrow> (Inl e, st)
      | (Inr gbt, st) \<Rightarrow>
          (case es_cur st of
             Some cur \<Rightarrow>
               if gbt_PreviousBlockHash (j_GetBlockTemplate (kj_inner cur)) = gbt_PreviousBlockHash gbt then (Inr False, st)
               else (case kawpow_acceptTemplate env (now, ord, gbt) st of (r, st) \<Rightarrow> (rbind r (\<lambda>_. Inr True), st))
           | None \<Rightarrow> (case kawpow_acceptTemplate env (now, ord, gbt) st of (r, st) \<Rightarrow> (rbind r (\<lambda>_. Inr True), st))))"

text \<open>The reply, the two bytes of the extranonce (the counter at 16 bits) and the 6 bytes left.\<close>

definition kawpow_OnSubscribe ::
  "session_view \<Rightarrow> iface list \<Rightarrow> 'w kawpow \<Rightarrow> ((iface \<times> bytes option \<times> int) res) \<times> 'w kawpow" where
  "kawpow_OnSubscribe v params st =
     (let n = es_enCounter st + 1; en = be_bytes 2 (unat n mod 2 ^ 16)
      in (Inr (IList [INil, IStr (hex_encode en)], Some en, 6), st\<lparr>es_enCounter := n\<rparr>))"

text \<open>
  \<open>nil\<close> before the first job. The target computation panics for a NaN difficulty; the
  difficulty of a connection is never NaN (\<open>big.Float\<close> has none), and the result then is a
  nil slice here.
\<close>

definition kawpow_JobParams :: "f64 \<Rightarrow> 'w kawpow \<Rightarrow> iface list option" where
  "kawpow_JobParams diff st =
     (case (es_cur st, TargetFromDiff kawpow_diff1 diff) of
        (Some cur, Inr target) \<Rightarrow>
          Some [IStr (kj_id cur), IStr (hex_encode (kj_headerHash cur)), IStr (hex_encode (kj_seedHash cur)),
                IStr (TargetHex target), IBool True, IUint64 (kj_height cur), IStr (kj_bits cur)]
      | _ \<Rightarrow> None)"

definition kawpow_JobNotification :: "bool \<Rightarrow> 'w kawpow \<Rightarrow> string \<times> iface list option" where
  "kawpow_JobNotification clean st = (''mining.notify'', kawpow_JobParams (Fin 1) st)"

text \<open>The block of a solved job goes to the daemons, which are then asked for its coinbase.\<close>

definition kawpow_block :: "'w kawpow_env \<Rightarrow> kawpow_job \<Rightarrow> u64 \<Rightarrow> bytes \<Rightarrow> bytes \<Rightarrow> share \<Rightarrow> 'w kawpow \<Rightarrow> share res \<times> 'w kawpow" where
  "kawpow_block env j nonce mix digest share st =
     (let blockHex = hex_encode (kawpow_serializeBlock j nonce mix) in
      case SubmitBlock (kp_rpc env) (kp_dm env) blockHex (es_world st) of
        (Inl e, w) \<Rightarrow> (Inl e, st\<lparr>es_world := w\<rparr>)
      | (Inr _, w) \<Rightarrow>
          (let share = share\<lparr>sh_BlockHex := blockHex, sh_BlockHash := hex_encode digest\<rparr> in
           case CheckBlockAccepted (kp_rpc env) (kp_dm env) (sh_BlockHash share) w of
             (Inl e, w) \<Rightarrow> (Inl e, st\<lparr>es_world := w\<rparr>)
           | (Inr (_, tx), w) \<Rightarrow> (Inr (if tx \<noteq> '''' then share\<lparr>sh_TxHash := tx\<rparr> else share), st\<lparr>es_world := w\<rparr>)))"

definition kawpow_judge ::
  "'w kawpow_env \<Rightarrow> session_view \<Rightarrow> kawpow_job \<Rightarrow> u64 \<Rightarrow> string \<Rightarrow> share \<Rightarrow> 'w kawpow \<Rightarrow> share res \<times> 'w kawpow" where
  "kawpow_judge env v j nonce mixHex share st =
     (case kp_compute env (kj_headerHash j) (kj_height j) nonce of
        None \<Rightarrow> reject ErrJobNotFound share st
      | Some (mix, digest) \<Rightarrow>
          if mixHex \<noteq> hex_encode mix then reject ErrIncorrectNonceSize share st
          else
            (let digestBig = int (be_nat digest);
                 share = share\<lparr>sh_Diff := DiffFromValue kawpow_diff1 digestBig\<rparr> in
             case TargetFromDiff kawpow_diff1 (sv_Difficulty v) of
               Inl e \<Rightarrow> (Inl e, st)
             | Inr t \<Rightarrow>
                 if t < digestBig then reject ErrLowDiffShare share st
                 else if digestBig \<le> j_Target (kj_inner j) then kawpow_block env j nonce mix digest share st
                 else (Inr share, st)))"

definition kawpow_OnSubmit :: "'w kawpow_env \<Rightarrow> session_view \<Rightarrow> iface list \<Rightarrow> 'w kawpow \<Rightarrow> share res \<times> 'w kawpow" where
  "kawpow_OnSubmit env v params st =
     (let share = fresh_share v in
      if length params < 5 then reject ErrIncorrectNonceSize share st
      else
        (case (as_string (params ! 1), as_string (params ! 2), as_string (params ! 3), as_string (params ! 4)) of
           (Some jobID, Some nonceHex, Some headerHex, Some mixHex) \<Rightarrow>
             (let nonceHex = norm_hex nonceHex; headerHex = norm_hex headerHex; mixHex = norm_hex mixHex in
              case map_of (es_history st) jobID of
                None \<Rightarrow> reject ErrJobNotFound share st
              | Some (j, seen) \<Rightarrow>
                  if headerHex \<noteq> hex_encode (kj_headerHash j) then reject ErrJobNotFound share st
                  else
                    (let share = share\<lparr>sh_JobId := kj_id j, sh_BlockHeight := sint (kj_height j),
                                       sh_BlockReward := gbt_CoinbaseValue (j_GetBlockTemplate (kj_inner j))\<rparr> in
                     if length nonceHex \<noteq> 16 then reject ErrIncorrectNonceSize share st
                     else if \<not> prefix_ok v nonceHex then reject ErrIncorrectNonceSize share st
                     else
                       (case parse_uint 16 nonceHex of (nonce, ok) \<Rightarrow>
                          if \<not> ok then reject ErrIncorrectNonceSize share st
                          else if nonceHex \<in> set seen then reject ErrDuplicateShare share st
                          else kawpow_judge env v j (word_of_nat nonce) mixHex share (note_nonce jobID nonceHex st))))
         | _ \<Rightarrow> reject ErrIncorrectNonceSize share st))"

text \<open>The engine as the stratum handlers see it.\<close>

definition kawpow_engine :: "'w kawpow_env \<Rightarrow> 'w kawpow engine" where
  "kawpow_engine env =
     \<lparr>en_OnSubscribe = kawpow_OnSubscribe, en_JobNotification = kawpow_JobNotification,
      en_OnSubmit = kawpow_OnSubmit env, en_JobParamsForDifficulty = Some kawpow_JobParams,
      en_NotifyMethod = Some ''mining.notify'', en_TargetParams = None, en_ObjectParams = None\<rparr>"

subsection \<open>The ledger of nonces\<close>

lemma kawpow_block_keeps:
  "kawpow_block env j nonce mix digest share st = (r, st') \<Longrightarrow>
   es_history st' = es_history st \<and> es_jobCounter st' = es_jobCounter st"
  by (auto simp: kawpow_block_def Let_def split: prod.splits sum.splits)

lemma kawpow_judge_keeps:
  "kawpow_judge env v j nonce mixHex share st = (r, st') \<Longrightarrow>
   es_history st' = es_history st \<and> es_jobCounter st' = es_jobCounter st"
  by (auto simp: kawpow_judge_def Let_def reject_def split: option.splits prod.splits sum.splits if_splits
      dest: kawpow_block_keeps)

text \<open>Either the state is unchanged and the share does not count, or a new nonce is noted and judged.\<close>

lemma kawpow_OnSubmit_cases:
  assumes "kawpow_OnSubmit env v ps st = (r, st')"
  shows "(\<exists>sh. r = Inr sh \<and> \<not> counts sh \<and> st' = st) \<or>
    (\<exists>i n j seen nonce mixHex share. job_nonce ps = (i, n) \<and> map_of (es_history st) i = Some (j, seen) \<and> n \<notin> set seen \<and>
       length n = 16 \<and> to_lower n = n \<and> parse_uint 16 n = (nonce, True) \<and> prefix_ok v n \<and> sh_ErrorCode share = 0 \<and>
       kawpow_judge env v j (word_of_nat nonce) mixHex share (note_nonce i n st) = (r, st'))"
proof (cases "length ps < 5")
  case True
  then show ?thesis using assms by (auto simp: kawpow_OnSubmit_def reject_def not_counts_err err_codes)
next
  case False
  then have len: "2 < length ps" by simp
  show ?thesis
    using assms False job_nonce_eq [OF len]
    by (simp add: kawpow_OnSubmit_def Let_def reject_def split: option.splits prod.splits if_splits)
      (auto simp: not_counts_err err_codes fresh_share_def empty_share_def)
qed

lemma kawpow_job_of_id: "kawpow_job_of env now c gbt = Inr j \<Longrightarrow> kj_id j = job_id c"
  by (auto simp: kawpow_job_of_def Let_def rbind_eq_Inr)

lemma kawpow_accept_cases:
  assumes "kawpow_acceptTemplate env t st = (u, st')"
  shows "st' = st \<or> st' = bump st \<or> (\<exists>ord j. st' = store_job 8 ord (job_id (es_jobCounter st + 1)) j (bump st))"
  using assms by (auto simp: kawpow_acceptTemplate_def bump_def Let_def split: prod.splits sum.splits dest!: kawpow_job_of_id) blast

interpretation kawpow: nonce_ledger "kawpow_OnSubmit env" "kawpow_acceptTemplate env" job_nonce es_history es_jobCounter 1
proof
  fix v ps st r st'
  assume "kawpow_OnSubmit env v ps st = (r, st')"
  then show "es_jobCounter st' = es_jobCounter st"
    and "es_history st' = es_history st \<or> es_history st' = mark_seen (fst (job_nonce ps)) (snd (job_nonce ps)) (es_history st)"
    by (auto dest!: kawpow_OnSubmit_cases kawpow_judge_keeps simp: note_nonce_def)
next
  fix v ps st sh st'
  assume "kawpow_OnSubmit env v ps st = (Inr sh, st')" "counts sh"
  then show "es_history st' = mark_seen (fst (job_nonce ps)) (snd (job_nonce ps)) (es_history st) \<and>
      (\<exists>j seen. map_of (es_history st) (fst (job_nonce ps)) = Some (j, seen) \<and> snd (job_nonce ps) \<notin> set seen)"
    by (auto dest!: kawpow_OnSubmit_cases kawpow_judge_keeps simp: note_nonce_def)
next
  fix t st u st'
  assume a: "kawpow_acceptTemplate env t st = (u, st')" "unat (es_jobCounter st) + 1 < 2 ^ 64"
  show "unat (es_jobCounter st) \<le> unat (es_jobCounter st') \<and> unat (es_jobCounter st') \<le> unat (es_jobCounter st) + 1"
    by (rule one_job_laws [OF a(2) kawpow_accept_cases [OF a(1)]])
  fix i j seen
  assume "map_of (es_history st') i = Some (j, seen)"
  then show "map_of (es_history st) i = Some (j, seen) \<or> (seen = [] \<and> new_id (es_jobCounter st) (es_jobCounter st') i)"
    by (rule one_job_laws [OF a(2) kawpow_accept_cases [OF a(1)]])
qed

subsection \<open>What an accepted share shows\<close>

lemma kawpow_counted_key:
  assumes "kawpow_OnSubmit env v ps st = (Inr sh, st')" "counts sh"
  shows "length (snd (job_nonce ps)) = 16 \<and> to_lower (snd (job_nonce ps)) = snd (job_nonce ps) \<and> snd (parse_uint 16 (snd (job_nonce ps)))"
  using kawpow_OnSubmit_cases [OF assms(1)] assms(2) by auto

text \<open>
  C3. Every nonce of a KawPow job counts once. Over any sequence of new templates (fewer than
  \<open>2 ^ 64\<close>), in any eviction order, and of submissions by any connections, no two submissions
  that count, as accepted or as too easy for the current difficulty, have the same job id and
  the same 64-bit nonce, however its hexadecimal text is written.
\<close>

theorem kawpow_nonce_counts_once:
  assumes "arrivals es < 2 ^ 64"
  shows "distinct (map (\<lambda>(i, n). (i, fst (parse_uint 16 n)))
    (credited (kawpow_OnSubmit env) (kawpow_acceptTemplate env) job_nonce es (new_engine w)))" (is "distinct (map ?f ?ks)")
proof -
  have "distinct ?ks" by (rule kawpow.credits_once) (use assms in \<open>simp_all add: new_engine_def\<close>)
  moreover have good: "\<forall>k\<in>set ?ks. length (snd k) = 16 \<and> to_lower (snd k) = snd k \<and> snd (parse_uint 16 (snd k))"
    by (rule credited_all) (rule kawpow_counted_key)
  have "inj_on ?f (set ?ks)"
  proof (rule inj_onI)
    fix k k'
    assume "k \<in> set ?ks" "k' \<in> set ?ks" and eq: "?f k = ?f k'"
    with good have "length (snd k) = length (snd k')" "to_lower (snd k) = snd k" "to_lower (snd k') = snd k'"
      "parse_uint 16 (snd k) = (fst (parse_uint 16 (snd k)), True)" "parse_uint 16 (snd k') = (fst (parse_uint 16 (snd k)), True)"
      by (auto simp: prod_eq_iff split: prod.splits)
    then have "snd k = snd k'" using parse_uint_lower_inj by metis
    then show "k = k'" using eq by (auto split: prod.splits)
  qed
  ultimately show ?thesis by (simp add: distinct_map)
qed

text \<open>An accepted share: the job is in the history, the nonce carries the extranonce, the digest meets the target.\<close>

lemma kawpow_accepted:
  assumes "kawpow_OnSubmit env v ps st = (Inr sh, st')" "sh_ErrorCode sh = 0"
  shows "\<exists>i n j seen nonce mix digest t. job_nonce ps = (i, n) \<and> map_of (es_history st) i = Some (j, seen) \<and> n \<notin> set seen \<and>
     prefix_ok v n \<and> parse_uint 16 n = (nonce, True) \<and>
     kp_compute env (kj_headerHash j) (kj_height j) (word_of_nat nonce) = Some (mix, digest) \<and>
     TargetFromDiff kawpow_diff1 (sv_Difficulty v) = Inr t \<and> int (be_nat digest) \<le> t \<and>
     sh_Diff sh = DiffFromValue kawpow_diff1 (int (be_nat digest))"
proof -
  have "counts sh" using assms(2) by (simp add: counts_def)
  with kawpow_OnSubmit_cases [OF assms(1)] obtain i n j seen nonce mixHex share where
    c: "job_nonce ps = (i, n)" "map_of (es_history st) i = Some (j, seen)" "n \<notin> set seen" "prefix_ok v n" "parse_uint 16 n = (nonce, True)"
    and k: "kawpow_judge env v j (word_of_nat nonce) mixHex share (note_nonce i n st) = (Inr sh, st')" by blast
  have blk: "kawpow_block env j m mx d s st0 = (Inr sh, st1) \<Longrightarrow> sh_Diff sh = sh_Diff s" for m mx d s st0 st1
    by (auto simp: kawpow_block_def Let_def split: prod.splits sum.splits if_splits)
  from k assms(2) have "\<exists>mix digest t. kp_compute env (kj_headerHash j) (kj_height j) (word_of_nat nonce) = Some (mix, digest) \<and>
     TargetFromDiff kawpow_diff1 (sv_Difficulty v) = Inr t \<and> int (be_nat digest) \<le> t \<and>
     sh_Diff sh = DiffFromValue kawpow_diff1 (int (be_nat digest))"
    by (auto simp: kawpow_judge_def reject_def set_err_def err_codes Let_def split: option.splits sum.splits prod.splits if_splits dest!: blk)
  with c show ?thesis by blast
qed

definition ex_view :: session_view where
  "ex_view = \<lparr>sv_ExtraNonce1 = Some [0, 1], sv_Difficulty = Fin 1, sv_WorkerName = ''RMiner.rig'', sv_RemoteAddr = ''10.0.0.1''\<rparr>"

theorem kawpow_nonce_counts_once_witness:
  "\<forall>env. distinct (map (\<lambda>(i, n). (i, fst (parse_uint 16 n)))
     (credited (kawpow_OnSubmit env) (kawpow_acceptTemplate env) job_nonce
        [Arrive (0, [], ex_template),
         Submit ex_view [IStr ''RMiner.rig'', IStr ''1'', IStr ''0x000100000000000A'', IStr ''00'', IStr ''00''],
         Submit ex_view [IStr ''RMiner.rig'', IStr ''1'', IStr ''000100000000000a'', IStr ''00'', IStr ''00'']]
        (new_engine ())))"
  by (intro allI kawpow_nonce_counts_once) simp

end
