(* ===== verification/Ergo.thy ===== *)
theory Ergo
  imports EngineCore
begin

text \<open>
  \<open>engine/ergo/ergo.go\<close>: the Ergo engine (Autolykos2). The node builds the block; the engine
  hands out the candidate message, checks the nonces and posts solutions over REST. The HTTP
  exchange (status and body, or \<open>None\<close> for a transport error), the decoding of a candidate and
  the proof-of-work function are parameters.
\<close>

record ergo_candidate =
  ca_Msg :: string
  ca_B :: string
  ca_H :: u64
  ca_PK :: string

record 'w ergo_env =
  eg_http :: "string \<Rightarrow> string \<Rightarrow> string \<Rightarrow> 'w \<Rightarrow> (int \<times> string) option \<times> 'w"
  eg_unmarshal :: "string \<Rightarrow> ergo_candidate option"
  eg_compute :: "bytes \<Rightarrow> u64 \<Rightarrow> u64 \<Rightarrow> bytes option"

record ergo_job =
  ej_id :: string
  ej_msg :: bytes
  ej_height :: u64
  ej_target :: int

type_synonym 'w ergo = "(ergo_job, 'w) engine_state"

definition ergo_nonce1Size :: nat where
  "ergo_nonce1Size = 2"

text \<open>\<open>new(big.Int).SetString(s, 10)\<close>: an optional sign and at least one decimal digit.\<close>

definition big_set_dec :: "string \<Rightarrow> int option" where
  "big_set_dec s =
     (let neg = has_prefix s ''-''; ds = (if neg \<or> has_prefix s ''+'' then tl s else s) in
      if ds \<noteq> [] \<and> list_all is_dec ds then Some (if neg then - int (dec_val ds) else int (dec_val ds)) else None)"

definition ergo_do :: "'w ergo_env \<Rightarrow> string \<Rightarrow> string \<Rightarrow> string \<Rightarrow> 'w \<Rightarrow> string res \<times> 'w" where
  "ergo_do env method path body w =
     (case eg_http env method path body w of
        (None, w) \<Rightarrow> (Inl (Err ''request failed''), w)
      | (Some (status, raw), w) \<Rightarrow>
          (if status div 100 \<noteq> 2 then Inl (Err (method @ '' '' @ path @ '': HTTP '' @ fmt_int status)) else Inr raw, w))"

definition ergo_Candidate :: "'w ergo_env \<Rightarrow> 'w ergo \<Rightarrow> ergo_candidate res \<times> 'w ergo" where
  "ergo_Candidate env st =
     (case ergo_do env ''GET'' ''/mining/candidate'' '''' (es_world st) of
        (r, w) \<Rightarrow> (rbind r (\<lambda>raw. case eg_unmarshal env raw of None \<Rightarrow> Inl (Err ''unmarshal'') | Some c \<Rightarrow> Inr c), st\<lparr>es_world := w\<rparr>))"

text \<open>The body is \<open>json.Marshal(map[string]string{"n": nonceHex})\<close>; a hexadecimal text needs no escapes.\<close>

definition ergo_SubmitNonce :: "'w ergo_env \<Rightarrow> string \<Rightarrow> 'w \<Rightarrow> unit res \<times> 'w" where
  "ergo_SubmitNonce env nonceHex w =
     (case ergo_do env ''POST'' ''/mining/solution'' ([CHR ''{'', char_of (34::nat), CHR ''n'', char_of (34::nat), CHR '':'', char_of (34::nat)] @ nonceHex @ [char_of (34::nat), CHR ''}'']) w of
        (r, w) \<Rightarrow> (rbind r (\<lambda>_. Inr ()), w))"

definition mustHex :: "string \<Rightarrow> bytes" where
  "mustHex s = fst (hex_decode s)"

definition ergo_acceptCandidate :: "string list \<times> ergo_candidate \<Rightarrow> 'w ergo \<Rightarrow> unit res \<times> 'w ergo" where
  "ergo_acceptCandidate = (\<lambda>(ord, c) st.
     case hex_decode (ca_Msg c) of (msg, ok) \<Rightarrow>
       if \<not> ok \<or> length msg \<noteq> 32 then (Inl (Err ''ergo: bad candidate msg''), st)
       else
         (case big_set_dec (ca_B c) of
            None \<Rightarrow> (Inl (Err ''ergo: bad candidate target b''), st)
          | Some target \<Rightarrow>
              (let st = bump st; i = job_id (es_jobCounter st)
               in (Inr (), store_job 8 ord i \<lparr>ej_id = i, ej_msg = msg, ej_height = ca_H c, ej_target = target\<rparr> st))))"

definition ergo_Init :: "'w ergo_env \<Rightarrow> bool \<Rightarrow> string list \<Rightarrow> 'w ergo \<Rightarrow> unit res \<times> 'w ergo" where
  "ergo_Init env noDaemons ord st =
     (if noDaemons then (Inl (Err ''ergo: no daemon configured''), st)
      else
        (case ergo_Candidate env st of
           (Inl e, st) \<Rightarrow> (Inl e, st)
         | (Inr c, st) \<Rightarrow> ergo_acceptCandidate (ord, c) st))"

definition ergo_refresh :: "'w ergo_env \<Rightarrow> string list \<Rightarrow> 'w ergo \<Rightarrow> bool res \<times> 'w ergo" where
  "ergo_refresh env ord st =
     (case ergo_Candidate env st of
        (Inl e, st) \<Rightarrow> (Inl e, st)
      | (Inr cand, st) \<Rightarrow>
          if (case es_cur st of Some cur \<Rightarrow> ej_msg cur = mustHex (ca_Msg cand) | None \<Rightarrow> False) then (Inr False, st)
          else (case ergo_acceptCandidate (ord, cand) st of (r, st) \<Rightarrow> (rbind r (\<lambda>_. Inr True), st)))"

definition ergo_OnSubscribe ::
  "session_view \<Rightarrow> iface list \<Rightarrow> 'w ergo \<Rightarrow> ((iface \<times> bytes option \<times> int) res) \<times> 'w ergo" where
  "ergo_OnSubscribe v params st =
     (let n = es_enCounter st + 1; en = [ucast (n div 256), ucast n]
      in (Inr (IList [INil, IStr (hex_encode en)], Some en, 8 - int ergo_nonce1Size), st\<lparr>es_enCounter := n\<rparr>))"

definition ergo_JobParams :: "f64 \<Rightarrow> 'w ergo \<Rightarrow> iface list option" where
  "ergo_JobParams diff st =
     (case es_cur st of
        None \<Rightarrow> None
      | Some j \<Rightarrow> Some [IStr (ej_id j), IUint64 (ej_height j), IStr (hex_encode (ej_msg j)), IStr '''', IBool True])"

definition ergo_JobNotification :: "bool \<Rightarrow> 'w ergo \<Rightarrow> string \<times> iface list option" where
  "ergo_JobNotification clean st = (''mining.notify'', ergo_JobParams (Fin 1) st)"

text \<open>The difficulty of a connection is never NaN, for which the target computation would panic.\<close>

definition ergo_TargetParams :: "f64 \<Rightarrow> 'w ergo \<Rightarrow> string \<times> iface list" where
  "ergo_TargetParams diff st =
     (''mining.set_target'', [IStr (case TargetFromDiff Pow256 diff of Inr t \<Rightarrow> TargetHex t | Inl _ \<Rightarrow> '''')])"

definition ergo_judge ::
  "'w ergo_env \<Rightarrow> session_view \<Rightarrow> ergo_job \<Rightarrow> string \<Rightarrow> u64 \<Rightarrow> share \<Rightarrow> 'w ergo \<Rightarrow> share res \<times> 'w ergo" where
  "ergo_judge env v j nonceHex nonce share st =
     (case eg_compute env (ej_msg j) (ej_height j) nonce of
        None \<Rightarrow> reject ErrIncorrectNonceSize share st
      | Some result \<Rightarrow>
          (let resultNum = int (be_nat result); share = share\<lparr>sh_Diff := DiffFromValue Pow256 resultNum\<rparr> in
           case TargetFromDiff Pow256 (sv_Difficulty v) of
             Inl e \<Rightarrow> (Inl e, st)
           | Inr t \<Rightarrow>
               if t < resultNum then reject ErrLowDiffShare share st
               else if resultNum \<le> ej_target j then
                 (case ergo_SubmitNonce env nonceHex (es_world st) of
                    (Inl _, w) \<Rightarrow> (Inr share, st\<lparr>es_world := w\<rparr>)
                  | (Inr _, w) \<Rightarrow> (Inr (share\<lparr>sh_BlockHash := hex_encode result\<rparr>), st\<lparr>es_world := w\<rparr>))
               else (Inr share, st)))"

definition ergo_OnSubmit :: "'w ergo_env \<Rightarrow> session_view \<Rightarrow> iface list \<Rightarrow> 'w ergo \<Rightarrow> share res \<times> 'w ergo" where
  "ergo_OnSubmit env v params st =
     (let share = fresh_share v in
      if length params < 3 then reject ErrIncorrectNonceSize share st
      else
        (case (as_string (params ! 1), as_string (params ! 2)) of
           (Some jobID, Some nonceHex) \<Rightarrow>
             (let nonceHex = norm_hex nonceHex in
              case map_of (es_history st) jobID of
                None \<Rightarrow> reject ErrJobNotFound share st
              | Some (j, seen) \<Rightarrow>
                  (let share = share\<lparr>sh_JobId := ej_id j, sh_BlockHeight := sint (ej_height j)\<rparr> in
                   if length nonceHex \<noteq> 16 then reject ErrIncorrectNonceSize share st
                   else if \<not> prefix_ok v nonceHex then reject ErrIncorrectNonceSize share st
                   else
                     (case parse_uint 16 nonceHex of (nonce, ok) \<Rightarrow>
                        if \<not> ok then reject ErrIncorrectNonceSize share st
                        else if nonceHex \<in> set seen then reject ErrDuplicateShare share st
                        else ergo_judge env v j nonceHex (word_of_nat nonce) share (note_nonce jobID nonceHex st))))
         | _ \<Rightarrow> reject ErrIncorrectNonceSize share st))"

definition ergo_engine :: "'w ergo_env \<Rightarrow> 'w ergo engine" where
  "ergo_engine env =
     \<lparr>en_OnSubscribe = ergo_OnSubscribe, en_JobNotification = ergo_JobNotification, en_OnSubmit = ergo_OnSubmit env,
      en_JobParamsForDifficulty = Some ergo_JobParams, en_NotifyMethod = Some ''mining.notify'',
      en_TargetParams = Some ergo_TargetParams, en_ObjectParams = None\<rparr>"

subsection \<open>The ledger of nonces\<close>

lemma ergo_judge_keeps:
  "ergo_judge env v j nonceHex nonce share st = (r, st') \<Longrightarrow>
   es_history st' = es_history st \<and> es_jobCounter st' = es_jobCounter st"
  by (auto simp: ergo_judge_def Let_def reject_def split: option.splits prod.splits sum.splits if_splits)

lemma ergo_OnSubmit_cases:
  assumes "ergo_OnSubmit env v ps st = (r, st')"
  shows "(\<exists>sh. r = Inr sh \<and> \<not> counts sh \<and> st' = st) \<or>
    (\<exists>i n j seen nonce share. job_nonce ps = (i, n) \<and> map_of (es_history st) i = Some (j, seen) \<and> n \<notin> set seen \<and>
       length n = 16 \<and> to_lower n = n \<and> parse_uint 16 n = (nonce, True) \<and> prefix_ok v n \<and> sh_ErrorCode share = 0 \<and>
       ergo_judge env v j n (word_of_nat nonce) share (note_nonce i n st) = (r, st'))"
proof (cases "length ps < 3")
  case True
  then show ?thesis using assms by (auto simp: ergo_OnSubmit_def reject_def not_counts_err err_codes)
next
  case False
  then have len: "2 < length ps" by simp
  show ?thesis
    using assms False job_nonce_eq [OF len]
    by (simp add: ergo_OnSubmit_def Let_def reject_def split: option.splits prod.splits if_splits)
      (auto simp: not_counts_err err_codes fresh_share_def empty_share_def)
qed

lemma ergo_accept_cases:
  assumes "ergo_acceptCandidate t st = (u, st')"
  shows "st' = st \<or> st' = bump st \<or> (\<exists>ord j. st' = store_job 8 ord (job_id (es_jobCounter st + 1)) j (bump st))"
  using assms by (auto simp: ergo_acceptCandidate_def bump_def Let_def split: prod.splits option.splits if_splits)

interpretation ergo: nonce_ledger "ergo_OnSubmit env" ergo_acceptCandidate job_nonce es_history es_jobCounter 1
proof
  fix v ps st r st'
  assume "ergo_OnSubmit env v ps st = (r, st')"
  then show "es_jobCounter st' = es_jobCounter st"
    and "es_history st' = es_history st \<or> es_history st' = mark_seen (fst (job_nonce ps)) (snd (job_nonce ps)) (es_history st)"
    by (auto dest!: ergo_OnSubmit_cases ergo_judge_keeps simp: note_nonce_def)
next
  fix v ps st sh st'
  assume "ergo_OnSubmit env v ps st = (Inr sh, st')" "counts sh"
  then show "es_history st' = mark_seen (fst (job_nonce ps)) (snd (job_nonce ps)) (es_history st) \<and>
      (\<exists>j seen. map_of (es_history st) (fst (job_nonce ps)) = Some (j, seen) \<and> snd (job_nonce ps) \<notin> set seen)"
    by (auto dest!: ergo_OnSubmit_cases ergo_judge_keeps simp: note_nonce_def)
next
  fix t st u and st' :: "'b ergo"
  assume a: "ergo_acceptCandidate t st = (u, st')" "unat (es_jobCounter st) + 1 < 2 ^ 64"
  show "unat (es_jobCounter st) \<le> unat (es_jobCounter st') \<and> unat (es_jobCounter st') \<le> unat (es_jobCounter st) + 1"
    by (rule one_job_laws [OF a(2) ergo_accept_cases [OF a(1)]])
  fix i j seen
  assume "map_of (es_history st') i = Some (j, seen)"
  then show "map_of (es_history st) i = Some (j, seen) \<or> (seen = [] \<and> new_id (es_jobCounter st) (es_jobCounter st') i)"
    by (rule one_job_laws [OF a(2) ergo_accept_cases [OF a(1)]])
qed

end
