(* ===== verification/Equihash.thy ===== *)
theory Equihash
  imports EngineCore Daemons
begin

text \<open>
  \<open>engine/equihash/equihash.go\<close>: the Equihash engine (Zcash, Flux). The node supplies the
  coinbase; miners roll the last 28 bytes of the 32-byte nonce, behind the four bytes the pool
  assigns to the connection. The Equihash verifier (powkit), the daemons and the decoding of a
  template are parameters; \<open>merkleRoot\<close> is in theory \<open>Merkle\<close>.
\<close>

definition equihash_diff1 :: int where
  "equihash_diff1 = 0x7ffff * 2 ^ 224"

definition equihash_nonce1Size :: nat where
  "equihash_nonce1Size = 4"

text \<open>\<open>vr_verify\<close> is \<open>client.Verify(header, sol)\<close>: \<open>None\<close> is an error.\<close>

record equihash_variant =
  vr_n :: u32
  vr_k :: u32
  vr_verify :: "bytes \<Rightarrow> bytes \<Rightarrow> bool option"
  vr_solBytes :: nat

definition solution_bytes :: "u32 \<Rightarrow> u32 \<Rightarrow> nat" where
  "solution_bytes n k = unat (push_bit (unat k) 1 * (n div (k + 1) + 1) div 8)"

definition variantFor ::
  "(bytes \<Rightarrow> bytes \<Rightarrow> bool option) \<Rightarrow> (bytes \<Rightarrow> bytes \<Rightarrow> bool option) \<Rightarrow> string \<Rightarrow> equihash_variant res" where
  "variantFor zcash flux name =
     (let mk = (\<lambda>n k client. Inr \<lparr>vr_n = n, vr_k = k, vr_verify = client, vr_solBytes = solution_bytes n k\<rparr>) in
      if to_lower name \<in> {'''', ''equihash'', ''zcash'', ''equihash200_9''} then mk 200 9 zcash
      else if to_lower name \<in> {''zelhash'', ''flux'', ''equihash125_4''} then mk 125 4 flux
      else Inl (Err (''unknown equihash variant: '' @ name)))"

record zgbt =
  zg_Version :: u32
  zg_PreviousBlockHash :: string
  zg_FinalSaplingRootHash :: string
  zg_MerkleRoot :: string
  zg_BlockCommitmentsHash :: string
  zg_Bits :: string
  zg_Target :: string
  zg_CurTime :: u32
  zg_Height :: int
  zg_CoinbaseTxn :: string
  zg_Transactions :: "string list"

record 'w equihash_env =
  qe_rpc :: "'w transport"
  qe_dm :: daemon_manager
  qe_decode :: "iface option \<Rightarrow> zgbt option"
  qe_v :: equihash_variant

record equihash_job =
  qj_id :: string
  qj_prefix108 :: bytes
  qj_ntimeLE :: string
  qj_target :: int
  qj_txCount :: nat
  qj_txData :: bytes
  qj_prevHash :: string
  qj_height :: int
  qj_verHex :: string
  qj_prevHex :: string
  qj_merkleHex :: string
  qj_reservedHex :: string
  qj_bitsHex :: string

type_synonym 'w equihash = "(equihash_job, 'w) engine_state"

definition equihash_getTemplate :: "'w equihash_env \<Rightarrow> 'w equihash \<Rightarrow> zgbt res \<times> 'w equihash" where
  "equihash_getTemplate env st =
     (case Cmd (qe_rpc env) (qe_dm env) ''getblocktemplate''
             [IMap [(''capabilities'', IList [IStr ''coinbasetxn'', IStr ''workid''])]] (es_world st) of
        (result, w) \<Rightarrow>
          ((case result of
              None \<Rightarrow> Inl (Err ''getblocktemplate returned nothing'')
            | Some result \<Rightarrow>
                (case rs_Error result of
                   Some e \<Rightarrow> Inl (Err (''getblocktemplate failed: '' @ re_Message e))
                 | None \<Rightarrow>
                     (case qe_decode env (rs_Result result) of
                        None \<Rightarrow> Inl (Err ''unmarshal'')
                      | Some gbt \<Rightarrow>
                          if zg_CoinbaseTxn gbt = '''' then Inl (Err ''node did not provide coinbasetxn'') else Inr gbt))),
           st\<lparr>es_world := w\<rparr>))"

fun hex_decode_all :: "string list \<Rightarrow> bytes list res" where
  "hex_decode_all [] = Inr []"
| "hex_decode_all (x # xs) = rbind (HexDecode x) (\<lambda>b. rbind (hex_decode_all xs) (\<lambda>bs. Inr (b # bs)))"

definition hex_internal :: "string \<Rightarrow> bytes res" where
  "hex_internal s = rbind (HexDecode s) (\<lambda>b. Inr (ReverseBytes b))"

text \<open>A missing or non-positive target is derived from the compact bits.\<close>

definition equihash_target :: "zgbt \<Rightarrow> int res" where
  "equihash_target gbt =
     (case big_set_hex (zg_Target gbt) of
        Some t \<Rightarrow> if t \<le> 0 then rbind (BigIntFromBitsHex (zg_Bits gbt)) (\<lambda>n. Inr (int n)) else Inr t
      | None \<Rightarrow> rbind (BigIntFromBitsHex (zg_Bits gbt)) (\<lambda>n. Inr (int n)))"

definition equihash_merkle :: "zgbt \<Rightarrow> bytes \<Rightarrow> bytes list \<Rightarrow> bytes res" where
  "equihash_merkle gbt coinbase rawTxs =
     (if zg_MerkleRoot gbt \<noteq> '''' then hex_internal (zg_MerkleRoot gbt) else merkleRoot (coinbase # rawTxs))"

definition equihash_reserved :: "zgbt \<Rightarrow> bytes res" where
  "equihash_reserved gbt =
     (if zg_BlockCommitmentsHash gbt \<noteq> '''' then hex_internal (zg_BlockCommitmentsHash gbt)
      else if zg_FinalSaplingRootHash gbt \<noteq> '''' then hex_internal (zg_FinalSaplingRootHash gbt)
      else Inr (replicate 32 0))"

definition equihash_job_of :: "u64 \<Rightarrow> zgbt \<Rightarrow> equihash_job res" where
  "equihash_job_of c gbt =
     rbind (HexDecode (zg_CoinbaseTxn gbt)) (\<lambda>coinbase.
     rbind (hex_decode_all (zg_Transactions gbt)) (\<lambda>rawTxs.
     rbind (equihash_merkle gbt coinbase rawTxs) (\<lambda>merkle.
     rbind (equihash_reserved gbt) (\<lambda>reserved.
     rbind (hex_internal (zg_PreviousBlockHash gbt)) (\<lambda>prev.
     rbind (hex_internal (zg_Bits gbt)) (\<lambda>bits.
     rbind (equihash_target gbt) (\<lambda>target.
       Inr \<lparr>qj_id = job_id c,
            qj_prefix108 = PackUint32LE (zg_Version gbt) @ prev @ merkle @ reserved @ PackUint32LE (zg_CurTime gbt) @ bits,
            qj_ntimeLE = hex_encode (PackUint32LE (zg_CurTime gbt)), qj_target = target,
            qj_txCount = length (zg_Transactions gbt) + 1, qj_txData = coinbase @ concat rawTxs,
            qj_prevHash = zg_PreviousBlockHash gbt, qj_height = zg_Height gbt,
            qj_verHex = hex_encode (PackUint32LE (zg_Version gbt)), qj_prevHex = hex_encode prev,
            qj_merkleHex = hex_encode merkle, qj_reservedHex = hex_encode reserved, qj_bitsHex = hex_encode bits\<rparr>)))))))"

definition equihash_acceptTemplate :: "string list \<times> zgbt \<Rightarrow> 'w equihash \<Rightarrow> unit res \<times> 'w equihash" where
  "equihash_acceptTemplate = (\<lambda>(ord, gbt) st.
     let st = bump st in
     case equihash_job_of (es_jobCounter st) gbt of
       Inl e \<Rightarrow> (Inl e, st)
     | Inr j \<Rightarrow> (Inr (), store_job 8 ord (qj_id j) j st))"

text \<open>
  \<open>Init\<close>: the variant by the algorithm's name, then the first template. The variant is kept in
  the environment of the other operations.
\<close>

definition equihash_Init ::
  "'w equihash_env \<Rightarrow> (bytes \<Rightarrow> bytes \<Rightarrow> bool option) \<Rightarrow> (bytes \<Rightarrow> bytes \<Rightarrow> bool option) \<Rightarrow> string \<Rightarrow> string list \<Rightarrow>
   'w equihash \<Rightarrow> 'w equihash_env res \<times> 'w equihash" where
  "equihash_Init env zcash flux name ord st =
     (case variantFor zcash flux name of
        Inl e \<Rightarrow> (Inl e, st)
      | Inr v \<Rightarrow>
          (let env = env\<lparr>qe_v := v\<rparr> in
           case equihash_getTemplate env st of
             (Inl e, st) \<Rightarrow> (Inl e, st)
           | (Inr gbt, st) \<Rightarrow> (case equihash_acceptTemplate (ord, gbt) st of (r, st) \<Rightarrow> (rbind r (\<lambda>_. Inr env), st))))"

definition equihash_refresh :: "'w equihash_env \<Rightarrow> string list \<Rightarrow> 'w equihash \<Rightarrow> bool res \<times> 'w equihash" where
  "equihash_refresh env ord st =
     (case equihash_getTemplate env st of
        (Inl e, st) \<Rightarrow> (Inl e, st)
      | (Inr gbt, st) \<Rightarrow>
          if (case es_cur st of Some cur \<Rightarrow> qj_prevHash cur = zg_PreviousBlockHash gbt | None \<Rightarrow> False) then (Inr False, st)
          else (case equihash_acceptTemplate (ord, gbt) st of (r, st) \<Rightarrow> (rbind r (\<lambda>_. Inr True), st)))"

definition equihash_OnSubscribe ::
  "session_view \<Rightarrow> iface list \<Rightarrow> 'w equihash \<Rightarrow> ((iface \<times> bytes option \<times> int) res) \<times> 'w equihash" where
  "equihash_OnSubscribe v params st =
     (let n = es_enCounter st + 1; en = be_bytes equihash_nonce1Size (unat n)
      in (Inr (IList [INil, IStr (hex_encode en)], Some en, 32 - int equihash_nonce1Size), st\<lparr>es_enCounter := n\<rparr>))"

definition equihash_JobParams :: "f64 \<Rightarrow> 'w equihash \<Rightarrow> iface list option" where
  "equihash_JobParams diff st =
     (case es_cur st of
        None \<Rightarrow> None
      | Some j \<Rightarrow> Some [IStr (qj_id j), IStr (qj_verHex j), IStr (qj_prevHex j), IStr (qj_merkleHex j),
                       IStr (qj_reservedHex j), IStr (qj_ntimeLE j), IStr (qj_bitsHex j), IBool True])"

definition equihash_JobNotification :: "bool \<Rightarrow> 'w equihash \<Rightarrow> string \<times> iface list option" where
  "equihash_JobNotification clean st = (''mining.notify'', equihash_JobParams (Fin 1) st)"

text \<open>The difficulty of a connection is never NaN, for which the target computation would panic.\<close>

definition equihash_TargetParams :: "f64 \<Rightarrow> 'w equihash \<Rightarrow> string \<times> iface list" where
  "equihash_TargetParams diff st =
     (''mining.set_target'', [IStr (case TargetFromDiff equihash_diff1 diff of Inr t \<Rightarrow> TargetHex t | Inl _ \<Rightarrow> '''')])"

definition trimSolutionPrefix :: "bytes \<Rightarrow> nat \<Rightarrow> bytes option" where
  "trimSolutionPrefix sol want =
     (case filter (\<lambda>p. length sol = want + p) [1, 3, 5] of [] \<Rightarrow> None | p # _ \<Rightarrow> Some (drop p sol))"

definition solution_of :: "equihash_variant \<Rightarrow> string \<Rightarrow> bytes option" where
  "solution_of vr solHex =
     (case hex_decode solHex of (sol, ok) \<Rightarrow>
        if \<not> ok then None
        else if length sol \<noteq> vr_solBytes vr then trimSolutionPrefix sol (vr_solBytes vr)
        else Some sol)"

definition equihash_block :: "'w equihash_env \<Rightarrow> equihash_job \<Rightarrow> bytes \<Rightarrow> share \<Rightarrow> 'w equihash \<Rightarrow> share res \<times> 'w equihash" where
  "equihash_block env j full share st =
     (let blockHex = hex_encode (full @ VarIntBytes (word_of_nat (qj_txCount j)) @ qj_txData j) in
      case SubmitBlock (qe_rpc env) (qe_dm env) blockHex (es_world st) of
        (Inl e, w) \<Rightarrow> (Inl e, st\<lparr>es_world := w\<rparr>)
      | (Inr _, w) \<Rightarrow>
          (let share = share\<lparr>sh_BlockHex := blockHex, sh_BlockHash := hex_encode (ReverseBytes (Sha256d full))\<rparr> in
           case CheckBlockAccepted (qe_rpc env) (qe_dm env) (sh_BlockHash share) w of
             (Inl e, w) \<Rightarrow> (Inl e, st\<lparr>es_world := w\<rparr>)
           | (Inr (_, tx), w) \<Rightarrow> (Inr (if tx \<noteq> '''' then share\<lparr>sh_TxHash := tx\<rparr> else share), st\<lparr>es_world := w\<rparr>)))"

definition equihash_judge ::
  "'w equihash_env \<Rightarrow> session_view \<Rightarrow> equihash_job \<Rightarrow> bytes \<Rightarrow> bytes \<Rightarrow> bytes \<Rightarrow> share \<Rightarrow> 'w equihash \<Rightarrow> share res \<times> 'w equihash" where
  "equihash_judge env v j en1 nonce2 sol share st =
     (let header = qj_prefix108 j @ en1 @ nonce2 in
      if vr_verify (qe_v env) header sol \<noteq> Some True then reject ErrIncorrectNonceSize share st
      else
        (let full = header @ VarIntBytes (word_of_nat (length sol)) @ sol;
             hashNum = int (be_nat (ReverseBytes (Sha256d full)));
             share = share\<lparr>sh_Diff := DiffFromValue equihash_diff1 hashNum\<rparr> in
         case TargetFromDiff equihash_diff1 (sv_Difficulty v) of
           Inl e \<Rightarrow> (Inl e, st)
         | Inr t \<Rightarrow>
             if t < hashNum then reject ErrLowDiffShare share st
             else if hashNum \<le> qj_target j then equihash_block env j full share st
             else (Inr share, st)))"

definition equihash_OnSubmit ::
  "'w equihash_env \<Rightarrow> session_view \<Rightarrow> iface list \<Rightarrow> 'w equihash \<Rightarrow> share res \<times> 'w equihash" where
  "equihash_OnSubmit env v params st =
     (let share = fresh_share v in
      if length params < 5 then reject ErrIncorrectNonceSize share st
      else
        (case (as_string (params ! 1), as_string (params ! 2), as_string (params ! 3), as_string (params ! 4)) of
           (Some jobID, Some ntime, Some nonce2Hex, Some solHex) \<Rightarrow>
             (let nonce2Hex = norm_hex nonce2Hex; solHex = norm_hex solHex in
              case map_of (es_history st) jobID of
                None \<Rightarrow> reject ErrJobNotFound share st
              | Some (j, seen) \<Rightarrow>
                  (let share = share\<lparr>sh_JobId := qj_id j, sh_BlockHeight := qj_height j\<rparr>;
                       en1 = (case sv_ExtraNonce1 v of None \<Rightarrow> [] | Some en \<Rightarrow> en) in
                   if \<not> equal_fold ntime (qj_ntimeLE j) then reject ErrNTimeOutOfRange share st
                   else if en1 = [] \<or> int (length nonce2Hex) \<noteq> (32 - int (length en1)) * 2 then reject ErrIncorrectNonceSize share st
                   else
                     (case hex_decode nonce2Hex of (nonce2, ok) \<Rightarrow>
                        if \<not> ok then reject ErrIncorrectNonceSize share st
                        else
                          (case solution_of (qe_v env) solHex of
                             None \<Rightarrow> reject ErrIncorrectNonceSize share st
                           | Some sol \<Rightarrow>
                               if nonce2Hex \<in> set seen then reject ErrDuplicateShare share st
                               else equihash_judge env v j en1 nonce2 sol share (note_nonce jobID nonce2Hex st)))))
         | _ \<Rightarrow> reject ErrIncorrectNonceSize share st))"

definition equihash_engine :: "'w equihash_env \<Rightarrow> 'w equihash engine" where
  "equihash_engine env =
     \<lparr>en_OnSubscribe = equihash_OnSubscribe, en_JobNotification = equihash_JobNotification, en_OnSubmit = equihash_OnSubmit env,
      en_JobParamsForDifficulty = Some equihash_JobParams, en_NotifyMethod = Some ''mining.notify'',
      en_TargetParams = Some equihash_TargetParams, en_ObjectParams = None\<rparr>"

subsection \<open>The ledger of nonces\<close>

text \<open>The duplicate key of a submission: the job id and the miner's part of the nonce.\<close>

fun job_nonce2 :: "iface list \<Rightarrow> string \<times> string" where
  "job_nonce2 (_ # IStr jobID # _ # IStr nonce2Hex # _) = (jobID, norm_hex nonce2Hex)"
| "job_nonce2 _ = ('''', '''')"

lemma job_nonce2_eq:
  assumes "3 < length ps" "as_string (ps ! 1) = Some i" "as_string (ps ! 3) = Some n"
  shows "job_nonce2 ps = (i, norm_hex n)"
proof -
  obtain a b c d r where "ps = a # b # c # d # r"
    using assms(1) by (cases ps; cases "tl ps"; cases "tl (tl ps)"; cases "tl (tl (tl ps))") auto
  then show ?thesis using assms by (simp add: as_string_iff)
qed

lemma equihash_block_keeps:
  "equihash_block env j full share st = (r, st') \<Longrightarrow>
   es_history st' = es_history st \<and> es_jobCounter st' = es_jobCounter st"
  by (auto simp: equihash_block_def Let_def split: prod.splits sum.splits)

lemma equihash_judge_keeps:
  "equihash_judge env v j en1 nonce2 sol share st = (r, st') \<Longrightarrow>
   es_history st' = es_history st \<and> es_jobCounter st' = es_jobCounter st"
  by (auto simp: equihash_judge_def Let_def reject_def split: option.splits prod.splits sum.splits if_splits
      dest: equihash_block_keeps)

text \<open>A submission that passes the checks before the duplicate test.\<close>

definition wellformed_submit :: "'w equihash_env \<Rightarrow> nat \<Rightarrow> iface list \<Rightarrow> equihash_job \<Rightarrow> bytes \<Rightarrow> bytes \<Rightarrow> bool" where
  "wellformed_submit env en1len ps j nonce2 sol \<longleftrightarrow> 5 \<le> length ps \<and>
     (\<exists>i ntime n2 solHex. as_string (ps ! 1) = Some i \<and> as_string (ps ! 2) = Some ntime \<and> as_string (ps ! 3) = Some n2 \<and>
        as_string (ps ! 4) = Some solHex \<and> equal_fold ntime (qj_ntimeLE j) \<and>
        int (length (norm_hex n2)) = (32 - int en1len) * 2 \<and> hex_decode (norm_hex n2) = (nonce2, True) \<and>
        solution_of (qe_v env) (norm_hex solHex) = Some sol)"

lemma equihash_OnSubmit_cases:
  assumes "equihash_OnSubmit env v ps st = (r, st')"
  shows "(\<exists>sh. r = Inr sh \<and> \<not> counts sh \<and> st' = st) \<or>
    (\<exists>i n j seen en1 nonce2 sol share. job_nonce2 ps = (i, n) \<and> map_of (es_history st) i = Some (j, seen) \<and> n \<notin> set seen \<and>
       sv_ExtraNonce1 v = Some en1 \<and> en1 \<noteq> [] \<and> wellformed_submit env (length en1) ps j nonce2 sol \<and> sh_ErrorCode share = 0 \<and>
       equihash_judge env v j en1 nonce2 sol share (note_nonce i n st) = (r, st'))"
proof (cases "length ps < 5")
  case True
  then show ?thesis using assms by (auto simp: equihash_OnSubmit_def reject_def not_counts_err err_codes)
next
  case False
  then have len: "3 < length ps" by simp
  show ?thesis
    using assms False job_nonce2_eq [OF len]
    by (simp add: equihash_OnSubmit_def Let_def reject_def split: option.splits prod.splits if_splits)
      (auto simp: not_counts_err err_codes fresh_share_def empty_share_def wellformed_submit_def)
qed

lemma equihash_job_of_id: "equihash_job_of c gbt = Inr j \<Longrightarrow> qj_id j = job_id c"
  by (auto simp: equihash_job_of_def rbind_eq_Inr)

lemma equihash_accept_cases:
  assumes "equihash_acceptTemplate t st = (u, st')"
  shows "st' = st \<or> st' = bump st \<or> (\<exists>ord j. st' = store_job 8 ord (job_id (es_jobCounter st + 1)) j (bump st))"
  using assms by (auto simp: equihash_acceptTemplate_def bump_def Let_def split: prod.splits sum.splits dest!: equihash_job_of_id) blast

interpretation equihash: nonce_ledger "equihash_OnSubmit env" equihash_acceptTemplate job_nonce2 es_history es_jobCounter 1
proof
  fix v ps st r st'
  assume "equihash_OnSubmit env v ps st = (r, st')"
  then show "es_jobCounter st' = es_jobCounter st"
    and "es_history st' = es_history st \<or> es_history st' = mark_seen (fst (job_nonce2 ps)) (snd (job_nonce2 ps)) (es_history st)"
    by (auto dest!: equihash_OnSubmit_cases equihash_judge_keeps simp: note_nonce_def)
next
  fix v ps st sh st'
  assume "equihash_OnSubmit env v ps st = (Inr sh, st')" "counts sh"
  then show "es_history st' = mark_seen (fst (job_nonce2 ps)) (snd (job_nonce2 ps)) (es_history st) \<and>
      (\<exists>j seen. map_of (es_history st) (fst (job_nonce2 ps)) = Some (j, seen) \<and> snd (job_nonce2 ps) \<notin> set seen)"
    by (auto dest!: equihash_OnSubmit_cases equihash_judge_keeps simp: note_nonce_def)
next
  fix t st u and st' :: "'b equihash"
  assume a: "equihash_acceptTemplate t st = (u, st')" "unat (es_jobCounter st) + 1 < 2 ^ 64"
  show "unat (es_jobCounter st) \<le> unat (es_jobCounter st') \<and> unat (es_jobCounter st') \<le> unat (es_jobCounter st) + 1"
    by (rule one_job_laws [OF a(2) equihash_accept_cases [OF a(1)]])
  fix i j seen
  assume "map_of (es_history st') i = Some (j, seen)"
  then show "map_of (es_history st) i = Some (j, seen) \<or> (seen = [] \<and> new_id (es_jobCounter st) (es_jobCounter st') i)"
    by (rule one_job_laws [OF a(2) equihash_accept_cases [OF a(1)]])
qed

subsection \<open>Miners with the same part of the nonce\<close>

lemma equihash_duplicate:
  assumes "wellformed_submit env (length en) ps j nonce2 sol" "sv_ExtraNonce1 v = Some en" "en \<noteq> []"
    and "map_of (es_history st) (fst (job_nonce2 ps)) = Some (j, seen)" "snd (job_nonce2 ps) \<in> set seen"
  shows "\<exists>sh. equihash_OnSubmit env v ps st = (Inr sh, st) \<and> sh_ErrorCode sh = ErrDuplicateShare"
proof -
  from assms(1) obtain i ntime n2 solHex where w: "5 \<le> length ps" "as_string (ps ! 1) = Some i" "as_string (ps ! 2) = Some ntime"
    "as_string (ps ! 3) = Some n2" "as_string (ps ! 4) = Some solHex" "equal_fold ntime (qj_ntimeLE j)"
    "int (length (norm_hex n2)) = (32 - int (length en)) * 2" "hex_decode (norm_hex n2) = (nonce2, True)"
    "solution_of (qe_v env) (norm_hex solHex) = Some sol" unfolding wellformed_submit_def by blast
  moreover have "job_nonce2 ps = (i, norm_hex n2)" using job_nonce2_eq w by simp
  ultimately show ?thesis using assms(2-5) by (simp add: equihash_OnSubmit_def Let_def reject_def set_err_def)
qed

text \<open>
  An Equihash miner's work is refused when another miner used the same nonce part. The
  32-byte nonce is the connection's extranonce followed by the miner's part, so the same part
  on two connections is different work; but duplicates are looked up by the miner's part
  alone. If a submission of one connection counted, then the same parameters sent by any
  connection with an extranonce of the same length are answered as a duplicate share, however
  different its extranonce is, and without looking at the solution's work.
\<close>

theorem equihash_other_miner_refused:
  assumes "equihash_OnSubmit env v ps st = (Inr sh, st')" "counts sh"
    and "sv_ExtraNonce1 v = Some en" "sv_ExtraNonce1 v' = Some en'" "length en' = length en"
  shows "\<exists>sh'. equihash_OnSubmit env v' ps st' = (Inr sh', st') \<and> sh_ErrorCode sh' = ErrDuplicateShare"
proof -
  from equihash_OnSubmit_cases [OF assms(1)] assms(2,3) obtain i n j seen nonce2 sol share where
    c: "job_nonce2 ps = (i, n)" "map_of (es_history st) i = Some (j, seen)" "en \<noteq> []" "wellformed_submit env (length en) ps j nonce2 sol"
    and k: "equihash_judge env v j en nonce2 sol share (note_nonce i n st) = (Inr sh, st')" by auto
  have "map_of (es_history st') i = Some (j, n # seen)"
    using equihash_judge_keeps [OF k] c(2) by (simp add: note_nonce_def mark_seen_lookup)
  then show ?thesis
    using equihash_duplicate [of env en' ps j nonce2 sol v' st' "n # seen"] c assms(4,5) by fastforce
qed

definition ex_equihash_env :: "unit equihash_env" where
  "ex_equihash_env = \<lparr>qe_rpc = (\<lambda>_ _ _ w. (NoResponse, w)), qe_dm = ex_manager, qe_decode = (\<lambda>_. None),
     qe_v = \<lparr>vr_n = 125, vr_k = 4, vr_verify = (\<lambda>_ _. Some True), vr_solBytes = 52\<rparr>\<rparr>"

definition ex_equihash_job :: equihash_job where
  "ex_equihash_job = \<lparr>qj_id = ''1'', qj_prefix108 = replicate 108 0, qj_ntimeLE = ''00000000'', qj_target = -1, qj_txCount = 1,
     qj_txData = [], qj_prevHash = '''', qj_height = 7, qj_verHex = '''', qj_prevHex = '''', qj_merkleHex = '''',
     qj_reservedHex = '''', qj_bitsHex = ''''\<rparr>"

definition ex_equihash :: "unit equihash" where
  "ex_equihash = \<lparr>es_enCounter = 2, es_jobCounter = 1, es_cur = Some ex_equihash_job, es_history = [(''1'', ex_equihash_job, [])], es_world = ()\<rparr>"

definition ex_miner :: "bytes \<Rightarrow> session_view" where
  "ex_miner en = \<lparr>sv_ExtraNonce1 = Some en, sv_Difficulty = Fin 1, sv_WorkerName = ''t1miner'', sv_RemoteAddr = ''10.0.0.2''\<rparr>"

definition ex_solution :: "iface list" where
  "ex_solution = [IStr ''t1miner'', IStr ''1'', IStr ''00000000'', IStr (hex_encode (replicate 28 0)), IStr (hex_encode (replicate 52 0))]"

lemma norm_hex_zeros: "norm_hex (hex_encode (0 # bs)) = hex_encode (0 # bs)"
proof -
  have "hex_char 0 = CHR ''0''" by (simp add: hex_char_def)
  then have "\<not> has_prefix (hex_encode (0 # bs)) ''0x''" by (simp add: hex_encode_Cons hex_byte_def has_prefix_def)
  then show ?thesis unfolding norm_hex_def trim_prefix_def by (simp only: if_False to_lower_hex_encode)
qed

lemma ex_solution_counts:
  "\<exists>sh st'. equihash_OnSubmit ex_equihash_env (ex_miner [0, 0, 0, 1]) ex_solution ex_equihash = (Inr sh, st') \<and> counts sh"
proof -
  have z: "norm_hex (hex_encode (replicate 28 0)) = hex_encode (replicate 28 0)"
    "norm_hex (hex_encode (replicate 52 0)) = hex_encode (replicate 52 0)"
    using norm_hex_zeros [of "replicate 27 0"] norm_hex_zeros [of "replicate 51 0"]
    by (simp_all only: replicate_Suc [symmetric] eval_nat_numeral BitM.simps)
  have s: "solution_of (qe_v ex_equihash_env) (hex_encode (replicate 52 0)) = Some (replicate 52 0)"
    by (simp add: solution_of_def hex_decode_encode ex_equihash_env_def)
  have "equihash_OnSubmit ex_equihash_env (ex_miner [0, 0, 0, 1]) ex_solution ex_equihash =
    equihash_judge ex_equihash_env (ex_miner [0, 0, 0, 1]) ex_equihash_job [0, 0, 0, 1] (replicate 28 0) (replicate 52 0)
      ((fresh_share (ex_miner [0, 0, 0, 1]))\<lparr>sh_JobId := ''1'', sh_BlockHeight := 7\<rparr>) (note_nonce ''1'' (hex_encode (replicate 28 0)) ex_equihash)"
    by (simp add: equihash_OnSubmit_def Let_def ex_solution_def ex_equihash_def ex_equihash_job_def ex_miner_def z s
        hex_decode_encode equal_fold_def)
  moreover have "\<exists>sh st'. equihash_judge ex_equihash_env (ex_miner [0, 0, 0, 1]) ex_equihash_job en n2 sol share st = (Inr sh, st') \<and> counts sh"
    if "sh_ErrorCode share = 0" for en n2 sol share st
    using that by (auto simp: equihash_judge_def Let_def ex_equihash_env_def ex_equihash_job_def ex_miner_def TargetFromDiff_pos reject_def
        set_err_def counts_def)
  ultimately show ?thesis by (simp add: fresh_share_def empty_share_def)
qed

theorem equihash_other_miner_refused_witness:
  "\<exists>st' sh'. equihash_OnSubmit ex_equihash_env (ex_miner [0, 0, 0, 2]) ex_solution st' = (Inr sh', st') \<and>
     sh_ErrorCode sh' = ErrDuplicateShare"
proof -
  obtain sh st' where "equihash_OnSubmit ex_equihash_env (ex_miner [0, 0, 0, 1]) ex_solution ex_equihash = (Inr sh, st')" "counts sh"
    using ex_solution_counts by blast
  from equihash_other_miner_refused [OF this, of "[0, 0, 0, 1]" "ex_miner [0, 0, 0, 2]" "[0, 0, 0, 2]"]
  show ?thesis by (auto simp: ex_miner_def)
qed

end
