(* ===== verification/CryptonoteBlob.thy ===== *)
theory CryptonoteBlob
  imports Utils
begin

unbundle bit_operations_syntax

text \<open>
  \<open>engine/cryptonote/blob.go\<close>: the serialization a Monero pool needs. Variable-length integers,
  the tree hash over transaction hashes, locating the nonce and the miner transaction in a
  block blob, and the hashing blob. Keccak-256 is the parameter \<open>kc\<close> on the concatenated input.
  Positions are Go \<open>int\<close>s: a length read from the blob is converted and added with the
  wrap-around of 64 bits, and a negative position panics when it is used as an index.
\<close>

definition wrap64 :: "int \<Rightarrow> int" where
  "wrap64 x = signed_take_bit 63 x"

definition byte_at :: "bytes \<Rightarrow> int \<Rightarrow> byte res" where
  "byte_at b pos = (if pos < 0 \<or> int (length b) \<le> pos then Inl (Panic ''index out of range'') else Inr (b ! nat pos))"

subsection \<open>Variable-length integers\<close>

function varint_loop :: "bytes \<Rightarrow> int \<Rightarrow> nat \<Rightarrow> u64 \<Rightarrow> (u64 \<times> int) res" where
  "varint_loop b pos shift v =
     (if int (length b) \<le> pos then Inl (Err ''varint: unexpected end of blob'')
      else
        (case byte_at b pos of
           Inl e \<Rightarrow> Inl e
         | Inr c \<Rightarrow>
             (let v = v OR push_bit shift (ucast (c AND 0x7f)) in
              if c AND 0x80 = 0 then Inr (v, pos + 1)
              else if 63 < shift + 7 then Inl (Err ''varint: overflow'')
              else varint_loop b (pos + 1) (shift + 7) v)))"
  by pat_completeness auto
termination
  by (relation "measure (\<lambda>(b, pos, shift, v). nat (int (length b) - pos))") auto

declare varint_loop.simps [simp del]

definition readVarint :: "bytes \<Rightarrow> int \<Rightarrow> (u64 \<times> int) res" where
  "readVarint b pos = varint_loop b pos 0 0"

lemma drop_bit_smaller: "(0x80 :: u64) \<le> v \<Longrightarrow> unat (drop_bit 7 v) < unat v"
proof -
  assume "(0x80 :: u64) \<le> v"
  then have "128 \<le> unat v" by (simp add: word_le_nat_alt)
  then show ?thesis by (simp add: drop_bit_eq_div unat_div)
qed

function append_varint_loop :: "bytes \<Rightarrow> u64 \<Rightarrow> bytes" where
  "append_varint_loop dst v =
     (if 0x80 \<le> v then append_varint_loop (dst @ [ucast v OR 0x80]) (drop_bit 7 v) else dst @ [ucast v])"
  by pat_completeness auto

termination
  by (relation "measure (\<lambda>(dst, v). unat v)") (auto simp: drop_bit_smaller)

declare append_varint_loop.simps [simp del]

definition appendVarint :: "bytes \<Rightarrow> u64 \<Rightarrow> bytes" where
  "appendVarint dst v = append_varint_loop dst v"

subsection \<open>The tree hash\<close>

text \<open>\<open>pow := 2; for pow < count { pow <<= 1 }\<close>.\<close>

function pow_loop :: "nat \<Rightarrow> nat \<Rightarrow> nat" where
  "pow_loop pow count = (if 0 < pow \<and> pow < count then pow_loop (2 * pow) count else pow)"
  by pat_completeness auto
termination
  by (relation "measure (\<lambda>(pow, count). count - pow)") auto

declare pow_loop.simps [simp del]

text \<open>One pass of the reduction: \<open>ints[j]\<close> is overwritten from the front while \<open>2 j\<close> and \<open>2 j + 1\<close> are read.\<close>

fun reduce_pass :: "(bytes \<Rightarrow> bytes) \<Rightarrow> nat list \<Rightarrow> bytes list \<Rightarrow> bytes list" where
  "reduce_pass kc [] ints = ints"
| "reduce_pass kc (j # js) ints = reduce_pass kc js (ints[j := kc (ints ! (2 * j) @ ints ! (2 * j + 1))])"

function reduce_loop :: "(bytes \<Rightarrow> bytes) \<Rightarrow> nat \<Rightarrow> bytes list \<Rightarrow> bytes list" where
  "reduce_loop kc cnt ints =
     (if 2 < cnt then reduce_loop kc (cnt div 2) (reduce_pass kc [0..<cnt div 2] ints) else ints)"
  by pat_completeness auto
termination
  by (relation "measure (\<lambda>(kc, cnt, ints). cnt)") auto

declare reduce_loop.simps [simp del]

text \<open>The leaf layer: the first \<open>2 cnt - count\<close> leaves are copied, the others hashed in pairs.\<close>

definition leaf_layer :: "(bytes \<Rightarrow> bytes) \<Rightarrow> nat \<Rightarrow> bytes list \<Rightarrow> bytes list" where
  "leaf_layer kc cnt hashes =
     (let s = 2 * cnt - length hashes in
      map (\<lambda>j. if j < s then hashes ! j else kc (hashes ! (s + 2 * (j - s)) @ hashes ! (s + 2 * (j - s) + 1))) [0..<cnt])"

definition copy32 :: "bytes \<Rightarrow> bytes" where
  "copy32 h = take 32 h @ replicate (32 - length h) 0"

definition treeHash :: "(bytes \<Rightarrow> bytes) \<Rightarrow> bytes list \<Rightarrow> bytes" where
  "treeHash kc hashes =
     (if length hashes = 0 then []
      else if length hashes = 1 then copy32 (hashes ! 0)
      else if length hashes = 2 then kc (hashes ! 0 @ hashes ! 1)
      else
        (let cnt = pow_loop 2 (length hashes) div 2;
             ints = reduce_loop kc cnt (leaf_layer kc cnt hashes)
         in kc (ints ! 0 @ ints ! 1)))"

subsection \<open>Block blobs\<close>

record parsed_block =
  pb_blob :: bytes
  pb_nonceOffset :: int
  pb_headerEnd :: int
  pb_minerTxEnd :: int
  pb_minerTxVer :: u64
  pb_txCount :: int
  pb_txHashes :: "bytes list"

fun skip_varints :: "nat \<Rightarrow> bytes \<Rightarrow> int \<Rightarrow> int res" where
  "skip_varints 0 blob pos = Inr pos"
| "skip_varints (Suc n) blob pos = rbind (readVarint blob pos) (\<lambda>(_, pos). skip_varints n blob pos)"

text \<open>One output of the miner transaction: amount, tag, key and, for a tagged key, the view tag.\<close>

definition skip_vout :: "bytes \<Rightarrow> int \<Rightarrow> int res" where
  "skip_vout blob pos =
     rbind (readVarint blob pos) (\<lambda>(_, pos).
       if int (length blob) \<le> pos then Inl (Err ''blob too short for vout tag'')
       else
         rbind (byte_at blob pos) (\<lambda>tag.
         rbind (if tag = 2 then Inr (pos + 1 + 32) else if tag = 3 then Inr (pos + 1 + 33)
                else Inl (Err ''unknown vout target tag in miner tx'')) (\<lambda>pos.
           if int (length blob) < pos then Inl (Err ''blob too short for vout key'') else Inr pos)))"

text \<open>The loop over the outputs, as many as the count read from the blob says.\<close>

fun skip_vouts :: "nat \<Rightarrow> bytes \<Rightarrow> int \<Rightarrow> int res" where
  "skip_vouts 0 blob pos = Inr pos"
| "skip_vouts (Suc n) blob pos = rbind (skip_vout blob pos) (\<lambda>pos. skip_vouts n blob pos)"

fun read_hashes :: "nat \<Rightarrow> bytes \<Rightarrow> int \<Rightarrow> (bytes list \<times> int) res" where
  "read_hashes 0 blob pos = Inr ([], pos)"
| "read_hashes (Suc n) blob pos =
     (if int (length blob) < pos + 32 then Inl (Err ''blob too short for tx hashes'')
      else rbind (read_hashes n blob (pos + 32)) (\<lambda>(hs, p). Inr (take 32 (drop (nat pos) blob) # hs, p)))"

text \<open>\<open>header: major minor timestamp prev(32) nonce(4)\<close>; returns the end of the header.\<close>

definition parse_header :: "bytes \<Rightarrow> int res" where
  "parse_header blob =
     rbind (skip_varints 3 blob 0) (\<lambda>pos.
       if int (length blob) < pos + 36 then Inl (Err ''blob too short for prev+nonce'') else Inr (pos + 36))"

text \<open>The end of the miner transaction: behind \<open>extra\<close>, and behind the rct byte from version 2 on.\<close>

definition miner_tx_end :: "bytes \<Rightarrow> u64 \<Rightarrow> int \<Rightarrow> (u64 \<times> int) res" where
  "miner_tx_end blob ver pos =
     (if int (length blob) < pos then Inl (Err ''blob too short for tx extra'')
      else if 2 \<le> ver then
        (if int (length blob) \<le> pos then Inl (Err ''miner tx v2 must end with RCTTypeNull byte'')
         else rbind (byte_at blob pos) (\<lambda>c.
           if c \<noteq> 0 then Inl (Err ''miner tx v2 must end with RCTTypeNull byte'') else Inr (ver, pos + 1)))
      else Inr (ver, pos))"

text \<open>The miner transaction from \<open>pos\<close> on: its version and the position behind it.\<close>

definition parse_miner_tx :: "bytes \<Rightarrow> int \<Rightarrow> (u64 \<times> int) res" where
  "parse_miner_tx blob pos =
     rbind (readVarint blob pos) (\<lambda>(ver, pos).
     rbind (readVarint blob pos) (\<lambda>(_, pos).
     rbind (readVarint blob pos) (\<lambda>(vinCount, pos).
       if vinCount \<noteq> 1 \<or> int (length blob) \<le> pos \<or> byte_at blob pos \<noteq> Inr 0xff
       then Inl (Err ''miner tx must have exactly one gen input'')
       else
     rbind (readVarint blob (pos + 1)) (\<lambda>(_, pos).
     rbind (readVarint blob pos) (\<lambda>(voutCount, pos).
     rbind (skip_vouts (unat voutCount) blob pos) (\<lambda>pos.
     rbind (readVarint blob pos) (\<lambda>(extraLen, pos).
       miner_tx_end blob ver (wrap64 (pos + sint extraLen)))))))))"

text \<open>\<open>make([][]byte, 0, txCount)\<close> panics when the capacity exceeds the address space (24 bytes each).\<close>

definition parseBlockBlob :: "bytes \<Rightarrow> parsed_block res" where
  "parseBlockBlob blob =
     rbind (parse_header blob) (\<lambda>headerEnd.
     rbind (parse_miner_tx blob headerEnd) (\<lambda>(ver, minerTxEnd).
     rbind (readVarint blob minerTxEnd) (\<lambda>(txCount, pos).
       if 2 ^ 48 < unat txCount * 24 then Inl (Panic ''makeslice: cap out of range'')
       else
     rbind (read_hashes (unat txCount) blob pos) (\<lambda>(txHashes, pos).
       if pos \<noteq> int (length blob) then Inl (Err ''trailing bytes after block blob'')
       else Inr \<lparr>pb_blob = blob, pb_nonceOffset = headerEnd - 4, pb_headerEnd = headerEnd, pb_minerTxEnd = minerTxEnd,
                 pb_minerTxVer = ver, pb_txCount = sint txCount, pb_txHashes = txHashes\<rparr>))))"

text \<open>\<open>blob[lo:hi]\<close> with \<open>int\<close> bounds.\<close>

definition int_slice :: "bytes \<Rightarrow> int \<Rightarrow> int \<Rightarrow> bytes res" where
  "int_slice b lo hi = (if lo < 0 \<or> hi < 0 then Inl (Panic ''slice bounds out of range'') else slice b (nat lo) (nat hi))"

definition minerTxHash :: "(bytes \<Rightarrow> bytes) \<Rightarrow> parsed_block \<Rightarrow> bytes res" where
  "minerTxHash kc p =
     rbind (int_slice (pb_blob p) (pb_headerEnd p) (pb_minerTxEnd p)) (\<lambda>tx.
       if pb_minerTxVer p < 2 then Inr (kc tx)
       else
         rbind (int_slice tx 0 (int (length tx) - 1)) (\<lambda>prefix.
           Inr (kc (kc prefix @ kc (drop (length tx - 1) tx) @ replicate 32 0))))"

definition hashingBlob :: "(bytes \<Rightarrow> bytes) \<Rightarrow> parsed_block \<Rightarrow> bytes res" where
  "hashingBlob kc p =
     rbind (minerTxHash kc p) (\<lambda>mth.
     rbind (int_slice (pb_blob p) 0 (pb_headerEnd p)) (\<lambda>header.
       Inr (appendVarint (header @ treeHash kc (mth # pb_txHashes p)) (word_of_int (pb_txCount p + 1)))))"

text \<open>\<open>copy(out[off:off+4], nonce)\<close> on a copy of the blob.\<close>

definition withNonce :: "bytes \<Rightarrow> int \<Rightarrow> bytes \<Rightarrow> bytes res" where
  "withNonce blob off nonce =
     rbind (int_slice blob off (off + 4)) (\<lambda>old.
       Inr (take (nat off) blob @ take 4 nonce @ drop (length (take 4 nonce)) old @ drop (nat off + 4) blob))"


subsection \<open>Round trip of variable-length integers\<close>

lemma append_varint_dst: "append_varint_loop dst v = dst @ append_varint_loop [] v"
proof (induction "[] :: bytes" v arbitrary: dst rule: append_varint_loop.induct)
  case (1 v)
  show ?case
  proof (cases "0x80 \<le> v")
    case True
    have "append_varint_loop dst v = (dst @ [ucast v OR 0x80]) @ append_varint_loop [] (drop_bit 7 v)" for dst
      using True 1 by (subst append_varint_loop.simps) (simp add: append_varint_loop.simps)
    then show ?thesis by simp
  qed (simp add: append_varint_loop.simps)
qed

lemma bit_0x80: "bit (0x80 :: byte) n \<longleftrightarrow> n = 7"
proof -
  have "(0x80 :: byte) = 2 ^ 7" by simp
  then show ?thesis by (simp only: bit_exp_iff) auto
qed

lemma low7: "ucast ((ucast v OR 0x80 :: byte) AND 0x7f) = (v AND 0x7f :: u64)"
proof (rule bit_word_eqI)
  fix n
  assume "n < LENGTH(64)"
  have m: "(0x7f :: byte) = mask 7" "(0x7f :: u64) = mask 7" by (simp_all add: mask_eq_exp_minus_1)
  show "bit (ucast ((ucast v OR 0x80 :: byte) AND 0x7f) :: u64) n = bit (v AND 0x7f) n"
    unfolding m by (simp only: bit_and_iff bit_or_iff bit_unsigned_iff bit_mask_iff bit_0x80) auto
qed

lemma high_bit: "(ucast v OR 0x80 :: byte) AND 0x80 \<noteq> 0"
proof -
  have "bit ((ucast v OR 0x80 :: byte) AND 0x80) 7" by (simp add: bit_simps)
  then show ?thesis by (metis bit_0_eq bot_apply bot_bool_def)
qed

lemma small7:
  assumes "(v :: u64) < 0x80"
  shows "ucast ((ucast v :: byte) AND 0x7f) = v" "(ucast v :: byte) AND 0x80 = 0"
proof -
  have "unat v < 2 ^ 7" using assms by (simp add: word_less_nat_alt)
  then have "unat (take_bit 7 v) = unat v" by (simp add: unsigned_take_bit_eq take_bit_nat_eq_self)
  then have "take_bit 7 v = v" by (rule unsigned_word_eqI)
  then have b: "n < 7" if "bit v n" for n using that by (metis bit_take_bit_iff)
  have m: "(0x7f :: byte) = mask 7" by (simp add: mask_eq_exp_minus_1)
  show "ucast ((ucast v :: byte) AND 0x7f) = v" unfolding m by (rule bit_word_eqI) (auto simp: bit_simps dest: b)
  show "(ucast v :: byte) AND 0x80 = 0" by (rule bit_word_eqI) (simp only: bit_and_iff bit_unsigned_iff bit_0x80 bit_0_eq bot_apply, use b in auto)
qed

lemma push_split: "push_bit s (v AND 0x7f) OR push_bit (s + 7) (drop_bit 7 v) = push_bit s (v :: u64)"
proof (rule bit_word_eqI)
  fix n
  have m: "(0x7f :: u64) = mask 7" by (simp add: mask_eq_exp_minus_1)
  show "bit (push_bit s (v AND 0x7f) OR push_bit (s + 7) (drop_bit 7 v)) n = bit (push_bit s v) n"
    unfolding m by (cases "n - s < 7") (auto simp: bit_simps)
qed

lemma varint_loop_append:
  assumes "unat v < 2 ^ (64 - s)" "s \<le> 63"
  shows "varint_loop (pre @ append_varint_loop [] v @ rest) (int (length pre)) s a =
    Inr (a OR push_bit s v, int (length pre + length (append_varint_loop [] v)))"
  using assms
proof (induction "unat v" arbitrary: v s a pre rule: less_induct)
  case less
  show ?case
  proof (cases "0x80 \<le> v")
    case False
    then have "append_varint_loop [] v = [ucast v]" by (simp add: append_varint_loop.simps)
    then show ?thesis using small7 [of v] False by (subst varint_loop.simps) (simp add: byte_at_def)
  next
    case True
    have enc: "append_varint_loop [] v = (ucast v OR 0x80) # append_varint_loop [] (drop_bit 7 v)"
      using True append_varint_dst [of "[ucast v OR 0x80]" "drop_bit 7 v"] by (subst append_varint_loop.simps) simp
    have "128 \<le> unat v" using True by (simp add: word_le_nat_alt)
    then have "(2 :: nat) ^ 7 < 2 ^ (64 - s)" using less.prems(1) by simp
    then have "7 < 64 - s" by (rule power_less_imp_less_exp [rotated]) simp
    then have s: "s + 7 \<le> 63" by linarith
    have "unat (drop_bit 7 v) = unat v div 2 ^ 7" by (simp add: drop_bit_eq_div unat_div)
    also have "\<dots> < 2 ^ (64 - (s + 7))"
    proof (rule less_mult_imp_div_less)
      have "(2 :: nat) ^ (64 - s) = 2 ^ (64 - (s + 7)) * 2 ^ 7" using s unfolding power_add [symmetric] by (intro arg_cong [of _ _ "power 2"]) linarith
      then show "unat v < 2 ^ (64 - (s + 7)) * 2 ^ 7" using less.prems(1) by simp
    qed
    finally have "varint_loop ((pre @ [ucast v OR 0x80]) @ append_varint_loop [] (drop_bit 7 v) @ rest) (int (length (pre @ [ucast v OR 0x80]))) (s + 7)
        (a OR push_bit s (v AND 0x7f)) =
      Inr ((a OR push_bit s (v AND 0x7f)) OR push_bit (s + 7) (drop_bit 7 v), int (length (pre @ [ucast v OR 0x80 :: byte]) + length (append_varint_loop [] (drop_bit 7 v))))"
      using less.hyps [OF drop_bit_smaller [OF True]] s by blast
    then have rest: "varint_loop (pre @ append_varint_loop [] v @ rest) (int (length pre) + 1) (s + 7) (a OR push_bit s (v AND 0x7f)) =
      Inr (a OR push_bit s v, int (length pre + length (append_varint_loop [] v)))"
      using push_split [of s v] by (simp add: enc or.assoc add.commute)
    have "byte_at (pre @ append_varint_loop [] v @ rest) (int (length pre)) = Inr (ucast v OR 0x80)" by (simp add: enc byte_at_def)
    then show ?thesis
      using rest s high_bit [of v] by (subst varint_loop.simps) (simp add: low7 enc)
  qed
qed

lemma append_varint_length:
  assumes "unat v < 2 ^ (7 * k)" "0 < k"
  shows "length (append_varint_loop [] v) \<le> k"
  using assms
proof (induction k arbitrary: v)
  case (Suc k)
  show ?case
  proof (cases "0x80 \<le> v")
    case True
    have "128 \<le> unat v" using True by (simp add: word_le_nat_alt)
    then have k: "0 < k" using Suc.prems(1) by (cases k) auto
    have "unat (drop_bit 7 v) = unat v div 2 ^ 7" by (simp add: drop_bit_eq_div unat_div)
    also have "\<dots> < 2 ^ (7 * k)" using Suc.prems(1) by (intro less_mult_imp_div_less) (simp add: power_add mult.commute)
    finally have "length (append_varint_loop [] (drop_bit 7 v)) \<le> k" using k by (rule Suc.IH)
    then show ?thesis
      using True append_varint_dst [of "[ucast v OR 0x80]" "drop_bit 7 v"] by (subst append_varint_loop.simps) simp
  qed (simp add: append_varint_loop.simps)
qed simp

text \<open>
  Variable-length integers are read back. Wherever \<open>appendVarint\<close> wrote a 64-bit value,
  \<open>readVarint\<close> at that position returns the value and the position behind it, whatever precedes
  or follows; the encoding has at most ten bytes.
\<close>

theorem varint_roundtrip:
  "readVarint (appendVarint pre v @ rest) (int (length pre)) = Inr (v, int (length (appendVarint pre v))) \<and>
   length (appendVarint [] v) \<le> 10"
proof
  show "readVarint (appendVarint pre v @ rest) (int (length pre)) = Inr (v, int (length (appendVarint pre v)))"
    using varint_loop_append [of v 0 pre rest 0] u64_less [of v] append_varint_dst [of pre v]
    by (simp add: readVarint_def appendVarint_def)
  have "(2 :: nat) ^ 64 \<le> 2 ^ (7 * 10)" by simp
  then have "unat v < 2 ^ (7 * 10)" using u64_less [of v] by linarith
  then show "length (appendVarint [] v) \<le> 10" unfolding appendVarint_def by (rule append_varint_length) simp
qed

subsection \<open>The tree hash is a binary tree\<close>

text \<open>
  The reference definition: the leaves are brought to a power of two by hashing the last ones
  in pairs, and a list of \<open>2 ^ k\<close> hashes is reduced level by level.
\<close>

fun pair_up :: "(bytes \<Rightarrow> bytes) \<Rightarrow> bytes list \<Rightarrow> bytes list" where
  "pair_up kc (a # b # r) = kc (a @ b) # pair_up kc r"
| "pair_up kc r = r"

fun perfect_root :: "(bytes \<Rightarrow> bytes) \<Rightarrow> nat \<Rightarrow> bytes list \<Rightarrow> bytes" where
  "perfect_root kc 0 hs = hs ! 0"
| "perfect_root kc (Suc k) hs = perfect_root kc k (pair_up kc hs)"

definition tree_root :: "(bytes \<Rightarrow> bytes) \<Rightarrow> nat \<Rightarrow> bytes list \<Rightarrow> bytes" where
  "tree_root kc k hashes =
     (let s = 2 * 2 ^ k - length hashes in perfect_root kc k (take s hashes @ pair_up kc (drop s hashes)))"

lemma length_pair_up: "even (length hs) \<Longrightarrow> length (pair_up kc hs) = length hs div 2"
  by (induction kc hs rule: pair_up.induct) auto

lemma pair_up_nth: "2 * j + 1 < length hs \<Longrightarrow> pair_up kc hs ! j = kc (hs ! (2 * j) @ hs ! (2 * j + 1))"
proof (induction kc hs arbitrary: j rule: pair_up.induct)
  case (1 kc a b r)
  then show ?case by (cases j) auto
qed auto

text \<open>Overwriting from the front is harmless: slot \<open>j\<close> is written after \<open>2 j\<close> and \<open>2 j + 1\<close> were read.\<close>

lemma reduce_pass_nth:
  assumes "n \<le> m" "2 * m \<le> length ints"
  shows "length (reduce_pass kc [n..<m] ints) = length ints"
    and "n \<le> j \<Longrightarrow> j < m \<Longrightarrow> reduce_pass kc [n..<m] ints ! j = kc (ints ! (2 * j) @ ints ! (2 * j + 1))"
    and "j < n \<or> m \<le> j \<Longrightarrow> reduce_pass kc [n..<m] ints ! j = ints ! j"
proof -
  have "length (reduce_pass kc [n..<m] ints) = length ints \<and>
    (\<forall>j. (n \<le> j \<and> j < m \<longrightarrow> reduce_pass kc [n..<m] ints ! j = kc (ints ! (2 * j) @ ints ! (2 * j + 1))) \<and>
         (j < n \<or> m \<le> j \<longrightarrow> reduce_pass kc [n..<m] ints ! j = ints ! j))"
    using assms
  proof (induction "m - n" arbitrary: n ints)
    case (Suc d)
    define ints' where "ints' = ints[n := kc (ints ! (2 * n) @ ints ! (2 * n + 1))]"
    have n: "n < m" "d = m - Suc n" using Suc.hyps(2) by linarith+
    have step: "reduce_pass kc [n..<m] ints = reduce_pass kc [Suc n..<m] ints'" using n(1) by (simp add: upt_conv_Cons ints'_def)
    note IH = Suc.hyps(1) [OF n(2), of ints']
    have keep: "ints' ! j = ints ! j" if "j \<noteq> n" for j using that by (simp add: ints'_def)
    have at_n: "ints' ! n = kc (ints ! (2 * n) @ ints ! (2 * n + 1))" using n(1) Suc.prems(2) by (simp add: ints'_def)
    have l: "length ints' = length ints" by (simp add: ints'_def)
    have "reduce_pass kc [n..<m] ints ! j = kc (ints ! (2 * j) @ ints ! (2 * j + 1))" if "n \<le> j" "j < m" for j
    proof (cases "j = n")
      case True
      then show ?thesis using IH n(1) Suc.prems(2) at_n by (simp add: step l)
    next
      case False
      then have "reduce_pass kc [Suc n..<m] ints' ! j = kc (ints' ! (2 * j) @ ints' ! (2 * j + 1))"
        using IH n(1) Suc.prems(2) that l by simp
      then show ?thesis using keep [of "2 * j"] keep [of "2 * j + 1"] False that by (simp add: step)
    qed
    moreover have "reduce_pass kc [n..<m] ints ! j = ints ! j" if "j < n \<or> m \<le> j" for j
    proof -
      have "reduce_pass kc [Suc n..<m] ints' ! j = ints' ! j" using IH n(1) Suc.prems(2) that l by auto
      then show ?thesis using keep [of j] that n(1) by (auto simp: step)
    qed
    moreover have "length (reduce_pass kc [n..<m] ints) = length ints" using IH n(1) Suc.prems(2) by (simp add: step l)
    ultimately show ?case by blast
  qed auto
  then show "length (reduce_pass kc [n..<m] ints) = length ints"
    and "n \<le> j \<Longrightarrow> j < m \<Longrightarrow> reduce_pass kc [n..<m] ints ! j = kc (ints ! (2 * j) @ ints ! (2 * j + 1))"
    and "j < n \<or> m \<le> j \<Longrightarrow> reduce_pass kc [n..<m] ints ! j = ints ! j" by blast+
qed

lemma reduce_pass_pairs:
  assumes "2 * m \<le> length ints"
  shows "take m (reduce_pass kc [0..<m] ints) = pair_up kc (take (2 * m) ints)"
  using assms reduce_pass_nth(1) [of 0 m ints kc] reduce_pass_nth(2) [of 0 m ints _ kc]
  by (intro nth_equalityI) (auto simp: length_pair_up pair_up_nth)

lemma reduce_loop_root:
  "2 ^ Suc k \<le> length ints \<Longrightarrow>
   kc (reduce_loop kc (2 ^ Suc k) ints ! 0 @ reduce_loop kc (2 ^ Suc k) ints ! 1) = perfect_root kc (Suc k) (take (2 ^ Suc k) ints)"
proof (induction k arbitrary: ints)
  case 0
  then obtain a b r where "ints = a # b # r" by (cases ints; cases "tl ints") auto
  then show ?case by (simp add: reduce_loop.simps numeral_2_eq_2)
next
  case (Suc k)
  let ?m = "2 ^ Suc k :: nat" and ?p = "reduce_pass kc [0..<2 ^ Suc k] ints"
  have "2 * ?m \<le> length ints" using Suc.prems by simp
  then have "take ?m ?p = pair_up kc (take (2 * ?m) ints)" "?m \<le> length ?p"
    using reduce_pass_pairs [of ?m ints kc] reduce_pass_nth(1) [of 0 ?m ints kc] by auto
  moreover have "reduce_loop kc (2 ^ Suc (Suc k)) ints = reduce_loop kc ?m ?p"
  proof -
    have "(2 :: nat) ^ 1 < 2 ^ Suc (Suc k)" by (rule power_strict_increasing) auto
    then show ?thesis by (subst reduce_loop.simps) (simp del: power_Suc add: power_Suc [of 2 "Suc k"])
  qed
  ultimately show ?case using Suc.IH [of ?p] by simp
qed

lemma pow_loop_power:
  "2 ^ i < n \<Longrightarrow> \<exists>k\<ge>i. pow_loop (2 * 2 ^ i) n = 2 * 2 ^ k \<and> 2 ^ k < n \<and> n \<le> 2 * 2 ^ k"
proof (induction "n - 2 ^ i" arbitrary: i rule: less_induct)
  case less
  show ?case
  proof (cases "2 * 2 ^ i < n")
    case True
    have "n - 2 ^ Suc i < n - 2 ^ i" using less.prems by (intro diff_less_mono2) auto
    then obtain k where "Suc i \<le> k" "pow_loop (2 * 2 ^ Suc i) n = 2 * 2 ^ k" "2 ^ k < n" "n \<le> 2 * 2 ^ k"
      using less.hyps [of "Suc i"] True by auto
    moreover have "pow_loop (2 * 2 ^ i) n = pow_loop (2 * 2 ^ Suc i) n" using True by (subst pow_loop.simps) simp
    ultimately show ?thesis by (intro exI [of _ k]) auto
  next
    case False
    then have "pow_loop (2 * 2 ^ i) n = 2 * 2 ^ i" by (subst pow_loop.simps) simp
    then show ?thesis using False less.prems by (intro exI [of _ i]) auto
  qed
qed

lemma power_bracket:
  assumes "(2 :: nat) ^ k < n" "n \<le> 2 * 2 ^ k" "2 ^ l < n" "n \<le> 2 * 2 ^ l"
  shows "k = l"
proof -
  have "(2 :: nat) ^ k < 2 ^ Suc l" "(2 :: nat) ^ l < 2 ^ Suc k" using assms by simp_all
  then have "k < Suc l" "l < Suc k" by (simp_all only: power_strict_increasing_iff one_less_numeral_iff semiring_norm)
  then show ?thesis by simp
qed

lemma leaf_layer_eq:
  assumes "length hashes \<le> 2 * cnt" "cnt \<le> length hashes"
  shows "leaf_layer kc cnt hashes = take (2 * cnt - length hashes) hashes @ pair_up kc (drop (2 * cnt - length hashes) hashes)"
proof -
  define s where "s = 2 * cnt - length hashes"
  have s: "s \<le> cnt" "length hashes - s = 2 * (cnt - s)" "s \<le> length hashes" using assms by (simp_all add: s_def)
  have lp: "length (pair_up kc (drop s hashes)) = cnt - s" using s by (subst length_pair_up) auto
  show ?thesis unfolding s_def [symmetric]
  proof (rule nth_equalityI)
    show "length (leaf_layer kc cnt hashes) = length (take s hashes @ pair_up kc (drop s hashes))"
      using s lp by (simp add: leaf_layer_def Let_def)
  next
    fix j
    assume "j < length (leaf_layer kc cnt hashes)"
    then have j: "j < cnt" by (simp add: leaf_layer_def Let_def)
    show "leaf_layer kc cnt hashes ! j = (take s hashes @ pair_up kc (drop s hashes)) ! j"
    proof (cases "j < s")
      case False
      then have "pair_up kc (drop s hashes) ! (j - s) = kc (hashes ! (s + 2 * (j - s)) @ hashes ! (s + 2 * (j - s) + 1))"
        using j s by (subst pair_up_nth) (auto simp: add.assoc)
      then show ?thesis using False j s by (simp add: leaf_layer_def Let_def nth_append s_def [symmetric])
    qed (use j s in \<open>simp add: leaf_layer_def Let_def nth_append s_def [symmetric]\<close>)
  qed
qed

text \<open>
  C16. The in-place tree hash is the binary tree it ports. For any number of at least two hashes,
  with \<open>2 ^ k\<close> the largest power of two below that number, \<open>treeHash\<close> is the root of the perfect
  binary tree over the layer in which the first leaves are kept and the last ones are hashed
  in pairs; overwriting the front of the array during each pass does not disturb it.
\<close>

theorem treeHash_is_tree:
  assumes "2 ^ k < length hashes" "length hashes \<le> 2 * 2 ^ k"
  shows "treeHash kc hashes = tree_root kc k hashes"
proof (cases "length hashes = 2")
  case True
  then have "k = 0" using power_bracket [of k 2 0] assms by simp
  moreover obtain a b where "hashes = [a, b]" using True by (cases hashes; cases "tl hashes") auto
  ultimately show ?thesis by (simp add: treeHash_def tree_root_def)
next
  case False
  have "(1 :: nat) \<le> 2 ^ k" by simp
  then have n: "2 < length hashes" using assms(1) False by linarith
  obtain l where l: "pow_loop 2 (length hashes) = 2 * 2 ^ l" "2 ^ l < length hashes" "length hashes \<le> 2 * 2 ^ l"
    using pow_loop_power [of 0 "length hashes"] n by auto
  then have cnt: "pow_loop 2 (length hashes) div 2 = 2 ^ k" using power_bracket [OF assms l(2,3)] by simp
  obtain k' where k': "k = Suc k'" using assms n by (cases k) auto
  let ?L = "leaf_layer kc (2 ^ k) hashes"
  have L: "?L = take (2 * 2 ^ k - length hashes) hashes @ pair_up kc (drop (2 * 2 ^ k - length hashes) hashes)"
    using assms by (intro leaf_layer_eq) auto
  have "length ?L = 2 ^ k" by (simp add: leaf_layer_def Let_def)
  then have "kc (reduce_loop kc (2 ^ k) ?L ! 0 @ reduce_loop kc (2 ^ k) ?L ! 1) = perfect_root kc k ?L"
    using reduce_loop_root [of k' ?L kc] k' by simp
  moreover have "hashes \<noteq> []" using n by auto
  ultimately show ?thesis using n False by (simp add: treeHash_def cnt tree_root_def L [symmetric] Let_def)
qed

theorem treeHash_is_tree_witness:
  "\<forall>kc. treeHash kc [[1], [2], [3]] = kc ([1] @ kc ([2] @ [3]))"
  using treeHash_is_tree [of 1 "[[1], [2], [3]]"] by (simp add: tree_root_def numeral_2_eq_2)

end
