(* ===== verification/CryptonoteNonce.thy ===== *)
theory CryptonoteNonce
  imports CryptonoteBlob
begin

unbundle bit_operations_syntax

text \<open>
  Replacing the nonce commutes with building the hashing blob. The miner's proof of work is
  computed over the hashing blob of the template with the miner's nonce written into it, and
  the block that is submitted is the template's blob with that nonce. The theorem shows that
  the first is the hashing blob of the second. The lemmas before it say that parsing a span of
  the blob depends on that span only.
\<close>

subsection \<open>Parsing forward of a position\<close>

definition same_from :: "int \<Rightarrow> bytes \<Rightarrow> bytes \<Rightarrow> bool" where
  "same_from q b b' \<longleftrightarrow> length b' = length b \<and> (\<forall>i. q \<le> i \<longrightarrow> byte_at b' i = byte_at b i)"

lemma varint_same_from: "same_from q b b' \<Longrightarrow> q \<le> pos \<Longrightarrow> varint_loop b' pos s v = varint_loop b pos s v"
proof (induction b pos s v rule: varint_loop.induct)
  case (1 b pos s v)
  have "length b' = length b" "byte_at b' pos = byte_at b pos" using "1.prems" by (auto simp: same_from_def)
  then show ?case
    using 1 by (subst (1 2) varint_loop.simps) (auto simp: Let_def split: sum.splits)
qed

lemma readVarint_same_from: "same_from q b b' \<Longrightarrow> q \<le> pos \<Longrightarrow> readVarint b' pos = readVarint b pos"
  by (simp add: readVarint_def varint_same_from)

lemma varint_forward: "varint_loop b pos s v = Inr (x, p) \<Longrightarrow> pos < p"
proof (induction b pos s v rule: varint_loop.induct)
  case (1 b pos s v)
  from "1.prems" show ?case
    by (subst (asm) varint_loop.simps) (auto simp: Let_def split: sum.splits if_splits dest!: "1.IH")
qed

lemma readVarint_forward: "readVarint b pos = Inr (x, p) \<Longrightarrow> pos < p"
  by (simp add: readVarint_def varint_forward)

lemma skip_vout_same_from: "same_from q b b' \<Longrightarrow> q \<le> pos \<Longrightarrow> skip_vout b' pos = skip_vout b pos"
proof -
  assume s: "same_from q b b'" "q \<le> pos"
  then have l: "length b' = length b" by (simp add: same_from_def)
  have r: "readVarint b' pos = readVarint b pos" using s by (rule readVarint_same_from)
  show ?thesis
  proof (cases "readVarint b pos")
    case (Inr xp)
    obtain x p where xp: "xp = (x, p)" by (cases xp)
    then have "q \<le> p" using readVarint_forward [of b pos x p] Inr s(2) by simp
    then have "byte_at b' p = byte_at b p" using s(1) by (simp add: same_from_def)
    then show ?thesis by (simp add: skip_vout_def r Inr xp l)
  qed (simp add: skip_vout_def r)
qed

lemma skip_vout_forward: "skip_vout b pos = Inr p \<Longrightarrow> pos < p"
  by (auto simp: skip_vout_def rbind_eq_Inr split: if_splits dest!: readVarint_forward)

lemma skip_vouts_same_from: "same_from q b b' \<Longrightarrow> q \<le> pos \<Longrightarrow> skip_vouts n b' pos = skip_vouts n b pos"
proof (induction n arbitrary: pos)
  case (Suc n)
  show ?case
  proof (cases "skip_vout b pos")
    case (Inr p)
    then show ?thesis using Suc skip_vout_forward [OF Inr] by (simp add: skip_vout_same_from [OF Suc.prems])
  qed (simp add: skip_vout_same_from [OF Suc.prems])
qed simp

lemma skip_vouts_forward: "skip_vouts n b pos = Inr p \<Longrightarrow> pos \<le> p"
proof (induction n arbitrary: pos)
  case (Suc n)
  then obtain p1 where "skip_vout b pos = Inr p1" "skip_vouts n b p1 = Inr p" by (auto simp: rbind_eq_Inr)
  then show ?case using Suc.IH [of p1] skip_vout_forward [of b pos p1] by simp
qed simp

lemma take_drop_same_from:
  assumes "same_from q b b'" "q \<le> int m"
  shows "take n (drop m b') = take n (drop m b)"
proof (rule nth_equalityI)
  show "length (take n (drop m b')) = length (take n (drop m b))" using assms(1) by (simp add: same_from_def)
next
  fix i
  assume i: "i < length (take n (drop m b'))"
  then have m: "m + i < length b'" "i < n" by auto
  define k where "k = m + i"
  have "q \<le> int k" using assms(2) by (simp add: k_def)
  then have "byte_at b' (int k) = byte_at b (int k)" using assms(1) by (simp add: same_from_def)
  moreover have "length b' = length b" using assms(1) by (simp add: same_from_def)
  ultimately have "b' ! (m + i) = b ! (m + i)" using m unfolding k_def [symmetric] by (simp add: byte_at_def)
  then show "take n (drop m b') ! i = take n (drop m b) ! i" using m assms(1) by (simp add: same_from_def)
qed

lemma read_hashes_same_from: "same_from q b b' \<Longrightarrow> q \<le> pos \<Longrightarrow> 0 \<le> pos \<Longrightarrow> read_hashes n b' pos = read_hashes n b pos"
proof (induction n arbitrary: pos)
  case (Suc n)
  then have l: "length b' = length b" by (simp add: same_from_def)
  have "take 32 (drop (nat pos) b') = take 32 (drop (nat pos) b)" using Suc.prems by (intro take_drop_same_from [of q]) auto
  then show ?case using Suc.IH [of "pos + 32"] Suc.prems by (simp add: l)
qed simp

text \<open>If the miner transaction ends behind \<open>q\<close>, all that was read lies behind \<open>q\<close>.\<close>

lemma miner_tx_end_same_from:
  assumes "same_from q b b'" "miner_tx_end b ver pos = Inr (v, e)" "2 \<le> v \<longrightarrow> q < e"
  shows "miner_tx_end b' ver pos = Inr (v, e)"
proof -
  have "v = ver" "2 \<le> ver \<longrightarrow> e = pos + 1" using assms(2) by (auto simp: miner_tx_end_def rbind_eq_Inr split: if_splits)
  then have "2 \<le> ver \<longrightarrow> byte_at b' pos = byte_at b pos" using assms(1,3) by (auto simp: same_from_def)
  moreover have "length b' = length b" using assms(1) by (simp add: same_from_def)
  ultimately show ?thesis using assms(2) by (simp add: miner_tx_end_def split: if_splits)
qed

lemma parse_miner_tx_same_from:
  assumes s: "same_from q b b'" and pos: "q \<le> pos" and ok: "parse_miner_tx b pos = Inr (ver, e)" and e: "2 \<le> ver \<longrightarrow> q < e"
  shows "parse_miner_tx b' pos = Inr (ver, e)"
proof -
  have l: "length b' = length b" using s by (simp add: same_from_def)
  note rd = readVarint_same_from [OF s]
  from ok obtain v p1 u p2 c p3 h p4 vc p5 p6 xl p7 where
    r: "readVarint b pos = Inr (v, p1)" "readVarint b p1 = Inr (u, p2)" "readVarint b p2 = Inr (c, p3)"
      "\<not> (c \<noteq> 1 \<or> int (length b) \<le> p3 \<or> byte_at b p3 \<noteq> Inr 255)" "readVarint b (p3 + 1) = Inr (h, p4)"
      "readVarint b p4 = Inr (vc, p5)" "skip_vouts (unat vc) b p5 = Inr p6" "readVarint b p6 = Inr (xl, p7)"
      "miner_tx_end b v (wrap64 (p7 + sint xl)) = Inr (ver, e)"
    unfolding parse_miner_tx_def by (auto simp: rbind_eq_Inr split: if_splits)
  have q: "q \<le> p1" "q \<le> p2" "q \<le> p3" "q \<le> p3 + 1" "q \<le> p4" "q \<le> p5" "q \<le> p6"
    using pos r(1,2,3,5,6) skip_vouts_forward [OF r(7)] by (auto dest!: readVarint_forward)
  have b3: "byte_at b' p3 = byte_at b p3" using s q(3) by (simp add: same_from_def)
  show ?thesis
    unfolding parse_miner_tx_def rd [OF pos] r(1) rbind_Inr prod.case rd [OF q(1)] r(2) rd [OF q(2)] r(3) b3 l
    using r(4)
    by (simp add: rd [OF q(4)] r(5) rd [OF q(5)] r(6) skip_vouts_same_from [OF s q(6)] r(7) rd [OF q(7)] r(8)
        miner_tx_end_same_from [OF s r(9) e])
qed

subsection \<open>Parsing up to a position\<close>

definition same_upto :: "int \<Rightarrow> bytes \<Rightarrow> bytes \<Rightarrow> bool" where
  "same_upto q b b' \<longleftrightarrow> length b' = length b \<and> (\<forall>i. i < q \<longrightarrow> byte_at b' i = byte_at b i)"

lemma varint_same_upto: "varint_loop b pos s v = Inr (x, p) \<Longrightarrow> same_upto p b b' \<Longrightarrow> varint_loop b' pos s v = Inr (x, p)"
proof (induction b pos s v rule: varint_loop.induct)
  case (1 b pos s v)
  have "length b' = length b" "byte_at b' pos = byte_at b pos"
    using "1.prems" varint_forward [OF "1.prems"(1)] by (auto simp: same_upto_def)
  then show ?case
    using 1 by (subst varint_loop.simps, subst (asm) (3) varint_loop.simps) (auto simp: Let_def split: sum.splits if_splits)
qed

lemma readVarint_same_upto: "readVarint b pos = Inr (x, p) \<Longrightarrow> same_upto q b b' \<Longrightarrow> p \<le> q \<Longrightarrow> readVarint b' pos = Inr (x, p)"
proof -
  assume r: "readVarint b pos = Inr (x, p)" and s: "same_upto q b b'" "p \<le> q"
  have "same_upto p b b'" using s by (simp add: same_upto_def)
  then show ?thesis using r varint_same_upto unfolding readVarint_def by blast
qed

lemma skip_varints_same_upto:
  "skip_varints n b pos = Inr p \<Longrightarrow> same_upto q b b' \<Longrightarrow> p \<le> q \<Longrightarrow> skip_varints n b' pos = Inr p"
proof (induction n arbitrary: pos)
  case (Suc n)
  then obtain x p1 where r: "readVarint b pos = Inr (x, p1)" "skip_varints n b p1 = Inr p" by (auto simp: rbind_eq_Inr)
  have "p1 \<le> p" using r(2)
  proof (induction n arbitrary: p1)
    case (Suc n)
    then obtain y p2 where "readVarint b p1 = Inr (y, p2)" "skip_varints n b p2 = Inr p" by (auto simp: rbind_eq_Inr)
    then show ?case using Suc.IH [of p2] readVarint_forward [of b p1 y p2] by simp
  qed simp
  then show ?case using Suc.IH [OF r(2) Suc.prems(2,3)] readVarint_same_upto [OF r(1) Suc.prems(2)] Suc.prems(3) by simp
qed simp


subsection \<open>The nonce\<close>

lemma withNonce_eq:
  assumes "0 \<le> off" "off + 4 \<le> int (length b)" "length nonce = 4"
  shows "withNonce b off nonce = Inr (take (nat off) b @ nonce @ drop (nat off + 4) b)"
proof -
  have "nat (off + 4) = nat off + 4" using assms(1) by simp
  moreover have "nat off + 4 \<le> length b" using assms by linarith
  ultimately show ?thesis using assms by (simp add: withNonce_def int_slice_def slice_def)
qed

lemma withNonce_same:
  assumes "off + 4 \<le> int (length b)" "length nonce = 4" "0 \<le> off"
  defines "b' \<equiv> take (nat off) b @ nonce @ drop (nat off + 4) b"
  shows "same_upto off b b'" "same_from (off + 4) b b'"
proof -
  have n: "nat off + 4 \<le> length b" using assms(1,3) by linarith
  then have l: "length b' = length b" using assms(2) by (simp add: b'_def)
  have up: "b' ! i = b ! i" if "i < nat off" for i using that n by (simp add: b'_def nth_append)
  have fr: "b' ! i = b ! i" if "nat off + 4 \<le> i" "i < length b" for i
  proof -
    have "\<not> i < nat off" "\<not> i - nat off < 4" using that by linarith+
    then show ?thesis using that n assms(2) by (simp add: b'_def nth_append min_def)
  qed
  show "same_upto off b b'" using l up by (auto simp: same_upto_def byte_at_def)
  show "same_from (off + 4) b b'" using l fr assms(3) by (auto simp: same_from_def byte_at_def)
qed

lemma parse_header_end:
  assumes "parse_header b = Inr he"
  shows "skip_varints 3 b 0 = Inr (he - 36) \<and> he \<le> int (length b) \<and> 36 \<le> he"
proof -
  from assms have sk: "skip_varints 3 b 0 = Inr (he - 36)" and le: "he \<le> int (length b)"
    by (auto simp: parse_header_def rbind_eq_Inr split: if_splits)
  have "0 \<le> he - 36" using sk
    by (auto simp: numeral_3_eq_3 rbind_eq_Inr dest!: readVarint_forward)
  then show ?thesis using sk le by simp
qed

lemma parseBlockBlob_withNonce:
  assumes ok: "parseBlockBlob b = Inr p" and span: "pb_headerEnd p \<le> pb_minerTxEnd p" "2 \<le> pb_minerTxVer p \<longrightarrow> pb_headerEnd p < pb_minerTxEnd p"
    and n: "length nonce = 4"
  defines "b' \<equiv> take (nat (pb_nonceOffset p)) b @ nonce @ drop (nat (pb_nonceOffset p) + 4) b"
  shows "parseBlockBlob b' = Inr (p\<lparr>pb_blob := b'\<rparr>)"
proof -
  obtain tc pos where
    hd: "parse_header b = Inr (pb_headerEnd p)" and tx: "parse_miner_tx b (pb_headerEnd p) = Inr (pb_minerTxVer p, pb_minerTxEnd p)"
    and cnt: "readVarint b (pb_minerTxEnd p) = Inr (tc, pos)" "\<not> 2 ^ 48 < unat tc * 24"
    and hs: "read_hashes (unat tc) b pos = Inr (pb_txHashes p, int (length b))"
    and rest: "pb_blob p = b" "pb_nonceOffset p = pb_headerEnd p - 4" "pb_txCount p = sint tc"
    using ok unfolding parseBlockBlob_def by (auto simp: rbind_eq_Inr split: if_splits)
  note he = parse_header_end [OF hd]
  have s: "same_upto (pb_nonceOffset p) b b'" "same_from (pb_headerEnd p) b b'"
    unfolding b'_def using withNonce_same [of "pb_nonceOffset p" b nonce, OF _ n] he rest(2) by auto
  have l: "length b' = length b" using s(2) by (simp add: same_from_def)
  have "skip_varints 3 b' 0 = Inr (pb_headerEnd p - 36)" 
    by (rule skip_varints_same_upto [OF conjunct1 [OF he] s(1)]) (simp add: rest(2))
  then have "parse_header b' = Inr (pb_headerEnd p)" using he by (simp add: parse_header_def l)
  moreover have "parse_miner_tx b' (pb_headerEnd p) = Inr (pb_minerTxVer p, pb_minerTxEnd p)"
    using parse_miner_tx_same_from [OF s(2) order_refl tx span(2)] .
  moreover have "readVarint b' (pb_minerTxEnd p) = Inr (tc, pos)" using readVarint_same_from [OF s(2)] span cnt(1) by simp
  moreover have "read_hashes (unat tc) b' pos = Inr (pb_txHashes p, int (length b))"
    using read_hashes_same_from [OF s(2), of pos "unat tc"] hs readVarint_forward [OF cnt(1)] span he by simp
  ultimately show ?thesis using cnt(2) rest by (simp add: parseBlockBlob_def l)
qed

text \<open>A block that has a hashing blob has a miner transaction, and from version 2 on not an empty one.\<close>

lemma hashingBlob_span:
  assumes "hashingBlob kc p = Inr h"
  shows "pb_headerEnd p \<le> pb_minerTxEnd p \<and> (2 \<le> pb_minerTxVer p \<longrightarrow> pb_headerEnd p < pb_minerTxEnd p)"
  using assms
  by (auto simp: hashingBlob_def minerTxHash_def rbind_eq_Inr int_slice_def slice_def split: if_splits)

text \<open>
  Writing a nonce commutes with making the hashing blob: for every 4-byte nonce the blob with the
  nonce written into it parses again, and its hashing blob is the miners' hashing blob with the
  same nonce written into it.
\<close>

lemma withNonce_hashing:
  assumes "parseBlockBlob b = Inr p" "hashingBlob kc p = Inr h" "length nonce = 4"
  shows "\<exists>b' p'. withNonce b (pb_nonceOffset p) nonce = Inr b' \<and> parseBlockBlob b' = Inr p' \<and>
    hashingBlob kc p' = withNonce h (pb_nonceOffset p) nonce"
proof -
  note span = hashingBlob_span [OF assms(2)]
  define off where "off = nat (pb_nonceOffset p)"
  define b' where "b' = take off b @ nonce @ drop (off + 4) b"
  have p: "parse_header b = Inr (pb_headerEnd p)" "pb_blob p = b" "pb_nonceOffset p = pb_headerEnd p - 4"
    using assms(1) unfolding parseBlockBlob_def by (auto simp: rbind_eq_Inr split: if_splits)
  note he = parse_header_end [OF p(1)]
  have o: "pb_nonceOffset p = int off" "pb_headerEnd p = int (off + 4)" "off + 4 \<le> length b" using he p(3) by (auto simp: off_def)
  have s: "same_from (int (off + 4)) b b'" using withNonce_same(2) [of "int off" b nonce] o(3) assms(3) by (simp add: b'_def)
  have l: "length b' = length b" using s by (simp add: same_from_def)
  have "withNonce b (pb_nonceOffset p) nonce = Inr b'" unfolding o b'_def using o(3) assms(3) by (subst withNonce_eq) auto
  moreover have "parseBlockBlob b' = Inr (p\<lparr>pb_blob := b'\<rparr>)"
    using parseBlockBlob_withNonce [OF assms(1) conjunct1 [OF span] conjunct2 [OF span] assms(3)] by (simp add: b'_def off_def)
  moreover have "hashingBlob kc (p\<lparr>pb_blob := b'\<rparr>) = withNonce h (pb_nonceOffset p) nonce"
  proof -
    have sl: "int_slice x 0 (pb_headerEnd p) = Inr (take (off + 4) x)" if "length x = length b" for x
      using o(2,3) that by (simp add: int_slice_def slice_def nat_int_add del: of_nat_add)
    from assms(2) obtain mth where m: "minerTxHash kc p = Inr mth"
      and h: "h = appendVarint (take (off + 4) b @ treeHash kc (mth # pb_txHashes p)) (word_of_int (pb_txCount p + 1))"
      using sl [of b] by (auto simp: hashingBlob_def rbind_eq_Inr p(2))
    have "int_slice b' (pb_headerEnd p) (pb_minerTxEnd p) = int_slice b (pb_headerEnd p) (pb_minerTxEnd p)"
      using take_drop_same_from [OF s, of "off + 4"] assms(2) l unfolding o(2) int_slice_def slice_def nat_int by auto
    then have "minerTxHash kc (p\<lparr>pb_blob := b'\<rparr>) = Inr mth" using m by (simp add: minerTxHash_def p(2))
    moreover have "take (off + 4) b' = take off b @ nonce" using o(3) assms(3) by (simp add: b'_def)
    ultimately have "hashingBlob kc (p\<lparr>pb_blob := b'\<rparr>) =
        Inr (appendVarint ((take off b @ nonce) @ treeHash kc (mth # pb_txHashes p)) (word_of_int (pb_txCount p + 1)))"
      using sl [OF l] by (simp add: hashingBlob_def)
    also have "\<dots> = withNonce h (int off) nonce"
      using o(3) assms(3) unfolding h appendVarint_def append_varint_dst [of "_ @ _"] by (subst withNonce_eq) (auto simp: min_def)
    finally show ?thesis by (simp add: o(1))
  qed
  ultimately show ?thesis by blast
qed

definition ex_blob :: bytes where
  "ex_blob = [1, 1, 0, 1] @ replicate 35 0 @ [1, 0, 1, 255, 5, 0, 0] @ [0]"

definition ex_parsed :: parsed_block where
  "ex_parsed = \<lparr>pb_blob = ex_blob, pb_nonceOffset = 35, pb_headerEnd = 39, pb_minerTxEnd = 46, pb_minerTxVer = 1, pb_txCount = 0, pb_txHashes = []\<rparr>"

lemma readVarint_one:
  assumes "byte_at b pos = Inr c" "c AND 0x80 = 0"
  shows "readVarint b pos = Inr (ucast (c AND 0x7f), pos + 1)"
  using assms unfolding readVarint_def
  by (subst varint_loop.simps) (auto simp: byte_at_def Let_def split: if_splits)

lemma ex_bytes:
  "byte_at ex_blob 0 = Inr 1" "byte_at ex_blob 1 = Inr 1" "byte_at ex_blob 2 = Inr 0" "byte_at ex_blob 39 = Inr 1"
  "byte_at ex_blob 40 = Inr 0" "byte_at ex_blob 41 = Inr 1" "byte_at ex_blob 42 = Inr 255" "byte_at ex_blob 43 = Inr 5"
  "byte_at ex_blob 44 = Inr 0" "byte_at ex_blob 45 = Inr 0" "byte_at ex_blob 46 = Inr 0"
  by (simp_all add: byte_at_def ex_blob_def nth_append)

lemma ex_parse: "parseBlockBlob ex_blob = Inr ex_parsed"
proof -
  have l: "length ex_blob = 47" by (simp add: ex_blob_def)
  have "parse_header ex_blob = Inr 39"
    by (simp add: parse_header_def numeral_3_eq_3 readVarint_one [OF ex_bytes(1)] readVarint_one [OF ex_bytes(2)]
        readVarint_one [OF ex_bytes(3)] l)
  moreover have "\<not> (2 :: u64) \<le> 1" by (simp add: word_le_nat_alt)
  then have "parse_miner_tx ex_blob 39 = Inr (1, 46)"
    by (simp add: parse_miner_tx_def readVarint_one [OF ex_bytes(4)] readVarint_one [OF ex_bytes(5)] readVarint_one [OF ex_bytes(6)]
        readVarint_one [OF ex_bytes(8)] readVarint_one [OF ex_bytes(9)] readVarint_one [OF ex_bytes(10)] ex_bytes(7) l
        miner_tx_end_def wrap64_def)
  ultimately show ?thesis by (simp add: parseBlockBlob_def readVarint_one [OF ex_bytes(11)] l ex_parsed_def)
qed

end
