(* ===== verification/Cryptonote.thy ===== *)
theory Cryptonote
  imports EngineCore CryptonoteNonce Daemons
begin

text \<open>
  \<open>engine/cryptonote/engine.go\<close> and \<open>rpc.go\<close>: the CryptoNote engine (Monero). The node sends a whole
  block blob with eight reserved bytes; the engine writes its job counter there, hands out the
  hashing blob, and checks the miners' nonces with RandomX. RandomX, Keccak-256, the HTTP exchange
  and the decoding of JSON are parameters.
\<close>

record xmr_template =
  xt_BlocktemplateBlob :: string
  xt_BlockhashingBlob :: string
  xt_Difficulty :: u64
  xt_Height :: int
  xt_PrevHash :: string
  xt_ReservedOffset :: int
  xt_SeedHash :: string
  xt_NextSeedHash :: string
  xt_Status :: string

text \<open>
  \<open>cn_http\<close> posts a JSON value and gives the body of the answer, or \<open>None\<close> for an error; \<open>cn_envelope\<close>
  decodes a body to its result and its error (code and message); \<open>cn_unmarshal\<close> and \<open>cn_status\<close> decode
  a result. \<open>cn_hash\<close> is \<open>pow.Hash(seed, input)\<close>, and \<open>cn_rx\<close> tells whether RandomX is linked and starts.
\<close>

record 'w cryptonote_env =
  cn_http :: "string \<Rightarrow> iface \<Rightarrow> 'w \<Rightarrow> string option \<times> 'w"
  cn_envelope :: "string \<Rightarrow> (iface option \<times> (int \<times> string) option) option"
  cn_unmarshal :: "iface option \<Rightarrow> xmr_template option"
  cn_status :: "iface option \<Rightarrow> string option"
  cn_hash :: "bytes \<Rightarrow> bytes \<Rightarrow> bytes option"
  cn_rx :: bool
  cn_keccak :: "bytes \<Rightarrow> bytes"
  cn_url :: string
  cn_poolAddress :: string

text \<open>The RPC client's request counter and the node.\<close>

record 'w xmr_rpc =
  xr_id :: int
  xr_world :: 'w

record cryptonote_job =
  xj_id :: string
  xj_blob :: bytes
  xj_hashing :: bytes
  xj_nonceOff :: int
  xj_seed :: bytes
  xj_height :: int
  xj_diff :: u64
  xj_prevHash :: string

text \<open>This engine assigns no extranonces, so the field \<open>es_enCounter\<close> of the common state stays 0.\<close>

type_synonym 'w cryptonote = "(cryptonote_job, 'w xmr_rpc) engine_state"

subsection \<open>The node's RPC\<close>

definition newXmrRPC :: "string \<Rightarrow> string" where
  "newXmrRPC baseURL = rev (dropWhile (\<lambda>c. c = CHR ''/'') (rev baseURL)) @ ''/json_rpc''"

definition xmr_call :: "'w cryptonote_env \<Rightarrow> string \<Rightarrow> iface \<Rightarrow> 'w xmr_rpc \<Rightarrow> iface option res \<times> 'w xmr_rpc" where
  "xmr_call env method params r =
     (let r = r\<lparr>xr_id := wrap64 (xr_id r + 1)\<rparr> in
      case cn_http env (newXmrRPC (cn_url env))
             (IMap [(''jsonrpc'', IStr ''2.0''), (''id'', IInt (xr_id r)), (''method'', IStr method), (''params'', params)]) (xr_world r) of
        (None, w) \<Rightarrow> (Inl (Err ''request failed''), r\<lparr>xr_world := w\<rparr>)
      | (Some raw, w) \<Rightarrow>
          ((case cn_envelope env raw of
              None \<Rightarrow> Inl (Err (''decode '' @ method))
            | Some (_, Some (code, message)) \<Rightarrow> Inl (Err (method @ '': rpc error '' @ fmt_int code @ '': '' @ message))
            | Some (result, None) \<Rightarrow> Inr result), r\<lparr>xr_world := w\<rparr>))"

definition xmr_GetBlockTemplate :: "'w cryptonote_env \<Rightarrow> string \<Rightarrow> int \<Rightarrow> 'w xmr_rpc \<Rightarrow> xmr_template res \<times> 'w xmr_rpc" where
  "xmr_GetBlockTemplate env walletAddress reserveSize r =
     (case xmr_call env ''get_block_template'' (IMap [(''wallet_address'', IStr walletAddress), (''reserve_size'', IInt reserveSize)]) r of
        (res, r) \<Rightarrow>
          (rbind res (\<lambda>result.
             case cn_unmarshal env result of
               None \<Rightarrow> Inl (Err ''unmarshal'')
             | Some t \<Rightarrow> if xt_Status t \<noteq> ''OK'' then Inl (Err ''get_block_template status'') else Inr t), r))"

definition xmr_SubmitBlock :: "'w cryptonote_env \<Rightarrow> string \<Rightarrow> 'w xmr_rpc \<Rightarrow> unit res \<times> 'w xmr_rpc" where
  "xmr_SubmitBlock env blockHex r =
     (case xmr_call env ''submit_block'' (IList [IStr blockHex]) r of
        (res, r) \<Rightarrow>
          (rbind res (\<lambda>result.
             case cn_status env result of
               None \<Rightarrow> Inl (Err ''unmarshal'')
             | Some status \<Rightarrow> if status \<noteq> ''OK'' then Inl (Err ''submit_block status'') else Inr ()), r))"

subsection \<open>Jobs\<close>

text \<open>\<open>binary.LittleEndian.PutUint64(blob[off:], c)\<close>.\<close>

definition poke64 :: "bytes \<Rightarrow> int \<Rightarrow> u64 \<Rightarrow> bytes res" where
  "poke64 blob off c =
     (if 0 \<le> off \<and> off + 8 \<le> int (length blob)
      then Inr (take (nat off) blob @ le_bytes 8 (unat c) @ drop (nat off + 8) blob)
      else Inl (Panic ''slice bounds out of range''))"

text \<open>The addition \<open>t.ReservedOffset+8\<close> is on 64-bit integers and wraps.\<close>

definition cryptonote_job_of :: "'w cryptonote_env \<Rightarrow> u64 \<Rightarrow> xmr_template \<Rightarrow> cryptonote_job res" where
  "cryptonote_job_of env c t =
     (case hex_decode (xt_BlocktemplateBlob t) of (blob, ok1) \<Rightarrow>
      case hex_decode (xt_SeedHash t) of (seed, ok2) \<Rightarrow>
        if \<not> ok1 then Inl (Err ''encoding/hex: invalid blob'')
        else if \<not> ok2 \<or> length seed \<noteq> 32 then Inl (Err ''cryptonote: bad seed_hash in template'')
        else if xt_ReservedOffset t \<le> 0 \<or> int (length blob) < wrap64 (xt_ReservedOffset t + 8)
        then Inl (Err ''cryptonote: reserved_offset out of range'')
        else
          rbind (poke64 blob (xt_ReservedOffset t) c) (\<lambda>blob.
          rbind (parseBlockBlob blob) (\<lambda>p.
          rbind (hashingBlob (cn_keccak env) p) (\<lambda>hashing.
            Inr \<lparr>xj_id = job_id c, xj_blob = blob, xj_hashing = hashing, xj_nonceOff = pb_nonceOffset p, xj_seed = seed,
                 xj_height = xt_Height t, xj_diff = xt_Difficulty t, xj_prevHash = xt_PrevHash t\<rparr>))))"

definition cryptonote_acceptTemplate ::
  "'w cryptonote_env \<Rightarrow> string list \<times> xmr_template \<Rightarrow> 'w cryptonote \<Rightarrow> unit res \<times> 'w cryptonote" where
  "cryptonote_acceptTemplate env = (\<lambda>(ord, t) st.
     let st = bump st in
     case cryptonote_job_of env (es_jobCounter st) t of
       Inl e \<Rightarrow> (Inl e, st)
     | Inr j \<Rightarrow> (Inr (), store_job 8 ord (xj_id j) j st))"

definition cryptonote_fetch :: "'w cryptonote_env \<Rightarrow> 'w cryptonote \<Rightarrow> xmr_template res \<times> 'w cryptonote" where
  "cryptonote_fetch env st =
     (case xmr_GetBlockTemplate env (cn_poolAddress env) 8 (es_world st) of (r, w) \<Rightarrow> (r, st\<lparr>es_world := w\<rparr>))"

definition cryptonote_Init :: "'w cryptonote_env \<Rightarrow> bool \<Rightarrow> string list \<Rightarrow> 'w cryptonote \<Rightarrow> unit res \<times> 'w cryptonote" where
  "cryptonote_Init env noDaemons ord st =
     (if \<not> cn_rx env then (Inl (Err ''cryptonote engine requires RandomX''), st)
      else if noDaemons then (Inl (Err ''cryptonote: no daemon configured''), st)
      else
        (case cryptonote_fetch env st of
           (Inl e, st) \<Rightarrow> (Inl e, st)
         | (Inr t, st) \<Rightarrow> cryptonote_acceptTemplate env (ord, t) st))"

definition cryptonote_refresh :: "'w cryptonote_env \<Rightarrow> string list \<Rightarrow> 'w cryptonote \<Rightarrow> bool res \<times> 'w cryptonote" where
  "cryptonote_refresh env ord st =
     (case cryptonote_fetch env st of
        (Inl e, st) \<Rightarrow> (Inl e, st)
      | (Inr t, st) \<Rightarrow>
          if (case es_cur st of Some cur \<Rightarrow> xj_prevHash cur = xt_PrevHash t | None \<Rightarrow> False) then (Inr False, st)
          else (case cryptonote_acceptTemplate env (ord, t) st of (r, st) \<Rightarrow> (rbind r (\<lambda>_. Inr True), st)))"

subsection \<open>Notifications\<close>

text \<open>\<open>targetHex\<close>: the share target as eight little-endian bytes.\<close>

definition xmr_targetHex :: "f64 \<Rightarrow> string res" where
  "xmr_targetHex diff =
     (let diff = (if f64_less diff (Fin 1) then Fin 1 else diff) in
      rbind (bf_new diff) (\<lambda>d.
      rbind (bf_quo (bf_set_int (2 ^ 64)) d) (\<lambda>q.
        case bf_int q of
          None \<Rightarrow> Inl (Panic ''nil pointer dereference'')
        | Some t \<Rightarrow>
            (let t = (if 64 < bitlen \<bar>t\<bar> then 2 ^ 64 - 1 else t)
             in Inr (hex_encode (le_bytes 8 (unat (word_of_int t :: u64))))))))"

definition jobObject :: "f64 \<Rightarrow> 'w cryptonote \<Rightarrow> (string \<times> iface) list option res" where
  "jobObject diff st =
     (case es_cur st of
        None \<Rightarrow> Inr None
      | Some j \<Rightarrow>
          rbind (xmr_targetHex diff) (\<lambda>target.
            Inr (Some [(''job_id'', IStr (xj_id j)), (''blob'', IStr (hex_encode (xj_hashing j))), (''target'', IStr target),
                       (''algo'', IStr ''rx/0''), (''height'', IInt (xj_height j)), (''seed_hash'', IStr (hex_encode (xj_seed j)))])))"

text \<open>The reply to a login holds the first job (a nil map before there is one).\<close>

definition cryptonote_OnSubscribe ::
  "session_view \<Rightarrow> iface list \<Rightarrow> 'w cryptonote \<Rightarrow> ((iface \<times> bytes option \<times> int) res) \<times> 'w cryptonote" where
  "cryptonote_OnSubscribe v params st =
     (rbind (jobObject (sv_Difficulty v) st) (\<lambda>obj.
        Inr (IMap [(''id'', IStr ''1''), (''job'', case obj of None \<Rightarrow> INil | Some o' \<Rightarrow> IMap o'), (''status'', IStr ''OK'')], None, 0)), st)"

text \<open>A difficulty is never NaN, so the target computation does not panic.\<close>

definition cryptonote_JobParams :: "f64 \<Rightarrow> 'w cryptonote \<Rightarrow> iface list option" where
  "cryptonote_JobParams diff st =
     (case jobObject diff st of Inr (Some obj) \<Rightarrow> Some [IMap obj] | _ \<Rightarrow> None)"

definition cryptonote_JobNotification :: "bool \<Rightarrow> 'w cryptonote \<Rightarrow> string \<times> iface list option" where
  "cryptonote_JobNotification clean st = (''job'', cryptonote_JobParams (Fin 1) st)"

subsection \<open>Submissions\<close>

text \<open>\<open>x, _ := obj[key].(string)\<close>: the empty text when the field is missing or not a text.\<close>

definition str_field :: "(string \<times> iface) list \<Rightarrow> string \<Rightarrow> string" where
  "str_field obj k = (case map_of obj k of Some (IStr s) \<Rightarrow> s | _ \<Rightarrow> '''')"

definition cryptonote_block ::
  "'w cryptonote_env \<Rightarrow> cryptonote_job \<Rightarrow> bytes \<Rightarrow> string \<Rightarrow> share \<Rightarrow> 'w cryptonote \<Rightarrow> share res \<times> 'w cryptonote" where
  "cryptonote_block env j nonce resultHex share st =
     (case withNonce (xj_blob j) (xj_nonceOff j) nonce of
        Inl e \<Rightarrow> (Inl e, st)
      | Inr blockBlob \<Rightarrow>
          (let blockHex = hex_encode blockBlob in
           case xmr_SubmitBlock env blockHex (es_world st) of
             (Inl _, w) \<Rightarrow> (Inr share, st\<lparr>es_world := w\<rparr>)
           | (Inr _, w) \<Rightarrow> (Inr (share\<lparr>sh_BlockHex := blockHex, sh_BlockHash := resultHex\<rparr>), st\<lparr>es_world := w\<rparr>)))"

definition cryptonote_judge ::
  "'w cryptonote_env \<Rightarrow> session_view \<Rightarrow> cryptonote_job \<Rightarrow> bytes \<Rightarrow> string \<Rightarrow> share \<Rightarrow> 'w cryptonote \<Rightarrow> share res \<times> 'w cryptonote" where
  "cryptonote_judge env v j nonce resultHex share st =
     (case withNonce (xj_hashing j) (xj_nonceOff j) nonce of
        Inl e \<Rightarrow> (Inl e, st)
      | Inr input \<Rightarrow>
          (case cn_hash env (xj_seed j) input of
             None \<Rightarrow> reject ErrJobNotFound share st
           | Some hash \<Rightarrow>
               if hex_encode hash \<noteq> resultHex then reject ErrIncorrectNonceSize share st
               else
                 (let share = share\<lparr>sh_Diff := DiffFromValue Pow256 (int (be_nat (ReverseBytes hash)))\<rparr> in
                  if f64_less (sh_Diff share) (sv_Difficulty v) then reject ErrLowDiffShare share st
                  else if 0 < xj_diff j \<and> f64_le (f64_of_u64 (xj_diff j)) (sh_Diff share)
                  then cryptonote_block env j nonce resultHex share st
                  else (Inr share, st))))"

definition cryptonote_OnSubmit ::
  "'w cryptonote_env \<Rightarrow> session_view \<Rightarrow> iface list \<Rightarrow> 'w cryptonote \<Rightarrow> share res \<times> 'w cryptonote" where
  "cryptonote_OnSubmit env v params st =
     (let share = fresh_share v in
      case params of
        [IMap obj] \<Rightarrow>
          (let jobID = str_field obj ''job_id'';
               nonceHex = norm_hex (str_field obj ''nonce'');
               resultHex = to_lower (str_field obj ''result'') in
           case map_of (es_history st) jobID of
             None \<Rightarrow> reject ErrJobNotFound share st
           | Some (j, seen) \<Rightarrow>
               (let share = share\<lparr>sh_JobId := xj_id j, sh_BlockHeight := xj_height j\<rparr> in
                case hex_decode nonceHex of (nonce, ok) \<Rightarrow>
                  if \<not> ok \<or> length nonce \<noteq> 4 \<or> length resultHex \<noteq> 64 then reject ErrIncorrectNonceSize share st
                  else if nonceHex \<in> set seen then reject ErrDuplicateShare share st
                  else cryptonote_judge env v j nonce resultHex share (note_nonce jobID nonceHex st)))
      | _ \<Rightarrow> reject ErrIncorrectNonceSize share st)"

definition cryptonote_engine :: "'w cryptonote_env \<Rightarrow> 'w cryptonote engine" where
  "cryptonote_engine env =
     \<lparr>en_OnSubscribe = cryptonote_OnSubscribe, en_JobNotification = cryptonote_JobNotification,
      en_OnSubmit = cryptonote_OnSubmit env, en_JobParamsForDifficulty = Some cryptonote_JobParams,
      en_NotifyMethod = Some ''job'', en_TargetParams = None, en_ObjectParams = Some True\<rparr>"

subsection \<open>The ledger of nonces\<close>

fun object_nonce :: "iface list \<Rightarrow> string \<times> string" where
  "object_nonce [IMap obj] = (str_field obj ''job_id'', norm_hex (str_field obj ''nonce''))"
| "object_nonce _ = ('''', '''')"

lemma cryptonote_block_keeps:
  "cryptonote_block env j nonce res share st = (r, st') \<Longrightarrow>
   es_history st' = es_history st \<and> es_jobCounter st' = es_jobCounter st"
  by (auto simp: cryptonote_block_def Let_def split: prod.splits sum.splits)

lemma cryptonote_judge_keeps:
  "cryptonote_judge env v j nonce res share st = (r, st') \<Longrightarrow>
   es_history st' = es_history st \<and> es_jobCounter st' = es_jobCounter st"
  by (auto simp: cryptonote_judge_def Let_def reject_def split: option.splits sum.splits if_splits
      dest: cryptonote_block_keeps)

lemma cryptonote_OnSubmit_cases:
  assumes "cryptonote_OnSubmit env v ps st = (r, st')"
  shows "(\<exists>sh. r = Inr sh \<and> \<not> counts sh \<and> sh_BlockHex sh = '''' \<and> st' = st) \<or>
    (\<exists>i n j seen nonce res share. object_nonce ps = (i, n) \<and> map_of (es_history st) i = Some (j, seen) \<and> n \<notin> set seen \<and>
       hex_decode n = (nonce, True) \<and> length nonce = 4 \<and> sh_ErrorCode share = 0 \<and> sh_BlockHex share = '''' \<and>
       cryptonote_judge env v j nonce res share (note_nonce i n st) = (r, st'))"
proof (cases "\<exists>obj. ps = [IMap obj]")
  case True
  then obtain obj where ps: "ps = [IMap obj]" by blast
  show ?thesis
    using assms unfolding ps
    by (simp add: cryptonote_OnSubmit_def Let_def reject_def split: option.splits prod.splits if_splits)
      (auto simp: counts_def err_codes fresh_share_def empty_share_def set_err_def)
next
  case False
  then have "cryptonote_OnSubmit env v ps st = reject ErrIncorrectNonceSize (fresh_share v) st"
    by (auto simp: cryptonote_OnSubmit_def Let_def split: list.splits iface.splits)
  then show ?thesis using assms by (auto simp: reject_def counts_def err_codes fresh_share_def empty_share_def set_err_def)
qed

lemma cryptonote_job_of_id: "cryptonote_job_of env c t = Inr j \<Longrightarrow> xj_id j = job_id c"
  by (auto simp: cryptonote_job_of_def rbind_eq_Inr split: prod.splits if_splits)

lemma cryptonote_accept_cases:
  assumes "cryptonote_acceptTemplate env t st = (u, st')"
  shows "st' = st \<or> st' = bump st \<or> (\<exists>ord j. st' = store_job 8 ord (job_id (es_jobCounter st + 1)) j (bump st))"
  using assms by (auto simp: cryptonote_acceptTemplate_def bump_def Let_def split: prod.splits sum.splits dest!: cryptonote_job_of_id) blast

interpretation cryptonote: nonce_ledger "cryptonote_OnSubmit env" "cryptonote_acceptTemplate env" object_nonce es_history es_jobCounter 1
proof
  fix v ps st r st'
  assume "cryptonote_OnSubmit env v ps st = (r, st')"
  then show "es_jobCounter st' = es_jobCounter st"
    and "es_history st' = es_history st \<or> es_history st' = mark_seen (fst (object_nonce ps)) (snd (object_nonce ps)) (es_history st)"
    by (auto dest!: cryptonote_OnSubmit_cases cryptonote_judge_keeps simp: note_nonce_def)
next
  fix v ps st sh st'
  assume "cryptonote_OnSubmit env v ps st = (Inr sh, st')" "counts sh"
  then show "es_history st' = mark_seen (fst (object_nonce ps)) (snd (object_nonce ps)) (es_history st) \<and>
      (\<exists>j seen. map_of (es_history st) (fst (object_nonce ps)) = Some (j, seen) \<and> snd (object_nonce ps) \<notin> set seen)"
    by (auto dest!: cryptonote_OnSubmit_cases cryptonote_judge_keeps simp: note_nonce_def)
next
  fix t st u st'
  assume a: "cryptonote_acceptTemplate env t st = (u, st')" "unat (es_jobCounter st) + 1 < 2 ^ 64"
  show "unat (es_jobCounter st) \<le> unat (es_jobCounter st') \<and> unat (es_jobCounter st') \<le> unat (es_jobCounter st) + 1"
    by (rule one_job_laws [OF a(2) cryptonote_accept_cases [OF a(1)]])
  fix i j seen
  assume "map_of (es_history st') i = Some (j, seen)"
  then show "map_of (es_history st) i = Some (j, seen) \<or> (seen = [] \<and> new_id (es_jobCounter st) (es_jobCounter st') i)"
    by (rule one_job_laws [OF a(2) cryptonote_accept_cases [OF a(1)]])
qed

subsection \<open>The block that is submitted is the block that was mined\<close>

text \<open>What every job satisfies: its hashing blob and nonce position are those of its block blob.\<close>

definition job_of_blob :: "'w cryptonote_env \<Rightarrow> cryptonote_job \<Rightarrow> bool" where
  "job_of_blob env j \<longleftrightarrow>
     (\<exists>p. parseBlockBlob (xj_blob j) = Inr p \<and> hashingBlob (cn_keccak env) p = Inr (xj_hashing j) \<and> xj_nonceOff j = pb_nonceOffset p)"

lemma cryptonote_job_of_blob: "cryptonote_job_of env c t = Inr j \<Longrightarrow> job_of_blob env j"
  by (auto simp: cryptonote_job_of_def job_of_blob_def rbind_eq_Inr split: prod.splits if_splits)

lemma cryptonote_jobs_ok:
  fixes env :: "'w cryptonote_env"
  shows "all_jobs (job_of_blob env) (es_history (after_events (cryptonote_OnSubmit env) (cryptonote_acceptTemplate env) es (new_engine w)))"
proof (rule after_events_inv)
  show "all_jobs (job_of_blob env) (es_history (new_engine w))" by (simp add: new_engine_def)
next
  fix v ps and st :: "'w cryptonote"
  assume "all_jobs (job_of_blob env) (es_history st)"
  then show "all_jobs (job_of_blob env) (es_history (snd (cryptonote_OnSubmit env v ps st)))"
    using cryptonote.submit_hist [of env v ps st] by (cases "cryptonote_OnSubmit env v ps st") (auto intro: all_jobs_mark_seen)
next
  fix t and st :: "'w cryptonote"
  assume "all_jobs (job_of_blob env) (es_history st)"
  then have "all_jobs (job_of_blob env) (es_history (bump st))" by (simp add: bump_def)
  then show "all_jobs (job_of_blob env) (es_history (snd (cryptonote_acceptTemplate env t st)))"
    by (cases t) (auto simp: cryptonote_acceptTemplate_def Let_def split: sum.splits intro!: all_jobs_store dest: cryptonote_job_of_blob)
qed

text \<open>A nonce that was judged a block: what the engine computed on the way.\<close>

lemma cryptonote_judge_block:
  assumes "cryptonote_judge env v j nonce res share st = (Inr sh, st')" "sh_BlockHex share = ''''" "sh_BlockHex sh \<noteq> ''''"
  shows "\<exists>input hash blk. withNonce (xj_hashing j) (xj_nonceOff j) nonce = Inr input \<and> cn_hash env (xj_seed j) input = Some hash \<and>
    withNonce (xj_blob j) (xj_nonceOff j) nonce = Inr blk \<and> sh_BlockHex sh = hex_encode blk \<and> sh_BlockHash sh = hex_encode hash \<and>
    0 < xj_diff j \<and> sh_Diff sh = DiffFromValue Pow256 (int (be_nat (ReverseBytes hash))) \<and>
    f64_le (f64_of_u64 (xj_diff j)) (sh_Diff sh)"
  using assms
  by (auto simp: cryptonote_judge_def cryptonote_block_def Let_def reject_def set_err_def split: sum.splits option.splits if_splits prod.splits)

text \<open>
  C9. A CryptoNote block that the pool submits is a block the miner's proof of work is for. After
  any sequence of templates and submissions, let a submission be answered with a block. The
  block is well-formed, the RandomX hash of its own hashing blob is the block hash that is
  recorded, and the difficulty of that hash reaches the network difficulty of the job.
\<close>

theorem cryptonote_block_is_proved:
  assumes "st = after_events (cryptonote_OnSubmit env) (cryptonote_acceptTemplate env) es (new_engine w)"
    and "cryptonote_OnSubmit env v ps st = (Inr sh, st')" "sh_BlockHex sh \<noteq> ''''"
  shows "\<exists>j seen blk p h hash. map_of (es_history st) (fst (object_nonce ps)) = Some (j, seen) \<and>
    hex_decode (sh_BlockHex sh) = (blk, True) \<and> parseBlockBlob blk = Inr p \<and> hashingBlob (cn_keccak env) p = Inr h \<and>
    cn_hash env (xj_seed j) h = Some hash \<and> sh_BlockHash sh = hex_encode hash \<and>
    0 < xj_diff j \<and> f64_le (f64_of_u64 (xj_diff j)) (DiffFromValue Pow256 (int (be_nat (ReverseBytes hash))))"
proof -
  obtain i n j seen nonce res share where
    c: "object_nonce ps = (i, n)" "map_of (es_history st) i = Some (j, seen)" "length nonce = 4"
      "sh_BlockHex share = ''''" "cryptonote_judge env v j nonce res share (note_nonce i n st) = (Inr sh, st')"
    using cryptonote_OnSubmit_cases [OF assms(2)] assms(3) by auto
  obtain input hash blk where
    b: "withNonce (xj_hashing j) (xj_nonceOff j) nonce = Inr input" "cn_hash env (xj_seed j) input = Some hash"
      "withNonce (xj_blob j) (xj_nonceOff j) nonce = Inr blk" "sh_BlockHex sh = hex_encode blk" "sh_BlockHash sh = hex_encode hash"
      "0 < xj_diff j" "sh_Diff sh = DiffFromValue Pow256 (int (be_nat (ReverseBytes hash)))" "f64_le (f64_of_u64 (xj_diff j)) (sh_Diff sh)"
    using cryptonote_judge_block [OF c(5,4) assms(3)] by blast
  have "job_of_blob env j" using all_jobsD [OF cryptonote_jobs_ok c(2) [unfolded assms(1)]] .
  then obtain p where p: "parseBlockBlob (xj_blob j) = Inr p" "hashingBlob (cn_keccak env) p = Inr (xj_hashing j)" "xj_nonceOff j = pb_nonceOffset p"
    by (auto simp: job_of_blob_def)
  obtain p' where "parseBlockBlob blk = Inr p'" "hashingBlob (cn_keccak env) p' = Inr input"
    using withNonce_hashing [OF p(1,2) c(3)] b(1,3) p(3) by auto
  then show ?thesis using b c(1,2) by (auto simp: hex_decode_encode)
qed

text \<open>A node whose template has network difficulty 1, and a hash function with a result that is a block.\<close>

definition ex_xmr_template :: xmr_template where
  "ex_xmr_template = \<lparr>xt_BlocktemplateBlob = hex_encode ex_blob, xt_BlockhashingBlob = '''', xt_Difficulty = 1, xt_Height = 5,
     xt_PrevHash = ''00'', xt_ReservedOffset = 3, xt_SeedHash = hex_encode (replicate 32 0), xt_NextSeedHash = '''', xt_Status = ''OK''\<rparr>"

definition ex_hash :: bytes where
  "ex_hash = 1 # replicate 31 0"

definition ex_xmr_env :: "unit cryptonote_env" where
  "ex_xmr_env = \<lparr>cn_http = (\<lambda>_ _ w. (Some ''ok'', w)), cn_envelope = (\<lambda>_. Some (None, None)), cn_unmarshal = (\<lambda>_. Some ex_xmr_template),
     cn_status = (\<lambda>_. Some ''OK''), cn_hash = (\<lambda>_ _. Some ex_hash), cn_rx = True, cn_keccak = (\<lambda>_. replicate 32 7),
     cn_url = ''http://node'', cn_poolAddress = ''4A''\<rparr>"

definition ex_xmr_view :: session_view where
  "ex_xmr_view = \<lparr>sv_ExtraNonce1 = None, sv_Difficulty = Fin 1, sv_WorkerName = ''w'', sv_RemoteAddr = ''r''\<rparr>"

definition ex_xmr_params :: "iface list" where
  "ex_xmr_params = [IMap [(''job_id'', IStr ''1''), (''nonce'', IStr ''00000001''), (''result'', IStr (hex_encode ex_hash))]]"

lemma ex_poke: "poke64 ex_blob 3 1 = Inr ex_blob"
proof -
  have "le_bytes 8 (Suc 0) = 1 # replicate 7 0" by code_simp
  moreover have "replicate 7 (0 :: byte) @ replicate 28 0 = replicate 35 0" by (simp add: replicate_add [symmetric])
  ultimately show ?thesis by (simp add: poke64_def ex_blob_def)
qed

lemma ex_hashing: "hashingBlob (cn_keccak ex_xmr_env) ex_parsed = Inr (take 39 ex_blob @ replicate 32 7 @ [1])"
proof -
  have "appendVarint d 1 = d @ [1]" for d
    by (subst appendVarint_def, subst append_varint_loop.simps) (simp add: word_le_nat_alt)
  then show ?thesis
    by (simp add: hashingBlob_def minerTxHash_def int_slice_def slice_def ex_parsed_def ex_xmr_env_def treeHash_def copy32_def ex_blob_def)
qed

definition ex_xmr_job :: cryptonote_job where
  "ex_xmr_job = \<lparr>xj_id = ''1'', xj_blob = ex_blob, xj_hashing = take 39 ex_blob @ replicate 32 7 @ [1], xj_nonceOff = 35,
     xj_seed = replicate 32 0, xj_height = 5, xj_diff = 1, xj_prevHash = ''00''\<rparr>"

lemma ex_job_id: "job_id 1 = ''1''"
  by (simp add: job_id_def) code_simp

lemma ex_xmr_job_of: "cryptonote_job_of ex_xmr_env 1 ex_xmr_template = Inr ex_xmr_job"
  using ex_hashing
  by (simp add: cryptonote_job_of_def ex_xmr_template_def hex_decode_encode ex_poke ex_parse wrap64_def ex_xmr_job_def ex_job_id)
    (simp add: ex_blob_def ex_parsed_def)

lemma ex_network: "f64_le (Fin 1) (DiffFromValue Pow256 1)"
proof -
  define p where "p = max (bf_prec (bf_set_int Pow256)) (bf_prec (bf_set_int 1))"
  have p: "1 \<le> p" by (simp add: p_def bf_set_int_def)
  have "\<bar>1 :: int\<bar> < 2 ^ nat p" using p by simp
  then have "big_round p 1 = 1" unfolding big_round_def using rnd_of_int [of 1 p "- 2147483648 - p"] p by simp
  moreover have "big_round p 1 \<le> big_round p (of_int Pow256 / of_int 1)"
    unfolding big_round_def by (rule rnd_mono) (simp_all add: Pow256_def p)
  ultimately have "1 \<le> big_round p (of_int Pow256 / of_int 1)" by simp
  then have "f64_le (Fin 1) (f64_round (big_round p (of_int Pow256 / of_int 1)))"
    using rnd64_of_int [of 1] by (intro f64_round_ge) simp_all
  then show ?thesis unfolding p_def by (subst DiffFromValue_pos) simp_all
qed

lemma ex_accept:
  "es_history (after_events (cryptonote_OnSubmit ex_xmr_env) (cryptonote_acceptTemplate ex_xmr_env) [Arrive ([], ex_xmr_template)]
     (new_engine \<lparr>xr_id = 0, xr_world = ()\<rparr>)) = [(''1'', ex_xmr_job, [])]"
  using ex_xmr_job_of
  by (simp add: cryptonote_acceptTemplate_def new_engine_def bump_def store_job_def evict_def ex_xmr_job_def)

lemma ex_submit:
  assumes "es_history st = [(''1'', ex_xmr_job, [])]"
  shows "\<exists>sh st'. cryptonote_OnSubmit ex_xmr_env ex_xmr_view ex_xmr_params st = (Inr sh, st') \<and> sh_BlockHex sh \<noteq> ''''"
proof -
  have n: "norm_hex ''00000001'' = ''00000001''" "hex_decode ''00000001'' = ([0, 0, 0, 1], True)" by code_simp+
  have r: "to_lower (hex_encode ex_hash) = hex_encode ex_hash" "length ex_hash = 32"
    by (simp_all add: to_lower_hex_encode ex_hash_def)
  have v: "be_nat (rev ex_hash) = 1" by code_simp
  have d: "f64_of_u64 1 = Fin 1" by (simp add: f64_of_u64_def f64_of_int_exact)
  have less: "\<not> f64_less (DiffFromValue Pow256 1) (Fin 1)"
    using ex_network by (cases "DiffFromValue Pow256 1") (auto simp: f64_le_def f64_eq_def)
  have w: "\<exists>x. withNonce (take 39 ex_blob @ replicate 32 7 @ [1]) 35 [0, 0, 0, 1] = Inr x"
    "\<exists>x. withNonce ex_blob 35 [0, 0, 0, 1] = Inr x \<and> x \<noteq> []"
    by (simp_all add: withNonce_def int_slice_def slice_def ex_blob_def)
  then obtain x y where w: "withNonce (take 39 ex_blob @ replicate 32 7 @ [1]) 35 [0, 0, 0, 1] = Inr x"
    "withNonce ex_blob 35 [0, 0, 0, 1] = Inr y" "y \<noteq> []" by blast
  show ?thesis
    using assms w(3)
    by (simp add: cryptonote_OnSubmit_def ex_xmr_params_def str_field_def n r ex_xmr_job_def cryptonote_judge_def w(1,2)
        ex_xmr_env_def v d less ex_network ex_xmr_view_def cryptonote_block_def note_nonce_def xmr_SubmitBlock_def xmr_call_def Let_def
        del: hex_decode.simps)
      (metis hex_encode_Nil hex_encode_inj)
qed

theorem cryptonote_block_is_proved_witness:
  "\<exists>sh st' (j :: cryptonote_job) blk p h hash.
    cryptonote_OnSubmit ex_xmr_env ex_xmr_view ex_xmr_params
      (after_events (cryptonote_OnSubmit ex_xmr_env) (cryptonote_acceptTemplate ex_xmr_env) [Arrive ([], ex_xmr_template)]
        (new_engine \<lparr>xr_id = 0, xr_world = ()\<rparr>)) = (Inr sh, st') \<and>
    hex_decode (sh_BlockHex sh) = (blk, True) \<and> parseBlockBlob blk = Inr p \<and> hashingBlob (cn_keccak ex_xmr_env) p = Inr h \<and>
    cn_hash ex_xmr_env (xj_seed j) h = Some hash \<and> sh_BlockHash sh = hex_encode hash"
proof -
  obtain sh st' where "cryptonote_OnSubmit ex_xmr_env ex_xmr_view ex_xmr_params
      (after_events (cryptonote_OnSubmit ex_xmr_env) (cryptonote_acceptTemplate ex_xmr_env) [Arrive ([], ex_xmr_template)]
        (new_engine \<lparr>xr_id = 0, xr_world = ()\<rparr>)) = (Inr sh, st')" "sh_BlockHex sh \<noteq> ''''"
    using ex_submit [OF ex_accept] by blast
  moreover from cryptonote_block_is_proved [OF refl this] obtain j :: cryptonote_job and blk p h hash where
    "hex_decode (sh_BlockHex sh) = (blk, True)" "parseBlockBlob blk = Inr p" "hashingBlob (cn_keccak ex_xmr_env) p = Inr h"
    "cn_hash ex_xmr_env (xj_seed j) h = Some hash" "sh_BlockHash sh = hex_encode hash" by blast
  ultimately show ?thesis by (intro exI conjI)
qed

end
