(* ===== verification/Ethash.thy ===== *)
theory Ethash
  imports EngineCore Jobs
begin

text \<open>
  \<open>engine/ethash/\<close>: the Ethash and Etchash engine. The node seals the block itself; the engine passes
  its work package on, checks the nonces, and returns solutions with \<open>eth_submitWork\<close>. There is one
  current work package and one set of seen nonces, emptied when the package changes.
\<close>

text \<open>
  \<open>et_http\<close> posts a JSON value and gives the body of the answer, or \<open>None\<close> for an error; the decoders
  read the envelope (result, and error with code and message) and the three result types used.
  \<open>et_compute\<close> is \<open>light.Compute\<close> of go-etchash for an activation block, a block number, a header hash as
  written by the node, and a nonce: the mix digest and the result, 32 bytes each.
\<close>

record 'w ethash_env =
  et_url :: string
  et_http :: "string \<Rightarrow> iface \<Rightarrow> 'w \<Rightarrow> string option \<times> 'w"
  et_envelope :: "string \<Rightarrow> (iface option \<times> (int \<times> string) option) option"
  et_strings :: "iface option \<Rightarrow> string list option"
  et_bool :: "iface option \<Rightarrow> bool option"
  et_string :: "iface option \<Rightarrow> string option"
  et_compute :: "u64 \<Rightarrow> u64 \<Rightarrow> string \<Rightarrow> u64 \<Rightarrow> bytes \<times> bytes"

record ethash_work =
  ew_jobID :: string
  ew_headerHash :: string
  ew_seedHash :: string
  ew_target :: int
  ew_blockNumber :: u64

record 'w ethash =
  eh_rpcId :: int
  eh_ecip :: u64
  eh_cur :: "ethash_work option"
  eh_seen :: "string list"
  eh_world :: 'w

definition new_ethash :: "'w \<Rightarrow> 'w ethash" where
  "new_ethash w = \<lparr>eh_rpcId = 0, eh_ecip = 0, eh_cur = None, eh_seen = [], eh_world = w\<rparr>"

definition ECIP1099FBlock :: u64 where
  "ECIP1099FBlock = 11700000"

subsection \<open>The node's RPC\<close>

definition eth_call :: "'w ethash_env \<Rightarrow> string \<Rightarrow> iface list \<Rightarrow> 'w ethash \<Rightarrow> iface option res \<times> 'w ethash" where
  "eth_call env method params st =
     (let st = st\<lparr>eh_rpcId := sint (word_of_int (eh_rpcId st + 1) :: u64)\<rparr> in
      case et_http env (et_url env)
             (IMap [(''jsonrpc'', IStr ''2.0''), (''id'', IInt (eh_rpcId st)), (''method'', IStr method), (''params'', IList params)])
             (eh_world st) of
        (None, w) \<Rightarrow> (Inl (Err ''request failed''), st\<lparr>eh_world := w\<rparr>)
      | (Some raw, w) \<Rightarrow>
          ((case et_envelope env raw of
              None \<Rightarrow> Inl (Err (''decode '' @ method @ '' response''))
            | Some (_, Some (code, message)) \<Rightarrow> Inl (Err (''rpc error '' @ fmt_int code @ '': '' @ message))
            | Some (result, None) \<Rightarrow> Inr result), st\<lparr>eh_world := w\<rparr>))"

definition decoded :: "(iface option \<Rightarrow> 'a option) \<Rightarrow> iface option res \<Rightarrow> 'a res" where
  "decoded dec r = rbind r (\<lambda>result. case dec result of None \<Rightarrow> Inl (Err ''unmarshal'') | Some x \<Rightarrow> Inr x)"

definition GetWork :: "'w ethash_env \<Rightarrow> 'w ethash \<Rightarrow> string list res \<times> 'w ethash" where
  "GetWork env st =
     (case eth_call env ''eth_getWork'' [] st of
        (r, st) \<Rightarrow>
          (rbind (decoded (et_strings env) r) (\<lambda>work.
             if length work < 3 then Inl (Err ''eth_getWork returned fewer than 3 fields'') else Inr work), st))"

definition SubmitWork :: "'w ethash_env \<Rightarrow> string \<Rightarrow> string \<Rightarrow> string \<Rightarrow> 'w ethash \<Rightarrow> bool res \<times> 'w ethash" where
  "SubmitWork env nonce headerHash mixHash st =
     (case eth_call env ''eth_submitWork'' [IStr nonce, IStr headerHash, IStr mixHash] st of
        (r, st) \<Rightarrow> (decoded (et_bool env) r, st))"

definition BlockNumber :: "'w ethash_env \<Rightarrow> 'w ethash \<Rightarrow> string res \<times> 'w ethash" where
  "BlockNumber env st =
     (case eth_call env ''eth_blockNumber'' [] st of (r, st) \<Rightarrow> (decoded (et_string env) r, st))"

subsection \<open>Helpers\<close>

definition hexToBig :: "string \<Rightarrow> int option" where
  "hexToBig s = big_set_hex (trim_prefix (trim_prefix s ''0x'') ''0X'')"

definition shortJobID :: "string \<Rightarrow> string" where
  "shortJobID headerHash =
     (let h = trim_prefix headerHash ''0x'' in if 8 \<le> length h then take 8 h else h)"

definition TargetFromDifficulty :: "f64 \<Rightarrow> int res" where
  "TargetFromDifficulty diff = TargetFromDiff Pow256 diff"

definition DifficultyFromResult :: "int \<Rightarrow> f64" where
  "DifficultyFromResult result = DiffFromValue Pow256 result"

definition MeetsTarget :: "int \<Rightarrow> int \<Rightarrow> bool" where
  "MeetsTarget result target = (result \<le> target)"

definition parseSubmit :: "iface list \<Rightarrow> (string \<times> string \<times> string) option" where
  "parseSubmit params =
     (if length params < 3 then None
      else
        (case (as_string (params ! 0), as_string (params ! 1), as_string (params ! 2)) of
           (Some n, Some h, Some m) \<Rightarrow> Some (n, h, m)
         | _ \<Rightarrow> None))"

text \<open>\<open>n.Uint64()\<close>: the low 64 bits of the magnitude.\<close>

definition big_uint64 :: "int \<Rightarrow> u64" where
  "big_uint64 n = word_of_int \<bar>n\<bar>"

subsection \<open>Work\<close>

text \<open>The number of the block the work is for: the fourth field, else one more than the head.\<close>

definition work_number :: "'w ethash_env \<Rightarrow> string list \<Rightarrow> 'w ethash \<Rightarrow> u64 \<times> 'w ethash" where
  "work_number env w st =
     (let n = (if 4 \<le> length w then (case hexToBig (w ! 3) of Some n \<Rightarrow> big_uint64 n | None \<Rightarrow> 0) else 0) in
      if n = 0 then
        (case BlockNumber env st of
           (Inr hn, st) \<Rightarrow> (case hexToBig hn of Some n \<Rightarrow> (big_uint64 n + 1, st) | None \<Rightarrow> (0, st))
         | (Inl _, st) \<Rightarrow> (0, st))
      else (n, st))"

definition set_work :: "ethash_work \<Rightarrow> 'w ethash \<Rightarrow> bool \<times> 'w ethash" where
  "set_work nw st =
     (let changed = (case eh_cur st of None \<Rightarrow> True | Some cur \<Rightarrow> ew_headerHash cur \<noteq> ew_headerHash nw);
          st = st\<lparr>eh_cur := Some nw\<rparr>
      in (changed, if changed then st\<lparr>eh_seen := []\<rparr> else st))"

definition RefreshWork :: "'w ethash_env \<Rightarrow> 'w ethash \<Rightarrow> bool res \<times> 'w ethash" where
  "RefreshWork env st =
     (case GetWork env st of
        (Inl e, st) \<Rightarrow> (Inl e, st)
      | (Inr w, st) \<Rightarrow>
          (case hexToBig (w ! 2) of
             None \<Rightarrow> (Inl (Err (''ethash: bad target in getWork: '' @ w ! 2)), st)
           | Some target \<Rightarrow>
               (case work_number env w st of
                  (blockNumber, st) \<Rightarrow>
                    (case set_work \<lparr>ew_jobID = shortJobID (w ! 0), ew_headerHash = w ! 0, ew_seedHash = w ! 1,
                                    ew_target = target, ew_blockNumber = blockNumber\<rparr> st of
                       (changed, st) \<Rightarrow> (Inr changed, st)))))"

text \<open>\<open>fblock\<close> is the value of the environment variable \<open>ETC_ECIP1099_FBLOCK\<close> (empty when unset).\<close>

definition ethash_Init :: "'w ethash_env \<Rightarrow> bool \<Rightarrow> string \<Rightarrow> 'w ethash \<Rightarrow> unit res \<times> 'w ethash" where
  "ethash_Init env noDaemons fblock st =
     (if noDaemons then (Inl (Err ''ethash: no daemon configured''), st)
      else
        (let ecip = (if fblock \<noteq> '''' then (case parse_uint 10 fblock of (n, True) \<Rightarrow> word_of_nat n | _ \<Rightarrow> ECIP1099FBlock)
                     else ECIP1099FBlock) in
         case RefreshWork env (st\<lparr>eh_ecip := ecip\<rparr>) of (r, st) \<Rightarrow> (rbind r (\<lambda>_. Inr ()), st)))"

definition CurrentWork :: "'w ethash \<Rightarrow> string \<times> string \<times> string \<times> u64" where
  "CurrentWork st =
     (case eh_cur st of
        None \<Rightarrow> ('''', '''', '''', 0)
      | Some cur \<Rightarrow> (ew_jobID cur, ew_headerHash cur, ew_seedHash cur, ew_blockNumber cur))"

text \<open>A difficulty is never NaN, so the target computation does not panic.\<close>

definition ethash_JobParams :: "f64 \<Rightarrow> 'w ethash \<Rightarrow> iface list option" where
  "ethash_JobParams diff st =
     (case (eh_cur st, TargetFromDifficulty diff) of
        (Some cur, Inr target) \<Rightarrow> Some [IStr (ew_headerHash cur), IStr (ew_seedHash cur), IStr (''0x'' @ TargetHex target)]
      | _ \<Rightarrow> None)"

definition ethash_JobNotification :: "bool \<Rightarrow> 'w ethash \<Rightarrow> string \<times> iface list option" where
  "ethash_JobNotification clean st =
     (case eh_cur st of
        None \<Rightarrow> ('''', None)
      | Some cur \<Rightarrow> ('''', Some [IStr (ew_headerHash cur), IStr (ew_seedHash cur), IStr (''0x'' @ TargetHex (ew_target cur))]))"

definition ethash_OnSubscribe ::
  "session_view \<Rightarrow> iface list \<Rightarrow> 'w ethash \<Rightarrow> ((iface \<times> bytes option \<times> int) res) \<times> 'w ethash" where
  "ethash_OnSubscribe v params st = (Inr (IBool True, None, 0), st)"

subsection \<open>Submissions\<close>

definition ethash_judge ::
  "'w ethash_env \<Rightarrow> session_view \<Rightarrow> ethash_work \<Rightarrow> string \<Rightarrow> u64 \<Rightarrow> string \<Rightarrow> share \<Rightarrow> 'w ethash \<Rightarrow> share res \<times> 'w ethash" where
  "ethash_judge env v cur nonceHex nonce mixHex share st =
     (case et_compute env (eh_ecip st) (ew_blockNumber cur) (ew_headerHash cur) nonce of
        (mixDigest, result) \<Rightarrow>
          if \<not> equal_fold (trim_prefix mixHex ''0x'') (hex_encode mixDigest) then reject ErrIncorrectNonceSize share st
          else
            (let resultBig = int (be_nat result); share = share\<lparr>sh_Diff := DifficultyFromResult resultBig\<rparr> in
             case TargetFromDifficulty (sv_Difficulty v) of
               Inl e \<Rightarrow> (Inl e, st)
             | Inr shareTarget \<Rightarrow>
                 if \<not> MeetsTarget resultBig shareTarget then reject ErrLowDiffShare share st
                 else if MeetsTarget resultBig (ew_target cur) then
                   (case SubmitWork env nonceHex (ew_headerHash cur) (''0x'' @ hex_encode mixDigest) st of
                      (Inr True, st) \<Rightarrow> (Inr (share\<lparr>sh_BlockHash := ew_headerHash cur\<rparr>), st)
                    | (_, st) \<Rightarrow> (Inr share, st))
                 else (Inr share, st)))"

definition ethash_OnSubmit :: "'w ethash_env \<Rightarrow> session_view \<Rightarrow> iface list \<Rightarrow> 'w ethash \<Rightarrow> share res \<times> 'w ethash" where
  "ethash_OnSubmit env v params st =
     (let share = fresh_share v in
      case parseSubmit params of
        None \<Rightarrow> reject ErrIncorrectNonceSize share st
      | Some (nonceHex, h1, mixHex) \<Rightarrow>
          (case eh_cur st of
             None \<Rightarrow> reject ErrJobNotFound share st
           | Some cur \<Rightarrow>
               if \<not> equal_fold h1 (ew_headerHash cur) then reject ErrJobNotFound share st
               else
                 (let share = share\<lparr>sh_JobId := ew_jobID cur, sh_BlockHeight := sint (ew_blockNumber cur)\<rparr> in
                  case parse_uint 16 (trim_prefix nonceHex ''0x'') of (nonce, ok) \<Rightarrow>
                    if \<not> ok then reject ErrIncorrectNonceSize share st
                    else
                      (let key = ew_headerHash cur @ ''|'' @ nonceHex in
                       if key \<in> set (eh_seen st) then reject ErrDuplicateShare share st
                       else ethash_judge env v cur nonceHex (word_of_nat nonce) mixHex share (st\<lparr>eh_seen := key # eh_seen st\<rparr>)))))"

definition ethash_engine :: "'w ethash_env \<Rightarrow> 'w ethash engine" where
  "ethash_engine env =
     \<lparr>en_OnSubscribe = ethash_OnSubscribe, en_JobNotification = ethash_JobNotification, en_OnSubmit = ethash_OnSubmit env,
      en_JobParamsForDifficulty = Some ethash_JobParams, en_NotifyMethod = None, en_TargetParams = None, en_ObjectParams = None\<rparr>"

subsection \<open>Spellings of one nonce\<close>

lemma eth_call_keeps:
  "eth_call env m ps st = (r, st') \<Longrightarrow> eh_cur st' = eh_cur st \<and> eh_seen st' = eh_seen st \<and> eh_ecip st' = eh_ecip st"
  by (auto simp: eth_call_def Let_def split: option.splits prod.splits)

lemma SubmitWork_keeps:
  "SubmitWork env a b c st = (r, st') \<Longrightarrow> eh_cur st' = eh_cur st \<and> eh_seen st' = eh_seen st \<and> eh_ecip st' = eh_ecip st"
  by (auto simp: SubmitWork_def split: prod.splits dest!: eth_call_keeps)

lemma ethash_judge_keeps:
  "ethash_judge env v cur nh n m share st = (r, st') \<Longrightarrow> eh_cur st' = eh_cur st \<and> eh_seen st' = eh_seen st \<and> eh_ecip st' = eh_ecip st"
  by (auto simp: ethash_judge_def Let_def reject_def split: prod.splits sum.splits if_splits bool.splits dest!: SubmitWork_keeps)

text \<open>The verdict depends on the nonce, not on its text, and not on what the node answers.\<close>

definition verdict :: "share res \<Rightarrow> int \<times> f64" where
  "verdict r = (case r of Inr sh \<Rightarrow> (sh_ErrorCode sh, sh_Diff sh) | Inl _ \<Rightarrow> (-1, NaN))"

lemma ethash_judge_verdict:
  "eh_ecip st1 = eh_ecip st2 \<Longrightarrow>
   verdict (fst (ethash_judge env v cur nh1 n m share st1)) = verdict (fst (ethash_judge env v cur nh2 n m share st2))"
  by (simp add: ethash_judge_def Let_def reject_def verdict_def split: prod.splits sum.splits if_splits bool.splits)

text \<open>The share of a well-formed submission for the current work, before it is judged.\<close>

definition work_share :: "session_view \<Rightarrow> ethash_work \<Rightarrow> share" where
  "work_share v cur = (fresh_share v)\<lparr>sh_JobId := ew_jobID cur, sh_BlockHeight := sint (ew_blockNumber cur)\<rparr>"

lemma ethash_OnSubmit_new:
  assumes "eh_cur st = Some cur" "equal_fold h (ew_headerHash cur)" "parse_uint 16 (trim_prefix s ''0x'') = (n, True)"
    and "ew_headerHash cur @ ''|'' @ s \<notin> set (eh_seen st)"
  shows "ethash_OnSubmit env v [IStr s, IStr h, IStr m] st =
    ethash_judge env v cur s (word_of_nat n) m (work_share v cur) (st\<lparr>eh_seen := (ew_headerHash cur @ ''|'' @ s) # eh_seen st\<rparr>)"
  using assms by (simp add: ethash_OnSubmit_def parseSubmit_def work_share_def)

lemma ethash_OnSubmit_accepted:
  assumes "ethash_OnSubmit env v [IStr s, IStr h, IStr m] st = (Inr sh, st')" "sh_ErrorCode sh = 0"
  obtains cur n where "eh_cur st = Some cur" "equal_fold h (ew_headerHash cur)" "parse_uint 16 (trim_prefix s ''0x'') = (n, True)"
    "ew_headerHash cur @ ''|'' @ s \<notin> set (eh_seen st)"
proof -
  have e: "reject c x st = (Inr sh, st') \<Longrightarrow> c = 0" for c x using assms(2) by (auto simp: reject_def set_err_def)
  have "\<exists>cur n. eh_cur st = Some cur \<and> equal_fold h (ew_headerHash cur) \<and> parse_uint 16 (trim_prefix s ''0x'') = (n, True) \<and>
    ew_headerHash cur @ ''|'' @ s \<notin> set (eh_seen st)"
    using assms(1)
    by (auto simp: ethash_OnSubmit_def parseSubmit_def Let_def err_codes split: option.splits if_splits prod.splits dest!: e)
  then show ?thesis using that by blast
qed

fun ethash_submits :: "'w ethash_env \<Rightarrow> session_view \<Rightarrow> iface list list \<Rightarrow> 'w ethash \<Rightarrow> share res list" where
  "ethash_submits env v [] st = []"
| "ethash_submits env v (ps # pss) st =
     (case ethash_OnSubmit env v ps st of (r, st) \<Rightarrow> r # ethash_submits env v pss st)"

lemma ethash_spellings:
  assumes "eh_cur st = Some cur" "equal_fold h (ew_headerHash cur)" "distinct ns"
    and "\<forall>s\<in>set ns. parse_uint 16 (trim_prefix s ''0x'') = (n, True) \<and> ew_headerHash cur @ ''|'' @ s \<notin> set (eh_seen st)"
    and "eh_ecip st = eh_ecip stb"
    and "verdict (fst (ethash_judge env v cur sb (word_of_nat n) m (work_share v cur) stb)) = d"
  shows "map verdict (ethash_submits env v (map (\<lambda>s. [IStr s, IStr h, IStr m]) ns) st) = replicate (length ns) d"
  using assms
proof (induction ns arbitrary: st)
  case (Cons s ns)
  let ?st = "st\<lparr>eh_seen := (ew_headerHash cur @ ''|'' @ s) # eh_seen st\<rparr>"
  obtain r st' where j: "ethash_judge env v cur s (word_of_nat n) m (work_share v cur) ?st = (r, st')"
    by (cases "ethash_judge env v cur s (word_of_nat n) m (work_share v cur) ?st")
  have o: "ethash_OnSubmit env v [IStr s, IStr h, IStr m] st = (r, st')"
    using ethash_OnSubmit_new [of st cur h s n] Cons.prems(1,2,4) j by simp
  have "verdict r = d"
    using ethash_judge_verdict [of ?st stb env v cur s "word_of_nat n" m "work_share v cur" sb] Cons.prems(5,6) j by simp
  moreover have "map verdict (ethash_submits env v (map (\<lambda>s. [IStr s, IStr h, IStr m]) ns) st') = replicate (length ns) d"
    using ethash_judge_keeps [OF j] Cons.prems by (intro Cons.IH) auto
  ultimately show ?case by (simp add: o)
qed simp

text \<open>
  C40. One Ethash solution is credited as often as its nonce can be respelled. Duplicates are
  looked up by the text of the nonce, which may be written with any letter case, with or without
  a prefix and with any number of leading zeros. Whenever a submission is accepted, any further
  distinct texts of the same nonce, sent one after the other, are all accepted, each with the
  same difficulty.
\<close>

theorem ethash_respelling_credited_again:
  assumes "ethash_OnSubmit env v [IStr s, IStr h, IStr m] st = (Inr sh, st')" "sh_ErrorCode sh = 0"
    and "distinct (s # ns)" "\<forall>t\<in>set ns. parse_uint 16 (trim_prefix t ''0x'') = parse_uint 16 (trim_prefix s ''0x'')"
    and "\<forall>t\<in>set ns. \<forall>cur. eh_cur st = Some cur \<longrightarrow> ew_headerHash cur @ ''|'' @ t \<notin> set (eh_seen st)"
  shows "map verdict (ethash_submits env v (map (\<lambda>t. [IStr t, IStr h, IStr m]) ns) st') = replicate (length ns) (0, sh_Diff sh)"
proof -
  obtain cur n where c: "eh_cur st = Some cur" "equal_fold h (ew_headerHash cur)" "parse_uint 16 (trim_prefix s ''0x'') = (n, True)"
    "ew_headerHash cur @ ''|'' @ s \<notin> set (eh_seen st)"
    using ethash_OnSubmit_accepted [OF assms(1,2)] by blast
  have j: "ethash_judge env v cur s (word_of_nat n) m (work_share v cur) (st\<lparr>eh_seen := (ew_headerHash cur @ ''|'' @ s) # eh_seen st\<rparr>) = (Inr sh, st')"
    using ethash_OnSubmit_new [OF c, of env v m] assms(1) by simp
  show ?thesis
    by (rule ethash_spellings [where stb = "st\<lparr>eh_seen := (ew_headerHash cur @ ''|'' @ s) # eh_seen st\<rparr>" and sb = s and n = n, OF _ c(2)])
      (use ethash_judge_keeps [OF j] c assms(2,3,4,5) in \<open>auto simp: j [simplified] verdict_def\<close>)
qed

text \<open>Three spellings of the nonce 1, on a chain where every hash is a share.\<close>

definition ex_eth_env :: "unit ethash_env" where
  "ex_eth_env = \<lparr>et_url = ''http://node'', et_http = (\<lambda>_ _ w. (None, w)), et_envelope = (\<lambda>_. None), et_strings = (\<lambda>_. None),
     et_bool = (\<lambda>_. None), et_string = (\<lambda>_. None), et_compute = (\<lambda>_ _ _ _. ([], [0]))\<rparr>"

definition ex_eth :: "unit ethash" where
  "ex_eth = (new_ethash ())\<lparr>eh_cur := Some \<lparr>ew_jobID = ''ab'', ew_headerHash = ''0xab'', ew_seedHash = ''0x00'', ew_target = -1, ew_blockNumber = 1\<rparr>\<rparr>"

definition ex_eth_view :: session_view where
  "ex_eth_view = \<lparr>sv_ExtraNonce1 = None, sv_Difficulty = Fin 1, sv_WorkerName = ''w'', sv_RemoteAddr = ''r''\<rparr>"

lemma ex_spellings:
  "parse_uint 16 (trim_prefix ''0x1'' ''0x'') = (1, True)" "parse_uint 16 (trim_prefix ''0x01'' ''0x'') = (1, True)"
  "parse_uint 16 (trim_prefix ''1'' ''0x'') = (1, True)"
proof -
  have "unhex (CHR ''0'') = Some 0" "unhex (CHR ''1'') = Some 1" by code_simp+
  moreover have "trim_prefix ''0x1'' ''0x'' = ''1''" "trim_prefix ''0x01'' ''0x'' = ''01''" "trim_prefix ''1'' ''0x'' = ''1''" by code_simp+
  ultimately show "parse_uint 16 (trim_prefix ''0x1'' ''0x'') = (1, True)" "parse_uint 16 (trim_prefix ''0x01'' ''0x'') = (1, True)"
    "parse_uint 16 (trim_prefix ''1'' ''0x'') = (1, True)" by (simp_all add: parse_uint_def)
qed

lemma ex_eth_accepted:
  "\<exists>sh st'. ethash_OnSubmit ex_eth_env ex_eth_view [IStr ''0x1'', IStr ''0xab'', IStr ''0x''] ex_eth = (Inr sh, st') \<and> sh_ErrorCode sh = 0"
proof -
  have p: "trim_prefix ''0x'' ''0x'' = ''''" by code_simp
  have t: "\<exists>t. TargetFromDiff Pow256 (Fin 1) = Inr t \<and> 0 \<le> t"
  proof -
    have "0 \<le> rnd p e (of_int Pow256)" for p e by (rule rnd_nonneg) (simp add: Pow256_def)
    then show ?thesis
      by (simp add: TargetFromDiff_def f64_le_def f64_eq_def bf_new_def bf_quo_def bf_set_int_def bf_int_def big_round_def trunc_rat_def Let_def)
  qed
  have b: "be_nat [0] = 0" "to_lower [] = []" by code_simp+
  from t obtain t where "TargetFromDiff Pow256 (Fin 1) = Inr t" "0 \<le> t" by blast
  then show ?thesis
    by (simp add: ethash_OnSubmit_def parseSubmit_def ex_eth_def new_ethash_def equal_fold_def p ex_spellings ethash_judge_def ex_eth_env_def ex_eth_view_def
        TargetFromDifficulty_def MeetsTarget_def b fresh_share_def empty_share_def Let_def)
qed

theorem ethash_respelling_credited_again_witness:
  "\<exists>sh st'. ethash_OnSubmit ex_eth_env ex_eth_view [IStr ''0x1'', IStr ''0xab'', IStr ''0x''] ex_eth = (Inr sh, st') \<and>
    map verdict (ethash_submits ex_eth_env ex_eth_view (map (\<lambda>t. [IStr t, IStr ''0xab'', IStr ''0x'']) [''0x01'', ''1'']) st') =
    replicate 2 (0, sh_Diff sh)"
proof -
  obtain sh st' where a: "ethash_OnSubmit ex_eth_env ex_eth_view [IStr ''0x1'', IStr ''0xab'', IStr ''0x''] ex_eth = (Inr sh, st')"
    "sh_ErrorCode sh = 0" using ex_eth_accepted by blast
  then show ?thesis
    using ethash_respelling_credited_again [OF a, of "[''0x01'', ''1'']"] by (simp add: ex_eth_def new_ethash_def ex_spellings numeral_2_eq_2)
qed

end
