(* ===== verification/Kaspa.thy ===== *)
theory Kaspa
  imports EngineCore
begin

text \<open>
  \<open>engine/kaspa/kaspa.go\<close>: the Kaspa engine (kHeavyHash). Blocks, their hashes and the proof of work are
  those of the kaspad packages, so the type \<open>'b\<close> of blocks and the functions on it are parameters.
\<close>

text \<open>
  \<open>ks_template\<close> is \<open>GetBlockTemplate\<close> and the conversion of its answer: an error, or whether the node is
  synced and the block (an error again if it does not convert). \<open>ks_prePow\<close> is the header hash with nonce
  and time zeroed, \<open>ks_powValue\<close> the value of \<open>pow.State\<close> of the header for a nonce, \<open>ks_target\<close> its target.
\<close>

record ('b, 'w) kaspa_env =
  ks_template :: "'w \<Rightarrow> (bool \<times> 'b res) res \<times> 'w"
  ks_allowUnsynced :: bool
  ks_prePow :: "'b \<Rightarrow> bytes"
  ks_time :: "'b \<Rightarrow> int"
  ks_daaScore :: "'b \<Rightarrow> u64"
  ks_powValue :: "'b \<Rightarrow> u64 \<Rightarrow> int"
  ks_target :: "'b \<Rightarrow> int"
  ks_setNonce :: "'b \<Rightarrow> u64 \<Rightarrow> 'b"
  ks_submit :: "'b \<Rightarrow> 'w \<Rightarrow> bool \<times> 'w"
  ks_blockHash :: "'b \<Rightarrow> string"

record 'b kaspa_job =
  sj_id :: string
  sj_block :: 'b
  sj_prePowHash :: bytes
  sj_timestamp :: int

text \<open>This engine assigns no extranonces, so the field \<open>es_enCounter\<close> of the common state stays 0.\<close>

type_synonym ('b, 'w) kaspa = "('b kaspa_job, 'w) engine_state"

definition kaspa_acceptBlock :: "('b, 'w) kaspa_env \<Rightarrow> string list \<times> 'b \<Rightarrow> ('b, 'w) kaspa \<Rightarrow> unit res \<times> ('b, 'w) kaspa" where
  "kaspa_acceptBlock env = (\<lambda>(ord, block) st.
     let st = bump st; i = job_id (es_jobCounter st)
     in (Inr (), store_job 16 ord i
           \<lparr>sj_id = i, sj_block = block, sj_prePowHash = ks_prePow env block, sj_timestamp = ks_time env block\<rparr> st))"

definition kaspa_refresh :: "('b, 'w) kaspa_env \<Rightarrow> string list \<Rightarrow> ('b, 'w) kaspa \<Rightarrow> bool res \<times> ('b, 'w) kaspa" where
  "kaspa_refresh env ord st =
     (case ks_template env (es_world st) of
        (Inl e, w) \<Rightarrow> (Inl e, st\<lparr>es_world := w\<rparr>)
      | (Inr (isSynced, blk), w) \<Rightarrow>
          (let st = st\<lparr>es_world := w\<rparr> in
           if \<not> isSynced \<and> \<not> ks_allowUnsynced env then (Inl (Err ''kaspa: node is not synced''), st)
           else
             (case blk of
                Inl e \<Rightarrow> (Inl e, st)
              | Inr block \<Rightarrow> (Inr True, snd (kaspa_acceptBlock env (ord, block) st)))))"

text \<open>\<open>Init\<close> after the client is connected and the notifications are registered (\<open>dialled\<close>).\<close>

definition kaspa_Init :: "('b, 'w) kaspa_env \<Rightarrow> bool \<Rightarrow> unit res \<Rightarrow> string list \<Rightarrow> ('b, 'w) kaspa \<Rightarrow> unit res \<times> ('b, 'w) kaspa" where
  "kaspa_Init env noDaemons dialled ord st =
     (if noDaemons then (Inl (Err ''kaspa: no daemon configured''), st)
      else
        (case dialled of
           Inl e \<Rightarrow> (Inl e, st)
         | Inr _ \<Rightarrow> (case kaspa_refresh env ord st of (r, st) \<Rightarrow> (rbind r (\<lambda>_. Inr ()), st))))"

subsection \<open>Notifications\<close>

text \<open>\<open>fmt.Sprintf("%016x", n)\<close>.\<close>

definition hex16 :: "nat \<Rightarrow> string" where
  "hex16 n = (let s = fmt_uint 16 n in replicate (16 - length s) (CHR ''0'') @ s)"

text \<open>\<open>binary.BigEndian.Uint64(b[i:])\<close>: an error (a panic) when fewer than eight bytes are left.\<close>

definition be64_at :: "bytes \<Rightarrow> nat \<Rightarrow> nat res" where
  "be64_at b i = (if i + 8 \<le> length b then Inr (be_nat (take 8 (drop i b))) else Inl (Panic ''index out of range''))"

definition largeJobParams :: "bytes \<Rightarrow> int \<Rightarrow> string res" where
  "largeJobParams prePowHash timestamp =
     (let tsBytes = le_bytes 8 (unat (word_of_int timestamp :: u64)) in
      rbind (be64_at prePowHash 0) (\<lambda>a.
      rbind (be64_at prePowHash 8) (\<lambda>b.
      rbind (be64_at prePowHash 16) (\<lambda>c.
      rbind (be64_at prePowHash 24) (\<lambda>d.
        Inr (hex16 a @ hex16 b @ hex16 c @ hex16 d @ hex16 (le_nat tsBytes)))))))"

definition kaspa_TargetParams :: "f64 \<Rightarrow> ('b, 'w) kaspa \<Rightarrow> string \<times> iface list" where
  "kaspa_TargetParams diff st = (''mining.set_difficulty'', [INum diff])"

definition kaspa_OnSubscribe ::
  "session_view \<Rightarrow> iface list \<Rightarrow> ('b, 'w) kaspa \<Rightarrow> ((iface \<times> bytes option \<times> int) res) \<times> ('b, 'w) kaspa" where
  "kaspa_OnSubscribe v params st = (Inr (IList [IBool True, IStr ''EthereumStratum/1.0.0''], None, 0), st)"

text \<open>A header hash has 32 bytes, so the encoding does not panic.\<close>

definition kaspa_JobParams :: "f64 \<Rightarrow> ('b, 'w) kaspa \<Rightarrow> iface list option" where
  "kaspa_JobParams diff st =
     (case es_cur st of
        None \<Rightarrow> None
      | Some j \<Rightarrow>
          (case largeJobParams (sj_prePowHash j) (sj_timestamp j) of
             Inr s \<Rightarrow> Some [IStr (sj_id j), IStr s]
           | Inl _ \<Rightarrow> None))"

definition kaspa_JobNotification :: "bool \<Rightarrow> ('b, 'w) kaspa \<Rightarrow> string \<times> iface list option" where
  "kaspa_JobNotification clean st = (''mining.notify'', kaspa_JobParams (Fin 1) st)"

subsection \<open>Submissions\<close>

definition kaspa_judge ::
  "('b, 'w) kaspa_env \<Rightarrow> session_view \<Rightarrow> 'b kaspa_job \<Rightarrow> u64 \<Rightarrow> share \<Rightarrow> ('b, 'w) kaspa \<Rightarrow> share res \<times> ('b, 'w) kaspa" where
  "kaspa_judge env v j nonce share st =
     (let powValue = ks_powValue env (sj_block j) nonce;
          share = share\<lparr>sh_Diff := DiffFromValue Pow256 powValue\<rparr> in
      if f64_less (sh_Diff share) (sv_Difficulty v) then reject ErrLowDiffShare share st
      else if powValue \<le> ks_target env (sj_block j) then
        (let solved = ks_setNonce env (sj_block j) nonce in
         case ks_submit env solved (es_world st) of
           (ok, w) \<Rightarrow> (Inr (if ok then share\<lparr>sh_BlockHash := ks_blockHash env solved\<rparr> else share), st\<lparr>es_world := w\<rparr>))
      else (Inr share, st))"

definition kaspa_OnSubmit ::
  "('b, 'w) kaspa_env \<Rightarrow> session_view \<Rightarrow> iface list \<Rightarrow> ('b, 'w) kaspa \<Rightarrow> share res \<times> ('b, 'w) kaspa" where
  "kaspa_OnSubmit env v params st =
     (let share = fresh_share v in
      if length params < 3 then reject ErrIncorrectNonceSize share st
      else
        (case (as_string (params ! 1), as_string (params ! 2)) of
           (Some jobID, Some nonceHex) \<Rightarrow>
             (let nonceHex = norm_hex nonceHex in
              case map_of (es_history st) jobID of
                None \<Rightarrow> reject ErrJobNotFound share st
              | Some (j, seen) \<Rightarrow>
                  (let share = share\<lparr>sh_JobId := sj_id j, sh_BlockHeight := sint (ks_daaScore env (sj_block j))\<rparr> in
                   case parse_uint 16 nonceHex of (nonce, ok) \<Rightarrow>
                     if \<not> ok then reject ErrIncorrectNonceSize share st
                     else if nonceHex \<in> set seen then reject ErrDuplicateShare share st
                     else kaspa_judge env v j (word_of_nat nonce) share (note_nonce jobID nonceHex st)))
         | _ \<Rightarrow> reject ErrIncorrectNonceSize share st))"

definition kaspa_engine :: "('b, 'w) kaspa_env \<Rightarrow> ('b, 'w) kaspa engine" where
  "kaspa_engine env =
     \<lparr>en_OnSubscribe = kaspa_OnSubscribe, en_JobNotification = kaspa_JobNotification, en_OnSubmit = kaspa_OnSubmit env,
      en_JobParamsForDifficulty = Some kaspa_JobParams, en_NotifyMethod = Some ''mining.notify'',
      en_TargetParams = Some kaspa_TargetParams, en_ObjectParams = None\<rparr>"

subsection \<open>The ledger of nonces\<close>

lemma kaspa_judge_keeps:
  "kaspa_judge env v j nonce share st = (r, st') \<Longrightarrow>
   es_history st' = es_history st \<and> es_jobCounter st' = es_jobCounter st"
  by (auto simp: kaspa_judge_def Let_def reject_def split: prod.splits if_splits)

lemma kaspa_OnSubmit_cases:
  assumes "kaspa_OnSubmit env v ps st = (r, st')"
  shows "(\<exists>sh. r = Inr sh \<and> \<not> counts sh \<and> st' = st) \<or>
    (\<exists>i n j seen nonce share. job_nonce ps = (i, n) \<and> map_of (es_history st) i = Some (j, seen) \<and> n \<notin> set seen \<and>
       parse_uint 16 n = (nonce, True) \<and> sh_ErrorCode share = 0 \<and>
       kaspa_judge env v j (word_of_nat nonce) share (note_nonce i n st) = (r, st'))"
proof (cases "length ps < 3")
  case True
  then show ?thesis using assms by (auto simp: kaspa_OnSubmit_def reject_def not_counts_err err_codes)
next
  case False
  then have len: "2 < length ps" by simp
  show ?thesis
    using assms False job_nonce_eq [OF len]
    by (simp add: kaspa_OnSubmit_def Let_def reject_def split: option.splits prod.splits if_splits)
      (auto simp: not_counts_err err_codes fresh_share_def empty_share_def)
qed

lemma kaspa_accept_cases:
  assumes "kaspa_acceptBlock env t st = (u, st')"
  shows "st' = st \<or> st' = bump st \<or> (\<exists>ord j. st' = store_job 16 ord (job_id (es_jobCounter st + 1)) j (bump st))"
  using assms by (auto simp: kaspa_acceptBlock_def bump_def Let_def split: prod.splits)

interpretation kaspa: nonce_ledger "kaspa_OnSubmit env" "kaspa_acceptBlock env" job_nonce es_history es_jobCounter 1
proof
  fix v ps st r st'
  assume "kaspa_OnSubmit env v ps st = (r, st')"
  then show "es_jobCounter st' = es_jobCounter st"
    and "es_history st' = es_history st \<or> es_history st' = mark_seen (fst (job_nonce ps)) (snd (job_nonce ps)) (es_history st)"
    by (auto dest!: kaspa_OnSubmit_cases kaspa_judge_keeps simp: note_nonce_def)
next
  fix v ps st sh st'
  assume "kaspa_OnSubmit env v ps st = (Inr sh, st')" "counts sh"
  then show "es_history st' = mark_seen (fst (job_nonce ps)) (snd (job_nonce ps)) (es_history st) \<and>
      (\<exists>j seen. map_of (es_history st) (fst (job_nonce ps)) = Some (j, seen) \<and> snd (job_nonce ps) \<notin> set seen)"
    by (auto dest!: kaspa_OnSubmit_cases kaspa_judge_keeps simp: note_nonce_def)
next
  fix t st u st'
  assume a: "kaspa_acceptBlock env t st = (u, st')" "unat (es_jobCounter st) + 1 < 2 ^ 64"
  show "unat (es_jobCounter st) \<le> unat (es_jobCounter st') \<and> unat (es_jobCounter st') \<le> unat (es_jobCounter st) + 1"
    by (rule one_job_laws [OF a(2) kaspa_accept_cases [OF a(1)]])
  fix i j seen
  assume "map_of (es_history st') i = Some (j, seen)"
  then show "map_of (es_history st) i = Some (j, seen) \<or> (seen = [] \<and> new_id (es_jobCounter st) (es_jobCounter st') i)"
    by (rule one_job_laws [OF a(2) kaspa_accept_cases [OF a(1)]])
qed

text \<open>
  The texts that count are distinct, but not the nonces: the text is not required to have 16
  digits, so a zero in front makes a new text of the same nonce.
\<close>

lemma parse_uint_zero: "parse_uint 16 s = (n, True) \<Longrightarrow> parse_uint 16 (CHR ''0'' # s) = (n, True)"
proof -
  have "unhex (CHR ''0'') = Some 0" by code_simp
  then show "parse_uint 16 s = (n, True) \<Longrightarrow> parse_uint 16 (CHR ''0'' # s) = (n, True)"
    by (simp add: parse_uint_def split: if_splits)
qed

lemma kaspa_leading_zero_counts:
  assumes "map_of (es_history st) i = Some (j, seen)" "parse_uint 16 s = (n, True)" "norm_hex s = s" "norm_hex (CHR ''0'' # s) = CHR ''0'' # s"
    and "s \<notin> set seen" "CHR ''0'' # s \<notin> set seen"
  shows "sh_Diff (projr (fst (kaspa_OnSubmit env v [IStr w, IStr i, IStr (CHR ''0'' # s)] (snd (kaspa_OnSubmit env v [IStr w, IStr i, IStr s] st))))) =
    sh_Diff (projr (fst (kaspa_OnSubmit env v [IStr w, IStr i, IStr s] st)))"
proof -
  let ?sh = "(fresh_share v)\<lparr>sh_JobId := sj_id j, sh_BlockHeight := sint (ks_daaScore env (sj_block j))\<rparr>"
  have d: "sh_Diff (projr (fst (kaspa_judge env v j x sh st1))) = DiffFromValue Pow256 (ks_powValue env (sj_block j) x)" for x sh st1
    by (simp add: kaspa_judge_def Let_def reject_def set_err_def split: prod.splits)
  have one: "kaspa_OnSubmit env v [IStr w, IStr i, IStr s] st = kaspa_judge env v j (word_of_nat n) ?sh (note_nonce i s st)"
    using assms by (simp add: kaspa_OnSubmit_def)
  obtain r st' where st': "kaspa_judge env v j (word_of_nat n) ?sh (note_nonce i s st) = (r, st')"
    by (cases "kaspa_judge env v j (word_of_nat n) ?sh (note_nonce i s st)")
  have "map_of (es_history st') i = Some (j, s # seen)"
    using kaspa_judge_keeps [OF st'] assms(1) by (simp add: note_nonce_def mark_seen_lookup)
  then have "kaspa_OnSubmit env v [IStr w, IStr i, IStr (CHR ''0'' # s)] st' =
      kaspa_judge env v j (word_of_nat n) ?sh (note_nonce i (CHR ''0'' # s) st')"
    using assms(4,6) parse_uint_zero [OF assms(2)] by (simp add: kaspa_OnSubmit_def)
  then show ?thesis using one st' d [of "word_of_nat n" ?sh "note_nonce i s st"] by (simp add: d)
qed

end
