(* ===== verification/Alephium.thy ===== *)
theory Alephium
  imports EngineCore
begin

text \<open>
  \<open>engine/alephium/alephium.go\<close>: the Alephium engine (Blake3, one job per chain) with its binary
  protocol to the node: frames, job lists and block submissions. Blake3 and the connection's
  write are parameters; what the node sends is the byte sequence \<open>readFrame\<close> consumes.
\<close>

definition nonceSize :: nat where
  "nonceSize = 24"

record alephium_job =
  aj_id :: string
  aj_fromGroup :: u32
  aj_toGroup :: u32
  aj_headerBlob :: bytes
  aj_txsBlob :: bytes
  aj_target :: int
  aj_height :: u32

text \<open>The write returns whether the error was nil. \<open>as_conn\<close> is \<open>e.conn != nil\<close>.\<close>

record 'w alephium_env =
  ae_blake3 :: "bytes \<Rightarrow> bytes"
  ae_write :: "bytes \<Rightarrow> 'w \<Rightarrow> bool \<times> 'w"

record 'w alephium =
  as_jobCounter :: u64
  as_enCounter :: u32
  as_jobs :: "(string \<times> alephium_job) list"
  as_order :: "string list"
  as_history :: "alephium_job history"
  as_conn :: bool
  as_world :: 'w

definition new_alephium :: "'w \<Rightarrow> 'w alephium" where
  "new_alephium w = \<lparr>as_jobCounter = 0, as_enCounter = 0, as_jobs = [], as_order = [], as_history = [], as_conn = False, as_world = w\<rparr>"

subsection \<open>The codec\<close>

definition msgJobs :: byte where "msgJobs = 0"
definition msgSubmitResult :: byte where "msgSubmitResult = 1"
definition msgSubmitBlock :: byte where "msgSubmitBlock = 0"
definition protocolVersion :: byte where "protocolVersion = 1"

definition readFull :: "nat \<Rightarrow> bytes \<Rightarrow> bytes res \<times> bytes" where
  "readFull n s = (if length s < n then (Inl (Err ''unexpected EOF''), []) else (Inr (take n s), drop n s))"

definition readFrame :: "bytes \<Rightarrow> (byte \<times> byte \<times> bytes) res \<times> bytes" where
  "readFrame s =
     (case readFull 4 s of
        (Inl e, s) \<Rightarrow> (Inl e, s)
      | (Inr lenBuf, s) \<Rightarrow>
          (let n = be_nat lenBuf in
           if n < 2 \<or> 32 * 2 ^ 20 < n then (Inl (Err (''alephium: bad frame length '' @ fmt_uint 10 n)), s)
           else
             (case readFull n s of
                (Inl e, s) \<Rightarrow> (Inl e, s)
              | (Inr body, s) \<Rightarrow> (Inr (body ! 0, body ! 1, drop 2 body), s))))"

definition buildFrame :: "byte \<Rightarrow> bytes \<Rightarrow> bytes" where
  "buildFrame msgType payload =
     (let body = protocolVersion # msgType # payload in be_bytes 4 (length body) @ body)"

record reader =
  rd_b :: bytes
  rd_pos :: nat
  rd_err :: bool

definition rd_int32 :: "reader \<Rightarrow> u32 \<times> reader" where
  "rd_int32 r =
     (if rd_err r \<or> length (rd_b r) < rd_pos r + 4 then (0, r\<lparr>rd_err := True\<rparr>)
      else (word_of_nat (be_nat (take 4 (drop (rd_pos r) (rd_b r)))), r\<lparr>rd_pos := rd_pos r + 4\<rparr>))"

definition rd_blob :: "reader \<Rightarrow> bytes \<times> reader" where
  "rd_blob r =
     (case rd_int32 r of (n, r) \<Rightarrow>
        if rd_err r \<or> sint n < 0 \<or> length (rd_b r) < rd_pos r + unat n then ([], r\<lparr>rd_err := True\<rparr>)
        else (take (unat n) (drop (rd_pos r) (rd_b r)), r\<lparr>rd_pos := rd_pos r + unat n\<rparr>))"

text \<open>One job: after an error the remaining reads give zero values and the job is dropped.\<close>

definition rd_job :: "string \<Rightarrow> reader \<Rightarrow> alephium_job \<times> reader" where
  "rd_job i r =
     (case rd_int32 r of (from, r) \<Rightarrow>
      case rd_int32 r of (to, r) \<Rightarrow>
      case rd_blob r of (headerBlob, r) \<Rightarrow>
      case rd_blob r of (txsBlob, r) \<Rightarrow>
      case rd_blob r of (target, r) \<Rightarrow>
      case rd_int32 r of (height, r) \<Rightarrow>
        (\<lparr>aj_id = i, aj_fromGroup = from, aj_toGroup = to, aj_headerBlob = headerBlob, aj_txsBlob = txsBlob,
          aj_target = int (be_nat target), aj_height = height\<rparr>, r))"

fun rd_jobs :: "nat \<Rightarrow> u64 \<Rightarrow> reader \<Rightarrow> alephium_job list res \<times> u64" where
  "rd_jobs 0 c r = (Inr [], c)"
| "rd_jobs (Suc n) c r =
     (case rd_job (job_id (c + 1)) r of (j, r) \<Rightarrow>
        if rd_err r then (Inl (Err ''unexpected EOF''), c + 1)
        else (case rd_jobs n (c + 1) r of (js, c) \<Rightarrow> (rbind js (\<lambda>js. Inr (j # js)), c)))"

text \<open>\<open>nextID\<close> advances the job counter, which is passed and returned.\<close>

definition parseJobs :: "bytes \<Rightarrow> u64 \<Rightarrow> alephium_job list res \<times> u64" where
  "parseJobs payload c =
     (case rd_int32 \<lparr>rd_b = payload, rd_pos = 0, rd_err = False\<rparr> of (count, r) \<Rightarrow>
        if rd_err r \<or> sint count < 0 \<or> 4096 < sint count then (Inl (Err ''alephium: bad job count''), c)
        else rd_jobs (unat count) c r)"

definition appendBlob :: "bytes \<Rightarrow> bytes \<Rightarrow> bytes" where
  "appendBlob dst x = dst @ be_bytes 4 (length x) @ x"

definition minBig :: "int \<Rightarrow> int \<Rightarrow> int" where
  "minBig a b = (if a < b then a else b)"

definition hasPrefixBytes :: "bytes \<Rightarrow> bytes \<Rightarrow> bool" where
  "hasPrefixBytes b p = (length p \<le> length b \<and> (\<forall>i<length p. b ! i = p ! i))"

definition doubleBlake3 :: "'w alephium_env \<Rightarrow> bytes \<Rightarrow> bytes" where
  "doubleBlake3 env b = ae_blake3 env (ae_blake3 env b)"

subsection \<open>The engine\<close>

lemma map_delete_shorter: "k \<in> set (map fst h) \<Longrightarrow> length (map_delete k h) < length h"
  unfolding map_delete_def by (auto intro: length_filter_less)

text \<open>
  The eviction loop: while more than 64 jobs remain, the keys are visited in some order (the
  \<open>n\<close>-th time in the order \<open>ords n\<close>) and the first that is not live is deleted. If every job is
  live nothing is deleted and the loop goes on for ever, holding the engine's lock.
\<close>

function evict_dead :: "string list \<Rightarrow> (nat \<Rightarrow> string list) \<Rightarrow> nat \<Rightarrow> alephium_job history \<Rightarrow> alephium_job history res" where
  "evict_dead live ords n h =
     (if length h \<le> 64 then Inr h
      else
        (case find (\<lambda>k. k \<in> set (map fst h) \<and> k \<notin> set live) (ords n) of
           None \<Rightarrow> Inl (Blocks ''eviction loop'')
         | Some k \<Rightarrow> evict_dead live ords (Suc n) (map_delete k h)))"
  by pat_completeness auto

termination
  by (relation "measure (\<lambda>(_, _, _, h). length h)") (auto simp: find_Some_iff intro!: map_delete_shorter simp del: set_map)

declare evict_dead.simps [simp del]

definition alephium_handleJobs :: "bytes \<times> (nat \<Rightarrow> string list) \<Rightarrow> 'w alephium \<Rightarrow> unit res \<times> 'w alephium" where
  "alephium_handleJobs = (\<lambda>(payload, ords) st.
     case parseJobs payload (as_jobCounter st) of
       (Inl e, c) \<Rightarrow> (Inl e, st\<lparr>as_jobCounter := c\<rparr>)
     | (Inr js, c) \<Rightarrow>
         (let ids = map aj_id js; h = foldl (\<lambda>h j. map_put (aj_id j) (j, []) h) (as_history st) js;
              st = st\<lparr>as_jobCounter := c, as_jobs := foldl (\<lambda>m j. map_put (aj_id j) j m) [] js, as_order := ids\<rparr> in
          case evict_dead ids ords 0 h of
            Inl e \<Rightarrow> (Inl e, st\<lparr>as_history := h\<rparr>)
          | Inr h \<Rightarrow> (Inr (), st\<lparr>as_history := h\<rparr>)))"

text \<open>\<open>Init\<close> after a successful dial: the first message must be a job list.\<close>

definition alephium_Init :: "bytes \<Rightarrow> (nat \<Rightarrow> string list) \<Rightarrow> 'w alephium \<Rightarrow> (unit res \<times> bytes) \<times> 'w alephium" where
  "alephium_Init s ords st =
     (let st = st\<lparr>as_conn := True\<rparr> in
      case readFrame s of
        (Inl e, s) \<Rightarrow> ((Inl e, s), st)
      | (Inr (_, msgType, payload), s) \<Rightarrow>
          if msgType \<noteq> msgJobs then ((Inl (Err ''alephium: expected initial Jobs''), s), st)
          else (case alephium_handleJobs (payload, ords) st of (r, st) \<Rightarrow> ((r, s), st)))"

text \<open>
  One round of the reading loop of \<open>Watch\<close>: the flag says whether new work was announced
  (\<open>onEvent\<close>). A bad job list is logged and skipped; a read error ends the loop.
\<close>

definition alephium_watch_frame :: "bytes \<Rightarrow> (nat \<Rightarrow> string list) \<Rightarrow> 'w alephium \<Rightarrow> (bool res \<times> bytes) \<times> 'w alephium" where
  "alephium_watch_frame s ords st =
     (case readFrame s of
        (Inl e, s) \<Rightarrow> ((Inl e, s), st)
      | (Inr (_, msgType, payload), s) \<Rightarrow>
          if msgType = msgJobs then
            (case alephium_handleJobs (payload, ords) st of
               (Inr _, st) \<Rightarrow> ((Inr True, s), st)
             | (Inl (Err _), st) \<Rightarrow> ((Inr False, s), st)
             | (Inl e, st) \<Rightarrow> ((Inl e, s), st))
          else ((Inr False, s), st))"

definition alephium_OnSubscribe ::
  "session_view \<Rightarrow> iface list \<Rightarrow> 'w alephium \<Rightarrow> ((iface \<times> bytes option \<times> int) res) \<times> 'w alephium" where
  "alephium_OnSubscribe v params st =
     (let n = as_enCounter st + 1; en = be_bytes 2 (unat n mod 2 ^ 16)
      in (Inr (IList [INil, IStr (hex_encode en)], Some en, int nonceSize - 2), st\<lparr>as_enCounter := n\<rparr>))"

definition alephium_job_params :: "int \<Rightarrow> alephium_job \<Rightarrow> iface" where
  "alephium_job_params shareTarget j =
     IList [IStr (aj_id j), IInt (uint (aj_fromGroup j)), IInt (uint (aj_toGroup j)), IStr (hex_encode (aj_headerBlob j)),
            IStr (TargetHex (minBig (aj_target j) shareTarget))]"

text \<open>
  Every id in \<open>order\<close> is a key of \<open>jobs\<close> (they are written together), and the difficulty is
  never NaN, so the result is never \<open>None\<close>.
\<close>

definition alephium_JobParams :: "f64 \<Rightarrow> 'w alephium \<Rightarrow> iface list option" where
  "alephium_JobParams diff st =
     (case TargetFromDiff Pow256 diff of
        Inl _ \<Rightarrow> None
      | Inr shareTarget \<Rightarrow>
          (case those (map (\<lambda>i. map_option (alephium_job_params shareTarget) (map_of (as_jobs st) i)) (as_order st)) of
             None \<Rightarrow> None
           | Some out \<Rightarrow> Some [IList out]))"

definition alephium_JobNotification :: "bool \<Rightarrow> 'w alephium \<Rightarrow> string \<times> iface list option" where
  "alephium_JobNotification clean st = (''mining.notify'', alephium_JobParams (Fin 1) st)"

definition alephium_submitBlock :: "'w alephium_env \<Rightarrow> bytes \<Rightarrow> 'w alephium \<Rightarrow> unit res \<times> 'w alephium" where
  "alephium_submitBlock env blockBlob st =
     (let frame = buildFrame msgSubmitBlock (appendBlob [] blockBlob) in
      if \<not> as_conn st then (Inl (Err ''alephium: not connected''), st)
      else
        (case ae_write env frame (as_world st) of
           (ok, w) \<Rightarrow> (if ok then Inr () else Inl (Err ''write''), st\<lparr>as_world := w\<rparr>)))"

definition alephium_note :: "string \<Rightarrow> string \<Rightarrow> 'w alephium \<Rightarrow> 'w alephium" where
  "alephium_note i n st = st\<lparr>as_history := mark_seen i n (as_history st)\<rparr>"

definition alephium_judge ::
  "'w alephium_env \<Rightarrow> session_view \<Rightarrow> alephium_job \<Rightarrow> bytes \<Rightarrow> share \<Rightarrow> 'w alephium \<Rightarrow> share res \<times> 'w alephium" where
  "alephium_judge env v j nonce share st =
     (let powHash = doubleBlake3 env (nonce @ aj_headerBlob j); hashNum = int (be_nat powHash);
          share = share\<lparr>sh_Diff := DiffFromValue Pow256 hashNum\<rparr> in
      case TargetFromDiff Pow256 (sv_Difficulty v) of
        Inl e \<Rightarrow> (Inl e, st)
      | Inr t \<Rightarrow>
          if t < hashNum then reject ErrLowDiffShare share st
          else if hashNum \<le> aj_target j then
            (case alephium_submitBlock env (nonce @ aj_headerBlob j @ aj_txsBlob j) st of
               (Inl _, st) \<Rightarrow> (Inr share, st)
             | (Inr _, st) \<Rightarrow> (Inr (share\<lparr>sh_BlockHash := hex_encode powHash\<rparr>), st))
          else (Inr share, st))"

definition alephium_OnSubmit ::
  "'w alephium_env \<Rightarrow> session_view \<Rightarrow> iface list \<Rightarrow> 'w alephium \<Rightarrow> share res \<times> 'w alephium" where
  "alephium_OnSubmit env v params st =
     (let share = fresh_share v in
      if length params < 3 then reject ErrIncorrectNonceSize share st
      else
        (case (as_string (params ! 1), as_string (params ! 2)) of
           (Some jobID, Some nonceHex) \<Rightarrow>
             (let nonceHex = norm_hex nonceHex in
              case map_of (as_history st) jobID of
                None \<Rightarrow> reject ErrJobNotFound share st
              | Some (j, seen) \<Rightarrow>
                  (let share = share\<lparr>sh_JobId := aj_id j, sh_BlockHeight := sint (aj_height j)\<rparr> in
                   case hex_decode nonceHex of (nonce, ok) \<Rightarrow>
                     if \<not> ok \<or> length nonce \<noteq> nonceSize then reject ErrIncorrectNonceSize share st
                     else if (case sv_ExtraNonce1 v of None \<Rightarrow> False | Some en \<Rightarrow> en \<noteq> [] \<and> \<not> hasPrefixBytes nonce en)
                     then reject ErrIncorrectNonceSize share st
                     else if nonceHex \<in> set seen then reject ErrDuplicateShare share st
                     else alephium_judge env v j nonce share (alephium_note jobID nonceHex st)))
         | _ \<Rightarrow> reject ErrIncorrectNonceSize share st))"

definition alephium_engine :: "'w alephium_env \<Rightarrow> 'w alephium engine" where
  "alephium_engine env =
     \<lparr>en_OnSubscribe = alephium_OnSubscribe, en_JobNotification = alephium_JobNotification, en_OnSubmit = alephium_OnSubmit env,
      en_JobParamsForDifficulty = Some alephium_JobParams, en_NotifyMethod = Some ''mining.notify'',
      en_TargetParams = None, en_ObjectParams = None\<rparr>"

subsection \<open>The codec's round trip\<close>

text \<open>How the node writes a job and a job list (the wire format of the header comment).\<close>

record alephium_wire =
  aw_from :: u32
  aw_to :: u32
  aw_header :: bytes
  aw_txs :: bytes
  aw_target :: bytes
  aw_height :: u32

definition int32_bytes :: "u32 \<Rightarrow> bytes" where
  "int32_bytes x = be_bytes 4 (unat x)"

definition wire_job :: "alephium_wire \<Rightarrow> bytes" where
  "wire_job w = int32_bytes (aw_from w) @ int32_bytes (aw_to w) @ appendBlob [] (aw_header w) @ appendBlob [] (aw_txs w) @
     appendBlob [] (aw_target w) @ int32_bytes (aw_height w)"

definition wire_jobs :: "alephium_wire list \<Rightarrow> bytes" where
  "wire_jobs ws = be_bytes 4 (length ws) @ concat (map wire_job ws)"

definition wire_ok :: "alephium_wire \<Rightarrow> bool" where
  "wire_ok w \<longleftrightarrow> length (aw_header w) < 2 ^ 31 \<and> length (aw_txs w) < 2 ^ 31 \<and> length (aw_target w) < 2 ^ 31"

definition job_of_wire :: "alephium_wire \<Rightarrow> u64 \<Rightarrow> alephium_job" where
  "job_of_wire w c = \<lparr>aj_id = job_id c, aj_fromGroup = aw_from w, aj_toGroup = aw_to w, aj_headerBlob = aw_header w,
     aj_txsBlob = aw_txs w, aj_target = int (be_nat (aw_target w)), aj_height = aw_height w\<rparr>"

text \<open>A reader with the bytes \<open>pre\<close> behind it and \<open>rest\<close> ahead.\<close>

definition at_pos :: "bytes \<Rightarrow> bytes \<Rightarrow> reader" where
  "at_pos pre rest = \<lparr>rd_b = pre @ rest, rd_pos = length pre, rd_err = False\<rparr>"

lemma at_pos_err [simp]: "\<not> rd_err (at_pos pre rest)"
  by (simp add: at_pos_def)

lemma be_nat_int32 [simp]: "be_nat (int32_bytes x) = unat x"
  using u32_less [of x] by (simp add: int32_bytes_def be_nat_be_bytes)

lemma length_int32 [simp]: "length (int32_bytes x) = 4"
  by (simp add: int32_bytes_def)

lemma sint_small:
  assumes "n < 2 ^ 31"
  shows "sint (word_of_nat n :: u32) = int n" "unat (word_of_nat n :: u32) = n"
proof -
  have "sint (word_of_nat n :: u32) = signed_take_bit 31 (int n)" by (simp add: signed_of_nat)
  also have "\<dots> = int n" using assms by (intro signed_take_bit_int_eq_self) auto
  finally show "sint (word_of_nat n :: u32) = int n" .
  show "unat (word_of_nat n :: u32) = n" using assms by (simp add: unat_of_nat)
qed

lemma blob_prefix: "length x < 2 ^ 31 \<Longrightarrow> appendBlob [] x = int32_bytes (word_of_nat (length x)) @ x"
  by (simp add: appendBlob_def int32_bytes_def sint_small)

lemma rd_int32_wire [simp]: "rd_int32 (at_pos pre (int32_bytes x @ rest)) = (x, at_pos (pre @ int32_bytes x) rest)"
  by (simp add: rd_int32_def at_pos_def)

lemma rd_blob_wire [simp]:
  assumes "length x < 2 ^ 31"
  shows "rd_blob (at_pos pre (appendBlob [] x @ rest)) = (x, at_pos (pre @ appendBlob [] x) rest)"
proof -
  have "rd_int32 (at_pos pre (appendBlob [] x @ rest)) = (word_of_nat (length x), at_pos (pre @ int32_bytes (word_of_nat (length x))) (x @ rest))"
    using rd_int32_wire [of pre _ "x @ rest"] by (simp add: blob_prefix [OF assms])
  then show ?thesis using sint_small [OF assms] by (simp add: rd_blob_def at_pos_def blob_prefix [OF assms])
qed

lemma rd_job_wire:
  assumes "wire_ok w"
  shows "rd_job (job_id c) (at_pos pre (wire_job w @ rest)) = (job_of_wire w c, at_pos (pre @ wire_job w) rest)"
  using assms by (simp add: rd_job_def wire_job_def wire_ok_def job_of_wire_def)

text \<open>The jobs of a list, numbered from the counter on.\<close>

fun jobs_of_wire :: "alephium_wire list \<Rightarrow> u64 \<Rightarrow> alephium_job list" where
  "jobs_of_wire [] c = []"
| "jobs_of_wire (w # ws) c = job_of_wire w (c + 1) # jobs_of_wire ws (c + 1)"

lemma rd_jobs_wire:
  "\<forall>w\<in>set ws. wire_ok w \<Longrightarrow>
   rd_jobs (length ws) c (at_pos pre (concat (map wire_job ws) @ rest)) = (Inr (jobs_of_wire ws c), c + word_of_nat (length ws))"
proof (induction ws arbitrary: c pre)
  case (Cons w ws)
  then show ?case
    using Cons.IH [of "c + 1" "pre @ wire_job w"] rd_job_wire [of w "c + 1" pre "concat (map wire_job ws) @ rest"]
    by (simp add: add.assoc)
qed simp

text \<open>
  C24. What one side of the Alephium protocol writes, the other reads. A frame of at most 32 MiB
  built by \<open>buildFrame\<close> is read back by \<open>readFrame\<close> as its version, type and payload, and the
  bytes behind it are left for the next frame. A list of at most 4096 jobs with blobs below
  \<open>2 ^ 31\<close> bytes, in the node's format, is parsed by \<open>parseJobs\<close> as exactly those jobs in order,
  with the ids that follow the job counter.
\<close>

theorem alephium_wire_roundtrip:
  assumes "\<forall>w\<in>set ws. wire_ok w" "length ws \<le> 4096" "length payload + 2 \<le> 32 * 2 ^ 20"
  shows "readFrame (buildFrame msgType payload @ rest) = (Inr (protocolVersion, msgType, payload), rest) \<and>
    parseJobs (wire_jobs ws) c = (Inr (jobs_of_wire ws c), c + word_of_nat (length ws))"
proof
  show "readFrame (buildFrame msgType payload @ rest) = (Inr (protocolVersion, msgType, payload), rest)"
    using assms(3) by (simp add: readFrame_def buildFrame_def readFull_def Let_def be_nat_be_bytes)
  let ?n = "word_of_nat (length ws) :: u32"
  have "wire_jobs ws = int32_bytes ?n @ concat (map wire_job ws)"
    using assms(2) by (simp add: wire_jobs_def int32_bytes_def sint_small)
  moreover have "sint ?n = int (length ws)" "unat ?n = length ws" using assms(2) by (simp_all add: sint_small)
  ultimately show "parseJobs (wire_jobs ws) c = (Inr (jobs_of_wire ws c), c + word_of_nat (length ws))"
    using assms(2) rd_jobs_wire [OF assms(1), of c "int32_bytes ?n" "[]"] rd_int32_wire [of "[]" ?n "concat (map wire_job ws)"]
    by (simp add: parseJobs_def at_pos_def)
qed

definition ex_wire :: alephium_wire where
  "ex_wire = \<lparr>aw_from = 1, aw_to = 2, aw_header = [1, 2, 3], aw_txs = [], aw_target = [255, 0], aw_height = 9\<rparr>"

theorem alephium_wire_roundtrip_witness:
  "parseJobs (wire_jobs [ex_wire, ex_wire]) 5 = (Inr [job_of_wire ex_wire 6, job_of_wire ex_wire 7], 7)"
  using alephium_wire_roundtrip [of "[ex_wire, ex_wire]" "[]" 0 "[]" 5] by (simp add: wire_ok_def ex_wire_def)

subsection \<open>The ledger of nonces\<close>

lemma alephium_judge_keeps:
  "alephium_judge env v j nonce share st = (r, st') \<Longrightarrow> as_history st' = as_history st \<and> as_jobCounter st' = as_jobCounter st"
  by (auto simp: alephium_judge_def alephium_submitBlock_def Let_def reject_def split: option.splits prod.splits sum.splits if_splits)

lemma alephium_OnSubmit_cases:
  assumes "alephium_OnSubmit env v ps st = (r, st')"
  shows "(\<exists>sh. r = Inr sh \<and> \<not> counts sh \<and> st' = st) \<or>
    (\<exists>i n j seen nonce share. job_nonce ps = (i, n) \<and> map_of (as_history st) i = Some (j, seen) \<and> n \<notin> set seen \<and>
       hex_decode n = (nonce, True) \<and> length nonce = nonceSize \<and> sh_ErrorCode share = 0 \<and>
       alephium_judge env v j nonce share (alephium_note i n st) = (r, st'))"
proof (cases "length ps < 3")
  case True
  then show ?thesis using assms by (auto simp: alephium_OnSubmit_def reject_def not_counts_err err_codes)
next
  case False
  then have len: "2 < length ps" by simp
  show ?thesis
    using assms False job_nonce_eq [OF len]
    by (simp add: alephium_OnSubmit_def Let_def reject_def split: option.splits prod.splits if_splits)
      (auto simp: not_counts_err err_codes fresh_share_def empty_share_def)
qed

lemma rd_jobs_ids:
  assumes "rd_jobs n c r = (res, c')" "unat c + n < 2 ^ 64"
  shows "unat c \<le> unat c' \<and> unat c' \<le> unat c + n \<and>
    (\<forall>js. res = Inr js \<longrightarrow> length js = n \<and> distinct (map aj_id js) \<and> (\<forall>j\<in>set js. new_id c c' (aj_id j)))"
  using assms
proof (induction n arbitrary: c r res c')
  case (Suc n)
  obtain j r1 where j: "rd_job (job_id (c + 1)) r = (j, r1)" by (cases "rd_job (job_id (c + 1)) r")
  have c1: "unat (c + 1) = Suc (unat c)" using Suc.prems(2) bump_store_ctr [of c] by simp
  have ji: "aj_id j = job_id (c + 1)" using j by (auto simp: rd_job_def split: prod.splits)
  show ?case
  proof (cases "rd_err r1")
    case True
    then show ?thesis using Suc.prems(1) j c1 by auto
  next
    case False
    obtain res2 c2 where rest: "rd_jobs n (c + 1) r1 = (res2, c2)" by (cases "rd_jobs n (c + 1) r1")
    note IH = Suc.IH [OF rest]
    have b: "unat (c + 1) + n < 2 ^ 64" using Suc.prems(2) c1 by simp
    have out: "res = rbind res2 (\<lambda>js. Inr (j # js))" "c' = c2" using Suc.prems(1) j False rest by auto
    have up: "new_id c c2 i" if "new_id (c + 1) c2 i" for i using that c1 unfolding new_id_def by (auto intro: Suc_lessD)
    have "new_id c c2 (aj_id j)" unfolding ji new_id_def job_id_def using IH [OF b] c1 by (intro exI [of _ "unat (c + 1)"]) simp
    moreover have "aj_id j \<notin> aj_id ` set js" if "res2 = Inr js" for js
      using IH [OF b] that new_id_not_issued unfolding ji job_id_def issued_def by fastforce
    ultimately show ?thesis using IH [OF b] out up c1 by (auto simp: rbind_eq_Inr)
  qed
qed simp

lemma parseJobs_ids:
  assumes "parseJobs payload c = (res, c')" "unat c + 4096 < 2 ^ 64"
  shows "unat c \<le> unat c' \<and> unat c' \<le> unat c + 4096 \<and>
    (\<forall>js. res = Inr js \<longrightarrow> distinct (map aj_id js) \<and> (\<forall>j\<in>set js. new_id c c' (aj_id j)))"
proof -
  obtain n r where i: "rd_int32 \<lparr>rd_b = payload, rd_pos = 0, rd_err = False\<rparr> = (n, r)" by (meson surj_pair)
  show ?thesis
  proof (cases "rd_err r \<or> sint n < 0 \<or> 4096 < sint n")
    case True
    then show ?thesis using assms(1) i by (auto simp: parseJobs_def)
  next
    case False
    then have "uint n = sint n" by (simp add: uint_sint take_bit_int_eq_self)
    then have "unat n \<le> 4096" using False unfolding unat_eq_nat_uint by linarith
    moreover have "rd_jobs (unat n) c r = (res, c')" using assms(1) i False by (simp add: parseJobs_def)
    ultimately show ?thesis using rd_jobs_ids [of "unat n" c r res c'] assms(2) by auto
  qed
qed

lemma evict_dead_sub:
  "evict_dead live ords n h = Inr h' \<Longrightarrow> length h' \<le> 64 \<and>
   (\<forall>i e. map_of h' i = Some e \<longrightarrow> map_of h i = Some e) \<and> (\<forall>i\<in>set live. map_of h' i = map_of h i)"
proof (induction live ords n h arbitrary: h' rule: evict_dead.induct)
  case (1 live ords n h)
  show ?case
  proof (cases "length h \<le> 64")
    case True
    then show ?thesis using "1.prems" by (simp add: evict_dead.simps [of live ords n h])
  next
    case False
    then obtain k where k: "find (\<lambda>k. k \<in> set (map fst h) \<and> k \<notin> set live) (ords n) = Some k"
      and e: "evict_dead live ords (Suc n) (map_delete k h) = Inr h'"
      using "1.prems" by (auto simp: evict_dead.simps [of live ords n h] split: option.splits)
    have "k \<notin> set live" using k by (auto simp: find_Some_iff)
    note IH = "1.IH" [OF False k e]
    moreover have "map_of h i = Some e" if "map_of h' i = Some e" for i e
    proof -
      have "map_of (map_delete k h) i = Some e" using IH that by blast
      then show ?thesis by (simp add: map_of_map_delete split: if_splits)
    qed
    moreover have "map_of h' i = map_of h i" if "i \<in> set live" for i
    proof -
      have "map_of h' i = map_of (map_delete k h) i" using IH that by blast
      then show ?thesis using that \<open>k \<notin> set live\<close> by (auto simp: map_of_map_delete)
    qed
    ultimately show ?thesis by blast
  qed
qed

lemma evict_dead_err: "evict_dead live ords n h = Inl e \<Longrightarrow> e = Blocks ''eviction loop''"
  by (induction live ords n h rule: evict_dead.induct) (subst (asm) evict_dead.simps, auto split: if_splits option.splits)

lemma put_jobs:
  "map_of (foldl (\<lambda>h j. map_put (aj_id j) (j, []) h) h js) i = Some e \<Longrightarrow>
   map_of h i = Some e \<or> (\<exists>j\<in>set js. i = aj_id j \<and> e = (j, []))"
  by (induction js arbitrary: h) (fastforce split: if_splits)+

lemma put_jobs_has: "map_of (foldl (\<lambda>h j. map_put (aj_id j) (j, []) h) h js) i \<noteq> None \<longleftrightarrow> map_of h i \<noteq> None \<or> i \<in> aj_id ` set js"
  by (induction js arbitrary: h) auto

interpretation alephium: nonce_ledger "alephium_OnSubmit env" alephium_handleJobs job_nonce as_history as_jobCounter 4096
proof
  fix v ps st r st'
  assume "alephium_OnSubmit env v ps st = (r, st')"
  then show "as_jobCounter st' = as_jobCounter st"
    and "as_history st' = as_history st \<or> as_history st' = mark_seen (fst (job_nonce ps)) (snd (job_nonce ps)) (as_history st)"
    by (auto dest!: alephium_OnSubmit_cases alephium_judge_keeps simp: alephium_note_def)
next
  fix v ps st sh st'
  assume "alephium_OnSubmit env v ps st = (Inr sh, st')" "counts sh"
  then show "as_history st' = mark_seen (fst (job_nonce ps)) (snd (job_nonce ps)) (as_history st) \<and>
      (\<exists>j seen. map_of (as_history st) (fst (job_nonce ps)) = Some (j, seen) \<and> snd (job_nonce ps) \<notin> set seen)"
    by (auto dest!: alephium_OnSubmit_cases alephium_judge_keeps simp: alephium_note_def)
next
  fix t st u and st' :: "'b alephium"
  assume a: "alephium_handleJobs t st = (u, st')" "unat (as_jobCounter st) + 4096 < 2 ^ 64"
  obtain payload ords where t: "t = (payload, ords)" by (cases t)
  obtain res c where p: "parseJobs payload (as_jobCounter st) = (res, c)" by (cases "parseJobs payload (as_jobCounter st)")
  note ids = parseJobs_ids [OF p a(2)]
  have c: "as_jobCounter st' = c" using a(1) p by (auto simp: t alephium_handleJobs_def Let_def split: sum.splits)
  show "unat (as_jobCounter st) \<le> unat (as_jobCounter st') \<and> unat (as_jobCounter st') \<le> unat (as_jobCounter st) + 4096"
    using ids c by simp
  fix i j seen
  assume m: "map_of (as_history st') i = Some (j, seen)"
  show "map_of (as_history st) i = Some (j, seen) \<or> (seen = [] \<and> new_id (as_jobCounter st) (as_jobCounter st') i)"
  proof (cases res)
    case (Inl e)
    then show ?thesis using a(1) p m by (auto simp: t alephium_handleJobs_def)
  next
    case (Inr js)
    have "map_of (foldl (\<lambda>h j. map_put (aj_id j) (j, []) h) (as_history st) js) i = Some (j, seen)"
      using a(1) p m Inr by (auto simp: t alephium_handleJobs_def Let_def split: sum.splits dest: evict_dead_sub)
    from put_jobs [OF this] show ?thesis using ids Inr c by auto
  qed
qed

text \<open>
  A job list of more than 64 chains never finishes: all its jobs are live, so the eviction loop
  finds nothing to delete, and it holds the engine's lock.
\<close>

lemma alephium_many_jobs_hang:
  assumes "parseJobs payload (as_jobCounter st) = (Inr js, c)" "64 < length js" "unat (as_jobCounter st) + 4096 < 2 ^ 64"
  shows "fst (alephium_handleJobs (payload, ords) st) = Inl (Blocks ''eviction loop'')"
proof (cases "evict_dead (map aj_id js) ords 0 (foldl (\<lambda>h j. map_put (aj_id j) (j, []) h) (as_history st) js)")
  case (Inl e)
  then show ?thesis using assms(1) evict_dead_err [OF Inl] by (simp add: alephium_handleJobs_def Let_def)
next
  case (Inr h)
  note sub = evict_dead_sub [OF Inr]
  have "map_of h i \<noteq> None" if "i \<in> set (map aj_id js)" for i
  proof -
    have "map_of h i = map_of (foldl (\<lambda>h j. map_put (aj_id j) (j, []) h) (as_history st) js) i" using sub that by blast
    then show ?thesis using put_jobs_has [of "as_history st" js i] that by simp
  qed
  then have "set (map aj_id js) \<subseteq> set (map fst h)" by (auto simp: map_of_eq_None_iff)
  then have "card (set (map aj_id js)) \<le> card (set (map fst h))" by (intro card_mono) auto
  also have "\<dots> \<le> length h" using card_length [of "map fst h"] by simp
  finally have "card (set (map aj_id js)) \<le> 64" using sub by linarith
  moreover have "distinct (map aj_id js)" using parseJobs_ids [OF assms(1,3)] by simp
  ultimately have "length js \<le> 64" using distinct_card [of "map aj_id js"] by simp
  then show ?thesis using assms(2) by simp
qed

end
