(* ===== verification/Beam.thy ===== *)
theory Beam
  imports EngineCore
begin

text \<open>
  \<open>engine/beam/beam.go\<close>: the Beam engine (BeamHash III). The node pushes jobs and results as lines of JSON
  and judges the solutions itself; the engine verifies them and passes them on. The verifier, the
  decoding of a line and the connection are parameters.
\<close>

record beam_message =
  bm_Method :: string
  bm_ID :: string
  bm_Input :: string
  bm_Difficulty :: u64
  bm_Code :: int
  bm_Description :: string
  bm_NoncePrefix :: string

text \<open>\<open>bv_encode\<close> writes a JSON value to the connection and says whether that worked.\<close>

record 'w beam_env =
  bv_verify :: "bytes \<Rightarrow> bytes \<Rightarrow> bool option"
  bv_unmarshal :: "string \<Rightarrow> beam_message option"
  bv_dial :: "'w \<Rightarrow> bool \<times> 'w"
  bv_encode :: "iface \<Rightarrow> 'w \<Rightarrow> bool \<times> 'w"
  bv_password :: string

record beam_job =
  bj_id :: string
  bj_input :: bytes
  bj_difficulty :: u64

text \<open>\<open>ba_conn\<close> says that \<open>conn\<close> and \<open>enc\<close> are not nil (they are set and cleared together).\<close>

record 'w beam =
  ba_noncePrefix :: "bytes option"
  ba_conn :: bool
  ba_cur :: "beam_job option"
  ba_history :: "beam_job history"
  ba_world :: 'w

definition new_beam :: "'w \<Rightarrow> 'w beam" where
  "new_beam w = \<lparr>ba_noncePrefix = None, ba_conn = False, ba_cur = None, ba_history = [], ba_world = w\<rparr>"

definition beam_send :: "'w beam_env \<Rightarrow> iface \<Rightarrow> 'w beam \<Rightarrow> unit res \<times> 'w beam" where
  "beam_send env msg st =
     (if \<not> ba_conn st then (Inl (Err ''beam: not connected''), st)
      else (case bv_encode env msg (ba_world st) of (ok, w) \<Rightarrow> (if ok then Inr () else Inl (Err ''write''), st\<lparr>ba_world := w\<rparr>)))"

definition connectAndLogin :: "'w beam_env \<Rightarrow> 'w beam \<Rightarrow> unit res \<times> 'w beam" where
  "connectAndLogin env st =
     (case bv_dial env (ba_world st) of
        (False, w) \<Rightarrow> (Inl (Err ''dial''), st\<lparr>ba_world := w\<rparr>)
      | (True, w) \<Rightarrow>
          beam_send env (IMap [(''method'', IStr ''login''), (''api_key'', IStr (bv_password env)), (''id'', IStr ''login''), (''jsonrpc'', IStr ''2.0'')])
            (st\<lparr>ba_world := w, ba_conn := True\<rparr>))"

definition beam_Init :: "'w beam_env \<Rightarrow> bool \<Rightarrow> 'w beam \<Rightarrow> unit res \<times> 'w beam" where
  "beam_Init env noDaemons st =
     (if noDaemons then (Inl (Err ''beam: no daemon configured''), st) else connectAndLogin env st)"

text \<open>\<open>handleLine\<close>: one line of the node, with the order in which the eviction loop visits the history.\<close>

definition beam_handleLine :: "'w beam_env \<Rightarrow> string list \<Rightarrow> string \<Rightarrow> 'w beam \<Rightarrow> bool \<times> 'w beam" where
  "beam_handleLine env ord line st =
     (case bv_unmarshal env line of
        None \<Rightarrow> (False, st)
      | Some m \<Rightarrow>
          if bm_Method m = ''job'' then
            (case hex_decode (bm_Input m) of (input, ok) \<Rightarrow>
               if \<not> ok \<or> length input \<noteq> 32 then (False, st)
               else
                 (let j = \<lparr>bj_id = bm_ID m, bj_input = input, bj_difficulty = bm_Difficulty m\<rparr>
                  in (True, st\<lparr>ba_cur := Some j, ba_history := evict 16 (bj_id j) ord (map_put (bj_id j) (j, []) (ba_history st))\<rparr>)))
          else if bm_Method m = ''result'' \<and> bm_ID m = ''login'' then
            (case hex_decode (bm_NoncePrefix m) of (p, ok) \<Rightarrow> (False, if ok then st\<lparr>ba_noncePrefix := Some p\<rparr> else st))
          else (False, st))"

definition prefix_bytes :: "'w beam \<Rightarrow> bytes" where
  "prefix_bytes st = (case ba_noncePrefix st of None \<Rightarrow> [] | Some p \<Rightarrow> p)"

definition beam_OnSubscribe ::
  "session_view \<Rightarrow> iface list \<Rightarrow> 'w beam \<Rightarrow> ((iface \<times> bytes option \<times> int) res) \<times> 'w beam" where
  "beam_OnSubscribe v params st =
     (Inr (IList [INil, IStr (hex_encode (prefix_bytes st))], ba_noncePrefix st, 8 - int (length (prefix_bytes st))), st)"

definition beam_TargetParams :: "f64 \<Rightarrow> 'w beam \<Rightarrow> string \<times> iface list" where
  "beam_TargetParams diff st = (''mining.set_difficulty'', [INum diff])"

definition beam_JobParams :: "f64 \<Rightarrow> 'w beam \<Rightarrow> iface list option" where
  "beam_JobParams diff st =
     (case ba_cur st of
        None \<Rightarrow> None
      | Some j \<Rightarrow> Some [IStr (bj_id j), IStr (hex_encode (bj_input j)), IUint64 (bj_difficulty j)])"

definition beam_JobNotification :: "bool \<Rightarrow> 'w beam \<Rightarrow> string \<times> iface list option" where
  "beam_JobNotification clean st = (''mining.notify'', beam_JobParams (Fin 1) st)"

definition beam_judge ::
  "'w beam_env \<Rightarrow> beam_job \<Rightarrow> bytes \<Rightarrow> bytes \<Rightarrow> string \<Rightarrow> string \<Rightarrow> share \<Rightarrow> 'w beam \<Rightarrow> share res \<times> 'w beam" where
  "beam_judge env j nonce output nonceHex outputHex share st =
     (let header = bj_input j @ nonce in
      if bv_verify env header output \<noteq> Some True then reject ErrIncorrectNonceSize share st
      else
        (let share = share\<lparr>sh_Diff := f64_of_u64 (bj_difficulty j)\<rparr> in
         case beam_send env (IMap [(''method'', IStr ''solution''), (''id'', IStr (bj_id j)), (''nonce'', IStr nonceHex),
                                   (''output'', IStr outputHex), (''jsonrpc'', IStr ''2.0'')]) st of
           (Inl _, st) \<Rightarrow> (Inr share, st)
         | (Inr _, st) \<Rightarrow> (Inr (share\<lparr>sh_BlockHash := hex_encode header\<rparr>), st)))"

definition beam_OnSubmit :: "'w beam_env \<Rightarrow> session_view \<Rightarrow> iface list \<Rightarrow> 'w beam \<Rightarrow> share res \<times> 'w beam" where
  "beam_OnSubmit env v params st =
     (let share = fresh_share v in
      if length params < 4 then reject ErrIncorrectNonceSize share st
      else
        (case (as_string (params ! 1), as_string (params ! 2), as_string (params ! 3)) of
           (Some jobID, Some nonceHex, Some outputHex) \<Rightarrow>
             (let nonceHex = norm_hex nonceHex; outputHex = norm_hex outputHex in
              case map_of (ba_history st) jobID of
                None \<Rightarrow> reject ErrJobNotFound share st
              | Some (j, seen) \<Rightarrow>
                  (let share = share\<lparr>sh_JobId := bj_id j\<rparr> in
                   case hex_decode nonceHex of (nonce, ok1) \<Rightarrow>
                     if \<not> ok1 \<or> length nonce \<noteq> 8 then reject ErrIncorrectNonceSize share st
                     else
                       (case hex_decode outputHex of (output, ok2) \<Rightarrow>
                          if \<not> ok2 \<or> length output \<noteq> 104 then reject ErrIncorrectNonceSize share st
                          else
                            (let key = nonceHex @ outputHex in
                             if key \<in> set seen then reject ErrDuplicateShare share st
                             else beam_judge env j nonce output nonceHex outputHex share
                                    (st\<lparr>ba_history := mark_seen jobID key (ba_history st)\<rparr>)))))
         | _ \<Rightarrow> reject ErrIncorrectNonceSize share st))"

definition beam_engine :: "'w beam_env \<Rightarrow> 'w beam engine" where
  "beam_engine env =
     \<lparr>en_OnSubscribe = beam_OnSubscribe, en_JobNotification = beam_JobNotification, en_OnSubmit = beam_OnSubmit env,
      en_JobParamsForDifficulty = Some beam_JobParams, en_NotifyMethod = Some ''mining.notify'',
      en_TargetParams = Some beam_TargetParams, en_ObjectParams = None\<rparr>"

subsection \<open>What a Beam share shows\<close>

text \<open>
  The verdict does not look at the difficulty of the connection: every valid solution of a job is
  accepted, and recorded with the job's network difficulty.
\<close>

lemma beam_judge_any_difficulty:
  assumes "bv_verify env (bj_input j @ nonce) output = Some True"
  shows "\<exists>sh st'. beam_judge env j nonce output nh oh share st = (Inr sh, st') \<and>
    sh_ErrorCode sh = sh_ErrorCode share \<and> sh_Diff sh = f64_of_u64 (bj_difficulty j)"
  using assms by (auto simp: beam_judge_def Let_def split: prod.splits sum.splits)

lemma beam_send_keeps: "beam_send env m st = (r, st') \<Longrightarrow> ba_history st' = ba_history st"
  by (auto simp: beam_send_def split: if_splits prod.splits)

text \<open>A solution is accepted once while its job is held: the next submission of it is a duplicate.\<close>

lemma beam_judge_keeps: "beam_judge env j n out nh oh share st = (r, st') \<Longrightarrow> ba_history st' = ba_history st"
  by (auto simp: beam_judge_def Let_def reject_def split: if_splits prod.splits sum.splits dest: beam_send_keeps)

lemma beam_accepted_then_duplicate:
  assumes "beam_OnSubmit env v ps st = (Inr sh, st')" "sh_ErrorCode sh = 0"
  shows "\<exists>sh'. beam_OnSubmit env v' ps st' = (Inr sh', st') \<and> sh_ErrorCode sh' = ErrDuplicateShare"
proof -
  have e: "reject c x s = (Inr sh, st') \<Longrightarrow> c = 0" for c x s using assms(2) by (auto simp: reject_def set_err_def)
  obtain i n out j seen nb ob where
    p: "\<not> length ps < 4" "as_string (ps ! 1) = Some i" "as_string (ps ! 2) = Some n" "as_string (ps ! 3) = Some out"
      "map_of (ba_history st) i = Some (j, seen)" "hex_decode (norm_hex n) = (nb, True)" "length nb = 8"
      "hex_decode (norm_hex out) = (ob, True)" "length ob = 104"
    and jd: "\<exists>share. beam_judge env j nb ob (norm_hex n) (norm_hex out) share
         (st\<lparr>ba_history := mark_seen i (norm_hex n @ norm_hex out) (ba_history st)\<rparr>) = (Inr sh, st')"
    using assms(1)
    by (auto simp: beam_OnSubmit_def Let_def err_codes split: option.splits if_splits prod.splits dest!: e) blast
  have "map_of (ba_history st') i = Some (j, (norm_hex n @ norm_hex out) # seen)"
    using jd p(5) by (auto dest!: beam_judge_keeps simp: mark_seen_lookup)
  then show ?thesis using p by (simp add: beam_OnSubmit_def Let_def reject_def set_err_def)
qed

end
