(* ===== verification/Worksource.thy ===== *)
theory Worksource
  imports Alephium Beam
begin

text \<open>
  \<open>engine/worksource/\<close>: how an engine learns of new work, and the \<open>Watch\<close> loops built on it.

  A refresh changes the state and says whether miners must be told. A source is a long-running
  function; its rounds are driven by inputs from outside: a tick of the poll timer, a
  notification of the node, a ZMQ message, or the end of the node's stream. A round either
  goes on (\<open>None\<close>) or is the return of the source (\<open>Some\<close> of what it returns). \<open>Run\<close> starts every
  source in a goroutine of its own, so its rounds come in an arbitrary order.
\<close>

type_synonym 's refresh_fn = "'s \<Rightarrow> bool res \<times> 's"
type_synonym 's emit_fn = "'s \<Rightarrow> 's"

datatype source_input = Tick | Notified | Message "bytes list" | StreamEnd

type_synonym 's source_round = "'s emit_fn \<Rightarrow> source_input \<Rightarrow> 's \<Rightarrow> unit res option \<times> 's"

text \<open>Refresh and emit on change. An error is logged and is no change; a panic ends the goroutine.\<close>

definition on_event :: "'s refresh_fn \<Rightarrow> 's emit_fn \<Rightarrow> 's \<Rightarrow> unit res option \<times> 's" where
  "on_event refresh emit s =
     (case refresh s of
        (Inl (Err _), s) \<Rightarrow> (None, s)
      | (Inl e, s) \<Rightarrow> (Some (Inl e), s)
      | (Inr changed, s) \<Rightarrow> (None, if changed then emit s else s))"

definition Poll :: "'s refresh_fn \<Rightarrow> 's source_round" where
  "Poll refresh emit i s = (case i of Tick \<Rightarrow> on_event refresh emit s | _ \<Rightarrow> (None, s))"

text \<open>When the stream ends, \<open>Subscribe\<close> sleeps and opens it again; it never returns.\<close>

definition Subscribe :: "'s refresh_fn \<Rightarrow> 's source_round" where
  "Subscribe refresh emit i s = (case i of Notified \<Rightarrow> on_event refresh emit s | _ \<Rightarrow> (None, s))"

text \<open>A ZMQ message is an event when its first frame begins with the topic.\<close>

definition ZMQSource :: "bytes \<Rightarrow> 's refresh_fn \<Rightarrow> 's source_round" where
  "ZMQSource topic refresh emit i s =
     (case i of
        Message frames \<Rightarrow>
          if frames \<noteq> [] \<and> take (length topic) (hd frames) = topic then on_event refresh emit s else (None, s)
      | _ \<Rightarrow> (None, s))"

text \<open>
  \<open>Run\<close>, for a schedule of rounds: which source moves and on what input. It returns what the first
  source that returns does; without sources it blocks for ever.
\<close>

fun run_sources :: "'s source_round list \<Rightarrow> 's emit_fn \<Rightarrow> (nat \<times> source_input) list \<Rightarrow> 's \<Rightarrow> unit res option \<times> 's" where
  "run_sources srcs emit [] s = (None, s)"
| "run_sources srcs emit ((k, i) # sched) s =
     (if k < length srcs
      then (case (srcs ! k) emit i s of (Some r, s) \<Rightarrow> (Some r, s) | (None, s) \<Rightarrow> run_sources srcs emit sched s)
      else run_sources srcs emit sched s)"

text \<open>
  \<open>Watch\<close> of the engines, as the sources they run. Three add the node's ZMQ topic when an endpoint is
  configured; Kaspa adds the events of its RPC client; all poll.
\<close>

definition zmq_or_poll :: "string \<Rightarrow> string \<Rightarrow> 's refresh_fn \<Rightarrow> 's source_round list" where
  "zmq_or_poll topic zmq refresh =
     (let sources = [Poll refresh] in if zmq \<noteq> '''' then [ZMQSource (of_str topic) refresh] @ sources else sources)"

definition kawpow_Watch :: "string \<Rightarrow> 's refresh_fn \<Rightarrow> 's source_round list" where
  "kawpow_Watch zmq refresh = zmq_or_poll ''hashblock'' zmq refresh"

definition equihash_Watch :: "string \<Rightarrow> 's refresh_fn \<Rightarrow> 's source_round list" where
  "equihash_Watch zmq refresh = zmq_or_poll ''hashblock'' zmq refresh"

definition cryptonote_Watch :: "string \<Rightarrow> 's refresh_fn \<Rightarrow> 's source_round list" where
  "cryptonote_Watch zmq refresh = zmq_or_poll ''json-minimal-chain_main'' zmq refresh"

definition ethash_Watch :: "'s refresh_fn \<Rightarrow> 's source_round list" where
  "ethash_Watch refresh = [Poll refresh]"

definition ergo_Watch :: "'s refresh_fn \<Rightarrow> 's source_round list" where
  "ergo_Watch refresh = [Poll refresh]"

definition kaspa_Watch :: "'s refresh_fn \<Rightarrow> 's source_round list" where
  "kaspa_Watch refresh = [Subscribe refresh, Poll refresh]"

definition watches :: "string \<Rightarrow> 's refresh_fn \<Rightarrow> 's source_round list list" where
  "watches zmq refresh = [kawpow_Watch zmq refresh, equihash_Watch zmq refresh, cryptonote_Watch zmq refresh,
     ethash_Watch refresh, ergo_Watch refresh, kaspa_Watch refresh]"

lemmas watch_defs = watches_def kawpow_Watch_def equihash_Watch_def cryptonote_Watch_def ethash_Watch_def ergo_Watch_def kaspa_Watch_def
  zmq_or_poll_def Let_def

subsection \<open>The loops that reconnect\<close>

text \<open>
  \<open>Watch\<close> of the Alephium and the Beam engine: an outer loop that dials when there is no connection and
  then runs a source made by \<open>Subscribe\<close>, whose inner loop opens the stream again each time it ends.
  \<open>opened\<close> is one call of \<open>open\<close>: it reads the connection until it fails. Fuel bounds both loops;
  \<open>None\<close> means that the loop is still running.
\<close>

fun subscribe_loop :: "nat \<Rightarrow> ('s \<Rightarrow> 's) \<Rightarrow> 's \<Rightarrow> unit res option \<times> 's" where
  "subscribe_loop 0 opened s = (None, s)"
| "subscribe_loop (Suc n) opened s = subscribe_loop n opened (opened s)"

fun redial_loop :: "nat \<Rightarrow> ('s \<Rightarrow> bool) \<Rightarrow> ('s \<Rightarrow> bool \<times> 's) \<Rightarrow> ('s \<Rightarrow> 's) \<Rightarrow> ('s \<Rightarrow> 's) \<Rightarrow> 's \<Rightarrow> unit res option \<times> 's" where
  "redial_loop 0 connected_to dial opened close s = (None, s)"
| "redial_loop (Suc n) connected_to dial opened close s =
     (if connected_to s then
        (case subscribe_loop n opened s of
           (None, s) \<Rightarrow> (None, s)
         | (Some _, s) \<Rightarrow> redial_loop n connected_to dial opened close (close s))
      else
        (case dial s of
           (False, s) \<Rightarrow> redial_loop n connected_to dial opened close s
         | (True, s) \<Rightarrow>
             (case subscribe_loop n opened s of
                (None, s) \<Rightarrow> (None, s)
              | (Some _, s) \<Rightarrow> redial_loop n connected_to dial opened close (close s))))"

subsection \<open>New work is announced, exactly when there is some\<close>

text \<open>A refresh that may fail but does not panic.\<close>

definition no_panic :: "'s refresh_fn \<Rightarrow> bool" where
  "no_panic refresh \<longleftrightarrow> (\<forall>s. case fst (refresh s) of Inl (Err _) \<Rightarrow> True | Inl _ \<Rightarrow> False | Inr _ \<Rightarrow> True)"

lemma on_event_goes_on: "no_panic refresh \<Longrightarrow> fst (on_event refresh emit s) = None"
  unfolding no_panic_def on_event_def by (drule spec [of _ s]) (auto split: prod.splits sum.splits go_error.splits)

lemma watch_goes_on:
  assumes "no_panic refresh" "srcs \<in> set (watches zmq refresh)" "src \<in> set srcs"
  shows "fst (src emit i s) = None"
  using assms(2,3) on_event_goes_on [OF assms(1)]
  by (auto simp: watch_defs Poll_def Subscribe_def ZMQSource_def split: source_input.splits if_splits)

lemma watch_polls: "srcs \<in> set (watches zmq refresh) \<Longrightarrow> srcs \<noteq> [] \<and> last srcs = Poll refresh"
  by (auto simp: watch_defs split: if_splits)

lemma run_sources_append:
  "run_sources srcs emit (a @ b) s =
     (case run_sources srcs emit a s of (None, s) \<Rightarrow> run_sources srcs emit b s | (Some r, s) \<Rightarrow> (Some r, s))"
  by (induction srcs emit a s rule: run_sources.induct) (auto split: prod.splits option.splits)

lemma run_goes_on:
  assumes "\<And>src emit i s. src \<in> set srcs \<Longrightarrow> fst (src emit i s) = None"
  shows "fst (run_sources srcs emit sched s) = None"
proof (induction sched arbitrary: s)
  case (Cons x sched)
  obtain k i where x: "x = (k, i)" by (cases x)
  show ?case
  proof (cases "k < length srcs")
    case True
    then have "fst ((srcs ! k) emit i s) = None" by (intro assms) simp
    then show ?thesis using Cons True by (auto simp: x split: prod.splits option.splits)
  qed (use Cons x in simp)
qed simp

lemma poll_round:
  assumes "no_panic refresh" "srcs \<in> set (watches zmq refresh)" "run_sources srcs emit sched s = (r, s1)" "refresh s1 = (Inr True, s2)"
  shows "r = None \<and> run_sources srcs emit (sched @ [(length srcs - 1, Tick)]) s = (None, emit s2)"
proof -
  have "fst (run_sources srcs emit sched s) = None"
    by (rule run_goes_on) (rule watch_goes_on [OF assms(1,2)])
  then have r: "r = None" using assms(3) by simp
  from watch_polls [OF assms(2)] have "length srcs - 1 < length srcs" "srcs ! (length srcs - 1) = Poll refresh"
    by (auto simp: last_conv_nth)
  then have "run_sources srcs emit [(length srcs - 1, Tick)] s1 = (None, emit s2)"
    using assms(4) by (simp add: Poll_def on_event_def)
  then show ?thesis using assms(3) r by (simp add: run_sources_append)
qed

text \<open>
  New work always reaches the miners. Let an engine that polls its node (all but Alephium and
  Beam do, with or without events of the node beside it) have a refresh that does not panic. Whatever
  ticks, messages and broken streams came before, in any order, the watch is still running, and when
  the next poll tick finds new work, it is announced.
\<close>

theorem poll_announces_new_work:
  assumes "no_panic refresh" "srcs \<in> set (watches zmq refresh)" "run_sources srcs emit sched s = (r, s1)" "refresh s1 = (Inr True, s2)"
  shows "r = None \<and> run_sources srcs emit (sched @ [(length srcs - 1, Tick)]) s = (None, emit s2)"
  using poll_round [OF assms] .

theorem poll_announces_new_work_witness:
  "run_sources (kawpow_Watch ''tcp'' (\<lambda>n. (Inr (even n), Suc n))) (\<lambda>n. n + 100) ([(0, StreamEnd)] @ [(1, Tick)]) 4 = (None, 105 :: nat)"
  using poll_announces_new_work [of "\<lambda>n. (Inr (even n), Suc n)" "kawpow_Watch ''tcp'' (\<lambda>n. (Inr (even n), Suc n))" "''tcp''"
      "\<lambda>n. n + 100" "[(0, StreamEnd)]" 4 None 4 5]
  by (simp add: no_panic_def watch_defs ZMQSource_def)

subsection \<open>A lost connection is never dialled again\<close>

lemma subscribe_loop_never_returns: "subscribe_loop n opened s = (None, (opened ^^ n) s)"
  by (induction n arbitrary: s) (simp_all add: funpow_swap1)

text \<open>
  \<open>open\<close> of the Alephium engine: read frames and handle them until a read fails (\<open>ords n\<close> gives the
  eviction orders of the \<open>n\<close>-th frame). Bytes of a frame are consumed, so the loop ends with the stream;
  an eviction that hangs (theory \<open>Alephium\<close>) is counted as an end, too.
\<close>

lemma readFrame_consumes: "readFrame s = (Inr x, s') \<Longrightarrow> length s' < length s"
  by (auto simp: readFrame_def readFull_def Let_def split: prod.splits sum.splits if_splits)

lemma watch_frame_consumes: "alephium_watch_frame s ords st = ((Inr b, s'), st') \<Longrightarrow> length s' < length s"
  by (auto simp: alephium_watch_frame_def split: prod.splits sum.splits if_splits go_error.splits dest: readFrame_consumes)

function alephium_open :: "(nat \<Rightarrow> nat \<Rightarrow> string list) \<Rightarrow> nat \<Rightarrow> 'w alephium \<times> bytes \<Rightarrow> 'w alephium \<times> bytes" where
  "alephium_open ords n (st, s) =
     (case alephium_watch_frame s (ords n) st of
        ((Inr _, s'), st) \<Rightarrow> alephium_open ords (Suc n) (st, s')
      | ((Inl _, s'), st) \<Rightarrow> (st, s'))"
  by pat_completeness auto
termination
  by (relation "measure (\<lambda>(_, _, _, s). length s)") (auto dest: watch_frame_consumes [OF sym])

lemma alephium_open_ended: "alephium_open ords n (st, []) = (st, [])"
  by (simp add: alephium_watch_frame_def readFrame_def readFull_def)

text \<open>
  C39. When an Alephium node closes its stream, the engine never gets work again. \<open>Watch\<close> runs the
  stream under \<open>Subscribe\<close>, which opens it again itself and never returns, so the code behind it that
  closes the connection and dials is not reached. Let \<open>st1\<close> be the engine when the stream has ended:
  however long the loop runs on, and whatever dialling would do, the engine stays in \<open>st1\<close>.
\<close>

theorem alephium_never_redials:
  assumes "as_conn st" "alephium_open ords 0 (st, s) = (st1, [])" "0 < n"
  shows "redial_loop (Suc n) (\<lambda>(st, _). as_conn st) dial (alephium_open ords 0) close (st, s) = (None, (st1, []))"
proof -
  obtain m where n: "n = Suc m" using assms(3) by (cases n) auto
  have "(alephium_open ords 0 ^^ m) (st1, []) = (st1, [])" by (induction m) (simp_all add: alephium_open_ended del: alephium_open.simps)
  then show ?thesis using assms(1,2) by (simp add: subscribe_loop_never_returns n funpow_swap1 del: alephium_open.simps)
qed

theorem alephium_never_redials_witness:
  "redial_loop 3 (\<lambda>(st, _). as_conn st) (\<lambda>x. (True, x)) (alephium_open (\<lambda>_ _. []) 0) id ((new_alephium ())\<lparr>as_conn := True\<rparr>, []) =
    (None, ((new_alephium ())\<lparr>as_conn := True\<rparr>, []))"
  using alephium_never_redials [of "(new_alephium ())\<lparr>as_conn := True\<rparr>" "\<lambda>_ _. []" "[]" _ 2 "\<lambda>x. (True, x)" id, OF _ alephium_open_ended]
  by (simp add: numeral_3_eq_3 numeral_2_eq_2 del: alephium_open.simps)

end
