(* ===== verification/Api.thy ===== *)
theory Api
  imports Storage
begin

text \<open>
  \<open>api/server.go\<close>: the HTTP interface. A handler reads the store and answers with a structure that is
  marshalled to JSON; the handlers are functions to that structure. Routing is by gorilla/mux, so a
  handler's path variables are arguments; the time of the request is one, too.
\<close>

record api_server =
  api_availablePaths :: "string list"
  api_config :: "(string \<times> iface) list"

definition RegisterFunc :: "string \<Rightarrow> api_server \<Rightarrow> api_server" where
  "RegisterFunc path s = s\<lparr>api_availablePaths := api_availablePaths s @ [path]\<rparr>"

text \<open>The four parts of the options that are shown, as the values they marshal to.\<close>

definition ConvertConf :: "iface \<times> iface \<times> iface \<times> iface \<Rightarrow> api_server \<Rightarrow> api_server" where
  "ConvertConf = (\<lambda>(ports, algorithm, coin, api) s.
     s\<lparr>api_config := map_put ''api'' api (map_put ''coin'' coin (map_put ''algorithm'' algorithm (map_put ''ports'' ports (api_config s))))\<rparr>)"

definition NewAPIServer :: "iface \<times> iface \<times> iface \<times> iface \<Rightarrow> api_server" where
  "NewAPIServer opts =
     fold RegisterFunc [''/'', ''/pool'', ''/config'', ''/config/{key}'', ''/miner/{miner}'', ''/miner/{miner}/rig/{rig}'']
       (ConvertConf opts \<lparr>api_availablePaths = [], api_config = []\<rparr>)"

definition indexFunc :: "api_server \<Rightarrow> iface" where
  "indexFunc s = IList (map IStr (api_availablePaths s))"

text \<open>The keys come in the order in which Go visits the map (\<open>ord\<close>).\<close>

definition configIndexFunc :: "string list \<Rightarrow> api_server \<Rightarrow> iface" where
  "configIndexFunc ord s = IList (map (\<lambda>k. IStr (''/config/'' @ k)) (filter (\<lambda>k. k \<in> fst ` set (api_config s)) ord))"

definition configFunc :: "string \<Rightarrow> api_server \<Rightarrow> iface" where
  "configFunc key s = (case map_of (api_config s) key of Some v \<Rightarrow> v | None \<Rightarrow> INil)"

record hashrates =
  hr_1Min :: f64
  hr_30Min :: f64
  hr_1H :: f64
  hr_6H :: f64
  hr_1D :: f64

record pool_info = hashrates +
  pi_CoinName :: string
  pi_Miners :: "string list"

record miner_info = hashrates +
  mi_Name :: string
  mi_RoundContrib :: f64
  mi_Rigs :: "string list"

record rig_info = hashrates +
  ri_Name :: string
  ri_MinerName :: string

text \<open>The value beside a returned error (which is only logged): zero, or no list.\<close>

definition num_or_zero :: "f64 res \<Rightarrow> f64" where
  "num_or_zero r = (case r of Inr x \<Rightarrow> x | Inl _ \<Rightarrow> Fin 0)"

definition list_or_nil :: "string list res \<Rightarrow> string list" where
  "list_or_nil r = (case r of Inr x \<Rightarrow> x | Inl _ \<Rightarrow> [])"

text \<open>The five reads every handler makes, for the last minute, half hour, hour, six hours and day.\<close>

fun read_rates :: "(int \<Rightarrow> int \<Rightarrow> 'r \<Rightarrow> f64 res \<times> 'r) \<Rightarrow> int \<Rightarrow> int list \<Rightarrow> 'r \<Rightarrow> f64 list \<times> 'r" where
  "read_rates get now [] r = ([], r)"
| "read_rates get now (d # ds) r =
     (case get (now - d) now r of (x, r) \<Rightarrow>
      case read_rates get now ds r of (xs, r) \<Rightarrow> (num_or_zero x # xs, r))"

definition spans :: "int list" where
  "spans = [60, 30 * 60, 60 * 60, 6 * 60 * 60, 24 * 60 * 60]"

definition poolFunc :: "'r redis \<Rightarrow> db \<Rightarrow> int \<Rightarrow> 'r \<Rightarrow> pool_info \<times> 'r" where
  "poolFunc rd s now r =
     (case read_rates (GetPoolHashrate rd s) now spans r of (hs, r) \<Rightarrow>
      case GetMinerIndex rd s r of (miners, r) \<Rightarrow>
        (\<lparr>hr_1Min = hs ! 0, hr_30Min = hs ! 1, hr_1H = hs ! 2, hr_6H = hs ! 3, hr_1D = hs ! 4,
          pi_CoinName = '''', pi_Miners = list_or_nil miners\<rparr>, r))"

definition minerFunc :: "'r redis \<Rightarrow> db \<Rightarrow> int \<Rightarrow> string \<Rightarrow> 'r \<Rightarrow> miner_info \<times> 'r" where
  "minerFunc rd s now minerName r =
     (case GetMinerCurrentRoundContrib rd s minerName r of (roundContrib, r) \<Rightarrow>
      case read_rates (GetMinerHashrate rd s minerName) now spans r of (hs, r) \<Rightarrow>
      case GetRigIndex rd s minerName r of (rigs, r) \<Rightarrow>
        (\<lparr>hr_1Min = hs ! 0, hr_30Min = hs ! 1, hr_1H = hs ! 2, hr_6H = hs ! 3, hr_1D = hs ! 4,
          mi_Name = minerName, mi_RoundContrib = num_or_zero roundContrib, mi_Rigs = list_or_nil rigs\<rparr>, r))"

definition rigFunc :: "'r redis \<Rightarrow> db \<Rightarrow> int \<Rightarrow> string \<Rightarrow> string \<Rightarrow> 'r \<Rightarrow> rig_info \<times> 'r" where
  "rigFunc rd s now minerName rigName r =
     (case read_rates (GetRigHashrate rd s minerName rigName) now spans r of (hs, r) \<Rightarrow>
        (\<lparr>hr_1Min = hs ! 0, hr_30Min = hs ! 1, hr_1H = hs ! 2, hr_6H = hs ! 3, hr_1D = hs ! 4,
          ri_Name = rigName, ri_MinerName = minerName\<rparr>, r))"

subsection \<open>The hashrates are always zero\<close>

text \<open>
  The sets of shares are read with \<open>ZRANGE\<close>, whose bounds are ranks; the handlers pass times in
  seconds. A set would need as many members as seconds since 1970 for one to be in range.
\<close>

lemma range_get_past_end: "int (length z) \<le> a \<Longrightarrow> range_get a b z = []"
  by (auto simp: range_get_def rank_range_def Let_def split: prod.splits if_splits)

context redis_store
begin

lemma zrange_past_end:
  assumes "rd_do rd (ZRange k a b) r = (rep, r')" "\<forall>z. view r k = Scored z \<longrightarrow> int (length z) \<le> a"
  shows "view r' = view r \<and> (rep = RErr \<or> rep = RList [])"
proof (cases "rep = RErr")
  case True
  have "redis_eff hif (ZRange k a b) (view r) = view r" by (auto simp: redis_eff_def split: rvalue.splits)
  then show ?thesis using do_error [of "ZRange k a b" r r'] assms(1) True by auto
next
  case False
  then have "redis_sem hif (ZRange k a b) (view r) = (rep, view r')" using do_reply [OF assms(1)] by simp
  then show ?thesis using assms(2) by (auto simp: range_get_past_end split: rvalue.splits)
qed

lemma hget_keeps: "query rd (HGet k f) g r = (x, r') \<Longrightarrow> view r' = view r"
proof -
  assume "query rd (HGet k f) g r = (x, r')"
  then obtain rep where "rd_do rd (HGet k f) r = (rep, r')" by (auto simp: query_def split: prod.splits)
  moreover have "redis_eff hif (HGet k f) (view r) = view r" by (auto simp: redis_eff_def split: rvalue.splits option.splits)
  ultimately show ?thesis using do_view by fastforce
qed

lemma zero_rate:
  assumes "query rd (ZRange k a b) (hashrate_of a b) r = (x, r')" "\<forall>z. view r k = Scored z \<longrightarrow> int (length z) \<le> a" "a < b" "b - a < 2 ^ 53"
  shows "num_or_zero x = Fin 0 \<and> view r' = view r"
proof -
  obtain rep where rep: "rd_do rd (ZRange k a b) r = (rep, r')" "x = hashrate_of a b rep"
    using assms(1) by (auto simp: query_def split: prod.splits)
  have "f64_of_int (b - a) = Fin (of_int (b - a))" using assms(3,4) by (intro f64_of_int_exact) simp
  then have "hashrate_of a b (RList []) = Inr (Fin 0)"
    using assms(3) f64_round_exact [of 0] by (simp add: hashrate_of_def as_list_def)
  moreover have "hashrate_of a b RErr = redis_error" by (simp add: hashrate_of_def as_list_def redis_error_def)
  ultimately show ?thesis
    using zrange_past_end [OF rep(1) assms(2)] rep(2) by (auto simp: num_or_zero_def redis_error_def)
qed

lemma zero_rates:
  assumes "\<And>a b r. get a b r = query rd (ZRange k a b) (hashrate_of a b) r" "\<forall>z. view r k = Scored z \<longrightarrow> int (length z) \<le> now - 86400"
    and "\<forall>d\<in>set ds. 0 < d \<and> d \<le> 86400"
  shows "\<exists>r'. read_rates get now ds r = (replicate (length ds) (Fin 0), r') \<and> view r' = view r"
  using assms(2,3)
proof (induction ds arbitrary: r)
  case (Cons d ds)
  obtain x r1 where g: "get (now - d) now r = (x, r1)" by (cases "get (now - d) now r")
  have "num_or_zero x = Fin 0 \<and> view r1 = view r"
    using Cons.prems by (intro zero_rate [of k "now - d" now]) (auto simp: assms(1) [symmetric] g)
  then show ?case using Cons.IH [of r1] Cons.prems by (auto simp: g split: prod.splits)
qed simp

end

definition no_rates :: hashrates where
  "no_rates = \<lparr>hr_1Min = Fin 0, hr_30Min = Fin 0, hr_1H = Fin 0, hr_6H = Fin 0, hr_1D = Fin 0\<rparr>"

lemma api_rates_zero:
  assumes "redis_store rd view hif" "\<forall>k z. view r k = Scored z \<longrightarrow> int (length z) \<le> now - 86400"
  shows "hashrates.truncate (fst (poolFunc rd s now r)) = no_rates" "hashrates.truncate (fst (minerFunc rd s now m r)) = no_rates"
    "hashrates.truncate (fst (rigFunc rd s now m g r)) = no_rates"
proof -
  have sp: "\<forall>d\<in>set spans. 0 < d \<and> d \<le> 86400" "length spans = 5" by (simp_all add: spans_def)
  note zr = redis_store.zero_rates [OF assms(1) _ _ sp(1), unfolded sp(2)]
  obtain r1 where "read_rates (GetPoolHashrate rd s) now spans r = (replicate 5 (Fin 0), r1)"
    using zr [of "GetPoolHashrate rd s" "db_coin s @ '':pool:shares''" r now] assms(2) by (auto simp: GetPoolHashrate_def)
  then show "hashrates.truncate (fst (poolFunc rd s now r)) = no_rates"
    by (auto simp: poolFunc_def hashrates.truncate_def no_rates_def split: prod.splits)
  obtain r2 where "read_rates (GetRigHashrate rd s m g) now spans r = (replicate 5 (Fin 0), r2)"
    using zr [of "GetRigHashrate rd s m g" "key_miner s m ('':rig:'' @ g @ '':hashes'')" r now] assms(2) by (auto simp: GetRigHashrate_def)
  then show "hashrates.truncate (fst (rigFunc rd s now m g r)) = no_rates"
    by (auto simp: rigFunc_def hashrates.truncate_def no_rates_def split: prod.splits)
  obtain x r3 where c: "GetMinerCurrentRoundContrib rd s m r = (x, r3)" by (cases "GetMinerCurrentRoundContrib rd s m r")
  have "view r3 = view r" using redis_store.hget_keeps [OF assms(1)] c by (simp add: GetMinerCurrentRoundContrib_def)
  then obtain r4 where "read_rates (GetMinerHashrate rd s m) now spans r3 = (replicate 5 (Fin 0), r4)"
    using zr [of "GetMinerHashrate rd s m" "key_miner s m '':shares''" r3 now] assms(2) by (auto simp: GetMinerHashrate_def)
  then show "hashrates.truncate (fst (minerFunc rd s now m r)) = no_rates"
    by (auto simp: minerFunc_def c hashrates.truncate_def no_rates_def split: prod.splits)
qed

text \<open>
  The hashrates the interface reports are always zero. For every store and every request, as
  long as no set of shares has as many members as there were seconds since 1970 a day before the
  request, all five hashrates of the pool, of every miner and of every rig are 0.
\<close>

theorem hashrates_always_zero:
  assumes "redis_store rd view hif" "\<forall>k z. view r k = Scored z \<longrightarrow> int (length z) \<le> now - 86400"
  shows "hashrates.truncate (fst (poolFunc rd s now r)) = no_rates \<and> hashrates.truncate (fst (minerFunc rd s now m r)) = no_rates \<and>
    hashrates.truncate (fst (rigFunc rd s now m g r)) = no_rates"
  using api_rates_zero [OF assms] by blast

theorem hashrates_always_zero_witness:
  "hashrates.truncate (fst (minerFunc mem_redis \<lparr>db_coin = ''btc'', db_ppsMode = False, db_pplnsLogCap = 1\<rparr> 1700000000 ''m''
     ((\<lambda>_. Absent)(''btc:pool:shares'' := Scored [(''1'', Fin 1699999999)])))) = no_rates"
  using hashrates_always_zero [OF mem.redis_store_axioms, of "(\<lambda>_. Absent)(''btc:pool:shares'' := Scored [(''1'', Fin 1699999999)])" 1700000000]
  by simp

end
