(* ===== verification/Verthash.thy ===== *)
theory Verthash
  imports Algorithm
begin

text \<open>
  The hash functions of \<open>algorithm/algorithm.go\<close> that can fail: Lyra2REv2, and Verthash with its client,
  which is made once and lazily. The client of the third-party package is a value of type \<open>'c\<close>;
  \<open>new\<close> is what its constructor gives (\<open>None\<close> for an error).
\<close>

definition Lyra2Rev2Hash :: "(bytes \<Rightarrow> bytes option) \<Rightarrow> bytes \<Rightarrow> bytes res" where
  "Lyra2Rev2Hash lyra b = (case lyra b of None \<Rightarrow> Inl (Panic ''lyra2rev2 failed'') | Some s \<Rightarrow> Inr s)"

text \<open>\<open>sync.Once\<close>: the first call counts as done even when its function panics.\<close>

record 'c verthash =
  vh_once :: bool
  vh_client :: "'c option"

definition new_verthash :: "'c verthash" where
  "new_verthash = \<lparr>vh_once = False, vh_client = None\<rparr>"

definition initVerthash :: "'c option \<Rightarrow> 'c verthash \<Rightarrow> unit res \<times> 'c verthash" where
  "initVerthash new st =
     (if vh_once st then (Inr (), st)
      else
        (case new of
           None \<Rightarrow> (Inl (Panic ''verthash init failed''), st\<lparr>vh_once := True\<rparr>)
         | Some c \<Rightarrow> (Inr (), st\<lparr>vh_once := True, vh_client := Some c\<rparr>)))"

definition VerthashHash :: "('c \<Rightarrow> bytes \<Rightarrow> bytes) \<Rightarrow> 'c option \<Rightarrow> bytes \<Rightarrow> 'c verthash \<Rightarrow> bytes res \<times> 'c verthash" where
  "VerthashHash compute new b st =
     (case initVerthash new st of
        (Inl e, st) \<Rightarrow> (Inl e, st)
      | (Inr _, st) \<Rightarrow>
          (case vh_client st of
             None \<Rightarrow> (Inl (Panic ''nil pointer dereference''), st)
           | Some c \<Rightarrow> (Inr (compute c b), st)))"

definition warmups :: "string list" where
  "warmups = [''verthash'']"

definition Warmup :: "string \<Rightarrow> 'c option \<Rightarrow> 'c verthash \<Rightarrow> unit res \<times> 'c verthash" where
  "Warmup hashName new st = (if to_lower hashName \<in> set warmups then initVerthash new st else (Inr (), st))"

text \<open>\<open>tools/e2everthashgen\<close>, with the directory made before (its error is ignored).\<close>

definition verthashgen_main :: "'c option \<Rightarrow> 'c verthash \<Rightarrow> unit res \<times> 'c verthash" where
  "verthashgen_main new st = Warmup ''verthash'' new st"

text \<open>
  A hash uses the client that the first successful call made: after a warm-up with the client \<open>c\<close>, in any
  letter case of the name, every hash is computed by \<open>c\<close>, whatever the constructor would give now, and
  the state stays as it is.
\<close>

lemma Warmup_then_hash:
  assumes "to_lower name = ''verthash''" "Warmup name (Some c) new_verthash = (r, st)"
  shows "r = Inr () \<and> VerthashHash compute new b st = (Inr (compute c b), st)"
  using assms by (auto simp: Warmup_def warmups_def initVerthash_def VerthashHash_def new_verthash_def)

text \<open>
  A client that could not be made once is never made: the first hash panics with the error of the
  constructor, and every later one on the nil client, even when the constructor would succeed.
\<close>

lemma failed_init_is_final:
  "\<exists>st. VerthashHash compute None b new_verthash = (Inl (Panic ''verthash init failed''), st) \<and>
     (\<forall>new b. VerthashHash compute new b st = (Inl (Panic ''nil pointer dereference''), st))"
  by (simp add: VerthashHash_def initVerthash_def new_verthash_def)

end
