(* ===== verification/Connections.thy ===== *)
theory Connections
  imports Daemons
begin

text \<open>
  How the pool connects to what it does not contain: \<open>config/tls.go\<close>, \<open>config/redis.go\<close>, and the HTTP side
  of \<open>daemons/manager.go\<close>, that is the table of clients, the request and \<open>BatchCmd\<close>. Loading a key pair
  and the exchange itself are parameters.
\<close>

subsection \<open>TLS and Redis options\<close>

record tls_options =
  to_CertFile :: string
  to_KeyFile :: string

record 'k tls_config =
  tc_Certificates :: "'k list"
  tc_InsecureSkipVerify :: bool

definition load_certs :: "(string \<Rightarrow> string \<Rightarrow> 'k option) \<Rightarrow> go_error \<Rightarrow> tls_options \<Rightarrow> 'k list res" where
  "load_certs load err o' =
     (if 0 < length (to_CertFile o') \<and> 0 < length (to_KeyFile o')
      then (case load (to_CertFile o') (to_KeyFile o') of None \<Rightarrow> Inl err | Some c \<Rightarrow> Inr [c])
      else Inr [])"

text \<open>A client panics on a bad key pair and does not verify its server; a server ends the process.\<close>

definition client_ToTLSConfig :: "(string \<Rightarrow> string \<Rightarrow> 'k option) \<Rightarrow> tls_options \<Rightarrow> 'k tls_config res" where
  "client_ToTLSConfig load o' =
     rbind (load_certs load (Panic ''LoadX509KeyPair'') o') (\<lambda>certs. Inr \<lparr>tc_Certificates = certs, tc_InsecureSkipVerify = True\<rparr>)"

definition server_ToTLSConfig :: "(string \<Rightarrow> string \<Rightarrow> 'k option) \<Rightarrow> tls_options \<Rightarrow> 'k tls_config res" where
  "server_ToTLSConfig load o' =
     rbind (load_certs load (Fatal ''LoadX509KeyPair'') o') (\<lambda>certs. Inr \<lparr>tc_Certificates = certs, tc_InsecureSkipVerify = False\<rparr>)"

record redis_config =
  rc_Network :: string
  rc_Host :: string
  rc_Port :: int
  rc_Password :: string
  rc_DB :: int
  rc_TLS :: "tls_options option"

definition redis_Addr :: "redis_config \<Rightarrow> string" where
  "redis_Addr ro = rc_Host ro @ '':'' @ fmt_int (rc_Port ro)"

record 'k redis_options =
  ro_Network :: string
  ro_Addr :: string
  ro_Password :: string
  ro_DB :: int
  ro_TLSConfig :: "'k tls_config option"

text \<open>The TLS configuration of an optional section: nil without one.\<close>

definition optional_tls :: "(string \<Rightarrow> string \<Rightarrow> 'k option) \<Rightarrow> tls_options option \<Rightarrow> 'k tls_config option res" where
  "optional_tls load t = (case t of None \<Rightarrow> Inr None | Some o' \<Rightarrow> rbind (client_ToTLSConfig load o') (\<lambda>c. Inr (Some c)))"

definition ToRedisOptions :: "(string \<Rightarrow> string \<Rightarrow> 'k option) \<Rightarrow> redis_config \<Rightarrow> 'k redis_options res" where
  "ToRedisOptions load ro =
     rbind (optional_tls load (rc_TLS ro)) (\<lambda>tlsConfig.
       Inr \<lparr>ro_Network = rc_Network ro, ro_Addr = redis_Addr ro, ro_Password = rc_Password ro, ro_DB = rc_DB ro, ro_TLSConfig = tlsConfig\<rparr>)"

subsection \<open>The clients of the daemons\<close>

text \<open>A daemon's options with the TLS section itself; \<open>do_TLS\<close> tells whether there is one.\<close>

record daemon_config = daemon_options +
  dc_TLS :: "tls_options option"

fun make_clients ::
  "(string \<Rightarrow> string \<Rightarrow> 'k option) \<Rightarrow> daemon_config list \<Rightarrow> (string \<times> 'k tls_config option) list \<Rightarrow> (string \<times> 'k tls_config option) list res" where
  "make_clients load [] clients = Inr clients"
| "make_clients load (d # ds) clients =
     rbind (optional_tls load (dc_TLS d)) (\<lambda>c.
       make_clients load ds (map_put (DaemonString (daemon_options.truncate d)) c clients))"

text \<open>
  \<open>NewDaemonManager\<close>: nil options (\<open>None\<close>) end the process. A client is its TLS configuration, under the
  daemon's user, host and port.
\<close>

definition NewDaemonManager ::
  "(string \<Rightarrow> string \<Rightarrow> 'k option) \<Rightarrow> daemon_config list option \<Rightarrow> bool \<Rightarrow> (daemon_config list \<times> (string \<times> 'k tls_config option) list) res" where
  "NewDaemonManager load daemons coin =
     (case daemons of
        None \<Rightarrow> Inl (Fatal ''new daemon with empty options!'')
      | Some ds \<Rightarrow> if \<not> coin then Inl (Fatal ''new daemon with empty options!'') else rbind (make_clients load ds []) (\<lambda>cs. Inr (ds, cs)))"

text \<open>A request: the URL, the credentials if there is a user, and the client it goes through.\<close>

record 'k http_request =
  rq_URL :: string
  rq_Auth :: "(string \<times> string) option"
  rq_Body :: iface
  rq_Client :: "'k tls_config option"

definition DoHttpRequest :: "(string \<times> 'k tls_config option) list \<Rightarrow> daemon_config \<Rightarrow> iface \<Rightarrow> 'k http_request res" where
  "DoHttpRequest clients daemon body =
     (case map_of clients (DaemonString (daemon_options.truncate daemon)) of
        None \<Rightarrow> Inl (Panic ''nil pointer dereference'')
      | Some c \<Rightarrow>
          Inr \<lparr>rq_URL = DaemonURL (daemon_options.truncate daemon),
               rq_Auth = (if do_User daemon \<noteq> '''' then Some (do_User daemon, do_Password daemon) else None),
               rq_Body = body, rq_Client = c\<rparr>)"

subsection \<open>Batches\<close>

text \<open>One request of a batch, with its random id. A command must be a list of at least two values.\<close>

definition batch_request :: "int \<Rightarrow> iface \<Rightarrow> iface res" where
  "batch_request i c =
     (case c of
        IList xs \<Rightarrow>
          rbind (index xs 0) (\<lambda>m. rbind (index xs 1) (\<lambda>p. Inr (IMap [(''id'', IInt i), (''method'', m), (''params'', p)])))
      | _ \<Rightarrow> Inl (Panic ''interface conversion''))"

fun batch_requests :: "(nat \<Rightarrow> int) \<Rightarrow> nat \<Rightarrow> iface list \<Rightarrow> iface list res" where
  "batch_requests ids k [] = Inr []"
| "batch_requests ids k (c # cs) = rbind (batch_request (ids k) c) (\<lambda>r. rbind (batch_requests ids (Suc k) cs) (\<lambda>rs. Inr (r # rs)))"

text \<open>
  \<open>BatchCmd\<close>: the loop over the daemons returns in its first iteration, with that daemon and its answer.
  \<open>post\<close> is the exchange with the decoding of the answer: an error of the transport or of the decoder, or
  the responses.
\<close>

definition BatchCmd ::
  "('k http_request \<Rightarrow> 'w \<Rightarrow> rpc_response list res \<times> 'w) \<Rightarrow> daemon_config list \<Rightarrow> (string \<times> 'k tls_config option) list \<Rightarrow> (nat \<Rightarrow> int) \<Rightarrow> iface list \<Rightarrow> 'w \<Rightarrow>
   (daemon_config option \<times> rpc_response list res) res \<times> 'w" where
  "BatchCmd post daemons clients ids commands w =
     (case batch_requests ids 0 commands of
        Inl e \<Rightarrow> (Inl e, w)
      | Inr reqs \<Rightarrow>
          (case daemons of
             [] \<Rightarrow> (Inr (None, Inr []), w)
           | d # _ \<Rightarrow>
               (case DoHttpRequest clients d (IList reqs) of
                  Inl e \<Rightarrow> (Inl e, w)
                | Inr r \<Rightarrow> (case post r w of (res, w) \<Rightarrow> (Inr (Some d, res), w)))))"

subsection \<open>Every daemon has a client\<close>

lemma make_clients_other:
  "make_clients load ds clients = Inr cs \<Longrightarrow> k \<notin> (\<lambda>d. DaemonString (daemon_options.truncate d)) ` set ds \<Longrightarrow> map_of cs k = map_of clients k"
  by (induction load ds clients arbitrary: cs rule: make_clients.induct) (auto simp: rbind_eq_Inr)

lemma make_clients_lookup:
  assumes "make_clients load ds clients = Inr cs" "d \<in> set ds" "inj_on (\<lambda>d. DaemonString (daemon_options.truncate d)) (set ds)"
  shows "\<exists>c. optional_tls load (dc_TLS d) = Inr c \<and> map_of cs (DaemonString (daemon_options.truncate d)) = Some c"
  using assms
proof (induction load ds clients arbitrary: cs rule: make_clients.induct)
  case (2 load a ds clients)
  from "2.prems"(1) obtain c where c: "optional_tls load (dc_TLS a) = Inr c"
    "make_clients load ds (map_put (DaemonString (daemon_options.truncate a)) c clients) = Inr cs" by (auto simp: rbind_eq_Inr)
  show ?case
  proof (cases "d \<in> set ds")
    case True
    with "2.IH" [OF c(2)] "2.prems"(3) show ?thesis by simp
  next
    case False
    then have a: "d = a" using "2.prems"(2) by simp
    with False "2.prems"(3) have "DaemonString (daemon_options.truncate a) \<notin> (\<lambda>d. DaemonString (daemon_options.truncate d)) ` set ds"
      by (auto simp: inj_on_def)
    with make_clients_other [OF c(2) this] c(1) a show ?thesis by simp
  qed
qed simp

text \<open>
  No request to a configured daemon meets a nil client, and when no two daemons have the same user, host
  and port each goes through the client made of its own TLS section.
\<close>

lemma every_daemon_has_its_client:
  assumes "NewDaemonManager load daemons coin = Inr (ds, cs)" "d \<in> set ds" "inj_on (\<lambda>d. DaemonString (daemon_options.truncate d)) (set ds)"
  shows "\<exists>c r. optional_tls load (dc_TLS d) = Inr c \<and> DoHttpRequest cs d body = Inr r \<and> rq_Client r = c"
proof -
  have "make_clients load ds [] = Inr cs" using assms(1) by (auto simp: NewDaemonManager_def rbind_eq_Inr split: option.splits if_splits)
  from make_clients_lookup [OF this assms(2,3)] show ?thesis by (auto simp: DoHttpRequest_def)
qed

text \<open>
  Daemons that share user, host and port share a client: that of the last of them. So a daemon with a TLS section
  may be asked over a client without its certificate.
\<close>

lemma same_name_shares_client:
  assumes "NewDaemonManager load (Some [a, b]) True = Inr (ds, cs)" "DaemonString (daemon_options.truncate a) = DaemonString (daemon_options.truncate b)"
  shows "\<exists>c r. optional_tls load (dc_TLS b) = Inr c \<and> DoHttpRequest cs a body = Inr r \<and> rq_Client r = c"
  using assms by (auto simp: NewDaemonManager_def rbind_eq_Inr DoHttpRequest_def)

text \<open>A connection as a client never verifies the certificate of the other side.\<close>

lemma clients_skip_verification:
  "client_ToTLSConfig load o' = Inr c \<Longrightarrow> tc_InsecureSkipVerify c"
  by (auto simp: client_ToTLSConfig_def rbind_eq_Inr)

text \<open>A batch is sent to the first daemon only.\<close>

lemma BatchCmd_first_daemon:
  "BatchCmd post (d # ds) clients ids commands w = BatchCmd post [d] clients ids commands w"
  by (simp add: BatchCmd_def split: sum.splits)

end
