(* ===== verification/StratumServer.thy ===== *)
theory StratumServer
  imports StratumClient
begin

text \<open>
  \<open>stratum/server.go\<close>, and the read loop \<open>SetupSocket\<close> of \<open>stratum/client.go\<close>: the table of
  connected clients, job broadcasts, and what happens to each line received. The server's
  table is keyed by subscription id; the order in which Go iterates over it is an argument.
\<close>

record 'w server =
  sv_Counter :: subscription_counter
  sv_Clients :: "u64 \<rightharpoonup> client"
  sv_bm :: banning_manager
  sv_jm :: job_manager
  sv_store :: "(share \<times> bool) list"
  sv_world :: 'w

definition NewStratumServer :: "job_manager \<Rightarrow> banning_manager \<Rightarrow> 'w \<Rightarrow> 'w server" where
  "NewStratumServer jm bm w =
     \<lparr>sv_Counter = NewSubscriptionCounter, sv_Clients = Map.empty, sv_bm = bm, sv_jm = jm, sv_store = [], sv_world = w\<rparr>"

text \<open>Runs a handler of the client registered under an id on the server's shared state.\<close>

definition run_client :: "u64 \<Rightarrow> ('w session, 'a) go \<Rightarrow> ('w server, 'a option) go" where
  "run_client i m = (\<lambda>sv.
     case sv_Clients sv i of
       None \<Rightarrow> (Inr None, sv)
     | Some c \<Rightarrow>
         (case m \<lparr>s_cl = c, s_bm = sv_bm sv, s_jm = sv_jm sv, s_store = sv_store sv, s_world = sv_world sv\<rparr> of
            (r, s) \<Rightarrow> (rbind r (\<lambda>x. Inr (Some x)),
                       sv\<lparr>sv_Clients := (sv_Clients sv)(i \<mapsto> s_cl s), sv_bm := s_bm s, sv_jm := s_jm s,
                          sv_store := s_store s, sv_world := s_world s\<rparr>)))"

definition client_key :: "bytes \<Rightarrow> u64 res" where
  "client_key subscriptionId = rbind (le_read 8 subscriptionId) (\<lambda>n. Inr (word_of_nat n))"

definition RemoveStratumClient :: "bytes \<Rightarrow> ('w server, unit) go" where
  "RemoveStratumClient subscriptionId =
     go_bind (go_lift (client_key subscriptionId)) (\<lambda>i.
       go_modify (\<lambda>sv. sv\<lparr>sv_Clients := (sv_Clients sv)(i := None)\<rparr>))"

text \<open>
  The connection is registered under its id; \<open>SetupSocket\<close> then checks the ban table and
  ignores the answer.
\<close>

definition HandleNewClient :: "'w stratum_env \<Rightarrow> int \<Rightarrow> bytes \<Rightarrow> string \<Rightarrow> ('w server, bytes) go" where
  "HandleNewClient env now rand remote =
     go_bind (go_get (\<lambda>sv. NextSubscription (sv_Counter sv))) (\<lambda>(subscriptionID, ctr).
     go_seq (go_modify (\<lambda>sv. sv\<lparr>sv_Counter := ctr\<rparr>))
     (go_bind (go_lift (NewStratumClient env now rand subscriptionID remote)) (\<lambda>c.
      go_bind (go_lift (client_key subscriptionID)) (\<lambda>i.
      go_seq (go_modify (\<lambda>sv. sv\<lparr>sv_Clients := (sv_Clients sv)(i \<mapsto> c)\<rparr>))
      (go_seq (go_modify (\<lambda>sv. sv\<lparr>sv_bm := snd (CheckBan now remote (sv_bm sv))\<rparr>))
      (go_return subscriptionID))))))"

fun broadcast :: "'w stratum_env \<Rightarrow> int \<Rightarrow> iface list \<Rightarrow> u64 list \<Rightarrow> ('w server, unit) go" where
  "broadcast env now jobParams [] = go_return ()"
| "broadcast env now jobParams (i # is) = go_seq (run_client i (SendMiningJob env now jobParams)) (broadcast env now jobParams is)"

text \<open>\<open>BroadcastCurrentMiningJob\<close> over a snapshot of the clients in the given order.\<close>

definition BroadcastCurrentMiningJob :: "'w stratum_env \<Rightarrow> int \<Rightarrow> u64 list \<Rightarrow> iface list \<Rightarrow> ('w server, unit) go" where
  "BroadcastCurrentMiningJob env now order jobParams = broadcast env now jobParams order"

text \<open>
  One tick of the rebroadcast loop of \<open>Init\<close>: \<open>seen\<close> holds the id and the transactions of the
  job broadcast last.
\<close>

definition rebroadcast_tick ::
  "'w stratum_env \<Rightarrow> int \<Rightarrow> u64 list \<Rightarrow> string \<times> bytes \<Rightarrow> ('w server, string \<times> bytes) go" where
  "rebroadcast_tick env now order seen =
     go_bind (go_get (\<lambda>sv. current_job (sv_jm sv))) (\<lambda>j.
     go_bind (go_deref j) (\<lambda>j.
     go_seq (BroadcastCurrentMiningJob env now order
        (GetJobParams (now div 1000000000) j (fst seen \<noteq> j_JobId j \<or> snd seen \<noteq> j_TransactionData j)))
     (go_return (j_JobId j, j_TransactionData j))))"

definition ManuallyAddStratumClient :: "'w stratum_env \<Rightarrow> int \<Rightarrow> bytes \<Rightarrow> client \<Rightarrow> ('w server, unit) go" where
  "ManuallyAddStratumClient env now rand cl =
     go_bind (HandleNewClient env now rand (cl_RemoteAddress cl)) (\<lambda>subscriptionId.
     go_bind (go_lift (client_key subscriptionId)) (\<lambda>i.
     go_bind (run_client i (go_seq (ManuallyAuthClient env now (cl_WorkerName cl) (cl_WorkerPass cl)) (ManuallySetValues cl))) (\<lambda>_.
       go_return ())))"

subsection \<open>The read loop\<close>

text \<open>
  One line of \<open>SetupSocket\<close>. \<open>decode\<close> is \<open>json.Unmarshal\<close> into a request, \<open>resolve\<close> is
  \<open>net.ResolveTCPAddr\<close>; \<open>once\<close> is the loop's variable. The result is the new value of \<open>once\<close>,
  or \<open>None\<close> when the loop ends.
\<close>

definition SocketLine ::
  "'w stratum_env \<Rightarrow> (bytes \<Rightarrow> rpc_request option) \<Rightarrow> (string \<Rightarrow> string) \<Rightarrow> bool \<Rightarrow> int \<Rightarrow> bytes \<Rightarrow> bool \<Rightarrow> bytes \<Rightarrow>
   ('w session, bool option) go" where
  "SocketLine env decode resolve proxyProtocol now rand once raw =
     (if 10240 < length raw then go_seq SocketClose (go_seq send_closed (go_return None))
      else if raw = [] then go_return (Some once)
      else
        (case decode raw of
           None \<Rightarrow> (if proxyProtocol then go_return None else go_seq SocketClose (go_seq send_closed (go_return None)))
         | Some message \<Rightarrow>
             go_seq (go_when (once \<and> proxyProtocol \<and> has_prefix raw (of_str ''PROXY''))
                (go_bind (go_lift (index (split_on (CHR '' '') (to_str raw)) 2)) (\<lambda>a.
                   upd_cl (\<lambda>c. c\<lparr>cl_RemoteAddress := resolve a\<rparr>))))
             (go_seq (go_modify (\<lambda>s. s\<lparr>s_bm := snd (CheckBan now (cl_RemoteAddress (s_cl s)) (s_bm s))\<rparr>))
             (go_seq (HandleMessage env now rand message)
             (go_return (Some (once \<and> \<not> proxyProtocol)))))))"

subsection \<open>Properties\<close>

definition idle :: "'w stratum_env \<Rightarrow> int \<Rightarrow> client \<Rightarrow> bool" where
  "idle env now c \<longleftrightarrow> e_ConnectionTimeout env * 1000000000 < now - cl_LastActivity c"

lemma send_job_active:
  assumes "\<not> idle env now (s_cl s)"
  shows "\<exists>s' pre. SendMiningJob env now p s = (Inr (), s') \<and> cl_out (s_cl s') = cl_out (s_cl s) @ pre @ [notify_msg p] \<and>
           cl_LastActivity (s_cl s') = cl_LastActivity (s_cl s)"
  using assms
  by (auto simp: SendMiningJob_def idle_def flush_pending_def SendDifficulty_def go_seq_def go_bind_run split: option.splits)

lemma send_job_idle:
  assumes "idle env now (s_cl s)" "\<not> cl_SocketClosedEvent (s_cl s)"
  shows "SendMiningJob env now p s = (Inl (Blocks ''send on nil channel''), s\<lparr>s_cl := (s_cl s)\<lparr>cl_SocketOpen := False\<rparr>\<rparr>)"
  using assms by (simp add: SendMiningJob_def idle_def go_seq_def go_bind_run send_closed_run)

lemma broadcast_active:
  "distinct is \<Longrightarrow> \<forall>i\<in>set is. \<exists>c. sv_Clients sv i = Some c \<and> \<not> idle env now c \<Longrightarrow>
   \<exists>sv'. broadcast env now p is sv = (Inr (), sv') \<and>
     (\<forall>i. i \<notin> set is \<longrightarrow> sv_Clients sv' i = sv_Clients sv i) \<and>
     (\<forall>i\<in>set is. \<exists>c c' pre. sv_Clients sv i = Some c \<and> sv_Clients sv' i = Some c' \<and> cl_out c' = cl_out c @ pre @ [notify_msg p])"
proof (induction "is" arbitrary: sv)
  case (Cons i "is")
  from Cons.prems obtain c where c: "sv_Clients sv i = Some c" "\<not> idle env now c" by auto
  define s where "s = \<lparr>s_cl = c, s_bm = sv_bm sv, s_jm = sv_jm sv, s_store = sv_store sv, s_world = sv_world sv\<rparr>"
  from send_job_active [of env now s p] c(2) obtain s' pre where
    s': "SendMiningJob env now p s = (Inr (), s')" "cl_out (s_cl s') = cl_out c @ pre @ [notify_msg p]"
    by (auto simp: s_def)
  define sv1 where "sv1 = sv\<lparr>sv_Clients := (sv_Clients sv)(i \<mapsto> s_cl s'), sv_bm := s_bm s', sv_jm := s_jm s',
     sv_store := s_store s', sv_world := s_world s'\<rparr>"
  have step: "run_client i (SendMiningJob env now p) sv = (Inr (Some ()), sv1)"
    using c(1) s'(1) by (simp add: run_client_def s_def sv1_def)
  have frame: "sv_Clients sv1 k = (if k = i then Some (s_cl s') else sv_Clients sv k)" for k by (simp add: sv1_def)
  have "\<forall>k\<in>set is. \<exists>c. sv_Clients sv1 k = Some c \<and> \<not> idle env now c"
    using Cons.prems by (auto simp: frame)
  from Cons.IH [OF _ this] Cons.prems(1) obtain sv' where sv': "broadcast env now p is sv1 = (Inr (), sv')"
    "\<forall>k. k \<notin> set is \<longrightarrow> sv_Clients sv' k = sv_Clients sv1 k"
    "\<forall>k\<in>set is. \<exists>c c' pre. sv_Clients sv1 k = Some c \<and> sv_Clients sv' k = Some c' \<and> cl_out c' = cl_out c @ pre @ [notify_msg p]"
    by auto
  have "\<exists>c0 c' pre. sv_Clients sv k = Some c0 \<and> sv_Clients sv' k = Some c' \<and> cl_out c' = cl_out c0 @ pre @ [notify_msg p]"
    if "k \<in> set (i # is)" for k
  proof (cases "k = i")
    case True
    with sv'(2) Cons.prems(1) c s'(2) show ?thesis by (auto simp: frame)
  next
    case False
    with that sv'(3) have "\<exists>c c' pre. sv_Clients sv1 k = Some c \<and> sv_Clients sv' k = Some c' \<and> cl_out c' = cl_out c @ pre @ [notify_msg p]" by simp
    with False show ?thesis by (simp add: frame)
  qed
  moreover have "broadcast env now p (i # is) sv = (Inr (), sv')" using step sv'(1) by simp
  ultimately show ?case using sv'(2) by (auto simp: frame)
qed simp

definition ex_server :: "unit server" where
  "ex_server = \<lparr>sv_Counter = \<lparr>ctr_Count = 2, ctr_Padding = []\<rparr>, sv_Clients = [1 \<mapsto> ex_client, 2 \<mapsto> ex_client\<lparr>cl_LastActivity := 10 ^ 12\<rparr>],
     sv_bm = s_bm ex_session, sv_jm = ex_jm, sv_store = [], sv_world = ()\<rparr>"

text \<open>
  C32. A broadcast reaches every active client. When no client of the broadcast has been silent
  for longer than the connection timeout, \<open>BroadcastCurrentMiningJob\<close> returns and every client,
  in whatever order the table is walked, has been sent the job as its last message.
\<close>

theorem broadcast_reaches_all:
  assumes "distinct order" "\<forall>i\<in>set order. \<exists>c. sv_Clients sv i = Some c \<and> \<not> idle env now c"
  shows "\<exists>sv'. BroadcastCurrentMiningJob env now order p sv = (Inr (), sv') \<and>
     (\<forall>i\<in>set order. \<exists>c' pre. sv_Clients sv' i = Some c' \<and> cl_out c' = pre @ [notify_msg p])"
proof -
  from broadcast_active [OF assms] obtain sv' where "broadcast env now p order sv = (Inr (), sv')"
    "\<forall>i\<in>set order. \<exists>c c' pre. sv_Clients sv i = Some c \<and> sv_Clients sv' i = Some c' \<and> cl_out c' = cl_out c @ pre @ [notify_msg p]"
    by blast
  then show ?thesis unfolding BroadcastCurrentMiningJob_def by (metis append.assoc)
qed

theorem broadcast_reaches_all_witness:
  "\<exists>sv' c' pre. BroadcastCurrentMiningJob ex_env 5 [2, 1] [IStr ''j''] ex_server = (Inr (), sv') \<and>
     sv_Clients sv' 1 = Some c' \<and> cl_out c' = pre @ [notify_msg [IStr ''j'']]"
  using broadcast_reaches_all [of "[2, 1]" ex_server ex_env 5 "[IStr ''j'']"]
  by (auto simp: ex_server_def idle_def ex_env_def ex_client_def)

text \<open>
  C36. One idle miner stops the broadcast for those after it. A client that timed out is
  closed, and then the broadcast blocks for ever on that client's channel, which
  \<open>NewStratumClient\<close> left nil: the clients that come later in the walk get nothing.
\<close>

theorem broadcast_stops_at_idle_client:
  assumes order: "order = before @ i # after" "distinct order"
    and active: "\<forall>k\<in>set before. \<exists>c. sv_Clients sv k = Some c \<and> \<not> idle env now c"
    and idle: "sv_Clients sv i = Some c" "idle env now c" "\<not> cl_SocketClosedEvent c"
  shows "\<exists>sv'. BroadcastCurrentMiningJob env now order p sv = (Inl (Blocks ''send on nil channel''), sv') \<and>
     (\<forall>k\<in>set after. sv_Clients sv' k = sv_Clients sv k)"
proof -
  have seq: "broadcast env now p (before @ i # after) sv =
      (case broadcast env now p before sv of (Inl e, s) \<Rightarrow> (Inl e, s) | (Inr _, s) \<Rightarrow> broadcast env now p (i # after) s)"
    for before sv
    by (induction before arbitrary: sv) (auto simp: go_seq_def go_bind_run split: prod.splits sum.splits)
  have "distinct before" using order by simp
  from broadcast_active [OF this active, of p] obtain sv1 where
    1: "broadcast env now p before sv = (Inr (), sv1)" "\<forall>k. k \<notin> set before \<longrightarrow> sv_Clients sv1 k = sv_Clients sv k" by blast
  have i: "sv_Clients sv1 i = Some c" using 1(2) order idle(1) by auto
  define s where "s = \<lparr>s_cl = c, s_bm = sv_bm sv1, s_jm = sv_jm sv1, s_store = sv_store sv1, s_world = sv_world sv1\<rparr>"
  have "SendMiningJob env now p s = (Inl (Blocks ''send on nil channel''), s\<lparr>s_cl := c\<lparr>cl_SocketOpen := False\<rparr>\<rparr>)"
    using send_job_idle [of env now s p] idle by (simp add: s_def)
  then have "run_client i (SendMiningJob env now p) sv1 =
      (Inl (Blocks ''send on nil channel''), sv1\<lparr>sv_Clients := (sv_Clients sv1)(i \<mapsto> c\<lparr>cl_SocketOpen := False\<rparr>)\<rparr>)"
    using i by (simp add: run_client_def s_def)
  with 1 seq [of before sv] order show ?thesis
    by (auto simp: BroadcastCurrentMiningJob_def)
qed

theorem broadcast_stops_at_idle_client_witness:
  "\<exists>sv'. BroadcastCurrentMiningJob ex_env (10 ^ 12) [1, 2] [IStr ''j''] ex_server = (Inl (Blocks ''send on nil channel''), sv') \<and>
     sv_Clients sv' 2 = sv_Clients ex_server 2"
  using broadcast_stops_at_idle_client [of "[1, 2]" "[]" 1 "[2]" ex_server ex_env "10 ^ 12" ex_client "[IStr ''j'']"]
  by (auto simp: ex_server_def idle_def ex_env_def ex_client_def)

text \<open>
  Banned addresses are served like any other. Neither connecting nor sending a message
  depends on the ban table: whatever bans are recorded, a new connection is registered, and a
  line that decodes to a message is handled.
\<close>

theorem ban_table_not_enforced:
  assumes "decode raw = Some msg" "raw \<noteq> []" "length raw \<le> 10240"
  shows "SocketLine env decode resolve False now rand once raw s =
     (case HandleMessage env now rand msg (s\<lparr>s_bm := snd (CheckBan now (cl_RemoteAddress (s_cl s)) (s_bm s))\<rparr>) of
        (Inl e, s') \<Rightarrow> (Inl e, s') | (Inr _, s') \<Rightarrow> (Inr (Some once), s'))"
  using assms by (simp add: SocketLine_def go_seq_def go_bind_run split: prod.splits sum.splits)

theorem ban_table_not_enforced_witness:
  "SocketLine ex_env (\<lambda>_. Some (ex_msg ''mining.ping'' [])) id False 7 [] True [0x7b, 0x7d]
     (ex_session\<lparr>s_bm := AddBannedIP 5 ''10.0.0.1:4444'' (s_bm ex_session)\<rparr>) =
   (Inr (Some True), ex_session\<lparr>s_bm := AddBannedIP 5 ''10.0.0.1:4444'' (s_bm ex_session)\<rparr>)"
  using ban_table_not_enforced [of "\<lambda>_. Some (ex_msg ''mining.ping'' [])" "[0x7b, 0x7d]" "ex_msg ''mining.ping'' []" ex_env id 7 "[]" True
      "ex_session\<lparr>s_bm := AddBannedIP 5 ''10.0.0.1:4444'' (s_bm ex_session)\<rparr>"]
  by (simp add: HandleMessage_def ex_msg_def CheckBan_def AddBannedIP_def ban_nanos_def ex_session_def ex_client_def NewBanningManager_def)

text \<open>
  The PROXY header ends the connection it announces. With \<open>tcpProxyProtocol\<close> enabled, a
  line that starts with \<open>PROXY\<close> is not JSON, so the read loop returns before it looks for the
  header: nothing is handled and the remote address is not replaced.
\<close>

theorem proxy_header_ends_reader:
  assumes json: "\<And>b. has_prefix b (of_str ''PROXY'') \<Longrightarrow> decode b = None"
    and line: "has_prefix raw (of_str ''PROXY'')" "length raw \<le> 10240"
  shows "SocketLine env decode resolve True now rand once raw s = (Inr None, s)"
proof -
  have "raw \<noteq> []" using line(1) by (auto simp: has_prefix_def of_str_def)
  with assms show ?thesis by (simp add: SocketLine_def)
qed

theorem proxy_header_ends_reader_witness:
  "SocketLine ex_env (\<lambda>b. if has_prefix b (of_str ''{'') then Some (ex_msg ''mining.subscribe'' []) else None) id True 7 [] True
     (of_str ''PROXY TCP4 10.0.0.1 10.0.0.2 1 2'') ex_session = (Inr None, ex_session)"
proof (rule proxy_header_ends_reader)
  fix b :: bytes
  assume "has_prefix b (of_str ''PROXY'')"
  then show "(if has_prefix b (of_str ''{'') then Some (ex_msg ''mining.subscribe'' []) else None) = None"
    by (cases b) (auto simp: has_prefix_def of_str_def byte_of_char_def)
qed (simp_all add: has_prefix_def of_str_def)

end
