(* ===== verification/StratumWork.thy ===== *)
theory StratumWork
  imports StratumServer StratumEngine
begin

text \<open>
  The rest of \<open>stratum/server.go\<close>: opening the ports and accepting connections (\<open>Init\<close>), the broadcast
  of engine work, and \<open>AttachMiners\<close> of \<open>pool/pool.go\<close>; and the read errors of \<open>SetupSocket\<close> in
  \<open>stratum/client.go\<close>.
\<close>

subsection \<open>Ports\<close>

text \<open>
  The loop over the configured ports, in the order in which the map is walked. \<open>listen\<close> opens a port and
  gives its listener, or nil and an error. Every iteration assigns \<open>ss.Listener\<close>, also on an error.
\<close>

fun listen_loop :: "(int \<Rightarrow> 'w \<Rightarrow> 'l option \<times> 'w) \<Rightarrow> int list \<Rightarrow> 'l option \<Rightarrow> 'w \<Rightarrow> (int list \<times> 'l option) \<times> 'w" where
  "listen_loop listen [] listener w = (([], listener), w)"
| "listen_loop listen (port # ports) listener w =
     (case listen port w of (l, w) \<Rightarrow>
      case listen_loop listen ports l w of ((portStarted, listener), w) \<Rightarrow>
        ((if l = None then portStarted else port # portStarted, listener), w))"

definition server_Init :: "(int \<Rightarrow> 'w \<Rightarrow> 'l option \<times> 'w) \<Rightarrow> int list \<Rightarrow> 'w \<Rightarrow> (int list \<times> 'l option) res \<times> 'w" where
  "server_Init listen ports w =
     (case listen_loop listen ports None w of ((portStarted, listener), w) \<Rightarrow>
        (if portStarted = [] then Inl (Panic ''No port listened'') else Inr (portStarted, listener), w))"

text \<open>
  A round of the accept loop. \<open>accept\<close> is \<open>Listener.Accept\<close>: a remote address, or an error that is only
  logged. A nil listener is dereferenced.
\<close>

definition accept_round ::
  "'w stratum_env \<Rightarrow> ('l \<Rightarrow> 'w \<Rightarrow> string option \<times> 'w) \<Rightarrow> 'l option \<Rightarrow> int \<Rightarrow> bytes \<Rightarrow> ('w server, unit) go" where
  "accept_round env accept listener now rand =
     go_bind (go_deref listener) (\<lambda>l.
     go_bind (\<lambda>sv. case accept l (sv_world sv) of (c, w) \<Rightarrow> (Inr c, sv\<lparr>sv_world := w\<rparr>)) (\<lambda>conn.
       case conn of
         None \<Rightarrow> go_return ()
       | Some remote \<Rightarrow> go_bind (HandleNewClient env now rand remote) (\<lambda>_. go_return ())))"

lemma listen_loop_last:
  "listen_loop listen (ports @ [p]) l0 w = ((started, l), w') \<Longrightarrow> \<exists>w1. listen p w1 = (l, w')"
proof (induction ports arbitrary: l0 w started)
  case (Cons a ports)
  then show ?case by (auto split: prod.splits)
qed (auto split: prod.splits)

text \<open>
  Only the last port accepts miners: whatever ports were started, the listener the accept loop uses is
  the one the last port gave, and when that port could not be opened, the loop dereferences nil.
\<close>

theorem only_last_port_accepts:
  assumes "server_Init listen (ports @ [p]) w = (Inr (started, l), w')"
  shows "(\<exists>w1. listen p w1 = (l, w')) \<and>
    (l = None \<longrightarrow> accept_round env accept l now rand sv = (Inl (Panic ''nil pointer dereference''), sv))"
  using assms listen_loop_last [of listen ports p None w]
  by (auto simp: server_Init_def accept_round_def go_bind_run split: prod.splits if_splits)

subsection \<open>Read errors\<close>

text \<open>
  What \<open>ReadBytes\<close> can return: a line, the end of the stream, an error that is not of the network, or one
  that is, with its two properties. The flag says whether the read loop goes on.
\<close>

datatype socket_read = Line bytes | ReadEOF | OtherError | NetError (net_Timeout: bool) (net_Temporary: bool)

definition socket_read_step ::
  "'w stratum_env \<Rightarrow> (bytes \<Rightarrow> rpc_request option) \<Rightarrow> (string \<Rightarrow> string) \<Rightarrow> bool \<Rightarrow> int \<Rightarrow> bytes \<Rightarrow> bool \<Rightarrow> socket_read \<Rightarrow>
   ('w session, bool option) go" where
  "socket_read_step env decode resolve proxyProtocol now rand once r =
     (case r of
        Line raw \<Rightarrow> SocketLine env decode resolve proxyProtocol now rand once raw
      | ReadEOF \<Rightarrow> go_seq send_closed (go_return None)
      | OtherError \<Rightarrow> go_return None
      | NetError timeout temporary \<Rightarrow> go_return (if \<not> timeout \<and> temporary then Some once else None))"

text \<open>
  The end of a connection is never noticed: the reader blocks where it would report it, so the server
  keeps the client in its table.
\<close>

lemma disconnect_blocks_reader:
  assumes "\<not> cl_SocketClosedEvent (s_cl s)"
  shows "socket_read_step env decode resolve pp now rand once ReadEOF s = (Inl (Blocks ''send on nil channel''), s)"
  using assms by (simp add: socket_read_step_def send_closed_run)

subsection \<open>Engine work\<close>

fun engine_broadcast :: "'e stratum_env \<Rightarrow> 'e engine \<Rightarrow> u64 list \<Rightarrow> ('e server, unit) go" where
  "engine_broadcast env en [] = go_return ()"
| "engine_broadcast env en (i # is) =
     go_seq (run_client i (go_bind (get_cl cl_IsAuthorized) (\<lambda>auth. go_when auth (sendEngineWork env en))))
            (engine_broadcast env en is)"

text \<open>\<open>snapshot\<close> is \<open>snapshotClients\<close>: the clients of the table in the order in which the map is walked.\<close>

definition BroadcastEngineWork :: "'e stratum_env \<Rightarrow> 'e engine \<Rightarrow> ('e server \<Rightarrow> u64 list) \<Rightarrow> ('e server, unit) go" where
  "BroadcastEngineWork env en snapshot = go_bind (go_get snapshot) (engine_broadcast env en)"

definition snapshotClients :: "('e server \<Rightarrow> u64 list) \<Rightarrow> bool" where
  "snapshotClients snapshot \<longleftrightarrow> (\<forall>sv. distinct (snapshot sv) \<and> set (snapshot sv) = dom (sv_Clients sv))"

text \<open>\<open>AttachMiners\<close>; each client has random bytes of its own.\<close>

fun attach_each :: "'w stratum_env \<Rightarrow> int \<Rightarrow> (bytes \<times> client) list \<Rightarrow> ('w server, unit) go" where
  "attach_each env now [] = go_return ()"
| "attach_each env now ((rand, c) # cs) = go_seq (ManuallyAddStratumClient env now rand c) (attach_each env now cs)"

definition AttachMiners :: "'w stratum_env \<Rightarrow> int \<Rightarrow> (bytes \<times> client) list \<Rightarrow> u64 list \<Rightarrow> ('w server, unit) go" where
  "AttachMiners env now miners order =
     go_seq (attach_each env now miners)
     (go_bind (go_get (\<lambda>sv. current_job (sv_jm sv))) (\<lambda>j. go_bind (go_deref j) (\<lambda>j.
        BroadcastCurrentMiningJob env now order (GetJobParams (now div 1000000000) j True))))"

text \<open>What is pushed to a client: the target message, where the engine has one, and the work at its difficulty.\<close>

definition engine_msg :: "'e engine \<Rightarrow> string \<Rightarrow> iface list \<Rightarrow> message" where
  "engine_msg en method params =
     (if method = '''' then result_response (IInt 0) (IList params)
      else MRequest \<lparr>rq_Id = INil, rq_Method = method,
        rq_Params = Some (if wantsObjectParams en \<and> length params = 1 then params ! 0 else MarshalParams params)\<rparr>)"

definition pushed :: "'e stratum_env \<Rightarrow> 'e engine \<Rightarrow> 'e \<Rightarrow> client \<Rightarrow> message list" where
  "pushed env en e c =
     (case (case en_JobParamsForDifficulty en of Some f \<Rightarrow> f (engineDiff env c) e | None \<Rightarrow> snd (en_JobNotification en True e)) of
        None \<Rightarrow> []
      | Some params \<Rightarrow>
          (case en_TargetParams en of
             None \<Rightarrow> []
           | Some f \<Rightarrow> (case f (engineDiff env c) e of (method, ps) \<Rightarrow> if method = '''' then [] else [engine_msg en method ps])) @
          [engine_msg en (case en_NotifyMethod en of Some m \<Rightarrow> m | None \<Rightarrow> '''') params])"

definition after_push :: "'e stratum_env \<Rightarrow> 'e engine \<Rightarrow> 'e \<Rightarrow> client \<Rightarrow> client" where
  "after_push env en e c = (if cl_IsAuthorized c then c\<lparr>cl_out := cl_out c @ pushed env en e c\<rparr> else c)"

lemma EngineSend_run [simp]:
  "EngineSend en m ps s = (Inr (), s\<lparr>s_cl := (s_cl s)\<lparr>cl_out := cl_out (s_cl s) @ [engine_msg en m ps]\<rparr>\<rparr>)"
  by (simp add: EngineSend_def engine_msg_def Let_def)

lemma engineDiff_out [simp]: "engineDiff env (c\<lparr>cl_out := x\<rparr>) = engineDiff env c"
  by (simp add: engineDiff_def)

lemma sendEngineWork_run:
  "sendEngineWork env en s =
     (Inr (), s\<lparr>s_cl := (s_cl s)\<lparr>cl_out := cl_out (s_cl s) @ pushed env en (s_world s) (s_cl s)\<rparr>\<rparr>)"
  by (auto simp: sendEngineWork_def engineJobParams_def pushed_def go_bind_run go_seq_def split: option.splits prod.splits)

lemma engine_broadcast_run:
  "distinct is \<Longrightarrow> engine_broadcast env en is sv =
     (Inr (), sv\<lparr>sv_Clients := (\<lambda>i. if i \<in> set is then map_option (after_push env en (sv_world sv)) (sv_Clients sv i) else sv_Clients sv i)\<rparr>)"
proof (induction "is" arbitrary: sv)
  case (Cons i "is")
  let ?sv = "sv\<lparr>sv_Clients := (sv_Clients sv)(i := map_option (after_push env en (sv_world sv)) (sv_Clients sv i))\<rparr>"
  have "\<exists>x. run_client i (go_bind (get_cl cl_IsAuthorized) (\<lambda>auth. go_when auth (sendEngineWork env en))) sv = (Inr x, ?sv)"
    by (cases "sv_Clients sv i")
      (auto simp: run_client_def go_bind_run sendEngineWork_run after_push_def fun_upd_idem)
  moreover have "engine_broadcast env en is ?sv =
     (Inr (), sv\<lparr>sv_Clients := (\<lambda>k. if k \<in> set (i # is) then map_option (after_push env en (sv_world sv)) (sv_Clients sv k) else sv_Clients sv k)\<rparr>)"
    using Cons.IH [of ?sv] Cons.prems by (auto simp: fun_eq_iff intro!: arg_cong [where f = "\<lambda>x. sv\<lparr>sv_Clients := x\<rparr>"])
  ultimately show ?case by auto
qed simp

lemma BroadcastEngineWork_run:
  assumes "snapshotClients snapshot"
  shows "BroadcastEngineWork env en snapshot sv =
    (Inr (), sv\<lparr>sv_Clients := (\<lambda>i. map_option (after_push env en (sv_world sv)) (sv_Clients sv i))\<rparr>)"
proof -
  have s: "distinct (snapshot sv)" "set (snapshot sv) = dom (sv_Clients sv)" using assms by (auto simp: snapshotClients_def)
  have "(\<lambda>i. if i \<in> dom (sv_Clients sv) then map_option (after_push env en (sv_world sv)) (sv_Clients sv i) else sv_Clients sv i) =
      (\<lambda>i. map_option (after_push env en (sv_world sv)) (sv_Clients sv i))"
    by (auto simp: fun_eq_iff domIff)
  then show ?thesis by (simp only: BroadcastEngineWork_def go_bind_run go_run prod.case sum.case engine_broadcast_run [OF s(1)] s(2))
qed

end
