(* ===== verification/P2P.thy ===== *)
theory P2P
  imports Utils
begin

text \<open>
  \<open>p2p/peer.go\<close>: the peer that listens to the coin's own network for new blocks. What it writes to the
  connection and the block hashes it puts on its channel are kept as lists; what it reads is an
  argument.
\<close>

record p2p_options =
  po_Host :: string
  po_Port :: int
  po_Magic :: string
  po_DisableTransactions :: bool

definition P2PAddr :: "p2p_options \<Rightarrow> string" where
  "P2PAddr o' = po_Host o' @ '':'' @ fmt_int (po_Port o')"

record peer =
  pr_Magic :: bytes
  pr_VerAck :: bool
  pr_ValidConnectionConfig :: bool
  pr_NetworkServices :: bytes
  pr_EmptyNetAddress :: bytes
  pr_UserAgent :: bytes
  pr_BlockStartHeight :: bytes
  pr_RelayTransactions :: bytes
  pr_InvCodes :: "(string \<times> u32) list"
  pr_Commands :: "(string \<times> bytes) list"
  pr_Options :: p2p_options
  pr_ProtocolVersion :: int
  pr_sent :: "bytes list"
  pr_notified :: "string list"

definition NewPeer :: "int \<Rightarrow> p2p_options \<Rightarrow> peer res" where
  "NewPeer protocolVersion options =
     (case hex_decode (po_Magic options) of (magic, ok) \<Rightarrow>
        if \<not> ok then Inl (Fatal ''magic hex string is incorrect'')
        else
          Inr \<lparr>pr_Magic = magic, pr_VerAck = False, pr_ValidConnectionConfig = True,
               pr_NetworkServices = fst (hex_decode ''0100000000000000''),
               pr_EmptyNetAddress = fst (hex_decode ''010000000000000000000000000000000000ffff000000000000''),
               pr_UserAgent = VarStringBytes ''/node-stratum/'',
               pr_BlockStartHeight = fst (hex_decode ''00000000''),
               pr_RelayTransactions = (if po_DisableTransactions options then [0] else []),
               pr_InvCodes = [(''error'', 0), (''tx'', 1), (''block'', 2)],
               pr_Commands = map (\<lambda>c. (c, CommandStringBytes c)) [''version'', ''inv'', ''verack'', ''addr'', ''getblocks''],
               pr_Options = options, pr_ProtocolVersion = protocolVersion, pr_sent = [], pr_notified = []\<rparr>)"

text \<open>Lookups in the two Go maps, with the zero value for a missing key.\<close>

definition peer_cmd :: "peer \<Rightarrow> string \<Rightarrow> bytes" where
  "peer_cmd p c = (case map_of (pr_Commands p) c of Some b \<Rightarrow> b | None \<Rightarrow> [])"

definition inv_code :: "peer \<Rightarrow> string \<Rightarrow> u32" where
  "inv_code p c = (case map_of (pr_InvCodes p) c of Some n \<Rightarrow> n | None \<Rightarrow> 0)"

text \<open>The bytes of a message; \<open>SendMessage\<close> writes them (a write error is only logged).\<close>

definition peer_message :: "peer \<Rightarrow> bytes \<Rightarrow> bytes \<Rightarrow> bytes" where
  "peer_message p command payload =
     pr_Magic p @ command @ PackUint32LE (word_of_nat (length payload)) @ take 4 (Sha256d payload) @ payload"

definition SendMessage :: "bytes \<Rightarrow> bytes \<Rightarrow> peer \<Rightarrow> peer" where
  "SendMessage command payload p = p\<lparr>pr_sent := pr_sent p @ [peer_message p command payload]\<rparr>"

definition SendVersion :: "int \<Rightarrow> bytes \<Rightarrow> peer \<Rightarrow> peer" where
  "SendVersion now nonce p =
     SendMessage (peer_cmd p ''version'')
       (PackUint32LE (word_of_int (pr_ProtocolVersion p)) @ pr_NetworkServices p @ PackUint64LE (word_of_int now) @
        pr_EmptyNetAddress p @ pr_EmptyNetAddress p @ nonce @ pr_UserAgent p @ pr_BlockStartHeight p @ pr_RelayTransactions p) p"

definition ProcessBlockNotify :: "string \<Rightarrow> peer \<Rightarrow> peer" where
  "ProcessBlockNotify blockHash p = p\<lparr>pr_notified := pr_notified p @ [blockHash]\<rparr>"

text \<open>
  \<open>for count--; count != 0; count--\<close>: entered with the counter already lowered. Every round needs the
  36 bytes of an entry, else it panics, so the loop ends even when the counter started below zero.
\<close>

function inv_loop :: "int \<Rightarrow> bytes \<Rightarrow> peer \<Rightarrow> unit res \<times> peer" where
  "inv_loop count buf p =
     (if count = 0 then (Inr (), p)
      else if length buf < 4 then (Inl (Panic ''index out of range''), p)
      else
        (let code = word_of_nat (le_nat (take 4 buf)) in
         if code \<noteq> inv_code p ''error'' \<and> code \<noteq> inv_code p ''tx'' \<and> code = inv_code p ''block'' \<and> length buf < 36
         then (Inl (Panic ''slice bounds out of range''), p)
         else
           (let p = (if code \<noteq> inv_code p ''error'' \<and> code \<noteq> inv_code p ''tx'' \<and> code = inv_code p ''block''
                     then ProcessBlockNotify (hex_encode (take 32 (drop 4 buf))) p else p) in
            if length buf < 36 then (Inl (Panic ''slice bounds out of range''), p)
            else inv_loop (count - 1) (drop 36 buf) p)))"
  by pat_completeness auto
termination
  by (relation "measure (\<lambda>(_, buf, _). length buf)") auto

declare inv_loop.simps [simp del]

definition HandleInv :: "bytes \<Rightarrow> peer \<Rightarrow> unit res \<times> peer" where
  "HandleInv payload p =
     (if payload = [] then (Inl (Panic ''index out of range''), p)
      else if hd payload < 0xFD then inv_loop (uint (hd payload) - 1) (tl payload) p
      else if length payload < 2 then (Inl (Panic ''slice bounds out of range''), p)
      else inv_loop (int (le_nat (take 2 payload)) - 1) (drop 2 payload) p)"

definition HandleMessage :: "bytes \<Rightarrow> bytes \<Rightarrow> peer \<Rightarrow> unit res \<times> peer" where
  "HandleMessage command payload p =
     (if command = peer_cmd p ''inv'' then HandleInv payload p
      else if command = peer_cmd p ''verack'' then (Inr (), if pr_VerAck p then p else p\<lparr>pr_VerAck := True\<rparr>)
      else if command = peer_cmd p ''version'' then (Inr (), SendMessage (peer_cmd p ''verack'') [] p)
      else (Inr (), p))"

text \<open>
  One round of the loop of \<open>SetupMessageParser\<close>. The two reads give the bytes read and whether there was
  an error; a payload that is read short stays zero at its end.
\<close>

definition parser_round :: "bytes \<times> bool \<Rightarrow> bytes \<times> bool \<Rightarrow> peer \<Rightarrow> unit res \<times> peer" where
  "parser_round r1 r2 p =
     (let header = fst r1 in
      if snd r1 \<or> length header < 24 then (Inr (), p)
      else if take 4 header \<noteq> pr_Magic p then (Inr (), p)
      else
        (let l = le_nat (take 4 (drop 16 header)); payload = fst r2 @ replicate (l - length (fst r2)) 0 in
         if snd r2 then (Inr (), p)
         else if take 4 (Sha256d payload) = take 4 (drop 20 header) then HandleMessage (take 12 (drop 4 header)) payload p
         else (Inr (), p)))"

subsection \<open>Messages are read back\<close>

lemma length_Sha256d: "length (Sha256d b) = 32"
  by (simp add: Sha256d_def Sha256_def length_sha256)

text \<open>
  C34. What a peer sends, a peer reads. A message written with a 4-byte magic and a 12-byte command,
  delivered in the two reads of the parser, makes exactly the call of the message handler with
  that command and payload.
\<close>

theorem message_read_back:
  assumes "length (pr_Magic p) = 4" "length command = 12" "length payload < 2 ^ 32"
  shows "parser_round (take 24 (peer_message p command payload), False) (drop 24 (peer_message p command payload), False) p =
    HandleMessage command payload p"
proof -
  have "le_nat (PackUint32LE (word_of_nat (length payload))) = length payload"
    using assms(3) by (simp add: PackUint32LE_def le_nat_le_bytes unat_of_nat)
  moreover have "length (PackUint32LE (word_of_nat (length payload))) = 4" by (simp add: PackUint32LE_def)
  ultimately show ?thesis
    using assms(1,2) by (simp add: parser_round_def peer_message_def length_Sha256d)
qed

subsection \<open>Announced blocks\<close>

text \<open>The payload of an inventory of fewer than 253 entries.\<close>

definition inv_payload :: "(u32 \<times> bytes) list \<Rightarrow> bytes" where
  "inv_payload items = word_of_nat (length items) # concat (map (\<lambda>(t, h). PackUint32LE t @ h) items)"

definition standard_codes :: "peer \<Rightarrow> bool" where
  "standard_codes p \<longleftrightarrow> inv_code p ''error'' = 0 \<and> inv_code p ''tx'' = 1 \<and> inv_code p ''block'' = 2"

lemma NewPeer_codes: "NewPeer v opts = Inr p \<Longrightarrow> standard_codes p"
  by (auto simp: NewPeer_def standard_codes_def inv_code_def split: prod.splits if_splits)

lemma inv_loop_entries:
  assumes "standard_codes p" "\<forall>(t, h)\<in>set items. length h = 32" "n \<le> length items"
  shows "inv_loop (int n) (concat (map (\<lambda>(t, h). PackUint32LE t @ h) items)) p =
    (Inr (), p\<lparr>pr_notified := pr_notified p @ [hex_encode h. (t, h) \<leftarrow> take n items, t = 2]\<rparr>)"
  using assms
proof (induction n arbitrary: items p)
  case 0
  then show ?case by (simp add: inv_loop.simps)
next
  case (Suc n)
  then obtain t h items' where i: "items = (t, h) # items'" "length h = 32" by (cases items) auto
  have t: "word_of_nat (le_nat (PackUint32LE t)) = t" using u32_less [of t] by (simp add: PackUint32LE_def le_nat_le_bytes)
  have l: "length (PackUint32LE t) = 4" by (simp add: PackUint32LE_def)
  define p' where "p' = (if t = 2 then ProcessBlockNotify (hex_encode h) p else p)"
  have "standard_codes p'" using Suc.prems(1) by (simp add: p'_def ProcessBlockNotify_def standard_codes_def inv_code_def)
  then have "inv_loop (int n) (concat (map (\<lambda>(t, h). PackUint32LE t @ h) items')) p' =
      (Inr (), p'\<lparr>pr_notified := pr_notified p' @ [hex_encode h. (t, h) \<leftarrow> take n items', t = 2]\<rparr>)"
    using Suc.IH [of p' items'] Suc.prems i by simp
  moreover have "inv_loop (int (Suc n)) (concat (map (\<lambda>(t, h). PackUint32LE t @ h) items)) p =
      inv_loop (int n) (concat (map (\<lambda>(t, h). PackUint32LE t @ h) items')) p'"
    using Suc.prems(1) i l t by (subst inv_loop.simps) (auto simp: standard_codes_def p'_def Let_def)
  ultimately show ?case by (auto simp: i p'_def ProcessBlockNotify_def)
qed

text \<open>
  The last entry of every inventory is ignored. The loop lowers its counter before the first
  round, so of an inventory with between 1 and 252 entries the blocks among all but the last are
  announced, in order; nodes announce a new block in an inventory of one entry, of which nothing
  is left.
\<close>

theorem inv_last_entry_ignored:
  assumes "NewPeer v opts = Inr p" "items \<noteq> []" "length items < 253" "\<forall>(t, h)\<in>set items. length h = 32"
  shows "HandleInv (inv_payload items) p =
    (Inr (), p\<lparr>pr_notified := pr_notified p @ [hex_encode h. (t, h) \<leftarrow> butlast items, t = 2]\<rparr>)"
proof -
  have u: "uint (word_of_nat (length items) :: byte) = int (length items)" using assms(3) by (simp add: uint_nat unat_of_nat)
  then have "(word_of_nat (length items) :: byte) < 0xFD" using assms(3) by (simp add: word_less_alt)
  then have "HandleInv (inv_payload items) p =
      inv_loop (int (length items - 1)) (concat (map (\<lambda>(t, h). PackUint32LE t @ h) items)) p"
    using u assms(2) by (simp add: HandleInv_def inv_payload_def of_nat_diff Suc_leI)
  then show ?thesis
    using inv_loop_entries [OF NewPeer_codes [OF assms(1)] assms(4), of "length items - 1"] by (simp add: butlast_conv_take)
qed

definition ex_p2p_options :: p2p_options where
  "ex_p2p_options = \<lparr>po_Host = ''node'', po_Port = 8333, po_Magic = ''f9beb4d9'', po_DisableTransactions = True\<rparr>"

lemma ex_magic: "hex_decode ''f9beb4d9'' = ([0xf9, 0xbe, 0xb4, 0xd9], True)"
  by code_simp

lemma ex_peer: "\<exists>p. NewPeer 70015 ex_p2p_options = Inr p \<and> length (pr_Magic p) = 4"
  by (simp add: NewPeer_def ex_p2p_options_def ex_magic del: hex_decode.simps)

theorem inv_last_entry_ignored_witness:
  "\<exists>p. NewPeer 70015 ex_p2p_options = Inr p \<and> HandleInv (inv_payload [(2, replicate 32 7)]) p = (Inr (), p)"
proof -
  obtain p where p: "NewPeer 70015 ex_p2p_options = Inr p" using ex_peer by blast
  then show ?thesis using inv_last_entry_ignored [OF p, of "[(2, replicate 32 7)]"] by simp
qed

theorem message_read_back_witness:
  "\<exists>p. NewPeer 70015 ex_p2p_options = Inr p \<and>
    parser_round (take 24 (peer_message p (CommandStringBytes ''verack'') []), False)
      (drop 24 (peer_message p (CommandStringBytes ''verack'') []), False) p =
    HandleMessage (CommandStringBytes ''verack'') [] p"
proof -
  obtain p where p: "NewPeer 70015 ex_p2p_options = Inr p" "length (pr_Magic p) = 4" using ex_peer by blast
  have "length (CommandStringBytes ''verack'') = 12" by (simp add: CommandStringBytes_def FixedLenStringBytes_def)
  then show ?thesis using message_read_back [OF p(2), of "CommandStringBytes ''verack''" "[]"] p(1) by simp
qed

end
