(* ===== verification/Pool.thy ===== *)
theory Pool
  imports StratumWork P2P GoStrconv EngineCore
begin

text \<open>
  \<open>pool/pool.go\<close>: how the parts are put together at start-up, and the two loops that feed new block
  templates to the job manager. The wallet check of the payment manager, the opening of the stratum
  ports and the decoders of RPC results are parameters; starting a service is an entry of a list.
\<close>

text \<open>\<open>op_Ports\<close> are the keys of the map of ports in the order in which it is walked.\<close>

record pool_options = job_options +
  op_Name :: string
  op_Symbol :: string
  op_Engine :: string
  op_DisablePayment :: bool
  op_HasPaymentOptions :: bool
  op_P2P :: "p2p_options option"
  op_BlockRefreshInterval :: int
  op_Testnet :: bool
  op_Ports :: "int list"

text \<open>\<open>TotalFeePercent\<close>.\<close>

definition TotalFeePercent :: "pool_options \<Rightarrow> f64" where
  "TotalFeePercent o' = foldl f64_add (Fin 0) (map rc_Percent (jo_RewardRecipients o'))"

record pool_stats =
  ps_Connections :: int
  ps_Difficulty :: f64
  ps_NetworkHashrate :: f64
  ps_StratumPorts :: "int list"

definition NewStats :: pool_stats where
  "NewStats = \<lparr>ps_Connections = 0, ps_Difficulty = Fin 0, ps_NetworkHashrate = Fin 0, ps_StratumPorts = []\<rparr>"

text \<open>
  \<open>pe_jsonify\<close> marshals a response; \<open>pe_difficulty\<close>, \<open>pe_miningInfo\<close> (network hashrate), \<open>pe_info\<close> and
  \<open>pe_networkInfo\<close> (testnet, protocol version, connections) and \<open>pe_chain\<close> decode results (\<open>None\<close> where
  the code stops the process). \<open>pe_listen\<close> opens a stratum port, \<open>pe_payInit\<close> is \<open>PaymentManager.Init\<close>.
\<close>

record 'w pool_env =
  pe_ar :: algo_registry
  pe_al :: address_libs
  pe_rpc :: "'w transport"
  pe_decode_gbt :: "iface option \<Rightarrow> block_template option"
  pe_jsonify :: "rpc_response \<Rightarrow> string"
  pe_difficulty :: "iface option \<Rightarrow> iface option"
  pe_miningInfo :: "iface option \<Rightarrow> f64 option"
  pe_info :: "iface option \<Rightarrow> (bool \<times> int \<times> int) option"
  pe_networkInfo :: "iface option \<Rightarrow> (int \<times> int) option"
  pe_chain :: "iface option \<Rightarrow> string option"
  pe_payInit :: "'w \<Rightarrow> unit res \<times> 'w"
  pe_listen :: "int \<Rightarrow> 'w \<Rightarrow> bool \<times> 'w"

text \<open>
  \<open>pl_Engine\<close> says that an engine is set; \<open>pl_Listener\<close> is the port that the server's listener is for; \<open>pl_services\<close> lists what has been started, in order, and
  \<open>pl_printed\<close> what went to the standard output. The managers are nil where they are not built.
\<close>

record 'w pool =
  pl_options :: pool_options
  pl_dm :: "daemon_manager option"
  pl_jm :: "job_manager option"
  pl_Engine :: bool
  pl_P2PManager :: "peer option"
  pl_ProtocolVersion :: int
  pl_Magnitude :: u64
  pl_CoinPrecision :: int
  pl_stats :: pool_stats
  pl_Listener :: "int option"
  pl_services :: "string list"
  pl_printed :: "string list"
  pl_world :: 'w

subsection \<open>Construction\<close>

text \<open>The checks on the algorithm, and the default multiplier.\<close>

definition check_algorithm :: "algo_registry \<Rightarrow> algorithm_options \<Rightarrow> algorithm_options res" where
  "check_algorithm ar a =
     (if \<not> IsSupported ar (ao_Name a) then Inl (Panic ''algorithm is not supported'')
      else if ao_BlockHasher a \<noteq> '''' \<and> \<not> IsSupported ar (ao_BlockHasher a) then Inl (Panic ''blockHasher is not supported'')
      else Inr (if ao_Multiplier a = 0 then a\<lparr>ao_Multiplier := int (DefaultMultiplier ar (ao_Name a))\<rparr> else a))"

fun check_scripts :: "address_libs \<Rightarrow> recipient list \<Rightarrow> unit res" where
  "check_scripts al [] = Inr ()"
| "check_scripts al (r # rs) =
     rbind (GetScript al r) (\<lambda>(s, _). if s = None then Inl (Panic ''failed to get script'') else check_scripts al rs)"

text \<open>\<open>bytes.Split\<close> at a separator that is not empty.\<close>

function split_str :: "string \<Rightarrow> string \<Rightarrow> string \<Rightarrow> string list" where
  "split_str sep cur [] = [cur]"
| "split_str sep cur (c # cs) =
     (if sep \<noteq> [] \<and> has_prefix (c # cs) sep then cur # split_str sep [] (drop (length sep) (c # cs))
      else split_str sep (cur @ [c]) cs)"
  by pat_completeness auto
termination
  by (relation "measure (\<lambda>(_, _, s). length s)") auto

definition nth_res :: "'a list \<Rightarrow> nat \<Rightarrow> 'a res" where
  "nth_res xs i = (if i < length xs then Inr (xs ! i) else Inl (Panic ''index out of range''))"

text \<open>The magnitude from the printed balance: \<open>"10"\<close>, the number of its decimals, and \<open>"0"\<close>.\<close>

definition result_marker :: string where
  "result_marker = ''result'' @ [char_of (34 :: nat)] @ '':''"

definition balance_magnitude :: "string \<Rightarrow> int res" where
  "balance_magnitude json =
     rbind (nth_res (split_str result_marker [] json) 1) (\<lambda>s0.
     rbind (nth_res (split_on (CHR '','') s0) 0) (\<lambda>s2.
     rbind (nth_res (split_on (CHR ''.'') s2) 1) (\<lambda>d.
       case parse_int 10 (''10'' @ fmt_uint 10 (length d) @ ''0'') of (m, ok) \<Rightarrow>
         if ok then Inr m else Inl (Fatal ''cannot detect the number of satoshis in a coin''))))"

definition pool_magnitude :: "'w pool_env \<Rightarrow> daemon_manager \<Rightarrow> bool \<Rightarrow> 'w \<Rightarrow> int res \<times> 'w" where
  "pool_magnitude env dm disablePayment w =
     (if disablePayment then (Inr 100000000, w)
      else
        (case Cmd (pe_rpc env) dm ''getbalance'' [] w of
           (None, w) \<Rightarrow> (Inl (Panic ''nil pointer dereference''), w)
         | (Some getBalance, w) \<Rightarrow>
             (if rs_Error getBalance \<noteq> None then Inl (Fatal ''getbalance'') else balance_magnitude (pe_jsonify env getBalance), w)))"

definition NewPool :: "'w pool_env \<Rightarrow> daemon_manager \<Rightarrow> pool_options \<Rightarrow> 'w \<Rightarrow> 'w pool res \<times> 'w" where
  "NewPool env dm options w =
     (let eng = to_lower (op_Engine options) in
      if eng \<noteq> '''' \<and> eng \<noteq> ''gbt'' then (Inl (Panic ''engine must be constructed via pool.NewEnginePool''), w)
      else
        (case check_algorithm (pe_ar env) (jo_Algorithm options) of
           Inl e \<Rightarrow> (Inl e, w)
         | Inr alg \<Rightarrow>
             (let options = options\<lparr>jo_Algorithm := alg\<rparr> in
              case DaemonCheck (pe_rpc env) dm w of
                (Inl e, w) \<Rightarrow> (Inl e, w)
              | (Inr _, w) \<Rightarrow>
                  (case check_scripts (pe_al env) (jo_PoolAddress options # jo_RewardRecipients options) of
                     Inl e \<Rightarrow> (Inl e, w)
                   | Inr _ \<Rightarrow>
                       (case pool_magnitude env dm (op_DisablePayment options) w of
                          (Inl e, w) \<Rightarrow> (Inl e, w)
                        | (Inr magnitude, w) \<Rightarrow>
                            (rbind (NewJobManager (pe_ar env) (job_options.truncate options)) (\<lambda>jm.
                               Inr \<lparr>pl_options = options, pl_dm = Some dm, pl_jm = Some jm, pl_Engine = False, pl_P2PManager = None,
                                    pl_ProtocolVersion = 0, pl_Magnitude = word_of_int magnitude,
                                    pl_CoinPrecision = int (length (fmt_uint 10 (unat (word_of_int magnitude :: u64)))) - 1,
                                    pl_stats = NewStats, pl_Listener = None, pl_services = [], pl_printed = [], pl_world = w\<rparr>), w))))))"

text \<open>
  \<open>NewEnginePool\<close>: the engine comes from the registry and fetches its first work (\<open>einit\<close>); a daemon
  manager is built only when payments are on. The magnitude and the precision keep their zero values.
\<close>

definition NewEnginePool ::
  "'e engine_registry \<Rightarrow> ('e \<Rightarrow> pool_options \<Rightarrow> 'w \<Rightarrow> unit res \<times> 'w) \<Rightarrow> daemon_manager \<Rightarrow> pool_options \<Rightarrow> 'w \<Rightarrow>
   'w pool res \<times> 'w" where
  "NewEnginePool registry einit dm options w =
     (case EngineGet registry (to_lower (op_Engine options)) of
        None \<Rightarrow> (Inl (Panic ''engine is not registered''), w)
      | Some eng \<Rightarrow>
          (case einit eng options w of
             (Inl (Err e), w) \<Rightarrow> (Inl (Fatal (''engine init failed: '' @ e)), w)
           | (Inl e, w) \<Rightarrow> (Inl e, w)
           | (Inr _, w) \<Rightarrow>
               (Inr \<lparr>pl_options = options,
                     pl_dm = (if \<not> op_DisablePayment options \<and> op_HasPaymentOptions options then Some dm else None),
                     pl_jm = None, pl_Engine = True, pl_P2PManager = None, pl_ProtocolVersion = 0, pl_Magnitude = 0,
                     pl_CoinPrecision = 0, pl_stats = NewStats, pl_Listener = None, pl_services = [], pl_printed = [], pl_world = w\<rparr>, w)))"

subsection \<open>Start-up\<close>

definition with_dm :: "(daemon_manager \<Rightarrow> 'w \<Rightarrow> 'a res \<times> 'w) \<Rightarrow> ('w pool, 'a) go" where
  "with_dm f = go_bind (go_get pl_dm) (\<lambda>d. go_bind (go_deref d) (\<lambda>dm p.
     case f dm (pl_world p) of (r, w) \<Rightarrow> (r, p\<lparr>pl_world := w\<rparr>)))"

definition pool_rpc :: "'w pool_env \<Rightarrow> string \<Rightarrow> ('w pool, rpc_response option) go" where
  "pool_rpc env method = with_dm (\<lambda>dm w. case Cmd (pe_rpc env) dm method [] w of (r, w) \<Rightarrow> (Inr r, w))"

definition start_service :: "string \<Rightarrow> ('w pool, unit) go" where
  "start_service s = go_modify (\<lambda>p. p\<lparr>pl_services := pl_services p @ [s]\<rparr>)"

fun check_results :: "(int \<times> rpc_response) list \<Rightarrow> unit res" where
  "check_results [] = Inr ()"
| "check_results ((_, r) # rs) = (if rs_Error r \<noteq> None then Inl (Fatal ''daemon is not ready for mining'') else check_results rs)"

definition CheckAllReady :: "'w pool_env \<Rightarrow> ('w pool, unit) go" where
  "CheckAllReady env = with_dm (\<lambda>dm w.
     let rules = (case dm_GBTRules dm of Some rs \<Rightarrow> rs | None \<Rightarrow> [''segwit'']) in
     case CmdAll (pe_rpc env) dm ''getblocktemplate''
            [IMap [(''capabilities'', IList [IStr ''coinbasetxn'', IStr ''workid'', IStr ''coinbase/append'']),
                   (''rules'', IList (map IStr rules))]] w of
       (r, w) \<Rightarrow> (rbind r check_results, w))"

definition upd_stats :: "(pool_stats \<Rightarrow> pool_stats) \<Rightarrow> ('w pool, unit) go" where
  "upd_stats f = go_modify (\<lambda>p. p\<lparr>pl_stats := f (pl_stats p)\<rparr>)"

text \<open>
  A result that was asked for: a nil response panics at \<open>rpcResponse.Error\<close>, an error ends the
  detection early (\<open>None\<close>).
\<close>

definition asked :: "'w pool_env \<Rightarrow> string \<Rightarrow> ('w pool, iface option option) go" where
  "asked env method =
     go_bind (pool_rpc env method) (\<lambda>r. go_bind (go_deref r) (\<lambda>resp.
       go_return (if rs_Error resp \<noteq> None then None else Some (rs_Result resp))))"

definition fatal_unless :: "'a option \<Rightarrow> ('s, 'a) go" where
  "fatal_unless x = (case x of Some y \<Rightarrow> go_return y | None \<Rightarrow> go_fail (Fatal ''json.Unmarshal''))"

text \<open>\<open>strings.Contains\<close>.\<close>

fun contains_sub :: "string \<Rightarrow> string \<Rightarrow> bool" where
  "contains_sub [] sub = (sub = [])"
| "contains_sub (c # cs) sub = (has_prefix (c # cs) sub \<or> contains_sub cs sub)"

text \<open>The last part: version and connections, from \<open>getinfo\<close> or from two newer calls.\<close>

definition detect_network :: "'w pool_env \<Rightarrow> ('w pool, bool) go" where
  "detect_network env =
     go_bind (asked env ''getinfo'') (\<lambda>r.
       case r of
         Some res \<Rightarrow>
           go_bind (fatal_unless (pe_info env res)) (\<lambda>(testnet, version, conns).
             go_bind (go_modify (\<lambda>p. p\<lparr>pl_options := (pl_options p)\<lparr>op_Testnet := testnet\<rparr>, pl_ProtocolVersion := version,
                 pl_stats := (pl_stats p)\<lparr>ps_Connections := conns\<rparr>\<rparr>)) (\<lambda>_. go_return True))
       | None \<Rightarrow>
           go_bind (asked env ''getnetworkinfo'') (\<lambda>r1.
             case r1 of
               None \<Rightarrow> go_return False
             | Some res1 \<Rightarrow>
                 go_bind (fatal_unless (pe_networkInfo env res1)) (\<lambda>(version, conns).
                 go_bind (asked env ''getblockchaininfo'') (\<lambda>r2.
                   case r2 of
                     None \<Rightarrow> go_return False
                   | Some res2 \<Rightarrow>
                       go_bind (fatal_unless (pe_chain env res2)) (\<lambda>chain.
                         go_bind (go_modify (\<lambda>p. p\<lparr>pl_options := (pl_options p)\<lparr>op_Testnet := contains_sub chain ''test''\<rparr>,
                             pl_ProtocolVersion := version, pl_stats := (pl_stats p)\<lparr>ps_Connections := conns\<rparr>\<rparr>))
                           (\<lambda>_. go_return True))))))"

text \<open>
  Whether the daemon has \<open>submitblock\<close>, from the error of a call without arguments. The coin options are
  shared with the daemon manager. The flag says whether the detection goes on.
\<close>

definition detect_submit :: "'w pool_env \<Rightarrow> ('w pool, bool) go" where
  "detect_submit env =
     go_bind (pool_rpc env ''submitblock'') (\<lambda>r.
       case r of
         None \<Rightarrow> go_return False
       | Some resp \<Rightarrow>
           (case rs_Error resp of
              None \<Rightarrow> go_return False
            | Some e \<Rightarrow>
                if re_Message e = ''Method not found'' then
                  go_bind (go_modify (\<lambda>p. p\<lparr>pl_dm := map_option (\<lambda>d. d\<lparr>dm_NoSubmitBlock := True\<rparr>) (pl_dm p)\<rparr>)) (\<lambda>_. go_return True)
                else if re_Code e = -1 then
                  go_bind (go_modify (\<lambda>p. p\<lparr>pl_dm := map_option (\<lambda>d. d\<lparr>dm_NoSubmitBlock := False\<rparr>) (pl_dm p)\<rparr>)) (\<lambda>_. go_return True)
                else go_fail (Fatal ''Could not detect block submission RPC method'')))"

text \<open>The options are shared with the job manager, which reads the reward type from them.\<close>

definition set_reward :: "string \<Rightarrow> ('w pool, unit) go" where
  "set_reward r = go_modify (\<lambda>p. p\<lparr>pl_options := (pl_options p)\<lparr>jo_Reward := r\<rparr>,
     pl_jm := map_option (\<lambda>jm. jm\<lparr>jm_Options := (jm_Options jm)\<lparr>jo_Reward := r\<rparr>\<rparr>) (pl_jm p)\<rparr>)"

text \<open>
  \<open>DetectCoinData\<close>. A difficulty that is not a number leaves zero: an object is never of the reflect
  kind \<open>Array\<close> that the second case asks for.
\<close>

definition DetectCoinData :: "'w pool_env \<Rightarrow> ('w pool, unit) go" where
  "DetectCoinData env =
     go_bind (asked env ''getdifficulty'') (\<lambda>r.
       case r of
         None \<Rightarrow> go_return ()
       | Some res \<Rightarrow>
           go_bind (fatal_unless (pe_difficulty env res)) (\<lambda>d.
           go_bind (case d of
                      INum x \<Rightarrow> go_bind (set_reward ''POW'') (\<lambda>_. go_return x)
                    | _ \<Rightarrow> go_return (Fin 0)) (\<lambda>diff.
           go_bind (asked env ''getmininginfo'') (\<lambda>r.
             case r of
               None \<Rightarrow> go_return ()
             | Some res \<Rightarrow>
                 go_bind (fatal_unless (pe_miningInfo env res)) (\<lambda>h.
                 go_seq (upd_stats (\<lambda>s. s\<lparr>ps_NetworkHashrate := h\<rparr>)) (
                 go_bind (detect_submit env) (\<lambda>ok.
                   if \<not> ok then go_return ()
                   else
                     go_bind (asked env ''getwalletinfo'') (\<lambda>r.
                       case r of
                         None \<Rightarrow> go_return ()
                       | Some _ \<Rightarrow>
                           go_bind (detect_network env) (\<lambda>ok.
                             if \<not> ok then go_return ()
                             else
                               go_bind (go_get (\<lambda>p. ao_Multiplier (jo_Algorithm (pl_options p)))) (\<lambda>m.
                               go_bind (go_lift (shl1_int64 m)) (\<lambda>mul.
                                 upd_stats (\<lambda>s. s\<lparr>ps_Difficulty := f64_mul diff (f64_of_int mul)\<rparr>))))))))))))"

definition pool_template :: "'w pool_env \<Rightarrow> ('w pool, block_template) go" where
  "pool_template env = with_dm (FetchBlockTemplate (pe_rpc env) (pe_decode_gbt env))"

definition fatal_error :: "('s, 'a) go \<Rightarrow> ('s, 'a) go" where
  "fatal_error m = (\<lambda>s. case m s of (Inl (Err e), s) \<Rightarrow> (Inl (Fatal e), s) | r \<Rightarrow> r)"

definition process_template :: "'w pool_env \<Rightarrow> int \<Rightarrow> bytes \<Rightarrow> block_template \<Rightarrow> ('w pool, unit) go" where
  "process_template env now rand gbt = go_bind (go_get pl_jm) (\<lambda>j. go_bind (go_deref j) (\<lambda>jm p.
     case ProcessTemplate (pe_al env) now rand gbt jm of
       Inl e \<Rightarrow> (Inl e, p) | Inr jm \<Rightarrow> (Inr (), p\<lparr>pl_jm := Some jm\<rparr>)))"

definition StartStratumServer :: "'w pool_env \<Rightarrow> ('w pool, unit) go" where
  "StartStratumServer env =
     go_bind (\<lambda>p. case server_Init (\<lambda>port w. case pe_listen env port w of (ok, w) \<Rightarrow> (if ok then Some port else None, w))
                        (op_Ports (pl_options p)) (pl_world p) of (r, w) \<Rightarrow> (r, p\<lparr>pl_world := w\<rparr>)) (\<lambda>(portStarted, listener).
     go_seq (go_modify (\<lambda>p. p\<lparr>pl_Listener := listener\<rparr>))
     (go_seq (start_service ''stratum'') (upd_stats (\<lambda>s. s\<lparr>ps_StratumPorts := portStarted\<rparr>))))"

definition startPaymentsIfEnabled :: "'w pool_env \<Rightarrow> ('w pool, unit) go" where
  "startPaymentsIfEnabled env =
     go_bind (go_get (\<lambda>p. op_DisablePayment (pl_options p) \<or> \<not> op_HasPaymentOptions (pl_options p))) (\<lambda>off.
       if off then go_return ()
       else
         go_seq (fatal_error (\<lambda>p. case pe_payInit env (pl_world p) of (r, w) \<Rightarrow> (r, p\<lparr>pl_world := w\<rparr>)))
                (start_service ''payments''))"

definition SetupBlockPolling :: "('w pool, unit) go" where
  "SetupBlockPolling =
     go_bind (go_get (\<lambda>p. op_BlockRefreshInterval (pl_options p) \<le> 0)) (\<lambda>off. if off then go_return () else start_service ''polling'')"

text \<open>\<open>GetReadableHashRateString\<close>; a rate of infinity still ends at the last unit.\<close>

definition byteUnits :: "string list" where
  "byteUnits = ['' H'', '' KH'', '' MH'', '' GH'', '' TH'', '' PH'', '' EH'', '' ZH'', '' YH'']"

function readable_loop :: "nat \<Rightarrow> f64 \<Rightarrow> string" where
  "readable_loop i hashrate =
     (if i + 1 < length byteUnits \<and> f64_less (Fin 1000) hashrate then readable_loop (i + 1) (f64_div hashrate (Fin 1000))
      else fmt_f64_prec 7 hashrate @ byteUnits ! i)"
  by pat_completeness auto
termination
  by (relation "measure (\<lambda>(i, _). length byteUnits - i)") auto

definition GetReadableHashRateString :: "f64 \<Rightarrow> string" where
  "GetReadableHashRateString = readable_loop 0"

definition pool_ports :: "int list \<Rightarrow> string" where
  "pool_ports ports = ''['' @ join '','' (map fmt_int ports) @ '']''"

definition upper_char :: "char \<Rightarrow> char" where
  "upper_char c = (let n = (of_char c :: nat) in if 97 \<le> n \<and> n \<le> 122 then char_of (n - 32) else c)"

definition to_upper :: "string \<Rightarrow> string" where
  "to_upper s = map upper_char s"

definition info_line :: "string \<Rightarrow> string \<Rightarrow> string" where
  "info_line key v = key @ '':'' @ [char_of (9 :: nat)] @ v"

definition OutputPoolInfo :: "('w pool, unit) go" where
  "OutputPoolInfo = (\<lambda>p.
     let o' = pl_options p; st = pl_stats p in
     (go_bind (go_deref (pl_jm p)) (\<lambda>jm. go_bind (go_deref (current_job jm)) (\<lambda>cur.
      go_bind (go_lift (shl1_int64 (ao_Multiplier (jo_Algorithm o')))) (\<lambda>mul.
        go_modify (\<lambda>p. p\<lparr>pl_printed := pl_printed p @ [join [char_of (10 :: nat), char_of (9 :: nat)]
          [''Stratum Pool Server Started for '' @ op_Name o' @ '' ['' @ to_upper (op_Symbol o') @ ''] '',
           info_line ''Network Connected'' ((if op_Testnet o' then ''Testnet'' else ''Mainnet'')),
           info_line ''Detected Reward Type'' (jo_Reward o'),
           info_line ''Current Block Height'' (fmt_int (gbt_Height (j_GetBlockTemplate cur))),
           info_line ''Current Connect Peers'' (fmt_int (ps_Connections st)),
           info_line ''Current Block Diff'' (fmt_f64_prec 7 (f64_mul (bf_float64 (j_Difficulty cur)) (f64_of_int mul))),
           info_line ''Network Difficulty'' (fmt_f64_prec 7 (ps_Difficulty st)),
           info_line ''Network Hash Rate'' (GetReadableHashRateString (ps_NetworkHashrate st)),
           info_line ''Stratum Port(s)'' (pool_ports (ps_StratumPorts st)),
           info_line ''Total Pool Fee Percent'' (fmt_f64_prec 7 (TotalFeePercent o') @ [CHR 0x25])]]\<rparr>))))) p)"

text \<open>
  \<open>Init\<close> and \<open>SetupP2PBlockNotify\<close>, which call each other; fuel bounds the depth of the calls, \<open>None\<close> is
  a call that has not returned. \<open>now\<close> and \<open>rand\<close> are for the first job.
\<close>

definition step_opt :: "('s, 'a) go \<Rightarrow> ('a \<Rightarrow> 's \<Rightarrow> ('b res \<times> 's) option) \<Rightarrow> 's \<Rightarrow> ('b res \<times> 's) option" where
  "step_opt m k s = (case m s of (Inl e, s') \<Rightarrow> Some (Inl e, s') | (Inr x, s') \<Rightarrow> k x s')"

fun pool_Init :: "nat \<Rightarrow> 'w pool_env \<Rightarrow> int \<Rightarrow> bytes \<Rightarrow> 'w pool \<Rightarrow> (unit res \<times> 'w pool) option"
and SetupP2PBlockNotify :: "nat \<Rightarrow> 'w pool_env \<Rightarrow> int \<Rightarrow> bytes \<Rightarrow> 'w pool \<Rightarrow> (unit res \<times> 'w pool) option" where
  "pool_Init 0 env now rand p = None"
| "pool_Init (Suc n) env now rand p =
     (if pl_Engine p then
        Some (go_seq (StartStratumServer env) (go_seq (start_service ''api'') (startPaymentsIfEnabled env)) p)
      else
        step_opt (CheckAllReady env) (\<lambda>_.
        step_opt (DetectCoinData env) (\<lambda>_.
        step_opt (fatal_error (pool_template env)) (\<lambda>initGBT p.
          case SetupP2PBlockNotify n env now rand p of
            None \<Rightarrow> None
          | Some (Inl e, p) \<Rightarrow> Some (Inl e, p)
          | Some (Inr _, p) \<Rightarrow>
              Some (go_seq SetupBlockPolling (go_seq (process_template env now rand initGBT)
                (go_seq (StartStratumServer env) (go_seq (start_service ''api'') (go_seq (startPaymentsIfEnabled env)
                OutputPoolInfo)))) p)))) p)"
| "SetupP2PBlockNotify 0 env now rand p = None"
| "SetupP2PBlockNotify (Suc n) env now rand p =
     (case op_P2P (pl_options p) of
        None \<Rightarrow> Some (Inr (), p)
      | Some opts \<Rightarrow>
          (case NewPeer (pl_ProtocolVersion p) opts of
             Inl e \<Rightarrow> Some (Inl e, p)
           | Inr peer \<Rightarrow>
               (case pool_Init n env now rand (p\<lparr>pl_P2PManager := Some peer\<rparr>) of
                  None \<Rightarrow> None
                | Some (Inl e, p) \<Rightarrow> Some (Inl e, p)
                | Some (Inr _, p) \<Rightarrow> Some (start_service ''p2p notify'' p))))"

subsection \<open>The loops\<close>

text \<open>A tick of the polling loop. An error is logged and there is no template then.\<close>

definition block_poll_tick :: "'w pool_env \<Rightarrow> int \<Rightarrow> bytes \<Rightarrow> ('w pool, unit) go" where
  "block_poll_tick env now rand = (\<lambda>p.
     case pool_template env p of
       (Inl (Err _), p) \<Rightarrow> (Inr (), p)
     | (Inl e, p) \<Rightarrow> (Inl e, p)
     | (Inr gbt, p) \<Rightarrow> process_template env now rand gbt p)"

text \<open>A block announced by the peer. After an error the nil template is processed all the same.\<close>

definition p2p_block_tick :: "'w pool_env \<Rightarrow> int \<Rightarrow> bytes \<Rightarrow> string \<Rightarrow> ('w pool, unit) go" where
  "p2p_block_tick env now rand blockHash = (\<lambda>p.
     case map_option current_job (pl_jm p) of
       None \<Rightarrow> (Inl (Panic ''nil pointer dereference''), p)
     | Some None \<Rightarrow> (Inr (), p)
     | Some (Some cur) \<Rightarrow>
         if blockHash = gbt_PreviousBlockHash (j_GetBlockTemplate cur) then (Inr (), p)
         else
           (case pool_template env p of
              (Inl (Err _), p) \<Rightarrow> (Inl (Panic ''nil pointer dereference''), p)
            | (Inl e, p) \<Rightarrow> (Inl e, p)
            | (Inr gbt, p) \<Rightarrow> process_template env now rand gbt p))"

subsection \<open>Properties\<close>

text \<open>The part of the configuration that the start-up never changes.\<close>

definition fixed_part :: "'w pool \<Rightarrow> bool \<times> p2p_options option \<times> bool \<times> bool \<times> int" where
  "fixed_part p = (pl_Engine p, op_P2P (pl_options p), op_DisablePayment (pl_options p),
     op_HasPaymentOptions (pl_options p), op_BlockRefreshInterval (pl_options p))"

lemma fixed_with_dm [inv_intros]: "keeps (\<lambda>p. P (fixed_part p) (pl_services p)) (with_dm f)"
  by (auto simp: keeps_def with_dm_def go_bind_run fixed_part_def go_deref_def split: prod.splits sum.splits option.splits)

lemma fixed_fatal_unless [inv_intros]: "keeps P (fatal_unless x)"
  by (simp add: fatal_unless_def keeps_def split: option.splits)

lemma snd_fatal_error [simp]: "snd (fatal_error m s) = snd (m s)"
  by (auto simp: fatal_error_def split: prod.splits sum.splits go_error.splits)

lemma fatal_error_ok [simp]: "fatal_error m s = (Inr x, s') \<longleftrightarrow> m s = (Inr x, s')"
  by (auto simp: fatal_error_def split: prod.splits sum.splits go_error.splits)

lemma fixed_fatal_error [inv_intros]: "keeps P m \<Longrightarrow> keeps P (fatal_error m)"
  by (simp add: keeps_def)

lemma fixed_upd [inv_intros]:
  "keeps (\<lambda>p. P (fixed_part p) (pl_services p)) (upd_stats f)"
  "keeps (\<lambda>p. P (fixed_part p) (pl_services p)) (set_reward r)"
  by (simp_all add: keeps_def upd_stats_def set_reward_def fixed_part_def)

lemma fixed_asked [inv_intros]: "keeps (\<lambda>p. P (fixed_part p) (pl_services p)) (asked env c)"
  unfolding asked_def pool_rpc_def by (intro inv_intros)

lemma fixed_detect_submit [inv_intros]: "keeps (\<lambda>p. P (fixed_part p) (pl_services p)) (detect_submit env)"
  unfolding detect_submit_def pool_rpc_def by (intro inv_intros) (simp_all add: fixed_part_def)

lemma fixed_detect_network [inv_intros]: "keeps (\<lambda>p. P (fixed_part p) (pl_services p)) (detect_network env)"
  unfolding detect_network_def by (intro inv_intros) (simp_all add: fixed_part_def)

lemma fixed_DetectCoinData: "keeps (\<lambda>p. P (fixed_part p) (pl_services p)) (DetectCoinData env)"
proof -
  have "keeps (\<lambda>p. P (fixed_part p) (pl_services p)) (case d of
          INum x \<Rightarrow> go_bind (set_reward ''POW'') (\<lambda>_. go_return x) | _ \<Rightarrow> go_return (Fin 0))" for d :: iface
    by (cases d) (auto intro: inv_intros)
  then show ?thesis unfolding DetectCoinData_def by (intro inv_intros)
qed

lemma fixed_prologue:
  "keeps (\<lambda>p. P (fixed_part p) (pl_services p)) (CheckAllReady env)"
  "keeps (\<lambda>p. P (fixed_part p) (pl_services p)) (fatal_error (pool_template env))"
  unfolding CheckAllReady_def pool_template_def by (intro inv_intros)+

lemma step_opt_ok:
  "step_opt m k s = Some (Inr y, q) \<longleftrightarrow> (\<exists>x s'. m s = (Inr x, s') \<and> k x s' = Some (Inr y, q))"
  by (auto simp: step_opt_def split: prod.splits sum.splits)

lemma step_opt_total: "(\<And>x s'. \<exists>r. k x s' = Some r) \<Longrightarrow> \<exists>r. step_opt m k s = Some r"
  by (auto simp: step_opt_def split: prod.splits sum.splits)

text \<open>What the three calls before \<open>SetupP2PBlockNotify\<close> leave alone, in one step.\<close>

lemma Init_prologue:
  assumes "pool_Init (Suc n) env now rand p = Some (Inr (), q)" "\<not> pl_Engine p"
  obtains gbt p1 p2 where "fixed_part p1 = fixed_part p" "pl_services p1 = pl_services p"
    "SetupP2PBlockNotify n env now rand p1 = Some (Inr (), p2)"
    "go_seq SetupBlockPolling (go_seq (process_template env now rand gbt) (go_seq (StartStratumServer env)
       (go_seq (start_service ''api'') (go_seq (startPaymentsIfEnabled env) OutputPoolInfo)))) p2 = (Inr (), q)"
proof -
  let ?P = "\<lambda>f s. f = fixed_part p \<and> s = pl_services p"
  from assms obtain a b gbt p1 where run: "CheckAllReady env p = (Inr (), a)" "DetectCoinData env a = (Inr (), b)"
      "fatal_error (pool_template env) b = (Inr gbt, p1)"
    and rest: "(case SetupP2PBlockNotify n env now rand p1 of None \<Rightarrow> None | Some (Inl e, p) \<Rightarrow> Some (Inl e, p)
      | Some (Inr _, p) \<Rightarrow> Some (go_seq SetupBlockPolling (go_seq (process_template env now rand gbt) (go_seq (StartStratumServer env)
       (go_seq (start_service ''api'') (go_seq (startPaymentsIfEnabled env) OutputPoolInfo)))) p)) = Some (Inr (), q)"
    by (auto simp: step_opt_ok)
  have "?P (fixed_part a) (pl_services a)" by (rule keepsD [OF fixed_prologue(1) _ run(1)]) simp
  then have "?P (fixed_part b) (pl_services b)" by (rule keepsD [OF fixed_DetectCoinData _ run(2)])
  then have "?P (fixed_part p1) (pl_services p1)" by (rule keepsD [OF fixed_prologue(2) _ run(3)])
  with rest that show thesis by (auto split: option.splits sum.splits)
qed

lemma p2p_Init_never:
  "fst (fixed_part p) = False \<Longrightarrow> fst (snd (fixed_part p)) \<noteq> None \<Longrightarrow> pool_Init n env now rand p \<noteq> Some (Inr (), q)"
proof (induction n arbitrary: p q rule: less_induct)
  case (less n)
  show ?case
  proof
    assume run: "pool_Init n env now rand p = Some (Inr (), q)"
    then obtain m where n: "n = Suc m" by (cases n) auto
    from less.prems have "\<not> pl_Engine p" by (simp add: fixed_part_def)
    then obtain p1 p2 where p1: "fixed_part p1 = fixed_part p" and su: "SetupP2PBlockNotify m env now rand p1 = Some (Inr (), p2)"
      using Init_prologue [OF run [unfolded n]] by metis
    then obtain k where m: "m = Suc k" by (cases m) auto
    from less.prems p1 obtain opts where opts: "op_P2P (pl_options p1) = Some opts" by (auto simp: fixed_part_def)
    with su m obtain pe u p3 where "pool_Init k env now rand (p1\<lparr>pl_P2PManager := Some pe\<rparr>) = Some (Inr u, p3)"
      by (auto split: sum.splits option.splits)
    moreover have "fixed_part (p1\<lparr>pl_P2PManager := Some pe\<rparr>) = fixed_part p" using p1 by (simp add: fixed_part_def)
    ultimately show False using less.IH [of k "p1\<lparr>pl_P2PManager := Some pe\<rparr>" p3] less.prems n m by simp
  qed
qed

lemma polling_services:
  "SetupBlockPolling p = (Inr (), p\<lparr>pl_services := pl_services p @ (if op_BlockRefreshInterval (pl_options p) \<le> 0 then [] else [''polling''])\<rparr>)"
  by (simp add: SetupBlockPolling_def start_service_def go_bind_run)

lemma stratum_services:
  "StartStratumServer env p = (Inr (), q) \<Longrightarrow>
   pl_services q = pl_services p @ [''stratum''] \<and> ps_StratumPorts (pl_stats q) \<noteq> [] \<and> fixed_part q = fixed_part p \<and>
   pl_jm q = pl_jm p"
  by (auto simp: StartStratumServer_def go_bind_run start_service_def upd_stats_def fixed_part_def go_seq_def server_Init_def
      split: prod.splits if_splits sum.splits)

lemma template_services:
  "process_template env now rand gbt p = (Inr (), q) \<Longrightarrow>
   pl_services q = pl_services p \<and> fixed_part q = fixed_part p \<and> pl_stats q = pl_stats p"
  by (auto simp: process_template_def go_bind_run go_deref_def fixed_part_def split: option.splits sum.splits prod.splits)

lemma payment_services:
  "startPaymentsIfEnabled env p = (Inr (), q) \<Longrightarrow>
   pl_services q = pl_services p @ (if op_DisablePayment (pl_options p) \<or> \<not> op_HasPaymentOptions (pl_options p) then [] else [''payments'']) \<and>
   pl_stats q = pl_stats p \<and> pl_jm q = pl_jm p"
  by (auto simp: startPaymentsIfEnabled_def go_bind_eq_ok go_seq_eq_ok start_service_def split: if_splits prod.splits)

lemma output_services:
  "OutputPoolInfo p = (Inr (), q) \<Longrightarrow>
   (\<exists>jm job. pl_jm q = Some jm \<and> current_job jm = Some job) \<and> pl_services q = pl_services p \<and> pl_stats q = pl_stats p"
  by (auto simp: OutputPoolInfo_def go_bind_eq_ok Let_def go_deref_def split: option.splits)

lemma started_pool:
  assumes "pool_Init (Suc n) env now rand p = Some (Inr (), q)" "\<not> pl_Engine p" "op_P2P (pl_options p) = None"
  shows "(\<exists>jm job. pl_jm q = Some jm \<and> current_job jm = Some job) \<and> ps_StratumPorts (pl_stats q) \<noteq> [] \<and>
    pl_services q = pl_services p @ (if op_BlockRefreshInterval (pl_options p) \<le> 0 then [] else [''polling'']) @
      [''stratum'', ''api''] @ (if op_DisablePayment (pl_options p) \<or> \<not> op_HasPaymentOptions (pl_options p) then [] else [''payments''])"
proof -
  from Init_prologue [OF assms(1,2)] obtain gbt p1 p2 where p1: "fixed_part p1 = fixed_part p" "pl_services p1 = pl_services p"
    and su: "SetupP2PBlockNotify n env now rand p1 = Some (Inr (), p2)"
    and rest: "go_seq SetupBlockPolling (go_seq (process_template env now rand gbt) (go_seq (StartStratumServer env)
       (go_seq (start_service ''api'') (go_seq (startPaymentsIfEnabled env) OutputPoolInfo)))) p2 = (Inr (), q)" by metis
  from su p1 assms(3) have "p2 = p1" by (cases n) (auto simp: fixed_part_def)
  with rest obtain a b c d where "SetupBlockPolling p1 = (Inr (), a)" "process_template env now rand gbt a = (Inr (), b)"
      "StartStratumServer env b = (Inr (), c)" "startPaymentsIfEnabled env (c\<lparr>pl_services := pl_services c @ [''api'']\<rparr>) = (Inr (), d)"
      "OutputPoolInfo d = (Inr (), q)"
    by (auto simp: go_seq_eq_ok start_service_def)
  with p1 show ?thesis
    by (auto simp: polling_services fixed_part_def dest!: template_services stratum_services payment_services output_services)
qed

lemma step_opt_keeps_total:
  assumes "keeps Q m" "Q s" "\<And>x s'. Q s' \<Longrightarrow> \<exists>r. k x s' = Some r"
  shows "\<exists>r. step_opt m k s = Some r"
  using assms(3) keepsD [OF assms(1,2)] by (auto simp: step_opt_def split: prod.splits sum.splits)

lemma Init_total:
  assumes "\<not> pl_Engine p" "op_P2P (pl_options p) = None"
  shows "\<exists>r. pool_Init (Suc (Suc n)) env now rand p = Some r"
proof -
  let ?Q = "\<lambda>q. fst (snd (fixed_part q)) = None"
  note st = step_opt_keeps_total [where Q = ?Q]
  have ca: "keeps ?Q (CheckAllReady env)" by (rule fixed_prologue(1) [where P = "\<lambda>f _. fst (snd f) = None"])
  have dc: "keeps ?Q (DetectCoinData env)" by (rule fixed_DetectCoinData [where P = "\<lambda>f _. fst (snd f) = None"])
  have pt: "keeps ?Q (fatal_error (pool_template env))" by (rule fixed_prologue(2) [where P = "\<lambda>f _. fst (snd f) = None"])
  have "?Q p" using assms(2) by (simp add: fixed_part_def)
  then have "\<exists>r. step_opt (CheckAllReady env) (\<lambda>_. step_opt (DetectCoinData env) (\<lambda>_. step_opt (fatal_error (pool_template env)) k)) p = Some r"
    if "\<And>g s'. ?Q s' \<Longrightarrow> \<exists>r. k g s' = Some r" for k :: "block_template \<Rightarrow> 'a pool \<Rightarrow> (unit res \<times> 'a pool) option"
    by (intro st [OF ca] st [OF dc] st [OF pt] that)
  with assms(1) show ?thesis by (simp add: fixed_part_def)
qed


text \<open>
  C38. A pool with a peer configured never starts. \<open>SetupP2PBlockNotify\<close> calls \<open>Init\<close> of the pool, where
  the peer was meant, and \<open>Init\<close> calls \<open>SetupP2PBlockNotify\<close> again: whatever the depth of calls allowed,
  \<open>Init\<close> does not return without an error.
\<close>

theorem pool_with_p2p_never_starts:
  assumes "\<not> pl_Engine p" "op_P2P (pl_options p) = Some opts"
  shows "pool_Init fuel env now rand p \<noteq> Some (Inr (), q)"
  using assms by (intro p2p_Init_never) (simp_all add: fixed_part_def)

text \<open>A balance with eight decimals gives the magnitude 1080: the digits of \<open>10\<close>, of 8 and \<open>0\<close>, not a power of ten.\<close>

lemma magnitude_of_eight_decimals: "balance_magnitude (''{'' @ result_marker @ ''1.50000000,'') = Inr 1080"
proof -
  have split: "split_str result_marker [] (''{'' @ result_marker @ ''1.50000000,'') = [''{'', ''1.50000000,'']" by code_simp
  have ev: "split_on (CHR '','') ''1.50000000,'' = [''1.50000000'', '''']" "split_on (CHR ''.'') ''1.50000000'' = [''1'', ''50000000'']"
    "fmt_uint 10 (Suc (Suc (Suc (Suc (Suc (Suc (Suc (Suc 0)))))))) = ''8''"
    by code_simp+
  have "parse_int 10 ''1080'' = (1080, True)"
    by (simp add: parse_int_def parse_uint_def unhex_def)
  then show ?thesis unfolding balance_magnitude_def split by (simp add: nth_res_def ev del: split_on.simps)
qed

definition ex_reply :: "(int \<times> string) option \<Rightarrow> rpc_response" where
  "ex_reply e = \<lparr>rs_Id = INum (Fin 1), rs_Result = Some INil, rs_Error = map_option (\<lambda>(c, m). \<lparr>re_Code = c, re_Message = m\<rparr>) e\<rparr>"

definition ex_env :: "unit pool_env" where
  "ex_env = \<lparr>pe_ar = ex_registry, pe_al = ex_libs,
     pe_rpc = (\<lambda>_ method _ w. (Reply 200 (ex_reply (if method = ''submitblock'' then Some (-1, ''usage'') else None)), w)),
     pe_decode_gbt = (\<lambda>_. Some ex_template), pe_jsonify = (\<lambda>_. ''''), pe_difficulty = (\<lambda>_. Some (INum (Fin 1))),
     pe_miningInfo = (\<lambda>_. Some (Fin 0)), pe_info = (\<lambda>_. Some (False, 70015, 8)), pe_networkInfo = (\<lambda>_. None),
     pe_chain = (\<lambda>_. None), pe_payInit = (\<lambda>w. (Inr (), w)), pe_listen = (\<lambda>_ w. (True, w))\<rparr>"

definition ex_pool_options :: pool_options where
  "ex_pool_options = \<lparr>jo_PoolAddress = ex_recipient, jo_RewardRecipients = [], jo_Reward = '''', jo_TxMessages = False,
     jo_Algorithm = \<lparr>ao_Name = ''toy'', ao_Multiplier = 0, ao_SHA256dBlockHasher = False, ao_BlockHasher = '''', ao_CoinbaseHasher = ''''\<rparr>,
     op_Name = ''Toy'', op_Symbol = ''toy'', op_Engine = '''', op_DisablePayment = True, op_HasPaymentOptions = False, op_P2P = None,
     op_BlockRefreshInterval = 1, op_Testnet = False, op_Ports = [3032]\<rparr>"

definition ex_pool :: "unit pool" where
  "ex_pool = \<lparr>pl_options = ex_pool_options, pl_dm = Some ex_manager,
     pl_jm = Some (ex_jm\<lparr>jm_Options := job_options.truncate ex_pool_options, jm_CurrentJob := None, jm_ValidJobs := Map.empty\<rparr>),
     pl_Engine = False, pl_P2PManager = None, pl_ProtocolVersion = 0, pl_Magnitude = 100000000, pl_CoinPrecision = 8,
     pl_stats = NewStats, pl_Listener = None, pl_services = [], pl_printed = [], pl_world = ()\<rparr>"

theorem pool_with_p2p_never_starts_witness:
  "pool_Init 1000 ex_env 1600000000 [] (ex_pool\<lparr>pl_options := ex_pool_options\<lparr>op_P2P := Some ex_p2p_options\<rparr>\<rparr>) \<noteq> Some (Inr (), ex_pool)"
  by (rule pool_with_p2p_never_starts [where opts = ex_p2p_options]) (simp_all add: ex_pool_def)

lemma ex_CheckAllReady: "CheckAllReady ex_env ex_pool = (Inr (), ex_pool)"
  by (simp add: CheckAllReady_def with_dm_def go_bind_run go_deref_def CmdAll_def ex_env_def ex_pool_def ex_manager_def ex_reply_def Let_def)

lemma ex_asked:
  "pl_dm p = Some ex_manager \<Longrightarrow> c \<noteq> ''submitblock'' \<Longrightarrow> asked ex_env c p = (Inr (Some (Some INil)), p)"
  by (simp add: asked_def pool_rpc_def with_dm_def go_bind_run go_deref_def Cmd_def cmdToIndex_def ex_env_def ex_reply_def ex_manager_def)

lemma ex_submitblock:
  "pl_dm p = Some ex_manager \<Longrightarrow> detect_submit ex_env p = (Inr True, p)"
proof -
  assume p: "pl_dm p = Some ex_manager"
  have same: "ex_manager\<lparr>dm_NoSubmitBlock := False\<rparr> = ex_manager" by (simp add: ex_manager_def)
  have "pool_rpc ex_env ''submitblock'' p = (Inr (Some (ex_reply (Some (-1, ''usage'')))), p)"
    using p by (simp add: pool_rpc_def with_dm_def go_bind_run go_deref_def Cmd_def cmdToIndex_def ex_env_def ex_manager_def)
  moreover have "p\<lparr>pl_dm := Some ex_manager\<rparr> = p" using p by (cases p) simp
  ultimately show "detect_submit ex_env p = (Inr True, p)" using p
    by (simp add: detect_submit_def go_bind_run ex_reply_def same)
qed

definition ex_detected :: "pool_stats \<Rightarrow> unit pool" where
  "ex_detected st = ex_pool\<lparr>pl_jm := Some (ex_jm\<lparr>jm_CurrentJob := None, jm_ValidJobs := Map.empty,
       jm_Options := (job_options.truncate ex_pool_options)\<lparr>jo_Reward := ''POW''\<rparr>\<rparr>),
     pl_options := ex_pool_options\<lparr>jo_Reward := ''POW''\<rparr>, pl_ProtocolVersion := 70015, pl_stats := st\<rparr>"

lemma ex_detect: "\<exists>st. DetectCoinData ex_env ex_pool = (Inr (), ex_detected st)"
proof -
  have env: "pe_difficulty ex_env r = Some (INum (Fin 1))" "pe_miningInfo ex_env r = Some (Fin 0)" "pe_info ex_env r = Some (False, 70015, 8)"
    for r by (simp_all add: ex_env_def)
  have p: "pl_dm ex_pool = Some ex_manager" "ao_Multiplier (jo_Algorithm ex_pool_options) = 0" "pl_options ex_pool = ex_pool_options"
    "op_Testnet ex_pool_options = False" "ex_pool_options\<lparr>jo_Reward := r, op_Testnet := False\<rparr> = ex_pool_options\<lparr>jo_Reward := r\<rparr>"
    "pl_jm ex_pool = Some (ex_jm\<lparr>jm_Options := job_options.truncate ex_pool_options, jm_CurrentJob := None, jm_ValidJobs := Map.empty\<rparr>)"
    for r by (simp_all add: ex_pool_def ex_pool_options_def)
  show ?thesis
    by (simp add: DetectCoinData_def detect_network_def go_bind_run go_seq_def ex_asked ex_submitblock fatal_unless_def env set_reward_def
        upd_stats_def p shl1_int64_def ex_detected_def) (rule exI, rule refl)
qed

lemma ex_process:
  assumes "pl_jm p = Some jm" "jm_PoolAddress jm = ex_recipient" "jo_RewardRecipients (jm_Options jm) = []"
    "\<not> jo_TxMessages (jm_Options jm)" "jo_Reward (jm_Options jm) = ''POW''" "current_job jm = None"
  shows "\<exists>job. process_template ex_env 1600000000 rand ex_template p = (Inr (), p\<lparr>pl_jm := Some (set_job job jm)\<rparr>)"
proof -
  obtain job where "NewJob ex_libs 1600000000 (RandHexUint64 rand) ex_template [0x51] (jm_ExtraNoncePlaceholder jm) ''POW'' False []
      (jm_CoinbaseHasher jm) = Inr job"
    using ex_NewJob_ok [of "RandHexUint64 rand" "[0x51]" "jm_ExtraNoncePlaceholder jm" "jm_CoinbaseHasher jm"] by (auto simp: is_ok_iff)
  then have "install_job ex_libs 1600000000 (RandHexUint64 rand) ex_template jm = Inr (set_job job jm)"
    using assms by (simp add: install_job_def ex_script)
  then have "ProcessTemplate (pe_al ex_env) 1600000000 rand ex_template jm = Inr (set_job job jm)"
    using assms by (simp add: ProcessTemplate_def CreateNewJob_def ex_env_def)
  then show ?thesis using assms by (auto simp: process_template_def go_bind_run)
qed

lemma ex_start: "\<exists>q. pool_Init (Suc (Suc n)) ex_env 1600000000 rand ex_pool = Some (Inr (), q)"
proof -
  obtain st where det: "DetectCoinData ex_env ex_pool = (Inr (), ex_detected st)" using ex_detect by blast
  let ?p = "ex_detected st"
  have p: "pl_dm ?p = Some ex_manager" "op_P2P (pl_options ?p) = None" "op_DisablePayment (pl_options ?p)" "op_Ports (pl_options ?p) = [3032]"
    "ao_Multiplier (jo_Algorithm (pl_options ?p)) = 0" "\<not> pl_Engine ex_pool"
    by (simp_all add: ex_detected_def ex_pool_def ex_pool_options_def)
  have tpl: "fatal_error (pool_template ex_env) ?p = (Inr ex_template, ?p)"
    using p(1) by (simp add: fatal_error_def pool_template_def with_dm_def go_bind_run FetchBlockTemplate_def Cmd_def cmdToIndex_def
        ex_env_def ex_reply_def ex_manager_def Let_def)
  let ?q = "?p\<lparr>pl_services := pl_services ?p @ (if op_BlockRefreshInterval (pl_options ?p) \<le> 0 then [] else [''polling''])\<rparr>"
  obtain jm where "pl_jm ?q = Some jm" "jm_PoolAddress jm = ex_recipient" "jo_RewardRecipients (jm_Options jm) = []"
    "\<not> jo_TxMessages (jm_Options jm)" "jo_Reward (jm_Options jm) = ''POW''" "current_job jm = None"
    by (simp add: ex_detected_def ex_jm_def ex_pool_options_def job_options.truncate_def current_job_def)
  then obtain job where job: "process_template ex_env 1600000000 rand ex_template ?q = (Inr (), ?q\<lparr>pl_jm := Some (set_job job jm)\<rparr>)"
    using ex_process by blast
  have listen: "pe_listen ex_env q w = (True, w)" for q w by (simp add: ex_env_def)
  show ?thesis
    using p(2-6) by (simp add: server_Init_def step_opt_def ex_CheckAllReady det tpl go_seq_def go_bind_run polling_services job StartStratumServer_def
        listen start_service_def upd_stats_def startPaymentsIfEnabled_def OutputPoolInfo_def Let_def set_job_def current_job_def shl1_int64_def)
qed


end
