(* ===== verification/Nomp.thy ===== *)
theory Nomp
  imports Pool
begin

text \<open>
  \<open>cmd/nomp/main.go\<close>: the command. It reads the configuration and starts a pool of the kind the
  configuration names. The log level, the file and its decoding come from libraries: \<open>level\<close> tells whether
  the level of the flag is one, \<open>read\<close> gives the content of a file that exists (\<open>None\<close> if it cannot be
  opened), \<open>decode\<close> its JSON.
\<close>

definition load_config :: "bool \<Rightarrow> (string \<Rightarrow> bool) \<Rightarrow> (string \<Rightarrow> string option) \<Rightarrow> (string \<Rightarrow> pool_options option) \<Rightarrow> string \<Rightarrow> pool_options res" where
  "load_config level exists read decode configFileName =
     (if \<not> level then Inl (Panic ''log level'')
      else if \<not> exists configFileName then Inl (Panic (''the config file '' @ configFileName @ '' does not exist''))
      else
        (case read configFileName of
           None \<Rightarrow> Inl (Panic ''open'')
         | Some f \<Rightarrow> (case decode f of None \<Rightarrow> Inl (Panic ''json'') | Some conf \<Rightarrow> Inr conf)))"

text \<open>The name of the engine is compared as it is written.\<close>

definition make_pool ::
  "'w pool_env \<Rightarrow> 'e engine_registry \<Rightarrow> ('e \<Rightarrow> pool_options \<Rightarrow> 'w \<Rightarrow> unit res \<times> 'w) \<Rightarrow> daemon_manager \<Rightarrow> pool_options \<Rightarrow> 'w \<Rightarrow>
   'w pool res \<times> 'w" where
  "make_pool env registry einit dm conf w =
     (if op_Engine conf \<noteq> '''' \<and> op_Engine conf \<noteq> ''gbt'' then NewEnginePool registry einit dm conf w
      else NewPool env dm conf w)"

text \<open>
  \<open>main\<close> up to the empty \<open>select\<close> in which it stays: the pool that runs, or the error it ends with. The fuel
  is that of \<open>pool_Init\<close>; \<open>None\<close> is a start-up that never ends.
\<close>

definition nomp_main ::
  "nat \<Rightarrow> 'w pool_env \<Rightarrow> 'e engine_registry \<Rightarrow> ('e \<Rightarrow> pool_options \<Rightarrow> 'w \<Rightarrow> unit res \<times> 'w) \<Rightarrow> daemon_manager \<Rightarrow>
   pool_options res \<Rightarrow> int \<Rightarrow> bytes \<Rightarrow> 'w \<Rightarrow> 'w pool res option" where
  "nomp_main fuel env registry einit dm conf now rand w =
     (case rbind conf (\<lambda>conf. fst (make_pool env registry einit dm conf w)) of
        Inl e \<Rightarrow> Some (Inl e)
      | Inr p \<Rightarrow> map_option (\<lambda>(r, p). rbind r (\<lambda>_. Inr p)) (pool_Init fuel env now rand p))"

text \<open>An engine pool needs no daemon for its start-up: with one step of fuel \<open>main\<close> ends or serves.\<close>

lemma nomp_main_engine_returns:
  assumes "op_Engine conf \<noteq> ''''" "op_Engine conf \<noteq> ''gbt''"
  shows "nomp_main (Suc n) env registry einit dm (Inr conf) now rand w \<noteq> None"
proof -
  have "pl_Engine p" if "NewEnginePool registry einit dm conf w = (Inr p, w')" for p w'
    using that by (auto simp: NewEnginePool_def split: option.splits prod.splits sum.splits go_error.splits)
  then show ?thesis
    using assms by (auto simp: nomp_main_def make_pool_def split: sum.splits) (metis eq_fst_iff)
qed

text \<open>
  The command is stricter than the constructors about the name \<open>gbt\<close>: \<open>NewPool\<close> takes it in any letter
  case, but \<open>main\<close> hands another spelling to \<open>NewEnginePool\<close>, which finds no such engine and panics.
\<close>

lemma gbt_in_capitals_panics:
  assumes "op_Engine conf = ''GBT''" "map_of registry ''gbt'' = None"
  shows "nomp_main fuel env registry einit dm (Inr conf) now rand w = Some (Inl (Panic ''engine is not registered''))"
proof -
  have "to_lower ''GBT'' = ''gbt''" by code_simp
  then have "NewEnginePool registry einit dm conf w = (Inl (Panic ''engine is not registered''), w)"
    using assms by (simp add: NewEnginePool_def EngineGet_def)
  then show ?thesis using assms(1) by (simp add: nomp_main_def make_pool_def)
qed

subsection \<open>The engines of a build\<close>

text \<open>
  The \<open>init\<close> functions of the engine packages, linked in by the files \<open>engines_*.go\<close>. Each registers its engine
  under one or two names; Ethash and Kaspa only with the build tag of that name.
\<close>

datatype engine_kind = KAlephium | KBeam | KCryptonote | KEquihash | KErgo | KEthash | KKaspa | KKawpow

definition alephium_init :: "engine_kind engine_registry \<Rightarrow> engine_kind engine_registry" where
  "alephium_init r = EngineRegister ''blake3'' (\<lambda>_. KAlephium) (EngineRegister ''alephium'' (\<lambda>_. KAlephium) r)"

definition beam_init :: "engine_kind engine_registry \<Rightarrow> engine_kind engine_registry" where
  "beam_init r = EngineRegister ''beamhash'' (\<lambda>_. KBeam) (EngineRegister ''beam'' (\<lambda>_. KBeam) r)"

definition cryptonote_init :: "engine_kind engine_registry \<Rightarrow> engine_kind engine_registry" where
  "cryptonote_init r = EngineRegister ''randomx'' (\<lambda>_. KCryptonote) (EngineRegister ''cryptonote'' (\<lambda>_. KCryptonote) r)"

definition equihash_init :: "engine_kind engine_registry \<Rightarrow> engine_kind engine_registry" where
  "equihash_init r = EngineRegister ''zelhash'' (\<lambda>_. KEquihash) (EngineRegister ''equihash'' (\<lambda>_. KEquihash) r)"

definition ergo_init :: "engine_kind engine_registry \<Rightarrow> engine_kind engine_registry" where
  "ergo_init r = EngineRegister ''autolykos2'' (\<lambda>_. KErgo) (EngineRegister ''ergo'' (\<lambda>_. KErgo) r)"

definition ethash_init :: "engine_kind engine_registry \<Rightarrow> engine_kind engine_registry" where
  "ethash_init r = EngineRegister ''etchash'' (\<lambda>_. KEthash) (EngineRegister ''ethash'' (\<lambda>_. KEthash) r)"

definition kaspa_init :: "engine_kind engine_registry \<Rightarrow> engine_kind engine_registry" where
  "kaspa_init r = EngineRegister ''kheavyhash'' (\<lambda>_. KKaspa) (EngineRegister ''kaspa'' (\<lambda>_. KKaspa) r)"

definition kawpow_init :: "engine_kind engine_registry \<Rightarrow> engine_kind engine_registry" where
  "kawpow_init r = EngineRegister ''kawpow'' (\<lambda>_. KKawpow) r"

definition built_engines :: "bool \<Rightarrow> bool \<Rightarrow> engine_kind engine_registry" where
  "built_engines ethash kaspa =
     (let r = ergo_init (equihash_init (cryptonote_init (beam_init (alephium_init []))));
          r = (if ethash then ethash_init r else r);
          r = (if kaspa then kaspa_init r else r)
      in kawpow_init r)"

lemmas engine_inits = alephium_init_def beam_init_def cryptonote_init_def equihash_init_def ergo_init_def ethash_init_def
  kaspa_init_def kawpow_init_def EngineRegister_def

lemma built_names:
  "set (Registered (built_engines ethash kaspa)) =
     {''alephium'', ''blake3'', ''beam'', ''beamhash'', ''cryptonote'', ''randomx'', ''equihash'', ''zelhash'', ''ergo'', ''autolykos2'', ''kawpow''} \<union>
     (if ethash then {''ethash'', ''etchash''} else {}) \<union> (if kaspa then {''kaspa'', ''kheavyhash''} else {})"
  by (cases ethash; cases kaspa) (auto simp: built_engines_def engine_inits Registered_def Let_def)

lemma EngineGet_registered: "EngineGet r n = None \<longleftrightarrow> n \<notin> set (Registered r)"
  by (simp add: EngineGet_def Registered_def map_of_eq_None_iff split: option.splits) (metis domI dom_map_of_conv_image_fst)

text \<open>
  The command panics on every engine that was not built in, and only the names of the list above, in any
  letter case, get to the \<open>Init\<close> of an engine (\<open>einit\<close>).
\<close>

lemma unbuilt_engine_panics:
  assumes "op_Engine conf \<noteq> ''''" "op_Engine conf \<noteq> ''gbt''" "to_lower (op_Engine conf) \<notin> set (Registered (built_engines ethash kaspa))"
  shows "nomp_main fuel env (built_engines ethash kaspa) einit dm (Inr conf) now rand w = Some (Inl (Panic ''engine is not registered''))"
  using assms EngineGet_registered [of "built_engines ethash kaspa" "to_lower (op_Engine conf)"]
  by (simp add: nomp_main_def make_pool_def NewEnginePool_def)

end
