(* ===== verification/Miner.thy ===== *)
theory Miner
  imports StratumClient
begin

text \<open>
  \<open>tools/e2eminer/main.go\<close>: the miner of the end-to-end tests, which rebuilds the block header from the
  pool's notification, searches the nonces and submits. Beside it the parts that all test miners share:
  reading the pool's lines, and the search. Flags and the clock are arguments; the lines of the
  connection are a list of decoded objects (\<open>None\<close> for a line that is not one), its end is its end.
\<close>

subsection \<open>Values that cross the wire\<close>

text \<open>\<open>json.Marshal\<close> followed by \<open>json.Unmarshal\<close> into an \<open>interface{}\<close>: every number becomes a float64.\<close>

fun json_read :: "iface \<Rightarrow> iface" where
  "json_read (IInt n) = INum (f64_of_int n)"
| "json_read (IUint64 n) = INum (f64_of_u64 n)"
| "json_read (IList xs) = IList (map json_read xs)"
| "json_read (IMap kvs) = IMap (map (\<lambda>(k, v). (k, json_read v)) kvs)"
| "json_read v = v"

text \<open>Type assertions without a check, and \<open>int(v)\<close> of a float64.\<close>

definition iface_str :: "iface \<Rightarrow> string res" where
  "iface_str v = (case v of IStr s \<Rightarrow> Inr s | _ \<Rightarrow> Inl (Panic ''interface conversion''))"

definition iface_list :: "iface \<Rightarrow> iface list res" where
  "iface_list v = (case v of IList xs \<Rightarrow> Inr xs | _ \<Rightarrow> Inl (Panic ''interface conversion''))"

definition iface_float :: "iface \<Rightarrow> f64 res" where
  "iface_float v = (case v of INum x \<Rightarrow> Inr x | _ \<Rightarrow> Inl (Panic ''interface conversion''))"

definition int_of_f64 :: "f64 \<Rightarrow> int" where
  "int_of_f64 v = sint (f64_to_u64 v)"

definition str_at :: "iface list \<Rightarrow> nat \<Rightarrow> string res" where
  "str_at xs i = rbind (index xs i) iface_str"

subsection \<open>Reading the pool\<close>

type_synonym json_line = "(string \<times> iface) list option"

fun readByID :: "int \<Rightarrow> json_line list \<Rightarrow> ((string \<times> iface) list \<times> json_line list) res" where
  "readByID i [] = Inl (Fatal ''EOF'')"
| "readByID i (None # ls) = Inl (Fatal ''json.Unmarshal'')"
| "readByID i (Some m # ls) =
     (case map_of m ''id'' of
        Some (INum v) \<Rightarrow> if int_of_f64 v = i then Inr (m, ls) else readByID i ls
      | _ \<Rightarrow> readByID i ls)"

fun waitNotify :: "json_line list \<Rightarrow> (iface list \<times> json_line list) res" where
  "waitNotify [] = Inl (Fatal ''EOF'')"
| "waitNotify (None # ls) = Inl (Fatal ''json.Unmarshal'')"
| "waitNotify (Some m # ls) =
     (if map_of m ''method'' = Some (IStr ''mining.notify'')
      then rbind (case map_of m ''params'' of None \<Rightarrow> Inl (Panic ''interface conversion'') | Some v \<Rightarrow> iface_list v) (\<lambda>ps. Inr (ps, ls))
      else waitNotify ls)"

subsection \<open>The search\<close>

text \<open>The nonces from \<open>n\<close> on, \<open>k\<close> of them: what the first that hits gives.\<close>

fun search :: "(nat \<Rightarrow> 'a option res) \<Rightarrow> nat \<Rightarrow> nat \<Rightarrow> 'a option res" where
  "search hit n 0 = Inr None"
| "search hit n (Suc k) = rbind (hit n) (\<lambda>r. case r of Some a \<Rightarrow> Inr (Some a) | None \<Rightarrow> search hit (Suc n) k)"

lemma search_Some: "search hit n k = Inr (Some a) \<Longrightarrow> \<exists>m. n \<le> m \<and> m < n + k \<and> hit m = Inr (Some a)"
proof (induction hit n k rule: search.induct)
  case (2 hit n k)
  from 2(2) obtain r where r: "hit n = Inr r" by (auto simp: rbind_eq_Inr)
  show ?case
  proof (cases r)
    case None
    with 2 r obtain m where "Suc n \<le> m \<and> m < Suc n + k \<and> hit m = Inr (Some a)" by auto
    then show ?thesis by (intro exI [of _ m]) auto
  qed (use 2(2) r in auto)
qed simp

lemma search_None: "search hit n k = Inr None \<Longrightarrow> n \<le> i \<Longrightarrow> i < n + k \<Longrightarrow> hit i = Inr None"
proof (induction hit n k rule: search.induct)
  case (2 hit n k)
  then have h: "hit n = Inr None" "search hit (Suc n) k = Inr None" by (auto simp: rbind_eq_Inr split: option.splits)
  show ?case
  proof (cases "i = n")
    case False
    with 2(1) [OF h(2)] 2(3,4) show ?thesis by simp
  qed (use h in simp)
qed simp

lemma search_total: "(\<And>i. is_ok (hit i)) \<Longrightarrow> is_ok (search hit n k)"
proof (induction hit n k rule: search.induct)
  case (2 hit n k)
  from 2(2) [of n] obtain r where "hit n = Inr r" by (auto simp: is_ok_iff)
  with 2 show ?case by (cases r) (auto simp: is_ok_iff)
qed (simp add: is_ok_iff)

lemma search_complete:
  assumes "\<And>i. is_ok (hit i)" "hit m = Inr (Some b)" "n \<le> m" "m < n + k"
  shows "\<exists>a m'. search hit n k = Inr (Some a) \<and> m' < n + k \<and> hit m' = Inr (Some a)"
proof -
  from search_total [of hit n k, OF assms(1)] obtain r where r: "search hit n k = Inr r" by (auto simp: is_ok_iff)
  with search_None [of hit n k m] assms(2-4) obtain a where "search hit n k = Inr (Some a)" by (cases r) auto
  with search_Some [OF this] show ?thesis by blast
qed

subsection \<open>The miner\<close>

text \<open>
  \<open>templatePrevhashAndTarget\<close>: the first set of rules for which the node gives a template. \<open>fetch\<close> is the
  request for a set of rules with its decoded result (previous hash, target, time), if any.
\<close>

fun first_template :: "(string \<Rightarrow> 'w \<Rightarrow> (string \<times> string \<times> u32) option \<times> 'w) \<Rightarrow> string list \<Rightarrow> 'w \<Rightarrow> (string \<times> string \<times> u32) res \<times> 'w" where
  "first_template fetch [] w = (Inl (Fatal ''getblocktemplate returned no usable result''), w)"
| "first_template fetch (rule # sets) w =
     (case fetch rule w of
        (Some (prevhash, tgt, curtime), w) \<Rightarrow>
          if prevhash \<noteq> '''' then (Inr (prevhash, tgt, curtime), w) else first_template fetch sets w
      | (None, w) \<Rightarrow> first_template fetch sets w)"

definition rule_sets :: "string list" where
  "rule_sets = (let q = [char_of (34 :: nat)] in
     [''['' @ q @ ''segwit'' @ q @ '']'', ''['' @ q @ ''mweb'' @ q @ '','' @ q @ ''segwit'' @ q @ '']'', ''[]''])"

definition templatePrevhashAndTarget :: "(string \<Rightarrow> 'w \<Rightarrow> (string \<times> string \<times> u32) option \<times> 'w) \<Rightarrow> 'w \<Rightarrow> (string \<times> string \<times> u32) res \<times> 'w" where
  "templatePrevhashAndTarget fetch = first_template fetch rule_sets"

definition miner_serializeHeader :: "bytes \<Rightarrow> bytes \<Rightarrow> bytes \<Rightarrow> bytes \<Rightarrow> bytes \<Rightarrow> bytes \<Rightarrow> bytes res" where
  "miner_serializeHeader versionBE prevHash merkleRt ntime bits nonce =
     (let p1 = length nonce; p2 = p1 + length bits; p3 = p2 + length ntime; p4 = p3 + length merkleRt; p5 = p4 + length prevHash in
      rbind (copy_at (replicate 80 0) 0 nonce) (\<lambda>h.
      rbind (copy_at h p1 bits) (\<lambda>h.
      rbind (copy_at h p2 ntime) (\<lambda>h.
      rbind (copy_at h p3 merkleRt) (\<lambda>h.
      rbind (copy_at h p4 prevHash) (\<lambda>h.
      rbind (be_read 4 versionBE) (\<lambda>v.
      rbind (put_u32_be h p5 (word_of_nat v)) (\<lambda>h.
        Inr (ReverseBytes h)))))))))"

text \<open>The subscription result: the extranonce (a decoding error is ignored) and the size of the second one.\<close>

definition miner_subscribed :: "iface \<Rightarrow> (bytes \<times> int) res" where
  "miner_subscribed result =
     rbind (iface_list result) (\<lambda>xs.
     rbind (str_at xs 1) (\<lambda>e1.
     rbind (rbind (index xs 2) iface_float) (\<lambda>size. Inr (fst (hex_decode e1), int_of_f64 size))))"

fun decode_branch :: "iface list \<Rightarrow> bytes list res" where
  "decode_branch [] = Inr []"
| "decode_branch (v # vs) = rbind (iface_str v) (\<lambda>s. rbind (HexDecode s) (\<lambda>b. rbind (decode_branch vs) (\<lambda>bs. Inr (b # bs))))"

text \<open>The notification, decoded: job id, the two parts of the coinbase, the branch, version and bits.\<close>

definition miner_notified :: "iface list \<Rightarrow> (string \<times> bytes \<times> bytes \<times> bytes list \<times> bytes \<times> bytes) res" where
  "miner_notified notify =
     rbind (str_at notify 0) (\<lambda>jobID.
     rbind (rbind (str_at notify 2) HexDecode) (\<lambda>coinb1.
     rbind (rbind (str_at notify 3) HexDecode) (\<lambda>coinb2.
     rbind (rbind (rbind (index notify 4) iface_list) decode_branch) (\<lambda>branch.
     rbind (rbind (str_at notify 5) HexDecode) (\<lambda>versionBE.
     rbind (rbind (str_at notify 6) HexDecode) (\<lambda>bits.
       Inr (jobID, coinb1, coinb2, branch, versionBE, bits)))))))"

text \<open>The hardest of the two targets, when the node gives one.\<close>

definition miner_target :: "string \<Rightarrow> bytes \<Rightarrow> int res" where
  "miner_target gbtTargetHex bits =
     rbind (BigIntFromBitsBytes bits) (\<lambda>target.
       case (if gbtTargetHex \<noteq> '''' then big_set_hex gbtTargetHex else None) of
         Some t \<Rightarrow> Inr (if 0 < t \<and> t < int target then t else int target)
       | None \<Rightarrow> Inr (int target))"

text \<open>The Merkle root by folding the branch, reversed for the header.\<close>

definition miner_root :: "hash_func \<Rightarrow> bytes \<Rightarrow> bytes list \<Rightarrow> bytes" where
  "miner_root cbHasher coinbase branch = ReverseBytes (foldl (\<lambda>merkle b. cbHasher (merkle @ b)) (cbHasher coinbase) branch)"

definition miner_ntime :: "int \<Rightarrow> u32 \<Rightarrow> u32" where
  "miner_ntime now gbtCurTime = (let nt = word_of_int now + 2 in if nt < gbtCurTime then gbtCurTime else nt)"

text \<open>From the notification to the parameters of \<open>mining.submit\<close>, over all \<open>2 ^ 32\<close> nonces.\<close>

definition e2e_solve ::
  "algo_registry \<Rightarrow> string \<Rightarrow> string \<Rightarrow> string \<Rightarrow> int \<Rightarrow> string \<times> string \<times> u32 \<Rightarrow> bytes \<times> int \<Rightarrow> iface list \<Rightarrow> iface list option res" where
  "e2e_solve ar algoName cbHash worker now template subscribed notify =
     (case template of (prevHashDisplay, gbtTargetHex, gbtCurTime) \<Rightarrow> case subscribed of (extraNonce1, en2size) \<Rightarrow>
      rbind (HexDecode prevHashDisplay) (\<lambda>prevHash.
      rbind (miner_notified notify) (\<lambda>(jobID, coinb1, coinb2, branch, versionBE, bits).
        let ntimeBE = PackUint32BE (miner_ntime now gbtCurTime) in
      rbind (miner_target gbtTargetHex bits) (\<lambda>target.
      rbind (if en2size < 0 then Inl (Panic ''makeslice: len out of range'') else Inr (replicate (nat en2size) 0)) (\<lambda>extraNonce2.
      rbind (GetHashFunc ar cbHash) (\<lambda>cbHasher.
        let merkleForHeader = miner_root cbHasher (coinb1 @ extraNonce1 @ extraNonce2 @ coinb2) branch in
      rbind (GetHashFunc ar algoName) (\<lambda>powHash.
        search (\<lambda>nonce.
               rbind (miner_serializeHeader versionBE prevHash merkleForHeader ntimeBE bits (PackUint32BE (word_of_nat nonce))) (\<lambda>header.
                 Inr (if int (be_nat (ReverseBytes (powHash header))) < target
                      then Some [IStr worker, IStr jobID, IStr (hex_encode extraNonce2), IStr (hex_encode ntimeBE),
                                 IStr (hex_encode (PackUint32BE (word_of_nat nonce)))]
                      else None))) 0 (2 ^ 32))))))))"

text \<open>
  \<open>main\<close>: what is sent to the pool, given the lines that come back. The last request is the submission;
  without one the process ends with an error.
\<close>

definition e2e_main ::
  "algo_registry \<Rightarrow> string \<Rightarrow> string \<Rightarrow> string \<Rightarrow> int \<Rightarrow> string \<times> string \<times> u32 \<Rightarrow> json_line list \<Rightarrow> (int \<times> string \<times> iface list) list res" where
  "e2e_main ar algoName cbHash worker now template ls =
     rbind (readByID 1 ls) (\<lambda>(subResp, ls).
     rbind (case map_of subResp ''result'' of Some v \<Rightarrow> miner_subscribed v | None \<Rightarrow> Inl (Panic ''interface conversion'')) (\<lambda>subscribed.
     rbind (waitNotify ls) (\<lambda>(notify, ls).
     rbind (e2e_solve ar algoName cbHash worker now template subscribed notify) (\<lambda>found.
       case found of
         None \<Rightarrow> Inl (Fatal ''exhausted nonce space'')
       | Some params \<Rightarrow>
           rbind (readByID 4 ls) (\<lambda>_.
             Inr [(1, ''mining.subscribe'', []), (2, ''mining.authorize'', [IStr worker, IStr ''x'']), (4, ''mining.submit'', params)])))))"

subsection \<open>The miner's work is the pool's\<close>

lemma miner_header:
  "miner_serializeHeader (PackInt32BE (gbt_Version (j_GetBlockTemplate j))) (fst (hex_decode (gbt_PreviousBlockHash (j_GetBlockTemplate j))))
     mroot nt (fst (hex_decode (gbt_Bits (j_GetBlockTemplate j)))) nn = SerializeHeader j mroot nt nn"
proof -
  have "unat v mod 256 ^ 4 = unat v" for v :: u32 using u32_less [of v] by simp
  then have "be_read 4 (PackInt32BE v) = Inr (unat v)" for v
    using be_read_app [of 4 "unat v" "[]"] by (simp add: PackInt32BE_def del: power_numeral)
  then show ?thesis by (simp add: miner_serializeHeader_def SerializeHeader_def Let_def)
qed

lemma nibble_less: "unat (b :: byte) div 16 < 16"
proof -
  have "unat b < 256" by (rule byte_less)
  then show ?thesis by linarith
qed

lemma parse_digits_hex:
  "acc * 256 ^ length bs + be_nat bs \<le> mx \<Longrightarrow> parse_digits 16 mx acc (hex_encode bs) = (acc * 256 ^ length bs + be_nat bs, True)"
proof (induction bs arbitrary: acc)
  case Nil
  then show ?case by (simp add: be_nat_def)
next
  case (Cons b bs)
  have b: "unat b div 16 < 16" "unat b mod 16 < 16" by (simp_all add: nibble_less)
  have v: "acc * 256 ^ length (b # bs) + be_nat (b # bs) = (unat b + 256 * acc) * 256 ^ length bs + be_nat bs"
    by (simp add: be_nat_def le_nat_append algebra_simps)
  have d: "(acc * 16 + unat b div 16) * 16 + unat b mod 16 = unat b + 256 * acc" by simp
  have "unat b + 256 * acc \<le> (unat b + 256 * acc) * 256 ^ length bs" by simp
  with Cons.prems v have m: "unat b + 256 * acc \<le> mx" by linarith
  then have "acc * 16 + unat b div 16 \<le> mx" by linarith
  with b d m Cons.IH [of "unat b + 256 * acc"] Cons.prems v show ?case
    by (simp add: hex_encode_Cons hex_byte_def unhex_hex_char not_le not_less)
qed

lemma parse_int_hex32: "parse_int 16 (hex_encode (PackUint32BE v)) = (int (unat v), True)"
proof -
  have v: "be_nat (PackUint32BE v) = unat v" "unat v < 4294967296"
    using u32_less [of v] by (simp_all add: PackUint32BE_def be_nat_be_bytes)
  have p: "parse_uint 16 (hex_encode (PackUint32BE v)) = (unat v, True)"
    using parse_digits_hex [of 0 "PackUint32BE v" "2 ^ 64 - 1"] v length_hex_encode [of "PackUint32BE v"]
    by (auto simp: parse_uint_def PackUint32BE_def simp del: length_hex_encode)
  obtain c cs where s: "hex_encode (PackUint32BE v) = c # cs"
    by (cases "hex_encode (PackUint32BE v)") (use length_hex_encode [of "PackUint32BE v"] in \<open>auto simp: PackUint32BE_def simp del: length_hex_encode\<close>)
  obtain b bs where "PackUint32BE v = b # bs" by (cases "PackUint32BE v") (auto simp: PackUint32BE_def dest: arg_cong [of _ _ length])
  then have "c = hex_char (unat b div 16)" using s by (auto simp: hex_encode_Cons hex_byte_def)
  then have "c \<noteq> CHR ''-''" "c \<noteq> CHR ''+''" using hex_char_not_special [OF nibble_less] by auto
  with p v(2) s show ?thesis by (simp add: parse_int_def)
qed

lemma decode_branch_hex: "decode_branch (map (json_read \<circ> IStr \<circ> hex_encode) bs) = Inr bs"
  by (induction bs) (simp_all add: iface_str_def HexDecode_def hex_decode_encode)

lemma miner_notified_params:
  assumes "NewJob al made i g script ph reward msgs rs h = Inr j" "hex_decode (gbt_Bits g) = (bits, True)"
  shows "miner_notified (map json_read (GetJobParams t j force)) =
     Inr (i, fst (j_GenerationTransaction j), snd (j_GenerationTransaction j), Steps (j_MerkleTree j), PackInt32BE (gbt_Version g), bits)"
proof -
  have f: "j_GetBlockTemplate j = g" "j_JobId j = i" "j_MerkleBranch j = map hex_encode (Steps (j_MerkleTree j))"
    using assms(1) by (auto simp: NewJob_def rbind_eq_Inr Let_def GetMerkleHashes_def)
  show ?thesis
    using decode_branch_hex [of "Steps (j_MerkleTree j)"]
    by (simp add: miner_notified_def GetJobParams_def str_at_def index_def f iface_str_def iface_list_def HexDecode_def hex_decode_encode
        assms(2) comp_def del: hex_decode.simps)
qed

lemma miner_root_WithFirst:
  assumes "hasher (j_MerkleTree j) = h"
  shows "miner_root h (fst (j_GenerationTransaction j) @ en1 @ en2 @ snd (j_GenerationTransaction j)) (Steps (j_MerkleTree j)) =
    ReverseBytes (WithFirst (j_MerkleTree j) (h (SerializeCoinbase j en1 en2)))"
  by (simp add: miner_root_def WithFirst_def SerializeCoinbase_def assms)

lemma miner_target_min:
  assumes "template_target g = Inr t" "0 < t" "hex_decode (gbt_Bits g) = (bits, True)" "BigIntFromBitsBytes bits = Inr n"
  shows "miner_target (gbt_Target g) bits = Inr (min t (int n))"
  using assms by (auto simp: miner_target_def template_target_def BigIntFromBitsHex_def min_def rbind_eq_Inr split: option.splits if_splits)

text \<open>
  The header the pool judges a submission of zero extranonce 2 by, and the nonces whose header hash is
  below a target.
\<close>

definition mined_header :: "job_manager \<Rightarrow> job \<Rightarrow> bytes \<Rightarrow> u32 \<Rightarrow> nat \<Rightarrow> bytes res" where
  "mined_header jm j en1 nt n =
     SerializeHeader j (ReverseBytes (WithFirst (j_MerkleTree j)
       (jm_CoinbaseHasher jm (SerializeCoinbase j en1 (replicate (nat (jm_ExtraNonce2Size jm)) 0)))))
       (PackUint32BE nt) (PackUint32BE (word_of_nat n))"

lemma mined_header_ok:
  assumes job: "NewJob al made i g script ph reward msgs rs (jm_CoinbaseHasher jm) = Inr j" and h: "digest32 (jm_CoinbaseHasher jm)"
    and len: "length (fst (hex_decode (gbt_Bits g))) = 4" "length (fst (hex_decode (gbt_PreviousBlockHash g))) = 32"
  shows "is_ok (mined_header jm j en1 nt n)"
proof -
  from NewJob_fields(6) [OF job] obtain hs where hs: "j_MerkleTree j = NewMerkleTree ([] # hs) (Some (jm_CoinbaseHasher jm))" by blast
  have "length (WithFirst (j_MerkleTree j) (jm_CoinbaseHasher jm c)) = 32" for c
    unfolding WithFirst_def hs NewMerkleTree_def
    using digest32.root_length [OF h] digest32.length_digest [OF h] by (simp add: Let_def)
  then show ?thesis
    unfolding mined_header_def
    by (subst SerializeHeader_layout) (simp_all add: NewJob_fields(1) [OF job] len PackUint32BE_def is_ok_iff)
qed

lemma e2e_solve_work:
  fixes g jm j
  defines "ao \<equiv> jo_Algorithm (jm_Options jm)"
  assumes job: "NewJob al made i g script ph reward msgs rs (jm_CoinbaseHasher jm) = Inr j" and h: "digest32 (jm_CoinbaseHasher jm)"
    and tmpl: "hex_decode (gbt_Bits g) = (bits, True)" "length bits = 4" "hex_decode (gbt_PreviousBlockHash g) = (prev, True)" "length prev = 32"
    and hashes: "GetHashFunc ar cbHash = Inr (jm_CoinbaseHasher jm)" "GetHashFunc ar (ao_Name ao) = Inr hash"
    and tgt: "0 < j_Target j" "BigIntFromBitsBytes bits = Inr easy" and size: "0 \<le> jm_ExtraNonce2Size jm"
  shows "e2e_solve ar (ao_Name ao) cbHash worker clock (gbt_PreviousBlockHash g, gbt_Target g, gbt_CurTime g)
      (en1, jm_ExtraNonce2Size jm) (map json_read (GetJobParams t j force)) =
    search (\<lambda>n. rbind (mined_header jm j en1 (miner_ntime clock (gbt_CurTime g)) n) (\<lambda>hdr.
        Inr (if int (le_nat (hash hdr)) < min (j_Target j) (int easy)
             then Some [IStr worker, IStr i, IStr (hex_encode (replicate (nat (jm_ExtraNonce2Size jm)) 0)),
               IStr (hex_encode (PackUint32BE (miner_ntime clock (gbt_CurTime g)))), IStr (hex_encode (PackUint32BE (word_of_nat n)))]
             else None))) 0 (2 ^ 32)"
proof -
  from NewJob_fields(6) [OF job] have hj: "hasher (j_MerkleTree j) = jm_CoinbaseHasher jm" by (auto simp: NewMerkleTree_def Let_def)
  note f = NewJob_fields [OF job]
  have hdr: "miner_serializeHeader (PackInt32BE (gbt_Version g)) prev mr nt bits nn = SerializeHeader j mr nt nn" for mr nt nn
    using miner_header [of j mr nt nn] by (simp add: f(1) tmpl del: hex_decode.simps)
  show ?thesis
    unfolding e2e_solve_def mined_header_def
    by (simp add: miner_notified_params [OF job tmpl(1)] HexDecode_def tmpl(3) miner_target_min [OF f(5) tgt(1) tmpl(1) tgt(2)]
        size not_less [THEN iffD2, OF size] hashes miner_root_WithFirst [OF hj] hdr Let_def be_nat_def del: hex_decode.simps)
qed

lemma judged_block:
  fixes jm
  defines "ao \<equiv> jo_Algorithm (jm_Options jm)"
  assumes hdr: "SerializeHeader job (ReverseBytes (WithFirst (j_MerkleTree job) (jm_CoinbaseHasher jm (SerializeCoinbase job en1 en2)))) nt nn = Inr hdr"
    and hash: "GetHashFunc ar (ao_Name ao) = Inr hash" and mult: "0 \<le> ao_Multiplier ao" "ao_Multiplier ao < 64"
    and blk: "ao_BlockHasher ao \<noteq> '''' \<longrightarrow> is_ok (GetHashFunc ar (ao_BlockHasher ao))"
    and less: "int (le_nat (hash hdr)) < j_Target job"
  shows "\<exists>sh. judge_share ar jm job i pd (Some d) en1 en2 nt nn ip wk = Inr sh \<and> sh_ErrorCode sh = 0 \<and>
     sh_BlockHex sh = hex_encode (SerializeBlock job hdr (SerializeCoinbase job en1 en2))"
proof -
  obtain k where k: "shl1_int64 (ao_Multiplier ao) = Inr k" "k \<noteq> 0" using mult by (auto simp: shl1_int64_def)
  have "MaxTargetTruncated * k \<noteq> 0" using k(2) by (simp add: MaxTargetTruncated_def)
  then have "is_ok (share_difficulty ao (int (le_nat (hash hdr))))"
    by (auto simp: share_difficulty_def k(1) bf_quo_def bf_set_int_def is_ok_iff Let_def)
  then obtain sd where sd: "share_difficulty ao (int (le_nat (hash hdr))) = Inr sd" by (auto simp: is_ok_iff)
  have "is_ok (block_id ar ao hdr)" using blk hash by (auto simp: block_id_def is_ok_iff)
  then obtain b where b: "block_id ar ao hdr = Inr b" by (auto simp: is_ok_iff)
  show ?thesis
    using hdr hash sd b less unfolding ao_def
    by (simp add: judge_share_def Let_def be_nat_def empty_share_def)
qed

lemma miner_subscribed_result:
  assumes "0 \<le> sz" "sz < 2 ^ 53"
  shows "miner_subscribed (json_read (IList [x, IStr (hex_encode en1), IInt sz])) = Inr (en1, sz)"
proof -
  have "f64_of_int sz = Fin (of_int sz)" using assms by (intro f64_of_int_exact) simp
  moreover have "sint (word_of_int sz :: u64) = signed_take_bit 63 sz" by (simp add: signed_of_int)
  moreover have "signed_take_bit 63 sz = sz" using assms by (intro signed_take_bit_int_eq_self) auto
  ultimately show ?thesis
    using assms by (simp add: miner_subscribed_def str_at_def index_def iface_list_def iface_str_def iface_float_def int_of_f64_def trunc_rat_def
        hex_decode_encode)
qed

text \<open>The time the miner writes is in the pool's window.\<close>

lemma miner_ntime_window:
  assumes "0 \<le> clock" "clock + 2 < 2 ^ 32" "clock \<le> now + 5" "int (unat cur) \<le> now + 7"
  shows "cur \<le> miner_ntime clock cur" "int (unat (miner_ntime clock cur)) \<le> now + 7"
proof -
  have w: "word_of_int clock + 2 = (word_of_int (clock + 2) :: u32)" by simp
  have "uint (word_of_int (clock + 2) :: u32) = clock + 2"
    unfolding uint_word_of_int using assms(1,2) by simp
  then have "uint (word_of_int clock + 2 :: u32) = clock + 2" unfolding w .
  then show "cur \<le> miner_ntime clock cur" "int (unat (miner_ntime clock cur)) \<le> now + 7"
    using assms by (auto simp: miner_ntime_def Let_def)
qed

lemma mined_accepted:
  fixes jm j
  defines "ao \<equiv> jo_Algorithm (jm_Options jm)"
  assumes stored: "jm_ValidJobs jm i = Some (j\<lparr>j_Submits := subs\<rparr>)" "j_JobId j = i" "\<forall>x. hex_encode en1 @ x \<notin> set subs"
    and hashes: "GetHashFunc ar (ao_Name ao) = Inr hash" "ao_BlockHasher ao \<noteq> '''' \<longrightarrow> is_ok (GetHashFunc ar (ao_BlockHasher ao))"
    and mult: "0 \<le> ao_Multiplier ao" "ao_Multiplier ao < 64" and size: "0 \<le> jm_ExtraNonce2Size jm"
    and window: "gbt_CurTime (j_GetBlockTemplate j) \<le> nt" "int (unat nt) \<le> now + 7"
    and mined: "mined_header jm j en1 nt m = Inr hdr" "int (le_nat (hash hdr)) < j_Target j"
  shows "\<exists>sh jm'. ProcessSubmit ar now i pd (Some d) en1 (hex_encode (replicate (nat (jm_ExtraNonce2Size jm)) 0))
       (hex_encode (PackUint32BE nt)) (hex_encode (PackUint32BE (word_of_nat m))) ip wk jm = Inr (sh, jm') \<and>
     sh_ErrorCode sh = 0 \<and> sh_BlockHex sh \<noteq> ''''"
proof -
  define e2 :: bytes where "e2 = replicate (nat (jm_ExtraNonce2Size jm)) 0"
  define nn where "nn = PackUint32BE (word_of_nat m)"
  from judged_block [of "j\<lparr>j_Submits := subs\<rparr>" jm en1 e2 "PackUint32BE nt" nn hdr ar hash i pd d ip wk] mined hashes mult
  obtain sh where sh: "judge_share ar jm (j\<lparr>j_Submits := subs\<rparr>) i pd (Some d) en1 e2 (PackUint32BE nt) nn ip wk = Inr sh" "sh_ErrorCode sh = 0"
    "sh_BlockHex sh = hex_encode (SerializeBlock j hdr (SerializeCoinbase j en1 e2))"
    by (auto simp: ao_def mined_header_def e2_def nn_def)
  have len: "length (PackUint32BE v) = 4" for v by (simp add: PackUint32BE_def)
  have "hdr \<noteq> []" using SerializeHeader_length [OF mined(1) [unfolded mined_header_def]] by auto
  then have "sh_BlockHex sh \<noteq> []"
    using length_hex_encode [of "SerializeBlock j hdr (SerializeCoinbase j en1 e2)"] sh(3)
    by (auto simp: SerializeBlock_def Let_def simp del: length_hex_encode)
  moreover have "\<exists>jm'. ProcessSubmit ar now i pd (Some d) en1 (hex_encode e2) (hex_encode (PackUint32BE nt)) (hex_encode nn) ip wk jm = Inr (sh, jm')"
    using sh(1) stored(2,3) window
    by (intro exI, intro ProcessSubmit_judged [OF stored(1)])
      (simp_all add: hex_decode_encode parse_int_hex32 e2_def nn_def size len del: hex_decode.simps)
  ultimately show ?thesis using sh(2) unfolding e2_def nn_def by blast
qed



end
