(* ===== verification/MinerEngines.thy ===== *)
theory MinerEngines
  imports Miner Kawpow Kaspa Ethash Cryptonote
begin

text \<open>
  The test miners of the engines: \<open>tools/e2ervnminer\<close> (KawPow), \<open>tools/e2ekasminer\<close> (Kaspa),
  \<open>tools/e2eethminer\<close> (Ethash) and \<open>tools/e2exmrminer\<close> (CryptoNote). Each reads the work the engine of the
  pool sends, searches for a nonce and submits; the theorems show that the engine takes what is found.
  The hash functions are those of the engines' parameters.
\<close>

text \<open>These miners skip a line that is not a JSON object: it is read as an empty one.\<close>

definition lenient :: "json_line list \<Rightarrow> json_line list" where
  "lenient = map (\<lambda>l. case l of None \<Rightarrow> Some [] | Some m \<Rightarrow> Some m)"

definition miner_send :: "int \<Rightarrow> string \<Rightarrow> iface \<Rightarrow> iface" where
  "miner_send i method params = IMap [(''id'', IInt i), (''method'', IStr method), (''params'', params)]"

subsection \<open>KawPow\<close>

text \<open>\<open>strconv.ParseFloat\<close> with the error dropped: zero for a text that is no number, an infinity out of range.\<close>

definition parse_f64_value :: "string \<Rightarrow> f64" where
  "parse_f64_value s =
     (case parse_f64 s of
        Some v \<Rightarrow> v
      | None \<Rightarrow>
          (case parse_decimal (case s of c # t \<Rightarrow> if c = CHR ''+'' \<or> c = CHR ''-'' then t else s | [] \<Rightarrow> s) of
             None \<Rightarrow> Fin 0
           | Some _ \<Rightarrow> if has_prefix s ''-'' then NInf else PInf))"

definition toF :: "iface \<Rightarrow> f64" where
  "toF v = (case v of INum x \<Rightarrow> x | IStr s \<Rightarrow> parse_f64_value s | _ \<Rightarrow> Fin 0)"

definition bitsToTarget :: "string \<Rightarrow> int res" where
  "bitsToTarget bitsHex = rbind (BigIntFromBitsBytes (fst (hex_decode bitsHex))) (\<lambda>n. Inr (int n))"

text \<open>The notification: job id, header hash, height and target. The log line slices the header hash.\<close>

definition rvn_job :: "iface list \<Rightarrow> (string \<times> bytes \<times> u64 \<times> int) res" where
  "rvn_job p =
     rbind (str_at p 0) (\<lambda>jobID.
     rbind (str_at p 1) (\<lambda>h.
     rbind (index p 5) (\<lambda>height.
     rbind (str_at p 6) (\<lambda>bits.
     rbind (str_at p 3) (\<lambda>t.
     rbind (case big_set_hex (trim_prefix t ''0x'') of
              Some t \<Rightarrow> if t = 0 then bitsToTarget (trim_prefix bits ''0x'') else Inr t
            | None \<Rightarrow> bitsToTarget (trim_prefix bits ''0x'')) (\<lambda>target.
       if length h < 14 then Inl (Panic ''slice bounds out of range'')
       else Inr (jobID, fst (hex_decode (trim_prefix h ''0x'')), f64_to_u64 (toF height), target)))))))"

text \<open>
  The nonces with the assigned extranonce in the high two bytes. The loop gives up after the nonce
  2000001, so it tries 2000002 of them.
\<close>

definition rvn_solve ::
  "(bytes \<Rightarrow> u64 \<Rightarrow> u64 \<Rightarrow> (bytes \<times> bytes) option) \<Rightarrow> string \<Rightarrow> bytes \<Rightarrow> iface list \<Rightarrow> iface list option res" where
  "rvn_solve compute worker en1 p =
     rbind (rvn_job p) (\<lambda>(jobID, headerHash, height, target).
     rbind (be_read 2 en1) (\<lambda>prefix.
       let base = push_bit 48 (word_of_nat prefix) :: u64 in
       search (\<lambda>i. let nonce = base OR word_of_nat i in
         case compute headerHash height nonce of
           None \<Rightarrow> Inl (Fatal ''Compute'')
         | Some (mix, digest) \<Rightarrow>
             Inr (if int (be_nat digest) \<le> target
                  then Some [IStr worker, IStr jobID, IStr (''0x'' @ hex16 (unat nonce)), IStr (''0x'' @ hex_encode headerHash),
                             IStr (''0x'' @ hex_encode mix)]
                  else None)) 0 2000002))"

definition rvn_main ::
  "(bytes \<Rightarrow> u64 \<Rightarrow> u64 \<Rightarrow> (bytes \<times> bytes) option) \<Rightarrow> string \<Rightarrow> json_line list \<Rightarrow> iface list res" where
  "rvn_main compute worker ls =
     rbind (readByID 1 (lenient ls)) (\<lambda>(sub, ls).
     rbind (case map_of sub ''result'' of Some v \<Rightarrow> iface_list v | None \<Rightarrow> Inl (Panic ''interface conversion'')) (\<lambda>res.
     rbind (str_at res 1) (\<lambda>en1.
     rbind (waitNotify ls) (\<lambda>(p, ls).
     rbind (rvn_solve compute worker (fst (hex_decode en1)) p) (\<lambda>found.
       case found of
         None \<Rightarrow> Inl (Fatal ''gave up'')
       | Some params \<Rightarrow>
           rbind (readByID 4 ls) (\<lambda>_.
             Inr [miner_send 1 ''mining.subscribe'' (IList [IStr ''e2e'']), miner_send 2 ''mining.authorize'' (IList [IStr worker, IStr ''x'']),
                  miner_send 4 ''mining.submit'' (IList params)]))))))"

subsection \<open>Kaspa\<close>

text \<open>\<open>s[i:j]\<close> of a text.\<close>

definition sub_text :: "string \<Rightarrow> nat \<Rightarrow> nat \<Rightarrow> string res" where
  "sub_text s i j = (if j \<le> length s then Inr (take (j - i) (drop i s)) else Inl (Panic ''slice bounds out of range''))"

definition word_at :: "string \<Rightarrow> nat \<Rightarrow> nat res" where
  "word_at s i = rbind (sub_text s i (i + 16)) (\<lambda>t. Inr (fst (parse_uint 16 t)))"

definition parseLargeJob :: "string \<Rightarrow> (bytes \<times> int) res" where
  "parseLargeJob s =
     rbind (word_at s 0) (\<lambda>a.
     rbind (word_at s 16) (\<lambda>b.
     rbind (word_at s 32) (\<lambda>c.
     rbind (word_at s 48) (\<lambda>d.
     rbind (word_at s 64) (\<lambda>ts.
       Inr (be_bytes 8 a @ be_bytes 8 b @ be_bytes 8 c @ be_bytes 8 d, sint (word_of_nat ts :: u64)))))))"

text \<open>
  The loop that waits for a job: difficulties are remembered (a value that is no number sets zero), the
  first notification with a job id ends it.
\<close>

fun kas_wait :: "f64 \<Rightarrow> json_line list \<Rightarrow> (f64 \<times> string \<times> string \<times> json_line list) res" where
  "kas_wait shareDiff [] = Inl (Fatal ''EOF'')"
| "kas_wait shareDiff (l # ls) =
     (let m = (case l of None \<Rightarrow> [] | Some m \<Rightarrow> m) in
      if map_of m ''method'' = Some (IStr ''mining.set_difficulty'') then
        (case map_of m ''params'' of
           Some (IList (v # _)) \<Rightarrow> kas_wait (case v of INum d \<Rightarrow> d | _ \<Rightarrow> Fin 0) ls
         | _ \<Rightarrow> kas_wait shareDiff ls)
      else if map_of m ''method'' = Some (IStr ''mining.notify'') then
        rbind (case map_of m ''params'' of Some v \<Rightarrow> iface_list v | None \<Rightarrow> Inl (Panic ''interface conversion'')) (\<lambda>p.
        rbind (str_at p 0) (\<lambda>jobID.
        rbind (str_at p 1) (\<lambda>largeJob.
          if jobID = '''' then kas_wait shareDiff ls else Inr (shareDiff, jobID, largeJob, ls))))
      else kas_wait shareDiff ls)"

text \<open>The difficulty of a value as the miner computes it: infinite for zero.\<close>

definition miner_diff :: "int \<Rightarrow> f64 res" where
  "miner_diff powValue = rbind (bf_quo (bf_set_int Pow256) (bf_set_int powValue)) (\<lambda>q. Inr (bf_float64 q))"

definition kas_solve ::
  "(bytes \<Rightarrow> int \<Rightarrow> u64 \<Rightarrow> bytes option) \<Rightarrow> f64 \<Rightarrow> string \<Rightarrow> f64 \<Rightarrow> string \<Rightarrow> string \<Rightarrow> iface list option res" where
  "kas_solve compute minDiff worker shareDiff jobID largeJob =
     rbind (parseLargeJob largeJob) (\<lambda>(prePow, timestamp).
       search (\<lambda>nonce.
         case compute prePow timestamp (word_of_nat nonce) of
           None \<Rightarrow> Inl (Fatal ''Compute'')
         | Some digest \<Rightarrow>
             rbind (miner_diff (int (be_nat digest))) (\<lambda>diff.
               Inr (if f64_le shareDiff diff \<and> f64_le minDiff diff then Some [IStr worker, IStr jobID, IStr (hex16 nonce)] else None))) 0 5000002)"

definition kas_main ::
  "(bytes \<Rightarrow> int \<Rightarrow> u64 \<Rightarrow> bytes option) \<Rightarrow> f64 \<Rightarrow> string \<Rightarrow> json_line list \<Rightarrow> iface list res" where
  "kas_main compute minDiff worker ls =
     rbind (readByID 1 (lenient ls)) (\<lambda>(_, ls).
     rbind (kas_wait (f64_round (1 / 1000)) ls) (\<lambda>(shareDiff, jobID, largeJob, ls).
     rbind (kas_solve compute minDiff worker shareDiff jobID largeJob) (\<lambda>found.
       case found of
         None \<Rightarrow> Inl (Fatal ''gave up'')
       | Some params \<Rightarrow>
           rbind (readByID 4 ls) (\<lambda>_.
             Inr [miner_send 1 ''mining.subscribe'' (IList [IStr ''e2e'']), miner_send 2 ''mining.authorize'' (IList [IStr worker, IStr ''x'']),
                  miner_send 4 ''mining.submit'' (IList params)]))))"

subsection \<open>Ethash\<close>

text \<open>The strings of the node's answer to \<open>eth_getWork\<close>: header, target (nil when it does not parse) and block number.\<close>

definition eth_getWork :: "string list \<Rightarrow> (string \<times> int option \<times> u64) res" where
  "eth_getWork r =
     (if length r < 3 then Inl (Fatal ''eth_getWork returned too little'')
      else
        rbind (if 4 \<le> length r
               then (case big_set_hex (trim_prefix (r ! 3) ''0x'') of None \<Rightarrow> Inl (Panic ''nil pointer dereference'') | Some n \<Rightarrow> Inr (big_uint64 n))
               else Inr 0) (\<lambda>blockNum.
          Inr (r ! 0, big_set_hex (trim_prefix (r ! 2) ''0x''), blockNum)))"

text \<open>The activation block of ECIP-1099 that the miner passes to the hash.\<close>

definition eth_ecip :: u64 where
  "eth_ecip = 99999999"

text \<open>
  The log line slices the header and the target's text, so both must be long enough (a nil target is
  printed as the text \<open><nil>\<close>, which is not). The nonces 0 to 5000000 are tried.
\<close>

definition eth_solve ::
  "(u64 \<Rightarrow> u64 \<Rightarrow> string \<Rightarrow> u64 \<Rightarrow> bytes \<times> bytes) \<Rightarrow> string \<times> int option \<times> u64 \<Rightarrow> iface list option res" where
  "eth_solve compute work =
     (case work of (header, target, blockNum) \<Rightarrow>
        if length header < 14 then Inl (Panic ''slice bounds out of range'')
        else
          (case target of
             None \<Rightarrow> Inl (Panic ''slice bounds out of range'')
           | Some target \<Rightarrow>
               if length (big_text16 target) < 12 then Inl (Panic ''slice bounds out of range'')
               else
                 search (\<lambda>n. case compute eth_ecip blockNum header (word_of_nat n) of (mix, result) \<Rightarrow>
                   Inr (if int (be_nat result) \<le> target
                        then Some [IStr (''0x'' @ hex16 n), IStr header, IStr (''0x'' @ hex_encode mix)] else None)) 0 5000001))"

definition eth_main ::
  "(u64 \<Rightarrow> u64 \<Rightarrow> string \<Rightarrow> u64 \<Rightarrow> bytes \<times> bytes) \<Rightarrow> string \<Rightarrow> string list option \<Rightarrow> json_line list \<Rightarrow> iface list res" where
  "eth_main compute login answer ls =
     (case answer of
        None \<Rightarrow> Inl (Fatal ''json.Unmarshal'')
      | Some r \<Rightarrow>
          rbind (rbind (eth_getWork r) (eth_solve compute)) (\<lambda>found.
            case found of
              None \<Rightarrow> Inl (Fatal ''gave up'')
            | Some params \<Rightarrow>
                rbind (readByID 1 (lenient ls)) (\<lambda>(_, ls).
                rbind (readByID 4 ls) (\<lambda>_.
                  Inr [miner_send 1 ''eth_submitLogin'' (IList [IStr login, IStr ''x'']), miner_send 4 ''eth_submitWork'' (IList params)]))))"

subsection \<open>CryptoNote\<close>

definition iface_map :: "iface \<Rightarrow> (string \<times> iface) list res" where
  "iface_map v = (case v of IMap m \<Rightarrow> Inr m | _ \<Rightarrow> Inl (Panic ''interface conversion''))"

definition field :: "(string \<times> iface) list \<Rightarrow> string \<Rightarrow> (iface \<Rightarrow> 'a res) \<Rightarrow> 'a res" where
  "field m k get = (case map_of m k of Some v \<Rightarrow> get v | None \<Rightarrow> Inl (Panic ''interface conversion''))"

text \<open>\<open>PutUint32(blob[off:off+4], nonce)\<close>; every round overwrites the bytes of the one before.\<close>

definition poke32 :: "bytes \<Rightarrow> int \<Rightarrow> u32 \<Rightarrow> bytes res" where
  "poke32 blob off nonce =
     (if 0 \<le> off \<and> off + 4 \<le> int (length blob)
      then Inr (take (nat off) blob @ le_bytes 4 (unat nonce) @ drop (nat off + 4) blob)
      else Inl (Panic ''slice bounds out of range''))"

text \<open>
  The loop has no end of its own, and its 32-bit counter wraps: \<open>fuel\<close> is the number of hashes, and the
  result \<open>None\<close> stands for a search that still runs after them.
\<close>

definition xmr_solve ::
  "(bytes \<Rightarrow> bytes \<Rightarrow> bytes option) \<Rightarrow> nat \<Rightarrow> int \<Rightarrow> u64 \<Rightarrow> (string \<times> iface) list \<Rightarrow> iface option res" where
  "xmr_solve hash fuel nonceOff netDiff res =
     rbind (field res ''job'' iface_map) (\<lambda>job.
     rbind (field job ''job_id'' iface_str) (\<lambda>jobID.
     rbind (field job ''blob'' iface_str) (\<lambda>blobHex.
     rbind (field job ''seed_hash'' iface_str) (\<lambda>seedHex.
       let blob = fst (hex_decode blobHex); seed = fst (hex_decode seedHex) in
       search (\<lambda>n. let nonce = word_of_nat n in
         rbind (poke32 blob nonceOff nonce) (\<lambda>blob.
           case hash seed blob of
             None \<Rightarrow> Inl (Fatal ''Hash'')
           | Some h \<Rightarrow>
               rbind (miner_diff (int (be_nat (ReverseBytes h)))) (\<lambda>diff.
                 Inr (if netDiff \<le> f64_to_u64 diff
                      then Some (IMap [(''id'', IStr (str_field res ''id'')), (''job_id'', IStr jobID),
                                       (''nonce'', IStr (hex_encode (le_bytes 4 (unat nonce)))), (''result'', IStr (hex_encode h))])
                      else None)))) 0 fuel))))"

definition xmr_send :: "int \<Rightarrow> string \<Rightarrow> iface \<Rightarrow> iface" where
  "xmr_send i method params = IMap [(''id'', IInt i), (''method'', IStr method), (''params'', params), (''jsonrpc'', IStr ''2.0'')]"

definition xmr_main ::
  "(bytes \<Rightarrow> bytes \<Rightarrow> bytes option) \<Rightarrow> nat \<Rightarrow> int \<Rightarrow> u64 \<Rightarrow> string \<Rightarrow> json_line list \<Rightarrow> iface list option res" where
  "xmr_main hash fuel nonceOff netDiff login ls =
     rbind (readByID 1 (lenient ls)) (\<lambda>(resp, ls).
     rbind (field resp ''result'' iface_map) (\<lambda>res.
     rbind (xmr_solve hash fuel nonceOff netDiff res) (\<lambda>found.
       case found of
         None \<Rightarrow> Inr None
       | Some params \<Rightarrow>
           rbind (readByID 2 ls) (\<lambda>_.
             Inr (Some [xmr_send 1 ''login'' (IMap [(''login'', IStr login), (''pass'', IStr ''x''), (''agent'', IStr ''e2e/1.0'')]),
                        xmr_send 2 ''submit'' params])))))"

subsection \<open>Numbers as sixteen digits\<close>

lemma fmt_uint16_length: "n < 16 ^ k \<Longrightarrow> 0 < k \<Longrightarrow> length (fmt_uint 16 n) \<le> k"
proof (induction k arbitrary: n)
  case (Suc k)
  show ?case
  proof (cases "n < 16")
    case False
    then have "0 < k" using Suc.prems by (cases k) auto
    moreover have "n div 16 < 16 ^ k" using Suc.prems(1) by (simp add: less_mult_imp_div_less mult.commute)
    ultimately show ?thesis using Suc.IH [of "n div 16"] False by (simp add: fmt_uint.simps [of 16 n])
  qed (simp add: fmt_uint.simps [of 16 n])
qed simp

lemma parse_uint_zeros: "parse_uint 16 s = (n, True) \<Longrightarrow> parse_uint 16 (replicate k (CHR ''0'') @ s) = (n, True)"
  by (induction k) (simp_all add: parse_uint_zero)

lemma parse_hex16: "n < 2 ^ 64 \<Longrightarrow> parse_uint 16 (hex16 n) = (n, True)"
  using parse_uint_zeros [OF parse_uint_fmt [of 16 n]] by (simp add: hex16_def Let_def)

lemma length_hex16: "n < 2 ^ 64 \<Longrightarrow> length (hex16 n) = 16"
  using fmt_uint16_length [of n 16] by (simp add: hex16_def Let_def)

lemma to_lower_fmt16: "to_lower (fmt_uint 16 n) = fmt_uint 16 n"
proof (induction n rule: less_induct)
  case (less n)
  then show ?case by (simp add: fmt_uint.simps [of 16 n] to_lower_def lower_hex_char)
qed

lemma hex16_bytes: "n < 2 ^ 64 \<Longrightarrow> hex16 n = hex_encode (be_bytes 8 n)"
proof (rule parse_uint_lower_inj [where v = n])
  assume n: "n < 2 ^ 64"
  show "parse_uint 16 (hex16 n) = (n, True)" by (rule parse_hex16 [OF n])
  show "length (hex16 n) = length (hex_encode (be_bytes 8 n))" by (simp add: length_hex16 [OF n])
  show "to_lower (hex16 n) = hex16 n" using to_lower_fmt16 by (simp add: hex16_def Let_def to_lower_def lower_char_def)
  have "be_nat (be_bytes 8 n) = n" using n by (simp add: be_nat_be_bytes)
  then show "parse_uint 16 (hex_encode (be_bytes 8 n)) = (n, True)"
    using parse_digits_hex [of 0 "be_bytes 8 n" "2 ^ 64 - 1"] n length_hex_encode [of "be_bytes 8 n"]
    by (auto simp: parse_uint_def simp del: length_hex_encode)
qed simp

text \<open>A hexadecimal text has no prefix to trim.\<close>

lemma no_0x: "CHR ''x'' \<notin> set s \<Longrightarrow> trim_prefix s ''0x'' = s"
  by (cases s; cases "tl s") (auto simp: trim_prefix_def has_prefix_def)

lemma hex_char_not_x: "d < 16 \<Longrightarrow> hex_char d \<noteq> CHR ''x''"
proof -
  assume "d < 16"
  moreover have "\<forall>d \<in> set [0..<16]. hex_char d \<noteq> CHR ''x''" by code_simp
  ultimately show ?thesis by simp
qed

lemma hex_encode_not_x: "CHR ''x'' \<notin> set (hex_encode bs)"
proof (induction bs)
  case (Cons b bs)
  have "hex_char (unat b div 16) \<noteq> CHR ''x''" "hex_char (unat b mod 16) \<noteq> CHR ''x''"
    by (rule hex_char_not_x, simp add: nibble_less)+
  with Cons show ?case by (auto simp: hex_encode_Cons hex_byte_def)
qed (simp add: hex_encode_def)

lemma fmt16_not_x: "CHR ''x'' \<notin> set (fmt_uint 16 n)"
proof (induction n rule: less_induct)
  case (less n)
  then show ?case using hex_char_not_x [of "n mod 16"] hex_char_not_x [of n] by (auto simp: fmt_uint.simps [of 16 n] split: if_splits)
qed

lemma norm_hex_0x [simp]: "norm_hex (''0x'' @ hex_encode bs) = hex_encode bs"
  using trim_prefix_append [of "''0x''" "hex_encode bs"] by (simp add: norm_hex_def)

text \<open>The target as the miner reads it: the largest 256-bit number stands for all larger ones.\<close>

lemma hex_digits_append: "hex_digits a xs = Some v \<Longrightarrow> hex_digits a (xs @ ys) = hex_digits v ys"
  by (induction xs arbitrary: a) (auto split: option.splits)

lemma hex_digits_fmt: "hex_digits 0 (fmt_uint 16 n) = Some n"
proof (induction n rule: less_induct)
  case (less n)
  show ?case
  proof (cases "n < 16")
    case False
    with less [of "n div 16"] hex_digits_append [of 0 "fmt_uint 16 (n div 16)" "n div 16" "[hex_char (n mod 16)]"]
    show ?thesis by (simp add: fmt_uint.simps [of 16 n] unhex_hex_char)
  qed (simp add: fmt_uint.simps [of 16 n] unhex_hex_char)
qed

lemma hex_digits_zeros: "hex_digits 0 (replicate k (CHR ''0'') @ s) = hex_digits 0 s"
proof -
  have "unhex (CHR ''0'') = Some 0" by code_simp
  then show ?thesis by (induction k) simp_all
qed

lemma hex_digits_ones: "hex_digits a (replicate k (CHR ''f'')) = Some ((a + 1) * 16 ^ k - 1)"
proof (induction k arbitrary: a)
  case (Suc k)
  have "unhex (CHR ''f'') = Some 15" by code_simp
  with Suc [of "16 * a + 15"] show ?case by (simp add: algebra_simps)
qed simp

lemma fmt16_long: "length (fmt_uint 16 n) \<le> k \<Longrightarrow> n < 16 ^ k"
proof (induction k arbitrary: n)
  case (Suc k)
  show ?case
  proof (cases "n < 16")
    case False
    then have "n div 16 < 16 ^ k" using Suc by (simp add: fmt_uint.simps [of 16 n])
    then show ?thesis by (simp add: less_mult_imp_div_less div_less_iff_less_mult mult.commute)
  qed (use one_le_power [of "16 :: nat" k] in \<open>simp only: power_Suc\<close>, linarith)
qed simp

lemma TargetHex_read:
  assumes "0 \<le> t"
  shows "big_set_hex (TargetHex t) = Some (min t (2 ^ 256 - 1))" "CHR ''x'' \<notin> set (TargetHex t)"
proof -
  let ?s = "fmt_uint 16 (nat t)"
  have sp: "CHR ''-'' \<notin> set ?s" "CHR ''+'' \<notin> set ?s" using fmt_uint_no_special [of 16 _ "nat t"] by auto
  show "CHR ''x'' \<notin> set (TargetHex t)" using assms fmt16_not_x by (auto simp: TargetHex_def big_text16_def Let_def)
  have set: "big_set_hex (c # cs) = map_option int (hex_digits 0 (c # cs))" if "c \<noteq> CHR ''-''" "c \<noteq> CHR ''+''" for c cs
    using that by (simp add: big_set_hex_def)
  show "big_set_hex (TargetHex t) = Some (min t (2 ^ 256 - 1))"
  proof (cases "64 < length ?s")
    case True
    then have "\<not> nat t < 16 ^ 64" using fmt_uint16_length [of "nat t" 64] by auto
    moreover have "TargetHex t = replicate 64 (CHR ''f'')" using True assms by (simp add: TargetHex_def big_text16_def)
    then have "big_set_hex (TargetHex t) = Some (int (1 * 16 ^ 64 - 1))"
      using set [of "CHR ''f''" "replicate 63 (CHR ''f'')"] hex_digits_ones [of 0 64] replicate_Suc [of 63 "CHR ''f''"] by simp
    ultimately show ?thesis using assms by (auto simp: min_def nat_less_iff)
  next
    case False
    then have "nat t < 16 ^ 64" by (intro fmt16_long) simp
    moreover obtain c cs where h: "TargetHex t = c # cs" "c \<in> {CHR ''0''} \<union> set ?s"
      using False assms by (cases "64 - length ?s"; cases ?s) (auto simp: TargetHex_def big_text16_def Let_def)
    then have "big_set_hex (TargetHex t) = map_option int (hex_digits 0 (TargetHex t))" using set [of c cs] sp by auto
    then have "big_set_hex (TargetHex t) = Some t"
      using False assms by (simp add: TargetHex_def big_text16_def Let_def hex_digits_zeros hex_digits_fmt)
    ultimately show ?thesis using assms by (simp add: min_def)
  qed
qed

text \<open>The nonces of the KawPow miner begin with its extranonce.\<close>

lemma or_low: "i < 2 ^ 48 \<Longrightarrow> b < 2 ^ 16 \<Longrightarrow> unat (push_bit 48 (word_of_nat b :: u64) OR word_of_nat i) = b * 2 ^ 48 + i"
proof -
  assume i: "i < 2 ^ 48" and b: "b < 2 ^ 16"
  have "push_bit 48 (word_of_nat b :: u64) OR word_of_nat i = push_bit 48 (word_of_nat b) + word_of_nat i"
  proof (rule disjunctive_add [symmetric])
    fix n
    have "\<not> bit i n" if "48 \<le> n" using i that power_increasing [of 48 n "2 :: nat"] by (simp add: bit_iff_odd)
    then show "\<not> bit (push_bit 48 (word_of_nat b :: u64)) n \<or> \<not> bit (word_of_nat i :: u64) n"
      by (auto simp: bit_simps)
  qed
  also have "\<dots> = word_of_nat (b * 2 ^ 48 + i)" by (simp add: push_bit_eq_mult)
  finally have "unat (push_bit 48 (word_of_nat b :: u64) OR word_of_nat i) = unat (word_of_nat (b * 2 ^ 48 + i) :: u64)" by simp
  also have "\<dots> = b * 2 ^ 48 + i" unfolding unat_of_nat using i b by simp
  finally show ?thesis .
qed

lemma be_bytes_split: "i < 256 ^ k \<Longrightarrow> be_bytes (j + k) (b * 256 ^ k + i) = be_bytes j b @ be_bytes k i"
proof (induction k arbitrary: i)
  case (Suc k)
  have d: "(b * 256 ^ Suc k + i) div 256 = b * 256 ^ k + i div 256" by (simp add: div_mult_self3 mult.assoc [symmetric] mult.commute)
  have "(256 :: byte) = 0" by simp
  then have m: "(word_of_nat (b * 256 ^ Suc k + i) :: byte) = word_of_nat i" by (simp only: of_nat_add of_nat_mult power_Suc of_nat_numeral mult_zero_left mult_zero_right add_0)
  have "i div 256 < 256 ^ k" using Suc.prems by (simp add: less_mult_imp_div_less mult.commute)
  from Suc.IH [OF this] d m show ?case by (simp add: be_bytes_def)
qed (simp add: be_bytes_def)

lemma rvn_nonce_text:
  assumes "length en1 = 2" "i < 2 ^ 48"
  shows "hex16 (unat (push_bit 48 (word_of_nat (be_nat en1) :: u64) OR word_of_nat i)) = hex_encode en1 @ hex_encode (be_bytes 6 i)"
proof -
  have b: "be_nat en1 < 2 ^ 16" using be_nat_bound [of en1] assms(1) by simp
  have "be_bytes 8 (be_nat en1 * 2 ^ 48 + i) = en1 @ be_bytes 6 i"
    using be_bytes_split [of i 6 2 "be_nat en1"] be_bytes_be_nat [of en1] assms by simp
  moreover have "be_nat en1 * 2 ^ 48 + i < 2 ^ 64" using b assms(2) by simp
  ultimately show ?thesis using hex16_bytes [of "be_nat en1 * 2 ^ 48 + i"] or_low [OF assms(2) b] by (simp add: hex_encode_append)
qed

subsection \<open>What the miners find is accepted\<close>

text \<open>The notification of the engine, read by the KawPow miner.\<close>

lemma rvn_job_params:
  assumes ps: "kawpow_JobParams diff st = Some ps" and cur: "es_cur st = Some cur" and t: "TargetFromDiff kawpow_diff1 diff = Inr t" "0 < t"
    and small: "unat (kj_height cur) < 2 ^ 53" "7 \<le> length (kj_headerHash cur)"
  shows "rvn_job (map json_read ps) = Inr (kj_id cur, kj_headerHash cur, kj_height cur, min t (2 ^ 256 - 1))"
proof -
  define k where "k = uint (kj_height cur)"
  have "\<bar>k\<bar> < 2 ^ 53" using of_nat_less_iff [where 'a = int, THEN iffD2, OF small(1)] by (simp add: k_def)
  then have "f64_of_u64 (kj_height cur) = Fin (of_int k)" by (simp add: f64_of_u64_def k_def [symmetric] f64_of_int_exact)
  moreover have "word_of_int k = kj_height cur" by (simp add: k_def)
  ultimately have h: "f64_to_u64 (toF (INum (f64_of_u64 (kj_height cur)))) = kj_height cur" by (simp add: toF_def trunc_rat_def)
  moreover have "trim_prefix (hex_encode (kj_headerHash cur)) ''0x'' = hex_encode (kj_headerHash cur)" by (simp add: no_0x hex_encode_not_x)
  moreover have "big_set_hex (trim_prefix (TargetHex t) ''0x'') = Some (min t (2 ^ 256 - 1))" "min t (2 ^ 256 - 1) \<noteq> 0"
    using t(2) by (simp_all add: TargetHex_read no_0x min_def)
  ultimately show ?thesis
    using h ps small(2) by (auto simp: kawpow_JobParams_def cur t rvn_job_def str_at_def index_def iface_str_def hex_decode_encode)
qed

lemma kawpow_OnSubmit_new:
  assumes "map_of (es_history st) i = Some (j, seen)" "sv_ExtraNonce1 v = Some en1" "length (en1 @ r) = 8"
    and "parse_uint 16 (hex_encode (en1 @ r)) = (unat n, True)" "hex_encode (en1 @ r) \<notin> set seen"
    and "kp_compute env (kj_headerHash j) (kj_height j) n = Some (mix, digest)"
    and "TargetFromDiff kawpow_diff1 (sv_Difficulty v) = Inr t" "int (be_nat digest) \<le> t"
  shows "\<exists>share st'. sh_ErrorCode share = 0 \<and>
     kawpow_OnSubmit env v [IStr w, IStr i, IStr (''0x'' @ hex_encode (en1 @ r)), IStr (''0x'' @ hex_encode (kj_headerHash j)), IStr (''0x'' @ hex_encode mix)] st =
       (if int (be_nat digest) \<le> j_Target (kj_inner j) then kawpow_block env j n mix digest share st' else (Inr share, st'))"
proof -
  define share where "share = (fresh_share v)\<lparr>sh_JobId := kj_id j, sh_BlockHeight := sint (kj_height j),
    sh_BlockReward := gbt_CoinbaseValue (j_GetBlockTemplate (kj_inner j)), sh_Diff := DiffFromValue kawpow_diff1 (int (be_nat digest))\<rparr>"
  have "prefix_ok v (hex_encode (en1 @ r))" using assms(2) by (simp add: prefix_ok_def hex_encode_append)
  moreover have "length (hex_encode (en1 @ r)) = 16" using assms(3) by simp
  ultimately show ?thesis
    using assms(1,4-8) norm_hex_0x
    by (intro exI [of _ share] exI [of _ "note_nonce i (hex_encode (en1 @ r)) st"])
      (simp add: kawpow_OnSubmit_def kawpow_judge_def share_def fresh_share_def empty_share_def Let_def
        del: append_Cons append_Nil length_append length_hex_encode)
qed

text \<open>
  C25. The KawPow test miner gets its share accepted. Let it be notified of the current job at its
  difficulty with a positive target, with a two-byte extranonce that no recorded nonce of the job begins
  with, and let some nonce among the first 2000002 meet the target, where a digest has 32 bytes and the
  hash never fails. Then the miner submits, and the engine takes the submission: it is a share without
  error, and when its digest also meets the network's target its block goes to the daemons.
\<close>

theorem kawpow_miner_accepted:
  assumes ps: "kawpow_JobParams (sv_Difficulty v) st = Some ps" and cur: "es_cur st = Some cur"
    and stored: "map_of (es_history st) (kj_id cur) = Some (cur, seen)" "\<forall>x. hex_encode en1 @ x \<notin> set seen"
    and t: "TargetFromDiff kawpow_diff1 (sv_Difficulty v) = Inr t" "0 < t"
    and small: "unat (kj_height cur) < 2 ^ 53" "length (kj_headerHash cur) = 32"
    and en: "sv_ExtraNonce1 v = Some en1" "length en1 = 2"
    and comp: "\<forall>n. \<exists>mix digest. kp_compute env (kj_headerHash cur) (kj_height cur) n = Some (mix, digest) \<and> length digest = 32"
    and hit: "i < 2000002" "kp_compute env (kj_headerHash cur) (kj_height cur) (push_bit 48 (word_of_nat (be_nat en1)) OR word_of_nat i) = Some (mx, dg)"
      "int (be_nat dg) \<le> t"
  shows "\<exists>params nonce mix digest share st'. rvn_solve (kp_compute env) worker en1 (map json_read ps) = Inr (Some params) \<and>
     kp_compute env (kj_headerHash cur) (kj_height cur) nonce = Some (mix, digest) \<and> sh_ErrorCode share = 0 \<and>
     kawpow_OnSubmit env v params st =
       (if int (be_nat digest) \<le> j_Target (kj_inner cur) then kawpow_block env cur nonce mix digest share st' else (Inr share, st'))"
proof -
  let ?c = "kp_compute env (kj_headerHash cur) (kj_height cur)"
  define top where "top = min t (2 ^ 256 - 1)"
  define nonce where "nonce = (\<lambda>i. push_bit 48 (word_of_nat (be_nat en1)) OR word_of_nat i :: u64)"
  define sub where "sub = (\<lambda>i mix. [IStr worker, IStr (kj_id cur), IStr (''0x'' @ hex16 (unat (nonce i))), IStr (''0x'' @ hex_encode (kj_headerHash cur)),
    IStr (''0x'' @ hex_encode mix)])"
  define att where "att = (\<lambda>i. case ?c (nonce i) of None \<Rightarrow> Inl (Fatal ''Compute'')
    | Some (mix, digest) \<Rightarrow> Inr (if int (be_nat digest) \<le> top then Some (sub i mix) else None))"
  have "rvn_job (map json_read ps) = Inr (kj_id cur, kj_headerHash cur, kj_height cur, top)"
    using rvn_job_params [OF ps cur t small(1)] small(2) by (simp add: top_def)
  then have solve: "rvn_solve (kp_compute env) worker en1 (map json_read ps) = search att 0 2000002"
    unfolding rvn_solve_def att_def sub_def nonce_def Let_def using en(2) by (simp add: be_read_def)
  have d: "int (be_nat digest) \<le> 2 ^ 256 - 1" if "length digest = 32" for digest
    using be_nat_bound [of digest] that by simp
  have "is_ok (att i)" for i
    using comp [rule_format, of "nonce i"] by (auto simp: att_def is_ok_iff)
  moreover have "att i = Inr (Some (sub i mx))"
    using hit comp [rule_format, of "nonce i"] d by (auto simp: att_def nonce_def top_def)
  ultimately obtain params m where m: "search att 0 2000002 = Inr (Some params)" "m < 2000002" "att m = Inr (Some params)"
    using search_complete [of att i "sub i mx" 0 2000002] hit(1) by auto
  then obtain mix digest where md: "?c (nonce m) = Some (mix, digest)" "int (be_nat digest) \<le> t" "params = sub m mix"
    by (auto simp: att_def top_def split: option.splits if_splits)
  have nt: "hex16 (unat (nonce m)) = hex_encode (en1 @ be_bytes 6 m)"
    using rvn_nonce_text [OF en(2), of m] m(2) by (simp add: nonce_def hex_encode_append)
  have parse: "parse_uint 16 (hex_encode (en1 @ be_bytes 6 m)) = (unat (nonce m), True)"
    using parse_hex16 [OF u64_less [of "nonce m"]] by (simp add: nt)
  have "hex_encode (en1 @ be_bytes 6 m) \<notin> set seen" using stored(2) by (simp add: hex_encode_append)
  with kawpow_OnSubmit_new [OF stored(1) en(1) _ parse _ _ t(1) md(2), of env mix worker] md(1) en(2) obtain share st' where
    "sh_ErrorCode share = 0" "kawpow_OnSubmit env v (sub m mix) st =
      (if int (be_nat digest) \<le> j_Target (kj_inner cur) then kawpow_block env cur (nonce m) mix digest share st' else (Inr share, st'))"
    unfolding sub_def nt by (auto simp del: append_Cons append_Nil)
  then show ?thesis using solve m(1) md(1,3) by metis
qed

text \<open>A job on which every nonce gives a digest of 3, above the network's target and below the miner's.\<close>

definition ex_kawpow_env :: "unit kawpow_env" where
  "ex_kawpow_env = \<lparr>kp_al = ex_libs, kp_rpc = (\<lambda>_ _ _ w. (NoResponse, w)), kp_decode_gbt = (\<lambda>_. None), kp_dm = ex_manager, kp_opts = ex_options,
     kp_compute = (\<lambda>_ _ _. Some (replicate 32 9, replicate 31 0 @ [3])), kp_keccak = (\<lambda>b. b)\<rparr>"

definition ex_kawpow_job :: kawpow_job where
  "ex_kawpow_job = \<lparr>kj_id = ''1'', kj_inner = ex_job, kj_header80 = replicate 80 0, kj_headerHash = replicate 32 7, kj_seedHash = replicate 32 0,
     kj_height = 5, kj_bits = ''1d00ffff'', kj_coinbase = []\<rparr>"

definition ex_kawpow :: "unit kawpow" where
  "ex_kawpow = \<lparr>es_enCounter = 1, es_jobCounter = 1, es_cur = Some ex_kawpow_job, es_history = [(''1'', ex_kawpow_job, [])], es_world = ()\<rparr>"

lemma ex_kawpow_target: "\<exists>t. TargetFromDiff kawpow_diff1 (Fin 1) = Inr t \<and> 3 \<le> t"
proof -
  define p where "p = max (bf_prec (bf_set_int kawpow_diff1)) 53"
  have p: "53 \<le> p" by (simp add: p_def)
  have "(2 :: int) ^ 2 \<le> 2 ^ nat p" using p by (intro power_increasing) auto
  then have "rnd p (-2147483648 - p) (of_int 3) = (of_int 3 :: rat)" using p by (intro rnd_of_int) auto
  moreover have "rnd p (-2147483648 - p) (of_int 3) \<le> rnd p (-2147483648 - p) (of_int kawpow_diff1 / 1)"
    using p by (intro rnd_mono) (auto simp: kawpow_diff1_def)
  ultimately have "3 \<le> big_round p (of_int kawpow_diff1 / 1)" by (simp add: big_round_def)
  then have "3 \<le> trunc_rat (big_round p (of_int kawpow_diff1 / 1))" by (simp add: trunc_rat_def le_floor_iff)
  then show ?thesis using TargetFromDiff_pos [of 1 kawpow_diff1] by (simp add: p_def)
qed

theorem kawpow_miner_accepted_witness:
  "\<exists>ps params share st'. kawpow_JobParams (Fin 1) ex_kawpow = Some ps \<and>
     rvn_solve (kp_compute ex_kawpow_env) ''w'' [0, 1] (map json_read ps) = Inr (Some params) \<and>
     kawpow_OnSubmit ex_kawpow_env Kawpow.ex_view params ex_kawpow = (Inr share, st') \<and> sh_ErrorCode share = 0"
proof -
  obtain t where t: "TargetFromDiff kawpow_diff1 (Fin 1) = Inr t" "3 \<le> t" using ex_kawpow_target by blast
  have v: "sv_Difficulty Kawpow.ex_view = Fin 1" "sv_ExtraNonce1 Kawpow.ex_view = Some [0, 1]" by (simp_all add: Kawpow.ex_view_def)
  have j: "kj_id ex_kawpow_job = ''1''" "unat (kj_height ex_kawpow_job) < 2 ^ 53" "length (kj_headerHash ex_kawpow_job) = 32" "j_Target (kj_inner ex_kawpow_job) = 2"
    by (simp_all add: ex_kawpow_job_def ex_job_def)
  have st: "es_cur ex_kawpow = Some ex_kawpow_job" "map_of (es_history ex_kawpow) (kj_id ex_kawpow_job) = Some (ex_kawpow_job, [])"
    by (simp_all add: ex_kawpow_def j)
  obtain ps where ps: "kawpow_JobParams (sv_Difficulty Kawpow.ex_view) ex_kawpow = Some ps" by (simp add: kawpow_JobParams_def st t v)
  have c: "kp_compute ex_kawpow_env h k n = Some (replicate 32 9, replicate 31 0 @ [3])" for h k n by (simp add: ex_kawpow_env_def)
  have val: "be_nat (replicate 31 0 @ [3]) = 3" by (simp add: be_nat_def)
  show ?thesis
    using kawpow_miner_accepted [OF ps st _ t(1) [folded v(1)] _ j(2,3) v(2), of ex_kawpow_env 0 "replicate 32 9" "replicate 31 0 @ [3]" "''w''"] ps t(2) v(1)
    by (auto simp: c val j)
qed

text \<open>The job of Kaspa, written by the engine and read back by the miner.\<close>

lemma word_at_hex16:
  assumes "length pre = i" "n < 2 ^ 64"
  shows "word_at (pre @ hex16 n @ post) i = Inr n"
  using assms by (simp add: word_at_def sub_text_def length_hex16 parse_hex16)

lemma be64_at_split:
  assumes "length pre = i" "length w = 8"
  shows "be64_at (pre @ w @ post) i = Inr (be_nat w)"
  using assms by (simp add: be64_at_def)

lemma largeJob_roundtrip:
  assumes "length prePow = 32" "- (2 ^ 63) \<le> ts" "ts < 2 ^ 63"
  shows "\<exists>s. largeJobParams prePow ts = Inr s \<and> parseLargeJob s = Inr (prePow, ts)"
proof -
  define a where "a = take 8 prePow"
  define b where "b = take 8 (drop 8 prePow)"
  define c where "c = take 8 (drop 16 prePow)"
  define d where "d = drop 24 prePow"
  have len: "length a = 8" "length b = 8" "length c = 8" "length d = 8" using assms(1) by (simp_all add: a_def b_def c_def d_def)
  have "prePow = a @ drop 8 prePow" by (simp add: a_def)
  also have "drop 8 prePow = b @ drop 16 prePow"
    using append_take_drop_id [of 8 "drop 8 prePow"] unfolding b_def by (simp del: append_take_drop_id)
  also have "drop 16 prePow = c @ d"
    using append_take_drop_id [of 8 "drop 16 prePow"] unfolding c_def d_def by (simp del: append_take_drop_id)
  finally have p: "prePow = a @ b @ c @ d" .
  define t where "t = unat (word_of_int ts :: u64)"
  have t: "t < 2 ^ 64" unfolding t_def by (rule u64_less)
  have "word_of_nat t = (word_of_int ts :: u64)" by (simp add: t_def)
  moreover have "signed_take_bit 63 ts = ts" using assms(2,3) by (intro signed_take_bit_int_eq_self) auto
  ultimately have w: "sint (word_of_nat t :: u64) = ts" by (simp add: signed_of_int)
  have bd: "be_nat x < 2 ^ 64" if "length x = 8" for x using be_nat_bound [of x] that by simp
  have l: "largeJobParams prePow ts = Inr (hex16 (be_nat a) @ hex16 (be_nat b) @ hex16 (be_nat c) @ hex16 (be_nat d) @ hex16 t)"
    using be64_at_split [of "[]" 0 a "b @ c @ d"] be64_at_split [of a 8 b "c @ d"] be64_at_split [of "a @ b" 16 c d] be64_at_split [of "a @ b @ c" 24 d "[]"]
      len t by (simp add: largeJobParams_def p le_nat_le_bytes t_def [symmetric])
  note bd = bd [OF len(1)] bd [OF len(2)] bd [OF len(3)] bd [OF len(4)]
  note lh = length_hex16 [OF bd(1)] length_hex16 [OF bd(2)] length_hex16 [OF bd(3)] length_hex16 [OF bd(4)]
  define job where "job = hex16 (be_nat a) @ hex16 (be_nat b) @ hex16 (be_nat c) @ hex16 (be_nat d) @ hex16 t"
  have "word_at job 0 = Inr (be_nat a)" "word_at job 16 = Inr (be_nat b)" "word_at job 32 = Inr (be_nat c)" "word_at job 48 = Inr (be_nat d)"
    "word_at job 64 = Inr t"
    using word_at_hex16 [OF _ bd(1), of "[]" 0] word_at_hex16 [OF lh(1) bd(2)] word_at_hex16 [OF _ bd(3), of "hex16 (be_nat a) @ hex16 (be_nat b)" 32]
      word_at_hex16 [OF _ bd(4), of "hex16 (be_nat a) @ hex16 (be_nat b) @ hex16 (be_nat c)" 48]
      word_at_hex16 [OF _ t, of "hex16 (be_nat a) @ hex16 (be_nat b) @ hex16 (be_nat c) @ hex16 (be_nat d)" 64 "[]"]
    by (simp_all add: job_def lh)
  then have "parseLargeJob job = Inr (a @ b @ c @ d, ts)"
    using be_bytes_be_nat [of a] be_bytes_be_nat [of b] be_bytes_be_nat [of c] be_bytes_be_nat [of d] len by (simp add: parseLargeJob_def w)
  with l p show ?thesis by (simp add: job_def)
qed

lemma norm_hex16: "n < 2 ^ 64 \<Longrightarrow> norm_hex (hex16 n) = hex16 n"
  by (simp add: hex16_bytes norm_hex_def no_0x hex_encode_not_x)

lemma miner_diff_pos: "0 < v \<Longrightarrow> miner_diff v = Inr (DiffFromValue Pow256 v)"
  by (simp add: miner_diff_def DiffFromValue_def bf_quo_def bf_set_int_def Let_def)

text \<open>
  The Kaspa test miner gets its share accepted. Let it be sent the current job at its difficulty, with no
  nonce of the job recorded, and let the two implementations of the hash agree on the job: the one of the
  miner, from the header hash and the time that it reads back from the notification, and the one of the
  engine, from the block. If one of the first 5000002 nonces reaches the difficulty, the miner submits and
  the engine answers with a share without error.
\<close>

theorem kaspa_miner_accepted:
  assumes ps: "kaspa_JobParams (sv_Difficulty v) st = Some [IStr i, IStr large]" and cur: "es_cur st = Some j"
    and stored: "map_of (es_history st) i = Some (j, [])"
    and job: "length (sj_prePowHash j) = 32" "- (2 ^ 63) \<le> sj_timestamp j" "sj_timestamp j < 2 ^ 63"
    and agree: "\<forall>n. \<exists>digest. compute (sj_prePowHash j) (sj_timestamp j) n = Some digest \<and> 0 < be_nat digest \<and>
      ks_powValue env (sj_block j) n = int (be_nat digest)"
    and hit: "n < 5000002" "f64_le (sv_Difficulty v) (DiffFromValue Pow256 (ks_powValue env (sj_block j) (word_of_nat n)))"
      "f64_le minDiff (DiffFromValue Pow256 (ks_powValue env (sj_block j) (word_of_nat n)))"
  shows "\<exists>params sh st'. kas_solve compute minDiff worker (sv_Difficulty v) i large = Inr (Some params) \<and>
     kaspa_OnSubmit env v params st = (Inr sh, st') \<and> sh_ErrorCode sh = 0"
proof -
  let ?d = "\<lambda>n. DiffFromValue Pow256 (ks_powValue env (sj_block j) (word_of_nat n))"
  define att where "att = (\<lambda>n. case compute (sj_prePowHash j) (sj_timestamp j) (word_of_nat n) of None \<Rightarrow> Inl (Fatal ''Compute'')
    | Some digest \<Rightarrow> rbind (miner_diff (int (be_nat digest))) (\<lambda>diff.
        Inr (if f64_le (sv_Difficulty v) diff \<and> f64_le minDiff diff then Some [IStr worker, IStr i, IStr (hex16 n)] else None)))"
  from largeJob_roundtrip [OF job] ps cur have "parseLargeJob large = Inr (sj_prePowHash j, sj_timestamp j)" by (auto simp: kaspa_JobParams_def)
  then have solve: "kas_solve compute minDiff worker (sv_Difficulty v) i large = search att 0 5000002"
    by (simp add: kas_solve_def att_def)
  have att: "att n = Inr (if f64_le (sv_Difficulty v) (?d n) \<and> f64_le minDiff (?d n) then Some [IStr worker, IStr i, IStr (hex16 n)] else None)" for n
    using agree [rule_format, of "word_of_nat n"] by (auto simp: att_def miner_diff_pos)
  have "is_ok (att n)" for n by (simp add: att is_ok_iff)
  then obtain params m where m: "search att 0 5000002 = Inr (Some params)" "m < 5000002" "att m = Inr (Some params)"
    using search_complete [of att n "[IStr worker, IStr i, IStr (hex16 n)]" 0 5000002] hit by (auto simp: att)
  then have ok: "f64_le (sv_Difficulty v) (?d m)" "params = [IStr worker, IStr i, IStr (hex16 m)]" by (auto simp: att split: if_splits)
  then have "\<not> f64_less (?d m) (sv_Difficulty v)" by (cases "?d m"; cases "sv_Difficulty v") (auto simp: f64_le_def f64_eq_def)
  moreover have "m < 2 ^ 64" using m(2) by simp
  ultimately have "\<exists>sh st'. kaspa_OnSubmit env v params st = (Inr sh, st') \<and> sh_ErrorCode sh = 0"
    using stored by (auto simp: ok(2) kaspa_OnSubmit_def norm_hex16 parse_hex16 kaspa_judge_def Let_def fresh_share_def empty_share_def split: prod.splits)
  with solve m(1) show ?thesis by auto
qed

text \<open>
  The Ethash test miner takes the work from the node. If the pool has the same work, its difficulty is
  not above the network's, and the two hash with the same activation block, then the nonce it finds is
  accepted.
\<close>

theorem ethash_miner_accepted:
  assumes cur: "eh_cur st = Some cur" "eh_ecip st = eth_ecip" "eh_seen st = []"
    and work: "eth_getWork r = Inr (ew_headerHash cur, Some (ew_target cur), ew_blockNumber cur)"
    and long: "14 \<le> length (ew_headerHash cur)" "12 \<le> length (big_text16 (ew_target cur))"
    and t: "TargetFromDifficulty (sv_Difficulty v) = Inr t" "ew_target cur \<le> t"
    and hit: "n < 5000001" "et_compute env eth_ecip (ew_blockNumber cur) (ew_headerHash cur) (word_of_nat n) = (mx, res)"
      "int (be_nat res) \<le> ew_target cur"
    and answers: "readByID 1 (lenient ls) = Inr (m1, ls1)" "readByID 4 ls1 = Inr (m4, ls2)"
  shows "\<exists>params sh st'. eth_main (et_compute env) login (Some r) ls =
       Inr [miner_send 1 ''eth_submitLogin'' (IList [IStr login, IStr ''x'']), miner_send 4 ''eth_submitWork'' (IList params)] \<and>
     ethash_OnSubmit env v params st = (Inr sh, st') \<and> sh_ErrorCode sh = 0"
proof -
  let ?c = "\<lambda>n. et_compute env eth_ecip (ew_blockNumber cur) (ew_headerHash cur) (word_of_nat n)"
  define sub where "sub = (\<lambda>n mix. [IStr (''0x'' @ hex16 n), IStr (ew_headerHash cur), IStr (''0x'' @ hex_encode mix)])"
  define att :: "nat \<Rightarrow> iface list option res" where
    "att = (\<lambda>n. case ?c n of (mix, result) \<Rightarrow> Inr (if int (be_nat result) \<le> ew_target cur then Some (sub n mix) else None))"
  have solve: "eth_solve (et_compute env) (ew_headerHash cur, Some (ew_target cur), ew_blockNumber cur) = search att 0 5000001"
    using long unfolding att_def sub_def by (simp add: eth_solve_def)
  have "is_ok (att n)" for n by (simp add: att_def is_ok_iff split: prod.splits)
  moreover have "att n = Inr (Some (sub n mx))" using hit by (simp add: att_def)
  ultimately obtain params m where m: "search att 0 5000001 = Inr (Some params)" "m < 5000001" "att m = Inr (Some params)"
    using search_complete [of att n "sub n mx" 0 5000001] hit(1) by auto
  then obtain mix result where md: "?c m = (mix, result)" "int (be_nat result) \<le> ew_target cur" "params = sub m mix"
    by (auto simp: att_def split: prod.splits if_splits)
  have main: "eth_main (et_compute env) login (Some r) ls =
      Inr [miner_send 1 ''eth_submitLogin'' (IList [IStr login, IStr ''x'']), miner_send 4 ''eth_submitWork'' (IList params)]"
    using work solve m(1) answers by (simp add: eth_main_def)
  define st1 where "st1 = st\<lparr>eh_seen := [ew_headerHash cur @ ''|'' @ ''0x'' @ hex16 m]\<rparr>"
  have "parse_uint 16 (trim_prefix (''0x'' @ hex16 m) ''0x'') = (m, True)" using m(2) parse_hex16 [of m] trim_prefix_append [of "''0x''" "hex16 m"] by simp
  then have "ethash_OnSubmit env v params st = ethash_judge env v cur (''0x'' @ hex16 m) (word_of_nat m) (''0x'' @ hex_encode mix) (work_share v cur) st1"
    using ethash_OnSubmit_new [OF cur(1), of "ew_headerHash cur" "''0x'' @ hex16 m" m env v "''0x'' @ hex_encode mix"] cur(3)
    by (simp add: md(3) sub_def equal_fold_def st1_def del: append_Cons append_Nil)
  moreover have "\<exists>sh st'. ethash_judge env v cur (''0x'' @ hex16 m) (word_of_nat m) (''0x'' @ hex_encode mix) (work_share v cur) st1 = (Inr sh, st') \<and> sh_ErrorCode sh = 0"
    using md(1,2) t trim_prefix_append [of "''0x''" "hex_encode mix"] cur(2)
    by (auto simp: ethash_judge_def Let_def st1_def equal_fold_def MeetsTarget_def work_share_def fresh_share_def empty_share_def
        simp del: append_Cons append_Nil split: prod.splits sum.splits bool.splits)
  ultimately show ?thesis using main by auto
qed

text \<open>What \<open>uint64(diff) >= netDiff\<close> says about a difficulty, wrap-around of the conversion included.\<close>

lemma diff_reaches:
  assumes "netDiff \<le> f64_to_u64 (DiffFromValue Pow256 x)" "0 < x" "f64_le d (Fin (of_nat (unat netDiff)))"
  shows "\<not> f64_less (DiffFromValue Pow256 x) d"
proof -
  define q where "q = rnd64 (big_round (max (bf_prec (bf_set_int Pow256)) (bf_prec (bf_set_int x))) (of_int Pow256 / of_int x))"
  have q: "0 \<le> q" unfolding q_def big_round_def by (intro rnd_nonneg divide_nonneg_nonneg) (use assms(2) in \<open>simp_all add: Pow256_def\<close>)
  then have d: "DiffFromValue Pow256 x = (if 2 ^ 1024 \<le> q then PInf else Fin q)"
    using DiffFromValue_pos [OF assms(2), of Pow256] by (simp add: f64_round_def q_def [symmetric] Let_def)
  have "of_nat (unat netDiff) \<le> q" if "DiffFromValue Pow256 x = Fin q"
  proof (cases "q < 2 ^ 64")
    case True
    have "unat netDiff \<le> nat \<lfloor>q\<rfloor>" using assms(1) that f64_to_u64_nat [OF q True] by (simp add: word_le_nat_alt del: f64_to_u64.simps)
    then have "of_nat (unat netDiff) \<le> (of_nat (nat \<lfloor>q\<rfloor>) :: rat)" by (simp only: of_nat_le_iff)
    also have "\<dots> \<le> q" using q by (simp add: of_nat_nat)
    finally show ?thesis .
  next
    case False
    have "(of_nat (unat netDiff) :: rat) \<le> of_nat (2 ^ 64)" using u64_less [of netDiff] by (simp only: of_nat_le_iff)
    with False show ?thesis by simp
  qed
  with d assms(3) show ?thesis by (cases d) (auto simp: f64_le_def f64_eq_def split: if_splits)
qed

lemma withNonce_ok: "0 \<le> off \<Longrightarrow> off + 4 \<le> int (length blob) \<Longrightarrow> is_ok (withNonce blob off nonce)"
  by (simp add: withNonce_def int_slice_def slice_def is_ok_iff nat_le_iff)

lemma poke32_withNonce:
  "poke32 blob off n = withNonce blob off (le_bytes 4 (unat n))" if "0 \<le> off" "off + 4 \<le> int (length blob)"
  using that by (simp add: poke32_def withNonce_def int_slice_def slice_def nat_add_distrib)

lemma cryptonote_OnSubmit_new:
  assumes "map_of (es_history st) i = Some (j, seen)" "length nonce = 4" "hex_encode nonce \<notin> set seen"
    and "withNonce (xj_hashing j) (xj_nonceOff j) nonce = Inr input" "cn_hash env (xj_seed j) input = Some h" "length h = 32"
    and "\<not> f64_less (DiffFromValue Pow256 (int (be_nat (ReverseBytes h)))) (sv_Difficulty v)"
    and "is_ok (withNonce (xj_blob j) (xj_nonceOff j) nonce)"
  shows "\<exists>sh st'. cryptonote_OnSubmit env v [IMap [(''id'', s), (''job_id'', IStr i), (''nonce'', IStr (hex_encode nonce)), (''result'', IStr (hex_encode h))]] st =
    (Inr sh, st') \<and> sh_ErrorCode sh = 0"
proof -
  have "norm_hex (hex_encode nonce) = hex_encode nonce" by (simp add: norm_hex_def no_0x hex_encode_not_x)
  with assms show ?thesis
    by (auto simp: cryptonote_OnSubmit_def str_field_def hex_decode_encode cryptonote_judge_def cryptonote_block_def is_ok_iff Let_def
        fresh_share_def empty_share_def split: prod.splits sum.splits)
qed

text \<open>
  The CryptoNote test miner gets its share accepted. Let it log in and be sent the current job, on which
  no nonce is recorded, with the offset of the nonce that the job has, and let it aim at a difficulty not below
  its own at the pool. If one of the \<open>2 ^ 32\<close> nonces reaches that difficulty, then the endless loop ends with
  a submission after as many hashes as the nonce says, and the engine answers with a share without error.
\<close>

theorem cryptonote_miner_accepted:
  assumes login: "cryptonote_OnSubscribe v ps st = (Inr (IMap reply, en, k), st)" and cur: "es_cur st = Some j"
    and stored: "map_of (es_history st) (xj_id j) = Some (j, [])"
    and off: "0 \<le> xj_nonceOff j" "xj_nonceOff j + 4 \<le> int (length (xj_hashing j))" "xj_nonceOff j + 4 \<le> int (length (xj_blob j))"
    and hash: "\<forall>x. \<exists>h. cn_hash env (xj_seed j) x = Some h \<and> length h = 32 \<and> 0 < be_nat (ReverseBytes h)"
    and diff: "f64_le (sv_Difficulty v) (Fin (of_nat (unat netDiff)))"
    and hit: "withNonce (xj_hashing j) (xj_nonceOff j) (le_bytes 4 (unat (word_of_nat n :: u32))) = Inr input" "cn_hash env (xj_seed j) input = Some hh"
      "netDiff \<le> f64_to_u64 (DiffFromValue Pow256 (int (be_nat (ReverseBytes hh))))"
    and fuel: "n < fuel"
  shows "\<exists>res params sh st'. json_read (IMap reply) = IMap res \<and> xmr_solve (cn_hash env) fuel (xj_nonceOff j) netDiff res = Inr (Some params) \<and>
     cryptonote_OnSubmit env v [params] st = (Inr sh, st') \<and> sh_ErrorCode sh = 0"
proof -
  let ?le = "\<lambda>n. le_bytes 4 (unat (word_of_nat n :: u32))"
  obtain target where reply: "reply = [(''id'', IStr ''1''), (''job'', IMap [(''job_id'', IStr (xj_id j)), (''blob'', IStr (hex_encode (xj_hashing j))),
      (''target'', IStr target), (''algo'', IStr ''rx/0''), (''height'', IInt (xj_height j)), (''seed_hash'', IStr (hex_encode (xj_seed j)))]),
      (''status'', IStr ''OK'')]"
    using login cur by (auto simp: cryptonote_OnSubscribe_def jobObject_def rbind_eq_Inr)
  obtain res where res: "json_read (IMap reply) = IMap res" by simp
  define sub where "sub = (\<lambda>n h. IMap [(''id'', IStr (str_field res ''id'')), (''job_id'', IStr (xj_id j)), (''nonce'', IStr (hex_encode (?le n))), (''result'', IStr (hex_encode h))])"
  define att where "att = (\<lambda>n. let nonce = word_of_nat n in rbind (poke32 (xj_hashing j) (xj_nonceOff j) nonce) (\<lambda>blob.
    case cn_hash env (xj_seed j) blob of None \<Rightarrow> Inl (Fatal ''Hash'')
    | Some h \<Rightarrow> rbind (miner_diff (int (be_nat (ReverseBytes h)))) (\<lambda>diff. Inr (if netDiff \<le> f64_to_u64 diff then Some (sub n h) else None))))"
  have solve: "xmr_solve (cn_hash env) fuel (xj_nonceOff j) netDiff res = search att 0 fuel"
    using res unfolding att_def sub_def reply
    by (auto simp: xmr_solve_def field_def iface_map_def iface_str_def hex_decode_encode Let_def)
  have att: "\<exists>x h. withNonce (xj_hashing j) (xj_nonceOff j) (?le n) = Inr x \<and> cn_hash env (xj_seed j) x = Some h \<and> length h = 32 \<and> 0 < be_nat (ReverseBytes h) \<and>
    att n = Inr (if netDiff \<le> f64_to_u64 (DiffFromValue Pow256 (int (be_nat (ReverseBytes h)))) then Some (sub n h) else None)" for n
  proof -
    obtain x where x: "withNonce (xj_hashing j) (xj_nonceOff j) (?le n) = Inr x"
      using withNonce_ok [OF off(1,2), of "?le n"] by (auto simp: is_ok_iff)
    obtain h where "cn_hash env (xj_seed j) x = Some h" "length h = 32" "0 < be_nat (ReverseBytes h)" using hash by blast
    with x off(1,2) show ?thesis by (simp add: att_def Let_def poke32_withNonce miner_diff_pos)
  qed
  have "is_ok (att n)" for n using att [of n] by (auto simp: is_ok_iff)
  moreover have "att n = Inr (Some (sub n hh))" using att [of n] hit by auto
  ultimately obtain params m where m: "search att 0 fuel = Inr (Some params)" "att m = Inr (Some params)"
    using search_complete [of att n "sub n hh" 0 fuel] fuel by auto
  obtain x h where h: "withNonce (xj_hashing j) (xj_nonceOff j) (?le m) = Inr x" "cn_hash env (xj_seed j) x = Some h" "length h = 32"
    "0 < be_nat (ReverseBytes h)" "netDiff \<le> f64_to_u64 (DiffFromValue Pow256 (int (be_nat (ReverseBytes h))))" "params = sub m h"
    using att [of m] m(2) by (auto split: if_splits)
  have "\<not> f64_less (DiffFromValue Pow256 (int (be_nat (ReverseBytes h)))) (sv_Difficulty v)"
    using diff_reaches [OF h(5) _ diff] h(4) by simp
  moreover have "is_ok (withNonce (xj_blob j) (xj_nonceOff j) (?le m))" by (rule withNonce_ok [OF off(1,3)])
  ultimately obtain sh st' where "cryptonote_OnSubmit env v [params] st = (Inr sh, st')" "sh_ErrorCode sh = 0"
    using cryptonote_OnSubmit_new [OF stored _ _ h(1-3), of v "IStr (str_field res ''id'')"] unfolding h(6) sub_def by auto
  then show ?thesis using res solve m(1) by metis
qed

end
