(* ===== verification/Spec2Isabelle.thy ===== *)
theory Spec2Isabelle
  imports PayoutSafety Kawpow Ergo Equihash Cryptonote Ethash Kaspa Worksource Api Verthash Connections Nomp MinerEngines
begin

text \<open>
  The mining pool \<open>not-only-mining-pool\<close>, verified.

  A pool fetches block templates from coin daemons, makes jobs of them, hands the jobs to miners
  over the stratum protocol, judges the shares the miners send back, records them in Redis, and
  pays the miners when a block they found together has matured. Coins whose daemons speak
  \<open>getblocktemplate\<close> go through \<open>jobs/\<close> and \<open>transactions/\<close>; the others have an engine under \<open>engine/\<close>
  that fetches work, writes notifications and judges submissions itself, behind the same stratum
  server and the same store.

  \<^bold>\<open>Layers.\<close> The theories follow the packages under \<open>src/\<close>.

  \<^item> What Go itself provides: \<open>Prelude\<close> (results \<open>'a res\<close> whose left side is an error, a panic, an exit
    of the process or a wait that never ends), \<open>GoBytes\<close> (encoding/binary, encoding/hex, slices),
    \<open>GoText\<close> (strings, integers as text), \<open>GoFloat\<close> (float64 and big.Float, as rationals with rounding to
    53 and 64 bits, infinities and NaN), \<open>GoStrconv\<close> (floats as text), \<open>GoSha256\<close>, \<open>GoJson\<close> (decoded
    values), \<open>GoMonad\<close> (computations that pass a state and keep it when they fail).
  \<^item> \<open>Utils\<close> is \<open>utils/utils.go\<close>; \<open>Merkle\<close> is \<open>merkletree/mtree.go\<close>; \<open>Algorithm\<close> is
    \<open>algorithm/algorithm.go\<close>, with the hashes that can fail in \<open>Verthash\<close>; \<open>Vardiff\<close> is \<open>vardiff/\<close>; \<open>Bans\<close> is \<open>bans/banning.go\<close>.
  \<^item> \<open>Transactions\<close> is \<open>transactions/transactions.go\<close>, the coinbase; \<open>Daemons\<close> is \<open>daemons/\<close>, the calls to
    the daemons over a transport that is a parameter (the HTTP clients, batches, TLS and Redis options are in \<open>Connections\<close>); \<open>Jobs\<close> is \<open>jobs/\<close>: jobs, headers, the job
    manager and the judgement of shares.
  \<^item> \<open>StratumClient\<close>, \<open>StratumServer\<close>, \<open>StratumEngine\<close> and \<open>StratumWork\<close> are \<open>stratum/\<close>: the handlers of a
    connection, the set of connections with its broadcast, the bridge to mining engines, and the ports
    with the broadcast of engine work. What a connection writes is a list in its record.
  \<^item> \<open>Redis\<close> gives the Redis commands used (a keyspace, and a locale of the laws a store promises),
    \<open>Storage\<close> is \<open>storage/\<close>, \<open>Payments\<close> is \<open>payments/payer.go\<close>, and \<open>PayoutSafety\<close> runs payments, restarts
    and share writes against one store. \<open>Api\<close> is \<open>api/server.go\<close>, the reports read from it.
  \<^item> \<open>EngineCore\<close> holds what the engines share (\<open>engine/pow.go\<close>, \<open>engine/engine.go\<close>, the history of jobs
    with its eviction, and the ledger of nonces as the locale \<open>nonce_ledger\<close>); \<open>Kawpow\<close>, \<open>Ergo\<close>,
    \<open>Equihash\<close>, \<open>Alephium\<close>, \<open>Ethash\<close>, \<open>Kaspa\<close> and \<open>Beam\<close> are the engines of that name; \<open>CryptonoteBlob\<close> and
    \<open>CryptonoteNonce\<close> are \<open>engine/cryptonote/blob.go\<close>, on which \<open>Cryptonote\<close> is that engine with its RPC
    client. Six of them interpret \<open>nonce_ledger\<close>: no work is credited twice under one key.
  \<^item> \<open>Worksource\<close> is \<open>engine/worksource/\<close> with the \<open>Watch\<close> of every engine: rounds of polls and events in
    an arbitrary schedule.
  \<^item> \<open>P2P\<close> is \<open>p2p/peer.go\<close>, the listener on the coin's own network, \<open>Pool\<close> is \<open>pool/pool.go\<close>, the
    start-up that puts everything together, and \<open>Nomp\<close> is \<open>cmd/nomp/main.go\<close>, the command that starts it.
  \<^item> \<open>Miner\<close> and \<open>MinerEngines\<close> are the test miners under \<open>tools/\<close>, the other side of the protocol: from the
    lines they read to the requests they send.

  \<^bold>\<open>State and parameters.\<close> A Go struct is a record with the fields of the source, a handler is a function
  from the record to a result and the new record. Code that is not in the repository is a parameter:
  the transport of RPC calls, the wallet, Redis (as commands with their replies), the hash functions of
  the coins, address decoders, JSON decoders of library types. The clock and random bytes are
  arguments; the order in which Go walks a map is an argument, too, so the theorems hold for every
  order. Goroutines are modelled by the sequence of steps they make on the shared record; every
  theorem about such a state quantifies over all sequences. A send on a nil channel and a wait group
  that is never done are the result \<open>Blocks\<close>.

  \<^bold>\<open>What the theorems show.\<close>

  \<^item> Money: the coinbase pays exactly the block reward and its outputs parse back
    (\<open>Transactions\<close>); the split of a reward never exceeds it, what is owed is sent or carried over, a
    payout run always returns, no block is paid twice over any sequence of runs, crashes and restarts,
    and an intent whose outcome is unknown halts all payments (\<open>Payments\<close>, \<open>PayoutSafety\<close>); balances
    survive the conversion to coins and back.
  \<^item> Shares: an accepted share meets its target and the header it was judged by commits to the block
    that is submitted (\<open>Jobs\<close>, \<open>Merkle\<close>); the same share is credited once (\<open>Jobs\<close> and each engine); a
    target hit shows the difficulty it was made from, rounding included (\<open>EngineCore\<close>); the engine
    bridge credits no more than was announced (\<open>StratumEngine\<close>); a CryptoNote block that is submitted
    hashes to the proof that was checked (\<open>Cryptonote\<close>).
  \<^item> Data: the store keeps the type of every key, records read back, shares are written in order, a
    round that is sealed holds the contributions made to it (\<open>Storage\<close>); messages and varints read back
    (\<open>Alephium\<close>, \<open>P2P\<close>, \<open>CryptonoteBlob\<close>).
  \<^item> Control: the variable difficulty never panics and its ring buffer is a sliding window, bans last
    exactly as long as configured, a client knows the difficulty it is judged by, a broadcast reaches
    every active client, start-up ends with a job to serve. The theorems of this theory span
    components: fresh work goes from an engine's node through its watch and the broadcast to every
    authorized miner, and a block found goes from the connection through the queue into the set of
    pending blocks that the payout runs read.
  \<^item> Miners: the header a test miner hashes is the header the pool judges, so a nonce below the target, if
    there is one, is found and submitted, and \<open>ProcessSubmit\<close> answers with a block (\<open>Miner\<close>). The miners of KawPow,
    Kaspa, Ethash and CryptoNote get their shares accepted by the engines (\<open>MinerEngines\<close>). These are the
    converse of the theorems on shares: valid work is credited.
  \<^item> Flaws of the code, as theorems: a broadcast that meets an idle client stops, one unreachable
    daemon blocks all callers of \<open>CmdAll\<close>, a finder's name with a colon keeps a block pending and paid
    in every run, a configured peer keeps the pool from starting, a lost Alephium connection is never
    dialled again, respelled Ethash nonces count again, reported hashrates are always zero, the last
    entry of an inventory is ignored. Others are plain lemmas beside the code they are about.

  \<^bold>\<open>Bounds.\<close> \<open>settle\<close> in \<open>Payments\<close> retries with a doubled withholding; its fuel of 8 is shown to be
  enough, since the withheld fraction passes one after fewer steps. The fuel of \<open>pool_Init\<close> is the depth
  of calls: 2 is enough without a peer, and with one no fuel is. The loops of \<open>Worksource\<close> that
  never return have fuel for that reason only, and so has the search of the CryptoNote miner. All other recursions are shown to terminate.

  \<^bold>\<open>Not modelled.\<close> Opening sockets, TLS, HTTP servers and clients, the Redis connection; logging; the
  structs of \<open>daemons/\<close> that only name JSON fields; hash functions and their bindings (\<open>rx_cgo.go\<close> and
  the C packages behind \<open>algorithm/\<close>); flags, and what the test miners print.
  Data races inside one handler (the header buffer of the peer, the
  job counter of the engines) are outside a model whose steps are whole handlers.
\<close>

section \<open>From the node to the miner\<close>

text \<open>
  An engine pool at run time: the sources of the engine's \<open>Watch\<close> refresh the engine state of the server
  (\<open>Worksource\<close>), and each change is emitted as a broadcast of the stratum server (\<open>StratumWork\<close>), which
  asks the engine for the work of every client (\<open>StratumEngine\<close> and the engine's theory).
\<close>

definition on_server :: "'e refresh_fn \<Rightarrow> 'e server refresh_fn" where
  "on_server refresh sv = (case refresh (sv_world sv) of (r, e) \<Rightarrow> (r, sv\<lparr>sv_world := e\<rparr>))"

definition emit_work :: "'e stratum_env \<Rightarrow> 'e engine \<Rightarrow> ('e server \<Rightarrow> u64 list) \<Rightarrow> 'e server emit_fn" where
  "emit_work env en snapshot sv = snd (BroadcastEngineWork env en snapshot sv)"

lemma on_server_no_panic: "no_panic refresh \<Longrightarrow> no_panic (on_server refresh)"
  unfolding no_panic_def on_server_def by (metis (no_types, lifting) case_prod_beta fst_conv)

lemma RefreshWork_no_panic: "no_panic (RefreshWork env)"
  by (auto simp: no_panic_def RefreshWork_def GetWork_def decoded_def eth_call_def rbind_def Let_def
      split: prod.splits option.splits sum.splits go_error.splits if_splits)

text \<open>
  C5. Fresh work of an engine reaches every miner. Let the sources of an engine that polls its node run
  in any order on any ticks, messages and broken streams, each change being broadcast. Then they are still running, and
  when the next poll finds new work, every authorized client is sent it: its connection gets
  exactly the messages the engine makes of the new work at that client's difficulty, after what it had
  been sent before, and nothing else of the client changes.
\<close>

theorem engine_work_reaches_miners:
  assumes "snapshotClients snapshot" "no_panic refresh" "srcs \<in> set (watches zmq (on_server refresh))"
    and "run_sources srcs (emit_work env en snapshot) sched sv = (r, sv1)" "refresh (sv_world sv1) = (Inr True, e)"
    and "sv_Clients sv1 i = Some c" "cl_IsAuthorized c"
  shows "r = None \<and>
    (\<exists>sv2. run_sources srcs (emit_work env en snapshot) (sched @ [(length srcs - 1, Tick)]) sv = (None, sv2) \<and>
       sv_world sv2 = e \<and> sv_Clients sv2 i = Some (c\<lparr>cl_out := cl_out c @ pushed env en e c\<rparr>))"
proof -
  have "on_server refresh sv1 = (Inr True, sv1\<lparr>sv_world := e\<rparr>)" using assms(5) by (simp add: on_server_def)
  from poll_round [OF on_server_no_panic [OF assms(2)] assms(3,4) this] show ?thesis
    using assms(6,7) by (simp add: emit_work_def BroadcastEngineWork_run [OF assms(1)] after_push_def)
qed

definition ex_live_env :: "unit ethash_env" where
  "ex_live_env = ex_eth_env\<lparr>et_http := (\<lambda>_ _ w. (Some '''', w)), et_envelope := (\<lambda>_. Some (None, None)),
     et_strings := (\<lambda>_. Some [''0xab'', ''0x00'', ''0x1'', ''0x1''])\<rparr>"

definition ex_live_stratum :: "unit ethash stratum_env" where
  "ex_live_stratum = \<lparr>e_rpc = (\<lambda>_ _ _ w. (NoResponse, w)), e_decode_gbt = (\<lambda>_. None), e_dm = ex_manager, e_al = ex_libs,
     e_ar = ex_registry, e_PortDiff = Some (Fin 1), e_PortVarDiff = None, e_ConnectionTimeout = 600, e_Banning = None\<rparr>"

definition ex_miner :: client where
  "ex_miner = ex_client\<lparr>cl_IsAuthorized := True\<rparr>"

definition ex_live_server :: "unit ethash server" where
  "ex_live_server = \<lparr>sv_Counter = \<lparr>ctr_Count = 1, ctr_Padding = []\<rparr>, sv_Clients = [1 \<mapsto> ex_miner], sv_bm = s_bm ex_session,
     sv_jm = ex_jm, sv_store = [], sv_world = new_ethash ()\<rparr>"

definition ex_snapshot :: "'e server \<Rightarrow> u64 list" where
  "ex_snapshot sv = sorted_list_of_set (dom (sv_Clients sv))"

lemma ex_snapshot_ok: "snapshotClients ex_snapshot"
  by (simp add: snapshotClients_def ex_snapshot_def)

lemma ex_refresh:
  "\<exists>e. RefreshWork ex_live_env (new_ethash ()) = (Inr True, e) \<and> eh_cur e \<noteq> None"
proof -
  have "hexToBig ''0x1'' = Some 1" by (simp add: hexToBig_def) code_simp
  then show ?thesis
    by (simp add: RefreshWork_def GetWork_def decoded_def eth_call_def Let_def ex_live_env_def ex_eth_env_def work_number_def
        big_uint64_def set_work_def new_ethash_def)
qed

theorem engine_work_reaches_miners_witness:
  "\<exists>e sv2 m. RefreshWork ex_live_env (new_ethash ()) = (Inr True, e) \<and>
     run_sources (ethash_Watch (on_server (RefreshWork ex_live_env))) (emit_work ex_live_stratum (ethash_engine ex_live_env) ex_snapshot)
       [(0, Tick)] ex_live_server = (None, sv2) \<and> sv_Clients sv2 1 = Some (ex_miner\<lparr>cl_out := [m]\<rparr>)"
proof -
  obtain e where e: "RefreshWork ex_live_env (new_ethash ()) = (Inr True, e)" "eh_cur e \<noteq> None" using ex_refresh by blast
  let ?srcs = "ethash_Watch (on_server (RefreshWork ex_live_env))"
  have "?srcs \<in> set (watches '''' (on_server (RefreshWork ex_live_env)))" by (simp add: watches_def)
  moreover have "sv_world ex_live_server = new_ethash ()" "sv_Clients ex_live_server 1 = Some ex_miner" "cl_IsAuthorized ex_miner"
    "length ?srcs = 1" "cl_out ex_miner = []"
    by (simp_all add: ex_live_server_def ex_miner_def ex_client_def ethash_Watch_def)
  ultimately obtain sv2 where sv2: "run_sources ?srcs (emit_work ex_live_stratum (ethash_engine ex_live_env) ex_snapshot) [(0, Tick)] ex_live_server = (None, sv2)"
      "sv_Clients sv2 1 = Some (ex_miner\<lparr>cl_out := pushed ex_live_stratum (ethash_engine ex_live_env) e ex_miner\<rparr>)"
    using engine_work_reaches_miners [OF ex_snapshot_ok RefreshWork_no_panic, of ?srcs "''''" ex_live_env
        ex_live_stratum "ethash_engine ex_live_env" "[]" ex_live_server None ex_live_server e 1 ex_miner] e(1) by auto
  have "engineDiff ex_live_stratum ex_miner = Fin 1"
    by (simp add: engineDiff_def ex_miner_def ex_client_def portDefaultDiff_def ex_live_stratum_def)
  moreover obtain tgt where "TargetFromDifficulty (Fin 1) = Inr tgt"
    using TargetFromDiff_pos [of 1 Pow256] by (auto simp: TargetFromDifficulty_def)
  ultimately obtain m where "pushed ex_live_stratum (ethash_engine ex_live_env) e ex_miner = [m]"
    using e(2) by (auto simp: pushed_def ethash_engine_def ethash_JobParams_def)
  then show ?thesis using e(1) sv2 by auto
qed

section \<open>From the share to the payout\<close>

text \<open>
  C4. A block found through an engine becomes payable. Let an authorized connection submit a share that
  the engine accepts, with a block the node took and the id of its coinbase transaction. Then exactly one
  entry is queued for the store, marked as a block, and writing that entry, by a writer whose
  connection to Redis works, puts a record with the block's hash, height, coinbase transaction
  and the miner as its finder into the set of pending blocks, from which the payout runs read.
\<close>

theorem found_block_becomes_payable:
  assumes "redis_store rd view hif" "pipelines_answer rd" "typed db (view r)"
    and "cl_IsAuthorized (s_cl s)"
    and "en_OnSubmit en (view_of (s_cl s)) (rawParamsToIface (rq_Params msg)) (s_world s) = (Inr share, e)"
    and "sh_ErrorCode share = 0" "sh_BlockHex share \<noteq> ''''" "sh_TxHash share \<noteq> ''''"
    and "engine_submit env en True now msg s = (res, s')"
  shows "\<exists>sh pb. s_store s' = s_store s @ [(sh, True)] \<and>
    PendingBlockString pb \<in> set (pend db (view (putShareNow rd db written sh True r))) \<and>
    pb_Hash pb = sh_BlockHash share \<and> pb_TxHash pb = sh_TxHash share \<and> pb_Height pb = word_of_int (sh_BlockHeight share) \<and>
    pb_Finder pb = fst (splitWorker (cl_WorkerName (s_cl s)))"
proof -
  from engine_submit_valid [OF assms(4,5) disjI1 [OF assms(6)] assms(9)] assms(7,8) obtain sh where
    sh: "s_store s' = s_store s @ [(sh, True)]" "(sh_Miner sh, sh_Rig sh) = splitWorker (cl_WorkerName (s_cl s))"
      "sh_TxHash sh = sh_TxHash share" "sh_BlockHex sh \<noteq> ''''" "sh_BlockHash sh = sh_BlockHash share" "sh_BlockHeight sh = sh_BlockHeight share"
    by auto
  obtain seq where "PendingBlockString (share_block sh seq) \<in> set (pend db (view (putShareNow rd db written sh True r)))"
    using redis_store.put_pending [OF assms(1,3), of written sh] assms(2) sh(4) by (auto simp: pipelines_answer_def)
  moreover have "fst (splitWorker (cl_WorkerName (s_cl s))) = sh_Miner sh" using sh(2) by (metis fst_conv)
  ultimately show ?thesis using sh by (intro exI [of _ sh] exI [of _ "share_block sh seq"]) (simp add: share_block_def)
qed

definition ex_finder :: "unit engine" where
  "ex_finder = ex_engine\<lparr>en_OnSubmit := (\<lambda>v _ e. (Inr (ex_found\<lparr>sh_TxHash := ''c0ffee''\<rparr>), e))\<rparr>"

theorem found_block_becomes_payable_witness:
  "\<exists>sh pb. s_store (snd (engine_submit StratumClient.ex_env ex_finder True 5 (ex_msg ''submit'' []) ex_authorized)) = [(sh, True)] \<and>
    PendingBlockString pb \<in> set (pend ex_db (putShareNow mem_redis ex_db 6 sh True (\<lambda>_. Absent))) \<and> pb_TxHash pb = ''c0ffee''"
proof -
  let ?run = "engine_submit StratumClient.ex_env ex_finder True 5 (ex_msg ''submit'' []) ex_authorized"
  have "s_store ex_authorized = []" by (simp add: ex_authorized_def ex_session_def)
  then show ?thesis
    using found_block_becomes_payable [OF mem.redis_store_axioms, of ex_db "\<lambda>_. Absent" ex_authorized ex_finder "ex_msg ''submit'' []"
        "ex_found\<lparr>sh_TxHash := ''c0ffee''\<rparr>" "()" StratumClient.ex_env 5 "fst ?run" "snd ?run" 6]
    by (auto simp: pipelines_answer_def mem_redis_def typed_def ex_authorized_def ex_finder_def ex_found_def ex_credit_def empty_share_def)
qed

end
